(* ===== verification/Prelude.thy ===== *)
theory Prelude
  imports Main "HOL-Library.Sublist" "HOL-Library.AList"
begin

text \<open>
  What every component shares: the outcome of a Go function (it returns, or it
  panics), the sequencing of effectful Go code over an explicit state, the error
  values of the program, and the string operations of Go's \<open>strings\<close> package that
  the program calls, with their lemmas.  A Go string is a sequence of bytes, so it
  is a HOL \<open>string\<close> (a list of 8-bit characters).
\<close>

named_theorems go_simps \<open>equations that run effectful Go code\<close>

section \<open>Error values\<close>

text \<open>
  An \<open>error\<close> of the program: one of the five sentinel values of package brokerapi,
  which the HTTP handlers compare by identity, or any other value, known by the text
  its \<open>Error()\<close> method returns.  Go's \<open>error\<close> result, where nil means success, is
  \<open>go_error option\<close>.
\<close>

datatype go_error =
    ErrInstanceAlreadyExists
  | ErrInstanceDoesNotExist
  | ErrInstanceLimitMet
  | ErrBindingAlreadyExists
  | ErrBindingDoesNotExist
  | OtherError string

fun error_text :: "go_error \<Rightarrow> string" where
  "error_text ErrInstanceAlreadyExists = ''instance already exists''"
| "error_text ErrInstanceDoesNotExist = ''instance does not exist''"
| "error_text ErrInstanceLimitMet = ''instance limit for this service has been reached''"
| "error_text ErrBindingAlreadyExists = ''binding already exists''"
| "error_text ErrBindingDoesNotExist = ''binding does not exist''"
| "error_text (OtherError t) = t"

section \<open>Outcomes and sequencing\<close>

text \<open>
  A call returns a value, or it panics.  The panic value is what \<open>panic\<close> was given
  (an error, possibly nil, or a string), or one of the run-time errors the program
  can meet: a nil pointer dereference, a write to a nil map, an index or a slice bound
  out of range, \<open>make\<close> with a negative length, and a failed type assertion.  \<open>OutOfFuel\<close> is no panic of Go: it marks a loop that is cut off in the model,
  where no bound on it is known.
\<close>

datatype panic_value =
    PanicError "go_error option"
  | PanicString string
  | NilPointerDereference
  | NilMapAssignment
  | IndexOutOfRange
  | MakeLenOutOfRange
  | BadTypeAssertion
  | OutOfFuel

datatype 'a outcome = Ret 'a | Panicked panic_value

type_synonym ('s, 'a) go = "'s \<Rightarrow> 'a outcome \<times> 's"

definition ret :: "'a \<Rightarrow> ('s, 'a) go" where
  "ret a s = (Ret a, s)"

definition go_panic :: "panic_value \<Rightarrow> ('s, 'a) go" where
  "go_panic v s = (Panicked v, s)"

definition bindG :: "('s, 'a) go \<Rightarrow> ('a \<Rightarrow> ('s, 'b) go) \<Rightarrow> ('s, 'b) go" where
  "bindG m f s = (case m s of (Ret a, t) \<Rightarrow> f a t | (Panicked v, t) \<Rightarrow> (Panicked v, t))"

definition seqG :: "('s, unit) go \<Rightarrow> ('s, 'b) go \<Rightarrow> ('s, 'b) go" where
  "seqG m k = bindG m (\<lambda>_. k)"

definition readG :: "('s \<Rightarrow> ('s, 'a) go) \<Rightarrow> ('s, 'a) go" where
  "readG f s = f s s"

definition whenErr :: "go_error option \<Rightarrow> (go_error \<Rightarrow> ('s, unit) go) \<Rightarrow> ('s, unit) go" where
  "whenErr err handler = (case err of None \<Rightarrow> ret () | Some e \<Rightarrow> handler e)"

lemma ret_apply [simp]: "ret a s = (Ret a, s)"
  by (simp add: ret_def)

lemma go_panic_apply [simp]: "go_panic v s = (Panicked v, s)"
  by (simp add: go_panic_def)

lemma bindG_apply [go_simps]:
  "bindG m f s = (case m s of (Ret a, t) \<Rightarrow> f a t | (Panicked v, t) \<Rightarrow> (Panicked v, t))"
  by (simp add: bindG_def)

lemma seqG_apply [go_simps]:
  "seqG m k s = (case m s of (Ret _, t) \<Rightarrow> k t | (Panicked v, t) \<Rightarrow> (Panicked v, t))"
  by (simp add: seqG_def bindG_def)

lemma readG_apply [simp]: "readG f s = f s s"
  by (simp add: readG_def)

lemma whenErr_None [simp]: "whenErr None h = ret ()"
  by (simp add: whenErr_def)

lemma whenErr_Some [simp]: "whenErr (Some e) h = h e"
  by (simp add: whenErr_def)

lemma bindG_ret_left [simp]: "bindG (ret a) f = f a"
  by (rule ext) (simp add: bindG_def)

lemma bindG_ret_right [simp]: "bindG m ret = m"
  by (rule ext) (simp add: bindG_def split: prod.split outcome.split)

lemma bindG_assoc: "bindG (bindG m f) g = bindG m (\<lambda>a. bindG (f a) g)"
  by (rule ext) (simp add: bindG_def split: prod.split outcome.split)

lemma bindG_panic_left [simp]: "bindG (go_panic v) f = go_panic v"
  by (rule ext) (simp add: bindG_def)

lemma bindG_RetD:
  assumes "bindG m f s = (Ret b, u)"
  obtains a t where "m s = (Ret a, t)" and "f a t = (Ret b, u)"
  using assms by (auto simp: bindG_def split: prod.splits outcome.splits)

lemma seqG_RetD:
  assumes "seqG m k s = (Ret b, u)"
  obtains a t where "m s = (Ret a, t)" and "k t = (Ret b, u)"
  using assms by (auto simp: seqG_def bindG_def split: prod.splits outcome.splits)

section \<open>The \<open>strings\<close> package\<close>

text \<open>
  \<open>strings.LastIndex(s, sep)\<close>: the start of the last occurrence of \<open>sep\<close> in \<open>s\<close>,
  or -1.
\<close>

fun LastIndex :: "string \<Rightarrow> string \<Rightarrow> int" where
  "LastIndex [] sep = (if sep = [] then 0 else -1)"
| "LastIndex (c # cs) sep =
     (let r = LastIndex cs sep
      in if r \<noteq> -1 then r + 1 else if prefix sep (c # cs) then 0 else -1)"

lemma LastIndex_ge: "-1 \<le> LastIndex s sep"
  by (induction s) (auto simp: Let_def)

lemma LastIndex_le: "LastIndex s sep \<le> int (length s)"
  by (induction s) (auto simp: Let_def)

lemma LastIndex_none: "LastIndex s sep = -1 \<longleftrightarrow> \<not> sublist sep s"
proof (induction s)
  case Nil
  then show ?case by simp
next
  case (Cons c cs)
  have "-1 \<le> LastIndex cs sep" by (rule LastIndex_ge)
  with Cons.IH show ?case by (auto simp: Let_def sublist_Cons_right)
qed

lemma LastIndex_prefix_last:
  assumes "\<not> sublist sep (tl (sep @ rest))" and "sep \<noteq> []"
  shows "LastIndex (sep @ rest) sep = 0"
proof -
  obtain c cs where sep: "sep = c # cs" using assms(2) by (cases sep) auto
  have "LastIndex (cs @ rest) sep = -1"
    using assms(1) sep by (simp add: LastIndex_none)
  moreover have "prefix sep (c # cs @ rest)" using sep by simp
  ultimately show ?thesis using sep by (simp add: Let_def del: Cons_prefix_Cons)
qed

lemma LastIndex_last:
  assumes "\<not> sublist sep (tl (sep @ rest))" and "sep \<noteq> []"
  shows "LastIndex (front @ sep @ rest) sep = int (length front)"
  using LastIndex_prefix_last [OF assms]
  by (induction front) (auto simp: Let_def)

subsection \<open>Occurrences of a substring\<close>

text \<open>A byte that is not part of the pattern separates the text to search.\<close>

lemma sublist_separator:
  assumes "c \<notin> set m" and "m \<noteq> []"
  shows "sublist m (xs @ c # ys) \<longleftrightarrow> sublist m xs \<or> sublist m ys"
proof
  assume "sublist m (xs @ c # ys)"
  then consider "sublist m xs" | "sublist m (c # ys)"
    | m1 m2 where "m = m1 @ m2" "suffix m1 xs" "prefix m2 (c # ys)"
    by (auto simp: sublist_append)
  then show "sublist m xs \<or> sublist m ys"
  proof cases
    case 2
    with assms show ?thesis by (cases m) (auto simp: sublist_Cons_right)
  next
    case (3 m1 m2)
    with assms have "m2 = []" by (cases m2) auto
    with 3 show ?thesis by auto
  qed simp
next
  assume "sublist m xs \<or> sublist m ys"
  then show "sublist m (xs @ c # ys)"
    by (auto simp: sublist_append sublist_Cons_right)
qed

lemma sublist_head_neq:
  "m \<noteq> [] \<Longrightarrow> c \<noteq> hd m \<Longrightarrow> sublist m (c # ys) \<longleftrightarrow> sublist m ys"
  by (cases m) (auto simp: sublist_Cons_right)

lemma not_sublist_char: "c \<in> set m \<Longrightarrow> c \<notin> set s \<Longrightarrow> \<not> sublist m s"
  by (meson set_mono_sublist subset_code(1))

subsection \<open>Cancelling text around an inserted argument\<close>

text \<open>
  An argument without the closing byte is recovered from the text that follows it: the
  argument is exactly what precedes the first closing byte.
\<close>

lemma append_close_inject:
  assumes "xs @ c # ys = xs' @ c # ys'" and "c \<notin> set xs" and "c \<notin> set xs'"
  shows "xs = xs' \<and> ys = ys'"
  using assms
proof (induction xs arbitrary: xs')
  case Nil
  then show ?case by (cases xs') auto
next
  case (Cons x xs)
  then show ?case by (cases xs') auto
qed

lemma append_close_iff:
  "c \<notin> set xs \<Longrightarrow> c \<notin> set xs' \<Longrightarrow> xs @ c # ys = xs' @ c # ys' \<longleftrightarrow> xs = xs' \<and> ys = ys'"
  by (rule iffI, erule (2) append_close_inject) simp

text \<open>\<open>strings.Split(s, c)\<close> for a separator of one character.\<close>

fun split_at :: "char \<Rightarrow> string \<Rightarrow> string list" where
  "split_at c [] = [[]]"
| "split_at c (x # xs) =
     (if x = c then [] # split_at c xs
      else (case split_at c xs of [] \<Rightarrow> [[x]] | w # ws \<Rightarrow> (x # w) # ws))"

lemma split_at_free: "c \<notin> set w \<Longrightarrow> split_at c (w @ c # s) = w # split_at c s"
  "c \<notin> set w \<Longrightarrow> split_at c w = [w]"
  by (induction w) auto

lemma split_at_slash_free: "w \<in> set (split_at c s) \<Longrightarrow> c \<notin> set w"
  by (induction s arbitrary: w) (auto split: if_splits list.splits)

section \<open>Maps as association lists\<close>

lemma update_new: "k \<notin> fst ` set m \<Longrightarrow> AList.update k v m = m @ [(k, v)]"
  by (induction m) auto

end
