(* ===== verification/GoFmt.thy ===== *)
theory GoFmt
  imports Prelude
begin

text \<open>
  \<open>fmt.Sprintf\<close> as the program uses it: verbs with and without an explicit argument
  index, over string and int operands, with the texts Go prints for a bad index, a
  missing or an extra operand, a bad verb and a format that ends in a percent sign.
  Flags, widths and precisions, which no format of the program has, are not modelled.
  Also \<open>strconv.Itoa\<close> and its inverse, for the ports and counters that are printed.
\<close>

section \<open>Decimal numbers\<close>

definition digit :: "nat \<Rightarrow> char" where
  "digit d = char_of (48 + d)"

fun decimal :: "nat \<Rightarrow> string" where
  "decimal n = (if n < 10 then [digit n] else decimal (n div 10) @ [digit (n mod 10)])"

declare decimal.simps [simp del]

definition Itoa :: "int \<Rightarrow> string" where
  "Itoa i = (if i < 0 then CHR ''-'' # decimal (nat (- i)) else decimal (nat i))"

definition is_digit :: "char \<Rightarrow> bool" where
  "is_digit c \<longleftrightarrow> 48 \<le> (of_char c :: nat) \<and> (of_char c :: nat) \<le> 57"

definition digit_val :: "char \<Rightarrow> nat" where
  "digit_val c = of_char c - 48"

definition read_decimal :: "string \<Rightarrow> nat" where
  "read_decimal s = foldl (\<lambda>n c. 10 * n + digit_val c) 0 s"

lemma is_digit_digit: "d < 10 \<Longrightarrow> is_digit (digit d)"
  by (simp add: is_digit_def digit_def)

lemma digit_val_digit: "d < 10 \<Longrightarrow> digit_val (digit d) = d"
  by (simp add: digit_val_def digit_def)

lemma decimal_digits: "\<forall>c \<in> set (decimal n). is_digit c"
proof (induction n rule: decimal.induct)
  case (1 n)
  then show ?case
    by (subst decimal.simps) (auto simp: is_digit_digit)
qed

lemma decimal_nonempty [simp]: "decimal n \<noteq> []"
  by (subst decimal.simps) simp

lemma read_decimal_decimal [simp]: "read_decimal (decimal n) = n"
proof (induction n rule: decimal.induct)
  case (1 n)
  show ?case
  proof (cases "n < 10")
    case True
    then show ?thesis
      by (subst decimal.simps) (simp add: read_decimal_def digit_val_digit)
  next
    case False
    with 1 have "read_decimal (decimal (n div 10)) = n div 10" by simp
    with False show ?thesis
      by (subst decimal.simps) (simp add: read_decimal_def digit_val_digit)
  qed
qed

definition Atoi :: "string \<Rightarrow> int option" where
  "Atoi s =
     (case s of
        [] \<Rightarrow> None
      | c # cs \<Rightarrow>
          if c = CHR ''-'' then
            (if cs \<noteq> [] \<and> list_all is_digit cs then Some (- int (read_decimal cs)) else None)
          else if list_all is_digit s then Some (int (read_decimal s)) else None)"

lemma minus_not_digit: "\<not> is_digit (CHR ''-'')"
  by (simp add: is_digit_def)

lemma decimal_not_minus: "decimal n = c # cs \<Longrightarrow> c \<noteq> CHR ''-''"
  using decimal_digits [of n] minus_not_digit by auto

theorem Atoi_Itoa [simp]: "Atoi (Itoa i) = Some i"
proof (cases "i < 0")
  case True
  then show ?thesis
    by (simp add: Itoa_def Atoi_def list_all_iff decimal_digits)
next
  case False
  obtain c cs where d: "decimal (nat i) = c # cs" by (cases "decimal (nat i)") auto
  with False have "Atoi (Itoa i) = Some (int (read_decimal (decimal (nat i))))"
    using decimal_not_minus [OF d] decimal_digits [of "nat i"]
    by (simp add: Itoa_def Atoi_def list_all_iff)
  with False show ?thesis by simp
qed

lemma Itoa_inject [simp]: "Itoa i = Itoa j \<longleftrightarrow> i = j"
  by (metis Atoi_Itoa option.inject)

lemma Itoa_chars: "c \<in> set (Itoa i) \<Longrightarrow> c = CHR ''-'' \<or> is_digit c"
  using decimal_digits by (auto simp: Itoa_def split: if_splits)

section \<open>Sprintf\<close>

datatype fmt_arg = AStr string | AInt int

fun type_name :: "fmt_arg \<Rightarrow> string" where
  "type_name (AStr _) = ''string''"
| "type_name (AInt _) = ''int''"

fun print_v :: "fmt_arg \<Rightarrow> string" where
  "print_v (AStr s) = s"
| "print_v (AInt i) = Itoa i"

fun good_verb :: "char \<Rightarrow> fmt_arg \<Rightarrow> bool" where
  "good_verb v (AStr _) = (v = CHR ''v'' \<or> v = CHR ''s'')"
| "good_verb v (AInt _) = (v = CHR ''v'' \<or> v = CHR ''d'')"

definition printArg :: "char \<Rightarrow> fmt_arg \<Rightarrow> string" where
  "printArg v x =
     (if good_verb v x then print_v x
      else ''%!'' @ [v] @ ''('' @ type_name x @ ''='' @ print_v x @ '')'')"

text \<open>
  The argument index of a verb: its width in the format (0 when there is none), whether
  it is usable, and the argument number it selects.
\<close>

definition argNumber :: "nat \<Rightarrow> string \<Rightarrow> nat \<Rightarrow> nat \<times> nat \<times> bool" where
  "argNumber argNum fmt numArgs =
     (case fmt of
        [] \<Rightarrow> (argNum, 0, True)
      | c # cs \<Rightarrow>
          if c \<noteq> CHR ''['' then (argNum, 0, True)
          else
            let inner = takeWhile (\<lambda>d. d \<noteq> CHR '']'') cs
            in if length inner = length cs then (argNum, 1, False)
               else if inner \<noteq> [] \<and> list_all is_digit inner
                       \<and> 1 \<le> read_decimal inner \<and> read_decimal inner \<le> numArgs
               then (read_decimal inner - 1, length inner + 2, True)
               else (argNum, length inner + 2, False))"

fun extraArgs :: "fmt_arg list \<Rightarrow> string" where
  "extraArgs [] = []"
| "extraArgs [x] = type_name x @ ''='' @ print_v x"
| "extraArgs (x # y # xs) = type_name x @ ''='' @ print_v x @ '', '' @ extraArgs (y # xs)"

function doPrintf :: "fmt_arg list \<Rightarrow> string \<Rightarrow> nat \<Rightarrow> bool \<Rightarrow> string" where
  "doPrintf a [] argNum reordered =
     (if \<not> reordered \<and> argNum < length a
      then ''%!(EXTRA '' @ extraArgs (drop argNum a) @ '')'' else [])"
| "doPrintf a (c # cs) argNum reordered =
     (if c \<noteq> CHR ''%'' then c # doPrintf a cs argNum reordered
      else
        (case argNumber argNum cs (length a) of
           (n, wid, good) \<Rightarrow>
             (let rest = drop wid cs; reordered' = (reordered \<or> wid \<noteq> 0)
              in if rest = [] then ''%!(NOVERB)'' @ doPrintf a [] n reordered'
                 else if hd rest = CHR ''%''
                 then CHR ''%'' # doPrintf a (tl rest) n reordered'
                 else if \<not> good
                 then ''%!'' @ [hd rest] @ ''(BADINDEX)'' @ doPrintf a (tl rest) n reordered'
                 else if length a \<le> n
                 then ''%!'' @ [hd rest] @ ''(MISSING)'' @ doPrintf a (tl rest) n reordered'
                 else printArg (hd rest) (a ! n) @ doPrintf a (tl rest) (Suc n) reordered')))"
  by pat_completeness auto
termination
  by (relation "measure (\<lambda>(a, f, n, r). length f)") auto

definition Sprintf :: "string \<Rightarrow> fmt_arg list \<Rightarrow> string" where
  "Sprintf format a = doPrintf a format 0 False"

lemma doPrintf_literal:
  "CHR ''%'' \<notin> set lit \<Longrightarrow> doPrintf a (lit @ f) n r = lit @ doPrintf a f n r"
  by (induction lit) auto

text \<open>Running \<open>Sprintf\<close> on one of the program's formats, with operands left symbolic.\<close>

lemmas Sprintf_eval =
  Sprintf_def argNumber_def printArg_def is_digit_def digit_val_def read_decimal_def Let_def

lemma Sprintf_example:
  "Sprintf ''x %[1]v y %[2]v z'' [AStr a, AInt 5, AStr b] = ''x '' @ a @ '' y 5 z''"
  by (simp add: Sprintf_eval Itoa_def decimal.simps digit_def char_of_def bit_Suc_0_iff)

lemma Sprintf_extra_example:
  "Sprintf ''use master'' [AStr d, AStr u]
     = ''use master%!(EXTRA string='' @ d @ '', string='' @ u @ '')''"
  by (simp add: Sprintf_eval)

lemma Sprintf_bad_examples:
  "Sprintf ''%d'' [AStr a] = ''%!d(string='' @ a @ '')''"
  "Sprintf ''%[3]v'' [AStr a] = ''%!v(BADINDEX)''"
  "Sprintf ''%v'' [] = ''%!v(MISSING)''"
  "Sprintf ''a%'' [] = ''a%!(NOVERB)''"
  by (simp_all add: Sprintf_eval)

end
