(* ===== verification/Json.thy ===== *)
theory Json
  imports GoFmt "HOL-Library.Char_ord" "HOL-Library.List_Lexorder"
begin

text \<open>
  JSON values and Go's encoder (\<open>json.Marshal\<close>), which renders the broker's log lines
  and HTTP bodies.  A value of type \<open>interface{}\<close> that the program only hands to the
  encoder is modelled by its JSON tree.  An object keeps its members in the order they
  are written: structs in field order, maps sorted by key (\<open>json_map\<close>).
\<close>

datatype json =
    JNull
  | JBool bool
  | JNum string
  | JStr string
  | JArr "json list"
  | JObj "(string \<times> json) list"

definition json_int :: "int \<Rightarrow> json" where
  "json_int i = JNum (Itoa i)"

definition json_map :: "(string \<times> json) list \<Rightarrow> json" where
  "json_map kvs = JObj (sort_key fst kvs)"

section \<open>UTF-8\<close>

definition byte :: "char \<Rightarrow> nat" where
  "byte c = of_char c"

definition cont_byte :: "nat \<Rightarrow> bool" where
  "cont_byte b \<longleftrightarrow> 128 \<le> b \<and> b < 192"

text \<open>
  \<open>utf8.DecodeRuneInString\<close>: the code point at the head and its size in bytes, or None
  where Go returns \<open>(RuneError, 1)\<close> (a stray or missing continuation byte, an overlong
  form, a surrogate, a value above 0x10FFFF).
\<close>

definition DecodeRune :: "string \<Rightarrow> (nat \<times> nat) option" where
  "DecodeRune s =
     (case map byte (take 4 s) of
        [] \<Rightarrow> None
      | b0 # bs \<Rightarrow>
          if b0 < 128 then Some (b0, 1)
          else if b0 < 192 then None
          else (case bs of
             [] \<Rightarrow> None
           | b1 # bs1 \<Rightarrow>
               if \<not> cont_byte b1 then None
               else if b0 < 224 then
                 (let r = (b0 - 192) * 64 + (b1 - 128)
                  in if r \<le> 127 then None else Some (r, 2))
               else (case bs1 of
                  [] \<Rightarrow> None
                | b2 # bs2 \<Rightarrow>
                    if \<not> cont_byte b2 then None
                    else if b0 < 240 then
                      (let r = (b0 - 224) * 4096 + (b1 - 128) * 64 + (b2 - 128)
                       in if r \<le> 2047 \<or> 55296 \<le> r \<and> r \<le> 57343 then None else Some (r, 3))
                    else (case bs2 of
                       [] \<Rightarrow> None
                     | b3 # _ \<Rightarrow>
                         if \<not> cont_byte b3 then None
                         else if b0 < 248 then
                           (let r = (b0 - 240) * 262144 + (b1 - 128) * 4096
                                      + (b2 - 128) * 64 + (b3 - 128)
                            in if r \<le> 65535 \<or> 1114111 < r then None else Some (r, 4))
                         else None))))"

definition EncodeRune :: "nat \<Rightarrow> string" where
  "EncodeRune r =
     map char_of
       (if r \<le> 127 then [r]
        else if r \<le> 2047 then [192 + r div 64, 128 + r mod 64]
        else if 1114111 < r \<or> 55296 \<le> r \<and> r \<le> 57343 then [239, 191, 189]
        else if r \<le> 65535 then [224 + r div 4096, 128 + r div 64 mod 64, 128 + r mod 64]
        else [240 + r div 262144, 128 + r div 4096 mod 64, 128 + r div 64 mod 64,
              128 + r mod 64])"

section \<open>The encoder\<close>

definition hex_digit :: "nat \<Rightarrow> char" where
  "hex_digit n = (if n < 10 then char_of (48 + n) else char_of (87 + n))"

text \<open>An ASCII byte that goes into a JSON string as it is.\<close>

definition plain_byte :: "char \<Rightarrow> bool" where
  "plain_byte c \<longleftrightarrow> 32 \<le> byte c \<and> byte c < 128 \<and> byte c \<notin> {34, 38, 60, 62, 92}"

definition escape_ascii :: "char \<Rightarrow> string" where
  "escape_ascii c =
     (if byte c = 92 \<or> byte c = 34 then [char_of (92::nat), c]
      else if byte c = 10 then [char_of (92::nat), CHR ''n'']
      else if byte c = 13 then [char_of (92::nat), CHR ''r'']
      else char_of (92::nat) # ''u00'' @ [hex_digit (byte c div 16), hex_digit (byte c mod 16)])"

text \<open>The bytes of a JSON string literal, between its quotes.\<close>

function escape :: "string \<Rightarrow> string" where
  "escape [] = []"
| "escape (c # cs) =
     (if plain_byte c then c # escape cs
      else if byte c < 128 then escape_ascii c @ escape cs
      else (case DecodeRune (c # cs) of
              None \<Rightarrow> char_of (92::nat) # ''ufffd'' @ escape cs
            | Some (r, n) \<Rightarrow>
                (if r = 8232 \<or> r = 8233
                 then char_of (92::nat) # ''u202'' @ [hex_digit (r mod 16)]
                 else take n (c # cs)) @ escape (drop (n - 1) cs)))"
  by pat_completeness auto
termination
  by (relation "measure length") auto

definition quote_json :: "string \<Rightarrow> string" where
  "quote_json s = CHR 0x22 # escape s @ [CHR 0x22]"

fun join :: "string \<Rightarrow> string list \<Rightarrow> string" where
  "join sep [] = []"
| "join sep [x] = x"
| "join sep (x # y # xs) = x @ sep @ join sep (y # xs)"

fun encode :: "json \<Rightarrow> string" where
  "encode JNull = ''null''"
| "encode (JBool b) = (if b then ''true'' else ''false'')"
| "encode (JNum n) = n"
| "encode (JStr s) = quote_json s"
| "encode (JArr xs) = ''['' @ join '','' (map encode xs) @ '']''"
| "encode (JObj kvs) =
     CHR 0x7B # join '','' (map (\<lambda>(k, v). quote_json k @ '':'' @ encode v) kvs) @ [CHR 0x7D]"

lemma escape_plain:
  "list_all plain_byte s \<Longrightarrow> escape s = s"
  by (induction s) auto

lemma escape_append_plain:
  "list_all plain_byte s \<Longrightarrow> escape (s @ t) = s @ escape t"
  by (induction s) auto

lemma quote_json_plain:
  "list_all plain_byte s \<Longrightarrow> quote_json s = CHR 0x22 # s @ [CHR 0x22]"
  by (simp add: quote_json_def escape_plain)

lemma escape_example:
  "escape (''a<b'' @ [CHR 0x22, CHR 0x0A, CHR 0xC3, CHR 0xA9, CHR 0xFF])
     = ''a'' @ CHR 0x5C # ''u003cb'' @ [CHR 0x5C, CHR 0x22, CHR 0x5C, CHR ''n'', CHR 0xC3, CHR 0xA9]
       @ CHR 0x5C # ''ufffd''"
  by code_simp

lemma encode_example:
  "encode (JObj [(''a'', JNum ''1''), (''b'', JArr [JStr ''x'', JNull, JBool True])])
     = [CHR 0x7B, CHR 0x22] @ ''a'' @ [CHR 0x22] @ '':1,'' @ [CHR 0x22] @ ''b'' @ [CHR 0x22] @
       '':['' @ [CHR 0x22] @ ''x'' @ [CHR 0x22] @ '',null,true]'' @ [CHR 0x7D]"
  by code_simp

end
