(* ===== verification/World.thy ===== *)
theory World
  imports Prelude
begin

text \<open>
  What the process meets outside its own code, as a parameter of the model: the clock,
  the stack dump and the random source of the Go run-time, the files, the environment
  variables, the HTTP listener, and the SQL server behind \<open>database/sql\<close> and a
  driver.  Each is a function over a world of an arbitrary type \<open>'w\<close>, so a theorem
  about the program holds for every behaviour of the outside, unless it names a
  hypothesis on it.
\<close>

text \<open>
  A \<open>*sql.DB\<close> handle: the driver and the data source \<open>sql.Open\<close> was given, and the
  limit on idle connections that \<open>SetMaxIdleConns\<close> stores.
\<close>

record sql_db =
  db_driver :: string
  db_dsn :: string
  db_maxIdle :: int

record 'w env =
  clock :: "'w \<Rightarrow> string"
  stackTrace :: "'w \<Rightarrow> string"
  randRead :: "nat \<Rightarrow> 'w \<Rightarrow> (go_error option \<times> string) \<times> 'w"
  sqlDrivers :: "string list"
  sqlPing :: "sql_db \<Rightarrow> 'w \<Rightarrow> go_error option \<times> 'w"
  sqlClose :: "sql_db \<Rightarrow> 'w \<Rightarrow> go_error option \<times> 'w"
  sqlExec :: "sql_db \<Rightarrow> string \<Rightarrow> 'w \<Rightarrow> go_error option \<times> 'w"
  sqlQueryRow :: "sql_db \<Rightarrow> string \<Rightarrow> 'w \<Rightarrow> (go_error + int) \<times> 'w"
  sqlBegin :: "sql_db \<Rightarrow> 'w \<Rightarrow> (go_error + nat) \<times> 'w"
  txExec :: "nat \<Rightarrow> string \<Rightarrow> 'w \<Rightarrow> go_error option \<times> 'w"
  txCommit :: "nat \<Rightarrow> 'w \<Rightarrow> go_error option \<times> 'w"
  txRollback :: "nat \<Rightarrow> 'w \<Rightarrow> go_error option \<times> 'w"
  jsonError :: "string \<Rightarrow> go_error"
  listen :: "string \<Rightarrow> 'w \<Rightarrow> go_error option \<times> 'w"
  readFile :: "string \<Rightarrow> 'w \<Rightarrow> go_error + string"
  binDir :: "'w \<Rightarrow> go_error + string"
  getenv :: "string \<Rightarrow> string"

text \<open>
  \<open>randRead n\<close> fills a slice of \<open>n\<close> bytes and returns the error of \<open>rand.Read\<close>;
  \<open>sqlQueryRow\<close> is \<open>QueryRow(q).Scan(&res)\<close> for an int \<open>res\<close>; \<open>sqlBegin\<close>
  returns the handle of a transaction; \<open>jsonError\<close> is the error encoding/json reports for
  a text it cannot decode; \<open>listen\<close> opens the listening socket of an address; \<open>binDir\<close> is
  \<open>filepath.Abs(filepath.Dir(os.Args[0]))\<close>.
\<close>

end
