(* ===== verification/Lager.thy ===== *)
theory Lager
  imports Json World "HOL-Library.AList" "HOL-Library.Word"
begin

text \<open>
  The logger (package lager): levels, the logger record, sessions, the data merged into
  a line, the line's JSON form, the writer sink's filter and the four logging calls.
  The broker logs every SQL statement, and its error handling is the logger's \<open>Fatal\<close>,
  so the model keeps what is written.
\<close>

section \<open>Levels\<close>

datatype LogLevel = DEBUG | INFO | ERROR | FATAL

fun iota :: "LogLevel \<Rightarrow> nat" where
  "iota DEBUG = 0"
| "iota INFO = 1"
| "iota ERROR = 2"
| "iota FATAL = 3"

lemma iota_inject [simp]: "iota a = iota b \<longleftrightarrow> a = b"
  by (cases a; cases b) simp_all

instantiation LogLevel :: linorder
begin

definition less_eq_LogLevel :: "LogLevel \<Rightarrow> LogLevel \<Rightarrow> bool" where
  "less_eq_LogLevel a b \<longleftrightarrow> iota a \<le> iota b"

definition less_LogLevel :: "LogLevel \<Rightarrow> LogLevel \<Rightarrow> bool" where
  "less_LogLevel a b \<longleftrightarrow> iota a < iota b"

instance
  by standard (auto simp: less_eq_LogLevel_def less_LogLevel_def)

end

lemmas level_order = less_eq_LogLevel_def less_LogLevel_def

section \<open>Lines\<close>

type_synonym Data = "(string \<times> json) list"

record LogFormat =
  Timestamp :: string
  Source :: string
  Message :: string
  LogLevel :: LogLevel
  LogData :: Data

definition ToJSON :: "LogFormat \<Rightarrow> string" where
  "ToJSON log = encode (JObj
     [(''timestamp'', JStr (Timestamp log)),
      (''source'', JStr (Source log)),
      (''message'', JStr (Message log)),
      (''log_level'', json_int (int (iota (LogLevel log)))),
      (''data'', json_map (LogData log))])"

section \<open>Loggers\<close>

record writerSink =
  minLogLevel :: LogLevel

record logger =
  l_component :: string
  l_task :: string
  l_sinks :: "writerSink list"
  l_sessionID :: string
  l_nextSession :: "64 word"
  l_data :: Data

definition NewLogger :: "string \<Rightarrow> logger" where
  "NewLogger component =
     \<lparr>l_component = component, l_task = component, l_sinks = [], l_sessionID = [],
      l_nextSession = 0, l_data = []\<rparr>"

definition NewWriterSink :: "LogLevel \<Rightarrow> writerSink" where
  "NewWriterSink level = \<lparr>minLogLevel = level\<rparr>"

definition RegisterSink :: "logger \<Rightarrow> writerSink \<Rightarrow> logger" where
  "RegisterSink l sink = l\<lparr>l_sinks := l_sinks l @ [sink]\<rparr>"

definition update_all :: "Data \<Rightarrow> Data \<Rightarrow> Data" where
  "update_all given base = foldl (\<lambda>d (k, v). AList.update k v d) base given"

definition baseData :: "logger \<Rightarrow> Data list \<Rightarrow> Data" where
  "baseData l givenData =
     (let data = foldl (\<lambda>d arg. update_all arg d) (update_all (l_data l) []) givenData
      in if l_sessionID l \<noteq> [] then AList.update ''session'' (JStr (l_sessionID l)) data
         else data)"

text \<open>\<open>Session\<close> returns the new logger and the old one, whose counter went up.\<close>

definition Session :: "logger \<Rightarrow> string \<Rightarrow> Data list \<Rightarrow> logger \<times> logger" where
  "Session l task data =
     (let sid = l_nextSession l + 1;
          sessionIDstr =
            (if l_sessionID l \<noteq> []
             then l_sessionID l @ ''.'' @ decimal (unat sid) else decimal (unat sid))
      in (\<lparr>l_component = l_component l, l_task = l_task l @ ''.'' @ task,
           l_sinks = l_sinks l, l_sessionID = sessionIDstr, l_nextSession = 0,
           l_data = baseData l data\<rparr>,
          l\<lparr>l_nextSession := sid\<rparr>))"

definition WithData :: "logger \<Rightarrow> Data \<Rightarrow> logger" where
  "WithData l data =
     \<lparr>l_component = l_component l, l_task = l_task l, l_sinks = l_sinks l,
      l_sessionID = l_sessionID l, l_nextSession = 0, l_data = baseData l [data]\<rparr>"

section \<open>The process state and the logging calls\<close>

text \<open>
  The state the broker's code runs over: the outside world, the chunks written to the
  log writer so far, and the global \<open>logger\<close> of package main, which the provisioner
  and the HTTP handlers share.
\<close>

record 'w proc =
  world :: 'w
  written :: "string list"
  the_logger :: logger

definition sink_Log :: "writerSink \<Rightarrow> LogLevel \<Rightarrow> string \<Rightarrow> 'w proc \<Rightarrow> 'w proc" where
  "sink_Log sink level log s =
     (if level < minLogLevel sink then s
      else s\<lparr>written := written s @ [log, ''\<newline>'']\<rparr>)"

definition log_format ::
  "'w env \<Rightarrow> logger \<Rightarrow> LogLevel \<Rightarrow> string \<Rightarrow> Data \<Rightarrow> 'w proc \<Rightarrow> LogFormat" where
  "log_format E l level action data s =
     \<lparr>Timestamp = clock E (world s), Source = l_component l,
      Message = l_task l @ ''.'' @ action, LogLevel = level, LogData = data\<rparr>"

definition log_all :: "logger \<Rightarrow> LogLevel \<Rightarrow> LogFormat \<Rightarrow> 'w proc \<Rightarrow> 'w proc" where
  "log_all l level log s =
     foldl (\<lambda>t sink. sink_Log sink level (ToJSON log) t) s (l_sinks l)"

definition logger_Debug ::
  "'w env \<Rightarrow> logger \<Rightarrow> string \<Rightarrow> Data list \<Rightarrow> ('w proc, unit) go" where
  "logger_Debug E l action data s =
     (Ret (), log_all l DEBUG (log_format E l DEBUG action (baseData l data) s) s)"

definition logger_Info ::
  "'w env \<Rightarrow> logger \<Rightarrow> string \<Rightarrow> Data list \<Rightarrow> ('w proc, unit) go" where
  "logger_Info E l action data s =
     (Ret (), log_all l INFO (log_format E l INFO action (baseData l data) s) s)"

definition with_error :: "go_error option \<Rightarrow> Data \<Rightarrow> Data" where
  "with_error err data =
     (case err of None \<Rightarrow> data | Some e \<Rightarrow> AList.update ''error'' (JStr (error_text e)) data)"

definition logger_Error ::
  "'w env \<Rightarrow> logger \<Rightarrow> string \<Rightarrow> go_error option \<Rightarrow> Data list \<Rightarrow> ('w proc, unit) go" where
  "logger_Error E l action err data s =
     (Ret (), log_all l ERROR
        (log_format E l ERROR action (with_error err (baseData l data)) s) s)"

definition logger_Fatal ::
  "'w env \<Rightarrow> logger \<Rightarrow> string \<Rightarrow> go_error option \<Rightarrow> Data list \<Rightarrow> ('w proc, 'a) go" where
  "logger_Fatal E l action err data s =
     (Panicked (PanicError err),
      log_all l FATAL
        (log_format E l FATAL action
           (AList.update ''trace'' (JStr (stackTrace E (world s)))
              (with_error err (baseData l data))) s) s)"

section \<open>What a logging call does to the state\<close>

text \<open>
  A call appends to the log what the sinks let through, and touches nothing else; the
  projection rules let the component proofs see through the calls.
\<close>


definition log_lines :: "logger \<Rightarrow> LogLevel \<Rightarrow> string \<Rightarrow> string list" where
  "log_lines l level payload =
     concat (map (\<lambda>sink. if level < minLogLevel sink then [] else [payload, ''\<newline>''])
       (l_sinks l))"

lemma log_all_eq:
  "log_all l level log s = s\<lparr>written := written s @ log_lines l level (ToJSON log)\<rparr>"
proof -
  have "foldl (\<lambda>t sink. sink_Log sink level (ToJSON log) t) s sinks
      = s\<lparr>written := written s @ concat (map (\<lambda>sink.
           if level < minLogLevel sink then [] else [ToJSON log, ''\<newline>'']) sinks)\<rparr>" for sinks
    by (induction sinks arbitrary: s) (simp_all add: sink_Log_def)
  then show ?thesis by (simp add: log_all_def log_lines_def)
qed

lemma log_all_frame [simp]:
  "world (log_all l level log s) = world s"
  "the_logger (log_all l level log s) = the_logger s"
  by (simp_all add: log_all_eq)

lemma log_all_written [simp]:
  "written (log_all l level log s) = written s @ log_lines l level (ToJSON log)"
  by (simp add: log_all_eq)

lemma logger_Debug_run [go_simps]:
  "logger_Debug E l action data s =
     (Ret (), log_all l DEBUG (log_format E l DEBUG action (baseData l data) s) s)"
  by (simp add: logger_Debug_def)

lemma logger_Info_run [go_simps]:
  "logger_Info E l action data s =
     (Ret (), log_all l INFO (log_format E l INFO action (baseData l data) s) s)"
  by (simp add: logger_Info_def)

lemma logger_Error_run [go_simps]:
  "logger_Error E l action err data s =
     (Ret (), log_all l ERROR (log_format E l ERROR action (with_error err (baseData l data)) s) s)"
  by (simp add: logger_Error_def)

lemma logger_Fatal_outcome [simp]:
  "fst (logger_Fatal E l action err data s) = Panicked (PanicError err)"
  by (simp add: logger_Fatal_def)

lemma logger_Fatal_frame [simp]:
  "world (snd (logger_Fatal E l action err data s)) = world s"
  "the_logger (snd (logger_Fatal E l action err data s)) = the_logger s"
  by (simp_all add: logger_Fatal_def)

lemma log_lines_silent:
  "\<forall>sink \<in> set (l_sinks l). level < minLogLevel sink \<Longrightarrow> log_lines l level p = []"
  by (simp add: log_lines_def)

lemma log_lines_heard:
  "sink \<in> set (l_sinks l) \<Longrightarrow> minLogLevel sink \<le> level \<Longrightarrow> p \<in> set (log_lines l level p)"
  by (auto simp: log_lines_def level_order intro!: bexI [of _ sink])

section \<open>The data of a line\<close>

lemma map_of_update [simp]: "map_of (AList.update k v al) = (map_of al)(k \<mapsto> v)"
  by (rule update_conv')

lemma map_of_update_all:
  "map_of (update_all given base) = map_of base ++ map_of (rev given)"
  by (induction given arbitrary: base)
     (auto simp: update_all_def map_add_def fun_eq_iff split: option.splits)

lemma map_of_fold_update_all:
  "map_of (foldl (\<lambda>d arg. update_all arg d) base given)
     = map_of base ++ map_of (rev (concat given))"
  by (induction given arbitrary: base) (simp_all add: map_of_update_all map_add_assoc)

lemma distinct_update_all:
  "distinct (map fst base) \<Longrightarrow> distinct (map fst (update_all given base))"
  by (induction given arbitrary: base) (auto simp: update_all_def distinct_update)

end
