(* ===== verification/SqlClient.thy ===== *)
theory SqlClient
  imports Lager
begin

text \<open>
  The part of Go's \<open>database/sql\<close> the provisioner uses.  \<open>sql.Open\<close> only looks the
  driver up and builds a handle; the first connection is made by \<open>Ping\<close>.  A method of
  a nil \<open>*sql.DB\<close> dereferences it.  What a statement does is up to the driver and the
  server, so it comes from the environment.
\<close>

definition liftW :: "('w \<Rightarrow> 'a \<times> 'w) \<Rightarrow> ('w proc, 'a) go" where
  "liftW f s = (case f (world s) of (a, w) \<Rightarrow> (Ret a, s\<lparr>world := w\<rparr>))"

definition sql_Open :: "'w env \<Rightarrow> string \<Rightarrow> string \<Rightarrow> sql_db option \<times> go_error option" where
  "sql_Open E driverName dsn =
     (if driverName \<in> set (sqlDrivers E)
      then (Some \<lparr>db_driver = driverName, db_dsn = dsn, db_maxIdle = 0\<rparr>, None)
      else (None, Some (OtherError
              (''sql: unknown driver '' @ quote_json driverName @ '' (forgotten import?)''))))"

definition with_db :: "sql_db option \<Rightarrow> (sql_db \<Rightarrow> ('w proc, 'a) go) \<Rightarrow> ('w proc, 'a) go" where
  "with_db client k = (case client of None \<Rightarrow> go_panic NilPointerDereference | Some db \<Rightarrow> k db)"

text \<open>\<open>SetMaxIdleConns(n)\<close> stores n, or -1 for "no idle connection" when n is not positive.\<close>

definition SetMaxIdleConns :: "int \<Rightarrow> sql_db option \<Rightarrow> ('w proc, sql_db) go" where
  "SetMaxIdleConns n client =
     with_db client (\<lambda>db. ret (db\<lparr>db_maxIdle := (if n > 0 then n else -1)\<rparr>))"

definition db_Ping :: "'w env \<Rightarrow> sql_db option \<Rightarrow> ('w proc, go_error option) go" where
  "db_Ping E client = with_db client (\<lambda>db. liftW (sqlPing E db))"

definition db_Close :: "'w env \<Rightarrow> sql_db option \<Rightarrow> ('w proc, go_error option) go" where
  "db_Close E client = with_db client (\<lambda>db. liftW (sqlClose E db))"

definition db_Exec :: "'w env \<Rightarrow> sql_db option \<Rightarrow> string \<Rightarrow> ('w proc, go_error option) go" where
  "db_Exec E client q = with_db client (\<lambda>db. liftW (sqlExec E db q))"

definition db_QueryRow ::
  "'w env \<Rightarrow> sql_db option \<Rightarrow> string \<Rightarrow> ('w proc, go_error + int) go" where
  "db_QueryRow E client q = with_db client (\<lambda>db. liftW (sqlQueryRow E db q))"

definition db_Begin :: "'w env \<Rightarrow> sql_db option \<Rightarrow> ('w proc, go_error + nat) go" where
  "db_Begin E client = with_db client (\<lambda>db. liftW (sqlBegin E db))"

definition tx_Exec :: "'w env \<Rightarrow> nat \<Rightarrow> string \<Rightarrow> ('w proc, go_error option) go" where
  "tx_Exec E t q = liftW (txExec E t q)"

definition tx_Commit :: "'w env \<Rightarrow> nat \<Rightarrow> ('w proc, go_error option) go" where
  "tx_Commit E t = liftW (txCommit E t)"

definition tx_Rollback :: "'w env \<Rightarrow> nat \<Rightarrow> ('w proc, go_error option) go" where
  "tx_Rollback E t = liftW (txRollback E t)"

lemma liftW_run [go_simps]:
  "liftW f s = (Ret (fst (f (world s))), s\<lparr>world := snd (f (world s))\<rparr>)"
  by (simp add: liftW_def split: prod.split)

lemma with_db_simps [simp]:
  "with_db None k = go_panic NilPointerDereference"
  "with_db (Some db) k = k db"
  by (simp_all add: with_db_def)

lemmas db_defs = SetMaxIdleConns_def db_Ping_def db_Close_def db_Exec_def db_QueryRow_def
  db_Begin_def tx_Exec_def tx_Commit_def tx_Rollback_def

end
