(* ===== verification/Provisioner.thy ===== *)
theory Provisioner
  imports SqlClient
begin

text \<open>
  Package provisioner: the SQL templates, the template compiler with its trimming of
  \<open>Sprintf\<close>'s complaint about extra operands, the connection string, the two ways to
  run a template (in a transaction, and statement by statement) and the six operations
  the broker calls.
\<close>

section \<open>Templates\<close>

definition createDatabaseTemplate :: "string list" where
  "createDatabaseTemplate = [''create database [%[1]v] containment = partial'']"

definition deleteDatabaseTemplate :: "string list" where
  "deleteDatabaseTemplate =
     [''alter database [%[1]v] set single_user with rollback immediate'',
      ''drop database [%[1]v]'']"

definition createUserTemplate :: "string list" where
  "createUserTemplate =
     [''use [%[1]v]'',
      ''create user [%[2]v] with password='' @ [CHR 0x27] @ ''%[3]v'' @ [CHR 0x27],
      ''alter role [db_owner] add member [%[2]v]'',
      ''use master'']"

definition deleteUserTemplate :: "string list" where
  "deleteUserTemplate = [''use [%[1]v]'', ''drop user [%[2]v]'', ''use master'']"

definition isDatabaseCreatedTemplate :: string where
  "isDatabaseCreatedTemplate =
     ''select count(*)  from [master].sys.databases  where name = '' @ [CHR 0x27] @ ''%[1]v'' @ [CHR 0x27]"

definition isUserCreatedTemplate :: string where
  "isUserCreatedTemplate =
     ''select count(*)  from [%[1]v].sys.database_principals  where name = '' @ [CHR 0x27] @ ''%[2]v'' @ [CHR 0x27]"

definition extra_marker :: string where
  "extra_marker = ''%!(EXTRA''"

definition compileTemplate :: "string \<Rightarrow> string list \<Rightarrow> string" where
  "compileTemplate template targs =
     (let compiled = Sprintf template (map AStr targs);
          extraErrorStart = LastIndex compiled extra_marker
      in if extraErrorStart \<noteq> -1 then take (nat extraErrorStart) compiled else compiled)"

section \<open>The provisioner\<close>

text \<open>
  A Go map that is only built, looked up and ranged over is an association list with
  distinct keys, in the order the range happens to visit it.
\<close>

record MssqlProvisioner =
  dbClient :: "sql_db option"
  goSqlDriver :: string
  connectionParams :: "(string \<times> string) list"

fun buildConnectionString :: "(string \<times> string) list \<Rightarrow> string" where
  "buildConnectionString [] = []"
| "buildConnectionString ((k, v) # ps) = k @ ''='' @ v @ '';'' @ buildConnectionString ps"

definition NewMssqlProvisioner :: "string \<Rightarrow> (string \<times> string) list \<Rightarrow> MssqlProvisioner" where
  "NewMssqlProvisioner driver params =
     \<lparr>dbClient = None, goSqlDriver = driver, connectionParams = params\<rparr>"

text \<open>
  \<open>Init\<close> returns the provisioner it has assigned to, and the error.  The idle limit is
  set on the handle before the error of \<open>sql.Open\<close> is looked at.
\<close>

definition Init ::
  "'w env \<Rightarrow> MssqlProvisioner \<Rightarrow> ('w proc, MssqlProvisioner \<times> go_error option) go" where
  "Init E p =
     (let connString = buildConnectionString (connectionParams p);
          (client, err) = sql_Open E (goSqlDriver p) connString
      in bindG (SetMaxIdleConns 0 client) (\<lambda>db.
         let p' = p\<lparr>dbClient := Some db\<rparr>
         in if err \<noteq> None then ret (p', err)
            else bindG (db_Ping E (dbClient p')) (\<lambda>err. ret (p', err))))"

definition Close :: "'w env \<Rightarrow> MssqlProvisioner \<Rightarrow> ('w proc, go_error option) go" where
  "Close E p = db_Close E (dbClient p)"

section \<open>Running templates\<close>

definition log_query_debug :: "'w env \<Rightarrow> string \<Rightarrow> ('w proc, unit) go" where
  "log_query_debug E sqlLine =
     readG (\<lambda>s. logger_Debug E (the_logger s) ''mssql-exec'' [[(''query'', JStr sqlLine)]])"

definition log_query_error :: "'w env \<Rightarrow> go_error \<Rightarrow> string \<Rightarrow> ('w proc, unit) go" where
  "log_query_error E err sqlLine =
     readG (\<lambda>s. logger_Error E (the_logger s) ''mssql-exec'' (Some err) [[(''query'', JStr sqlLine)]])"

definition queryScalarTemplate ::
  "'w env \<Rightarrow> MssqlProvisioner \<Rightarrow> string \<Rightarrow> string list \<Rightarrow> ('w proc, go_error + int) go" where
  "queryScalarTemplate E p template targs =
     (let sqlLine = compileTemplate template targs
      in seqG (log_query_debug E sqlLine)
        (bindG (db_QueryRow E (dbClient p) sqlLine) (\<lambda>res.
           case res of
             Inl err \<Rightarrow> seqG (log_query_error E err sqlLine) (ret (Inl err))
           | Inr n \<Rightarrow> ret (Inr n))))"

fun txLines ::
  "'w env \<Rightarrow> nat \<Rightarrow> string list \<Rightarrow> string list \<Rightarrow> ('w proc, go_error option) go" where
  "txLines E tx targs [] = ret None"
| "txLines E tx targs (templateLine # template) =
     (let sqlLine = compileTemplate templateLine targs
      in seqG (log_query_debug E sqlLine)
        (bindG (tx_Exec E tx sqlLine) (\<lambda>err.
           case err of
             None \<Rightarrow> txLines E tx targs template
           | Some e \<Rightarrow>
               bindG (tx_Rollback E tx) (\<lambda>rollbackErr.
                 case rollbackErr of
                   Some r \<Rightarrow> go_panic (PanicString (error_text r))
                 | None \<Rightarrow> seqG (log_query_error E e sqlLine) (ret (Some e))))))"

definition executeTemplateWithTx ::
  "'w env \<Rightarrow> MssqlProvisioner \<Rightarrow> string list \<Rightarrow> string list \<Rightarrow> ('w proc, go_error option) go" where
  "executeTemplateWithTx E p template targs =
     bindG (db_Begin E (dbClient p)) (\<lambda>begun.
       case begun of
         Inl err \<Rightarrow> ret (Some err)
       | Inr tx \<Rightarrow>
           bindG (txLines E tx targs template) (\<lambda>err.
             if err \<noteq> None then ret err else tx_Commit E tx))"

fun executeTemplateWithoutTx ::
  "'w env \<Rightarrow> MssqlProvisioner \<Rightarrow> string list \<Rightarrow> string list \<Rightarrow> ('w proc, go_error option) go" where
  "executeTemplateWithoutTx E p [] targs = ret None"
| "executeTemplateWithoutTx E p (templateLine # template) targs =
     (let sqlLine = compileTemplate templateLine targs
      in seqG (log_query_debug E sqlLine)
        (bindG (db_Exec E (dbClient p) sqlLine) (\<lambda>err.
           case err of
             Some e \<Rightarrow> seqG (log_query_error E e sqlLine) (ret (Some e))
           | None \<Rightarrow> executeTemplateWithoutTx E p template targs)))"

section \<open>The operations\<close>

definition CreateDatabase ::
  "'w env \<Rightarrow> MssqlProvisioner \<Rightarrow> string \<Rightarrow> ('w proc, go_error option) go" where
  "CreateDatabase E p databaseId =
     executeTemplateWithoutTx E p createDatabaseTemplate [databaseId]"

definition DeleteDatabase ::
  "'w env \<Rightarrow> MssqlProvisioner \<Rightarrow> string \<Rightarrow> ('w proc, go_error option) go" where
  "DeleteDatabase E p databaseId =
     executeTemplateWithoutTx E p deleteDatabaseTemplate [databaseId]"

definition CreateUser ::
  "'w env \<Rightarrow> MssqlProvisioner \<Rightarrow> string \<Rightarrow> string \<Rightarrow> string \<Rightarrow> ('w proc, go_error option) go" where
  "CreateUser E p databaseId userId password =
     executeTemplateWithTx E p createUserTemplate [databaseId, userId, password]"

definition DeleteUser ::
  "'w env \<Rightarrow> MssqlProvisioner \<Rightarrow> string \<Rightarrow> string \<Rightarrow> ('w proc, go_error option) go" where
  "DeleteUser E p databaseId userId =
     executeTemplateWithTx E p deleteUserTemplate [databaseId, userId]"

definition IsDatabaseCreated ::
  "'w env \<Rightarrow> MssqlProvisioner \<Rightarrow> string \<Rightarrow> ('w proc, bool \<times> go_error option) go" where
  "IsDatabaseCreated E p databaseId =
     bindG (queryScalarTemplate E p isDatabaseCreatedTemplate [databaseId]) (\<lambda>res.
       case res of
         Inl err \<Rightarrow> ret (False, Some err)
       | Inr n \<Rightarrow> if n = 1 then ret (True, None) else ret (False, None))"

definition IsUserCreated ::
  "'w env \<Rightarrow> MssqlProvisioner \<Rightarrow> string \<Rightarrow> string \<Rightarrow> ('w proc, bool \<times> go_error option) go" where
  "IsUserCreated E p databaseId userId =
     bindG (queryScalarTemplate E p isUserCreatedTemplate [databaseId, userId]) (\<lambda>res.
       case res of
         Inl err \<Rightarrow> ret (False, Some err)
       | Inr n \<Rightarrow> if n = 1 then ret (True, None) else ret (False, None))"

section \<open>The statements the templates are meant to give\<close>

text \<open>The T-SQL text of each statement, with its names and strings put in place.\<close>

definition quote_sql :: "string \<Rightarrow> string" where
  "quote_sql s = [CHR 0x27] @ s @ [CHR 0x27]"

definition create_database_sql :: "string \<Rightarrow> string" where
  "create_database_sql d = ''create database ['' @ d @ ''] containment = partial''"

definition single_user_sql :: "string \<Rightarrow> string" where
  "single_user_sql d = ''alter database ['' @ d @ ''] set single_user with rollback immediate''"

definition drop_database_sql :: "string \<Rightarrow> string" where
  "drop_database_sql d = ''drop database ['' @ d @ '']''"

definition use_sql :: "string \<Rightarrow> string" where
  "use_sql d = ''use ['' @ d @ '']''"

definition create_user_sql :: "string \<Rightarrow> string \<Rightarrow> string" where
  "create_user_sql u p = ''create user ['' @ u @ ''] with password='' @ quote_sql p"

definition add_owner_sql :: "string \<Rightarrow> string" where
  "add_owner_sql u = ''alter role [db_owner] add member ['' @ u @ '']''"

definition drop_user_sql :: "string \<Rightarrow> string" where
  "drop_user_sql u = ''drop user ['' @ u @ '']''"

definition count_databases_sql :: "string \<Rightarrow> string" where
  "count_databases_sql d =
     ''select count(*)  from [master].sys.databases  where name = '' @ quote_sql d"

definition count_users_sql :: "string \<Rightarrow> string \<Rightarrow> string" where
  "count_users_sql d u =
     ''select count(*)  from ['' @ d @ ''].sys.database_principals  where name = '' @ quote_sql u"

lemmas sql_text_defs = create_database_sql_def single_user_sql_def drop_database_sql_def
  use_sql_def create_user_sql_def add_owner_sql_def drop_user_sql_def count_databases_sql_def
  count_users_sql_def quote_sql_def

section \<open>Compiling a template\<close>

text \<open>
  \<open>compileTemplate\<close> cuts the compiled text at the last \<open>%!(EXTRA\<close>.  That is
  \<open>Sprintf\<close>'s own complaint only for the template without a verb, \<open>use master\<close>; in
  every other text a marker can only come from an operand.
\<close>

definition no_marker :: "string \<Rightarrow> bool" where
  "no_marker s \<longleftrightarrow> \<not> sublist extra_marker s"

lemma compile_unmarked:
  "no_marker (Sprintf t (map AStr a)) \<Longrightarrow> compileTemplate t a = Sprintf t (map AStr a)"
  by (simp add: compileTemplate_def Let_def LastIndex_none no_marker_def)

lemma compile_marked:
  assumes "Sprintf t (map AStr a) = front @ extra_marker @ rest"
    and "no_marker (tl (extra_marker @ rest))"
  shows "compileTemplate t a = front"
proof -
  have "LastIndex (front @ extra_marker @ rest) extra_marker = int (length front)"
    using assms(2) by (intro LastIndex_last) (simp_all add: no_marker_def extra_marker_def)
  with assms(1) show ?thesis by (simp add: compileTemplate_def)
qed

lemmas no_marker_simps =
  no_marker_def extra_marker_def sublist_head_neq sublist_separator sublist_Cons_right

lemma compile_createDatabase [simp]:
  "no_marker d \<Longrightarrow> map (\<lambda>t. compileTemplate t [d]) createDatabaseTemplate = [create_database_sql d]"
  by (simp add: createDatabaseTemplate_def compile_unmarked Sprintf_eval no_marker_simps sql_text_defs)

lemma compile_deleteDatabase [simp]:
  "no_marker d \<Longrightarrow> map (\<lambda>t. compileTemplate t [d]) deleteDatabaseTemplate
     = [single_user_sql d, drop_database_sql d]"
  by (simp add: deleteDatabaseTemplate_def compile_unmarked Sprintf_eval no_marker_simps sql_text_defs)

text \<open>The statement without a verb: every operand is extra, and the complaint is cut off.\<close>

lemma use_master_extra:
  assumes "list_all no_marker a" and "a \<noteq> []"
  shows "compileTemplate ''use master'' a = ''use master''"
proof (rule compile_marked)
  show "Sprintf ''use master'' (map AStr a) = ''use master'' @ extra_marker @ CHR '' '' # extraArgs (map AStr a) @ '')''"
    using assms(2) by (cases a) (simp_all add: Sprintf_eval extra_marker_def)
  have "no_marker (extraArgs (map AStr a) @ '')'')"
    using assms(1)
  proof (induction a rule: induct_list012)
    case 1
    then show ?case by (simp add: no_marker_simps)
  next
    case (2 x)
    then show ?case by (simp add: no_marker_simps)
  next
    case (3 x y zs)
    then show ?case by (simp add: no_marker_simps)
  qed
  then show "no_marker (tl (extra_marker @ CHR '' '' # extraArgs (map AStr a) @ '')''))"
    by (simp add: no_marker_simps)
qed
lemma compile_createUser [simp]:
  assumes "no_marker d" and "no_marker u" and "no_marker p"
  shows "map (\<lambda>t. compileTemplate t [d, u, p]) createUserTemplate
     = [use_sql d, create_user_sql u p, add_owner_sql u, ''use master'']"
  using assms
  by (simp add: createUserTemplate_def use_master_extra compile_unmarked Sprintf_eval no_marker_simps sql_text_defs)

lemma compile_deleteUser [simp]:
  assumes "no_marker d" and "no_marker u"
  shows "map (\<lambda>t. compileTemplate t [d, u]) deleteUserTemplate
     = [use_sql d, drop_user_sql u, ''use master'']"
  using assms
  by (simp add: deleteUserTemplate_def use_master_extra compile_unmarked Sprintf_eval no_marker_simps sql_text_defs)

lemma compile_isDatabaseCreated [simp]:
  "no_marker d \<Longrightarrow> compileTemplate isDatabaseCreatedTemplate [d] = count_databases_sql d"
  by (simp add: isDatabaseCreatedTemplate_def compile_unmarked Sprintf_eval no_marker_simps sql_text_defs)

lemma compile_isUserCreated [simp]:
  assumes "no_marker d" and "no_marker u"
  shows "compileTemplate isUserCreatedTemplate [d, u] = count_users_sql d u"
  using assms
  by (simp add: isUserCreatedTemplate_def compile_unmarked Sprintf_eval no_marker_simps sql_text_defs)

end
