(* ===== verification/SqlServer.thy ===== *)
theory SqlServer
  imports Provisioner
begin

text \<open>
  What the provisioner relies on of the SQL server, as two locales over the
  environment: the documented effect of each statement it sends, where every call may
  also fail (\<open>sql_server\<close>), and a server that fails only where the statement is wrong
  (\<open>reliable_sql_server\<close>).  The server's state is seen as a catalog, and an open
  transaction as its current database and its view of the catalog.

  The server is read as one with a binary collation (two names are equal iff their
  bytes are) whose catalog is changed by this broker only.
\<close>

section \<open>Catalogs\<close>

text \<open>A principal of a database: its password, if it has one, and whether it owns the database.\<close>

type_synonym principal = "string option \<times> bool"
type_synonym catalog = "string \<rightharpoonup> (string \<rightharpoonup> principal)"

definition users :: "catalog \<Rightarrow> string \<Rightarrow> string set" where
  "users c d = (case c d of None \<Rightarrow> {} | Some m \<Rightarrow> dom m)"

text \<open>
  The names the statements embed safely: a regular length, no byte that closes a
  bracketed identifier or a string literal, and no text that looks like \<open>Sprintf\<close>'s
  complaint.
\<close>

definition plain_name :: "string \<Rightarrow> bool" where
  "plain_name n \<longleftrightarrow>
     n \<noteq> [] \<and> length n \<le> 128 \<and> CHR '']'' \<notin> set n \<and> CHR 0x27 \<notin> set n \<and> no_marker n"

definition plain_password :: "string \<Rightarrow> bool" where
  "plain_password p \<longleftrightarrow> p \<noteq> [] \<and> length p \<le> 128 \<and> CHR 0x27 \<notin> set p \<and> no_marker p"

lemma plain_nameD [dest]:
  "plain_name n \<Longrightarrow> no_marker n"
  "plain_password n \<Longrightarrow> no_marker n"
  by (simp_all add: plain_name_def plain_password_def)

section \<open>The catalog changes the statements make\<close>

definition add_database :: "(string \<rightharpoonup> principal) \<Rightarrow> string \<Rightarrow> catalog \<Rightarrow> catalog" where
  "add_database builtin d c = c(d \<mapsto> builtin)"

definition remove_database :: "string \<Rightarrow> catalog \<Rightarrow> catalog" where
  "remove_database d c = c(d := None)"

definition put_principal :: "string \<Rightarrow> string \<Rightarrow> principal \<Rightarrow> catalog \<Rightarrow> catalog" where
  "put_principal d u e c = (case c d of None \<Rightarrow> c | Some m \<Rightarrow> c(d \<mapsto> m(u \<mapsto> e)))"

definition remove_user :: "string \<Rightarrow> string \<Rightarrow> catalog \<Rightarrow> catalog" where
  "remove_user d u c = (case c d of None \<Rightarrow> c | Some m \<Rightarrow> c(d \<mapsto> m(u := None)))"

section \<open>A server that may fail\<close>

locale sql_server =
  fixes E :: "'w env"
    and db :: sql_db
    and cat :: "'w \<Rightarrow> catalog"
    and tx :: "'w \<Rightarrow> nat \<Rightarrow> (string \<times> catalog) option"
    and builtin :: "string \<rightharpoonup> principal"
  assumes count_databases:
      "plain_name d \<Longrightarrow> sqlQueryRow E db (count_databases_sql d) w = (q, w') \<Longrightarrow>
       cat w' = cat w \<and> (\<forall>n. q = Inr n \<longrightarrow> n = (if d \<in> dom (cat w) then 1 else 0))"
    and count_users:
      "plain_name d \<Longrightarrow> plain_name u \<Longrightarrow> sqlQueryRow E db (count_users_sql d u) w = (q, w') \<Longrightarrow>
       cat w' = cat w \<and>
       (\<forall>n. q = Inr n \<longrightarrow> d \<in> dom (cat w) \<and> n = (if u \<in> users (cat w) d then 1 else 0))"
    and create_database:
      "plain_name d \<Longrightarrow> sqlExec E db (create_database_sql d) w = (r, w') \<Longrightarrow>
       (r = None \<longrightarrow> d \<notin> dom (cat w) \<and> cat w' = add_database builtin d (cat w)) \<and>
       (r \<noteq> None \<longrightarrow> cat w' = cat w \<or> d \<notin> dom (cat w) \<and> cat w' = add_database builtin d (cat w))"
    and single_user:
      "plain_name d \<Longrightarrow> sqlExec E db (single_user_sql d) w = (r, w') \<Longrightarrow>
       cat w' = cat w \<and> (r = None \<longrightarrow> d \<in> dom (cat w))"
    and drop_database:
      "plain_name d \<Longrightarrow> sqlExec E db (drop_database_sql d) w = (r, w') \<Longrightarrow>
       (r = None \<longrightarrow> d \<in> dom (cat w) \<and> cat w' = remove_database d (cat w)) \<and>
       (r \<noteq> None \<longrightarrow> cat w' = cat w \<or> cat w' = remove_database d (cat w))"
    and begin_tx:
      "sqlBegin E db w = (b, w') \<Longrightarrow>
       cat w' = cat w \<and> (\<forall>t. b = Inr t \<longrightarrow> (\<exists>cur. tx w' t = Some (cur, cat w)))"
    and tx_use:
      "tx w t = Some (cur, v) \<Longrightarrow> plain_name d \<Longrightarrow> txExec E t (use_sql d) w = (r, w') \<Longrightarrow>
       cat w' = cat w \<and> (r = None \<longrightarrow> d \<in> dom v \<and> tx w' t = Some (d, v))"
    and tx_create_user:
      "tx w t = Some (cur, v) \<Longrightarrow> plain_name u \<Longrightarrow> plain_password p \<Longrightarrow>
       txExec E t (create_user_sql u p) w = (r, w') \<Longrightarrow>
       cat w' = cat w \<and>
       (r = None \<longrightarrow> cur \<in> dom v \<and> u \<notin> users v cur \<and>
                   tx w' t = Some (cur, put_principal cur u (Some p, False) v))"
    and tx_add_owner:
      "tx w t = Some (cur, v) \<Longrightarrow> plain_name u \<Longrightarrow> txExec E t (add_owner_sql u) w = (r, w') \<Longrightarrow>
       cat w' = cat w \<and>
       (r = None \<longrightarrow> (\<exists>m e. v cur = Some m \<and> m u = Some e \<and>
                   tx w' t = Some (cur, put_principal cur u (fst e, True) v)))"
    and tx_drop_user:
      "tx w t = Some (cur, v) \<Longrightarrow> plain_name u \<Longrightarrow> txExec E t (drop_user_sql u) w = (r, w') \<Longrightarrow>
       cat w' = cat w \<and>
       (r = None \<longrightarrow> u \<in> users v cur \<and> tx w' t = Some (cur, remove_user cur u v))"
    and tx_use_master:
      "tx w t = Some (cur, v) \<Longrightarrow> txExec E t ''use master'' w = (r, w') \<Longrightarrow>
       cat w' = cat w \<and> (r = None \<longrightarrow> tx w' t = Some (''master'', v))"
    and tx_commit:
      "tx w t = Some (cur, v) \<Longrightarrow> txCommit E t w = (r, w') \<Longrightarrow>
       (r = None \<longrightarrow> cat w' = v) \<and> (r \<noteq> None \<longrightarrow> cat w' = cat w \<or> cat w' = v)"
    and tx_rollback:
      "txRollback E t w = (r, w') \<Longrightarrow> cat w' = cat w"

section \<open>A server that fails only where the statement is wrong\<close>

locale reliable_sql_server = sql_server +
  assumes count_databases_ok:
      "plain_name d \<Longrightarrow> \<exists>n. fst (sqlQueryRow E db (count_databases_sql d) w) = Inr n"
    and count_users_ok:
      "plain_name d \<Longrightarrow> plain_name u \<Longrightarrow> d \<in> dom (cat w) \<Longrightarrow>
       \<exists>n. fst (sqlQueryRow E db (count_users_sql d u) w) = Inr n"
    and create_database_ok:
      "plain_name d \<Longrightarrow> d \<notin> dom (cat w) \<Longrightarrow> fst (sqlExec E db (create_database_sql d) w) = None"
    and create_database_dup:
      "plain_name d \<Longrightarrow> d \<in> dom (cat w) \<Longrightarrow> cat (snd (sqlExec E db (create_database_sql d) w)) = cat w"
    and single_user_ok:
      "plain_name d \<Longrightarrow> d \<in> dom (cat w) \<Longrightarrow> fst (sqlExec E db (single_user_sql d) w) = None"
    and drop_database_ok:
      "plain_name d \<Longrightarrow> d \<in> dom (cat w) \<Longrightarrow> fst (sqlExec E db (drop_database_sql d) w) = None"
    and begin_ok: "\<exists>t. fst (sqlBegin E db w) = Inr t"
    and tx_use_ok:
      "tx w t = Some (cur, v) \<Longrightarrow> plain_name d \<Longrightarrow> d \<in> dom v \<Longrightarrow>
       fst (txExec E t (use_sql d) w) = None"
    and tx_create_user_ok:
      "tx w t = Some (cur, v) \<Longrightarrow> plain_name u \<Longrightarrow> plain_password p \<Longrightarrow> cur \<in> dom v \<Longrightarrow>
       u \<notin> users v cur \<Longrightarrow> fst (txExec E t (create_user_sql u p) w) = None"
    and tx_add_owner_ok:
      "tx w t = Some (cur, v) \<Longrightarrow> plain_name u \<Longrightarrow> u \<in> users v cur \<Longrightarrow>
       fst (txExec E t (add_owner_sql u) w) = None"
    and tx_drop_user_ok:
      "tx w t = Some (cur, v) \<Longrightarrow> plain_name u \<Longrightarrow> u \<in> users v cur \<Longrightarrow>
       fst (txExec E t (drop_user_sql u) w) = None"
    and tx_use_master_ok:
      "tx w t = Some (cur, v) \<Longrightarrow> fst (txExec E t ''use master'' w) = None"
    and tx_commit_ok: "tx w t = Some (cur, v) \<Longrightarrow> fst (txCommit E t w) = None"
    and tx_rollback_ok: "fst (txRollback E t w) = None"

end
