(* ===== verification/ProvisionerSpec.thy ===== *)
theory ProvisionerSpec
  imports SqlServer
begin

text \<open>
  The contract of the provisioner: what its six operations do to the catalog, as a
  locale over any state type (\<open>provisioner_contract\<close>), and the proof that the model
  of package provisioner keeps it on every server that meets \<open>sql_server\<close>.
\<close>

section \<open>The contract\<close>

text \<open>
  \<open>invar\<close> is what the operations keep, \<open>cat\<close> the catalog in the state.  An error of a
  statement leaves the catalog as it was or as the operation would have made it: the
  caller cannot tell whether the server had already applied it.  The user operations may
  also panic (a failed rollback).
\<close>

locale provisioner_contract =
  fixes invar :: "'s \<Rightarrow> bool"
    and cat :: "'s \<Rightarrow> catalog"
    and builtin :: "string \<rightharpoonup> principal"
    and isDb :: "string \<Rightarrow> ('s, bool \<times> go_error option) go"
    and createDb :: "string \<Rightarrow> ('s, go_error option) go"
    and deleteDb :: "string \<Rightarrow> ('s, go_error option) go"
    and isUser :: "string \<Rightarrow> string \<Rightarrow> ('s, bool \<times> go_error option) go"
    and createUser :: "string \<Rightarrow> string \<Rightarrow> string \<Rightarrow> ('s, go_error option) go"
    and deleteUser :: "string \<Rightarrow> string \<Rightarrow> ('s, go_error option) go"
  assumes isDb:
      "invar s \<Longrightarrow> plain_name d \<Longrightarrow> isDb d s = (x, t) \<Longrightarrow>
       invar t \<and> cat t = cat s \<and>
       (\<exists>b err. x = Ret (b, err) \<and> (err = None \<longrightarrow> b = (d \<in> dom (cat s))))"
    and createDb:
      "invar s \<Longrightarrow> plain_name d \<Longrightarrow> createDb d s = (y, t) \<Longrightarrow>
       invar t \<and> (\<exists>err. y = Ret err \<and>
         (err = None \<longrightarrow> d \<notin> dom (cat s) \<and> cat t = add_database builtin d (cat s)) \<and>
         (err \<noteq> None \<longrightarrow>
            cat t = cat s \<or> d \<notin> dom (cat s) \<and> cat t = add_database builtin d (cat s)))"
    and deleteDb:
      "invar s \<Longrightarrow> plain_name d \<Longrightarrow> deleteDb d s = (y, t) \<Longrightarrow>
       invar t \<and> (\<exists>err. y = Ret err \<and>
         (err = None \<longrightarrow> d \<in> dom (cat s) \<and> cat t = remove_database d (cat s)) \<and>
         (err \<noteq> None \<longrightarrow> cat t = cat s \<or> cat t = remove_database d (cat s)))"
    and isUser:
      "invar s \<Longrightarrow> plain_name d \<Longrightarrow> plain_name u \<Longrightarrow> isUser d u s = (x, t) \<Longrightarrow>
       invar t \<and> cat t = cat s \<and>
       (\<exists>b err. x = Ret (b, err) \<and>
         (err = None \<longrightarrow> d \<in> dom (cat s) \<and> b = (u \<in> users (cat s) d)))"
    and createUser:
      "invar s \<Longrightarrow> plain_name d \<Longrightarrow> plain_name u \<Longrightarrow> plain_password p \<Longrightarrow>
       createUser d u p s = (y, t) \<Longrightarrow>
       invar t \<and>
       (y = Ret None \<longrightarrow> d \<in> dom (cat s) \<and> u \<notin> users (cat s) d \<and>
          cat t = put_principal d u (Some p, True) (cat s)) \<and>
       (y \<noteq> Ret None \<longrightarrow> cat t = cat s \<or>
          d \<in> dom (cat s) \<and> u \<notin> users (cat s) d \<and> cat t = put_principal d u (Some p, True) (cat s))"
    and deleteUser:
      "invar s \<Longrightarrow> plain_name d \<Longrightarrow> plain_name u \<Longrightarrow> deleteUser d u s = (y, t) \<Longrightarrow>
       invar t \<and>
       (y = Ret None \<longrightarrow> u \<in> users (cat s) d \<and> cat t = remove_user d u (cat s)) \<and>
       (y \<noteq> Ret None \<longrightarrow> cat t = cat s \<or>
          u \<in> users (cat s) d \<and> cat t = remove_user d u (cat s))"

section \<open>Running a template\<close>

lemma log_query_run [go_simps]:
  "log_query_debug E q s = (Ret (), log_all (the_logger s) DEBUG
     (log_format E (the_logger s) DEBUG ''mssql-exec'' (baseData (the_logger s) [[(''query'', JStr q)]]) s) s)"
  "log_query_error E e q s = (Ret (), log_all (the_logger s) ERROR
     (log_format E (the_logger s) ERROR ''mssql-exec''
        (with_error (Some e) (baseData (the_logger s) [[(''query'', JStr q)]])) s) s)"
  by (simp_all add: log_query_debug_def log_query_error_def go_simps)

lemma queryScalar_run:
  assumes "dbClient p = Some db" and "queryScalarTemplate E p t a s = (x, s')"
  shows "x = Ret (fst (sqlQueryRow E db (compileTemplate t a) (world s)))"
    and "world s' = snd (sqlQueryRow E db (compileTemplate t a) (world s))"
  using assms
  by (auto simp: queryScalarTemplate_def go_simps db_defs Let_def split: sum.splits)

lemma isCreated_run:
  assumes "bindG (queryScalarTemplate E p t a) (\<lambda>res.
       case res of
         Inl err \<Rightarrow> ret (False, Some err)
       | Inr n \<Rightarrow> if n = 1 then ret (True, None) else ret (False, None)) s = (x, s')"
    and "dbClient p = Some db"
    and "sqlQueryRow E db (compileTemplate t a) (world s) = (r, w')"
  shows "world s' = w'"
    and "x = Ret (case r of Inl err \<Rightarrow> (False, Some err) | Inr n \<Rightarrow> (n = 1, None))"
proof -
  obtain y u where q: "queryScalarTemplate E p t a s = (y, u)" by fastforce
  note run = queryScalar_run [OF assms(2) q]
  show "world s' = w'" and "x = Ret (case r of Inl err \<Rightarrow> (False, Some err) | Inr n \<Rightarrow> (n = 1, None))"
    using assms(1,3) q run by (auto simp: bindG_apply split: sum.splits if_splits)
qed

text \<open>A compiled template, as the server sees it: outside a transaction, and inside one.\<close>

fun exec_run :: "'w env \<Rightarrow> sql_db \<Rightarrow> string list \<Rightarrow> 'w \<Rightarrow> go_error option \<times> 'w" where
  "exec_run E db [] w = (None, w)"
| "exec_run E db (q # qs) w =
     (case sqlExec E db q w of (None, w') \<Rightarrow> exec_run E db qs w' | (Some e, w') \<Rightarrow> (Some e, w'))"

lemma withoutTx_run:
  assumes "dbClient p = Some db" and "executeTemplateWithoutTx E p template a s = (x, s')"
  shows "exec_run E db (map (\<lambda>t. compileTemplate t a) template) (world s) = (r, w') \<Longrightarrow>
    x = Ret r \<and> world s' = w'"
  using assms(2)
proof (induction template arbitrary: s)
  case Nil
  then show ?case by simp
next
  case (Cons t template)
  then show ?case using assms(1)
    by (auto simp: go_simps db_defs Let_def split: option.splits prod.splits
        dest!: Cons.IH [rotated])
qed

fun tx_run :: "'w env \<Rightarrow> nat \<Rightarrow> string list \<Rightarrow> 'w \<Rightarrow> go_error option \<times> 'w" where
  "tx_run E t [] w = (None, w)"
| "tx_run E t (q # qs) w =
     (case txExec E t q w of
        (None, w') \<Rightarrow> tx_run E t qs w'
      | (Some e, w') \<Rightarrow> (Some e, snd (txRollback E t w')))"

lemma txLines_run:
  assumes "txLines E tx a template s = (x, s')"
  shows "tx_run E tx (map (\<lambda>t. compileTemplate t a) template) (world s) = (r, w') \<Longrightarrow>
    world s' = w' \<and> (r = None \<longrightarrow> x = Ret None) \<and> (r \<noteq> None \<longrightarrow> x \<noteq> Ret None)"
  using assms
proof (induction template arbitrary: s)
  case Nil
  then show ?case by simp
next
  case (Cons t template)
  then show ?case
    by (auto simp: go_simps db_defs Let_def split: option.splits prod.splits
        dest!: Cons.IH [rotated])
qed

lemma withTx_run:
  assumes "dbClient p = Some db" and "executeTemplateWithTx E p template a s = (x, s')"
    and b: "sqlBegin E db (world s) = (begun, w1)"
  shows "case begun of
      Inl e \<Rightarrow> x = Ret (Some e) \<and> world s' = w1
    | Inr t \<Rightarrow>
       (case tx_run E t (map (\<lambda>t. compileTemplate t a) template) w1 of
          (Some _, w2) \<Rightarrow> x \<noteq> Ret None \<and> world s' = w2
        | (None, w2) \<Rightarrow> x = Ret (fst (txCommit E t w2)) \<and> world s' = snd (txCommit E t w2))"
proof (cases begun)
  case (Inl e)
  with assms show ?thesis by (auto simp: executeTemplateWithTx_def go_simps db_defs)
next
  case (Inr t)
  obtain y u where l: "txLines E t a template (s\<lparr>world := w1\<rparr>) = (y, u)" by fastforce
  obtain r w2 where r: "tx_run E t (map (\<lambda>t. compileTemplate t a) template) w1 = (r, w2)"
    by fastforce
  from txLines_run [OF l, of r w2] r Inr l assms show ?thesis
    by (cases r)
       (auto simp: executeTemplateWithTx_def go_simps db_defs split: outcome.splits option.splits)
qed


section \<open>On a SQL server\<close>

context sql_server begin

lemma tx_step:
  assumes "tx_run E t (q # qs) w = (r, w')"
    and "\<And>r1 w1. txExec E t q w = (r1, w1) \<Longrightarrow> cat w1 = cat w"
  obtains (fail) "r \<noteq> None" "cat w' = cat w"
    | (go_on) w1 where "txExec E t q w = (None, w1)" "cat w1 = cat w" "tx_run E t qs w1 = (r, w')"
proof (cases "txExec E t q w")
  case (Pair r1 w1)
  have c: "cat w1 = cat w" using assms(2) Pair by blast
  show thesis
  proof (cases r1)
    case None
    with c Pair assms(1) show thesis by (auto intro: go_on)
  next
    case (Some e)
    obtain rb w2 where rb: "txRollback E t w1 = (rb, w2)" by fastforce
    with tx_rollback have "cat w2 = cat w1" by blast
    with c Some Pair rb assms(1) show thesis by (auto intro: fail)
  qed
qed

lemma create_user_tx:
  assumes run: "tx_run E t [use_sql d, create_user_sql u p, add_owner_sql u, ''use master''] w = (r, w')"
    and tx0: "tx w t = Some (cur, v)"
    and plain: "plain_name d" "plain_name u" "plain_password p"
  shows "cat w' = cat w \<and> (r = None \<longrightarrow> d \<in> dom v \<and> u \<notin> users v d \<and>
    (\<exists>c. tx w' t = Some (c, put_principal d u (Some p, True) v)))"
proof (rule tx_step [OF run])
  fix w1 assume 1: "txExec E t (use_sql d) w = (None, w1)" "cat w1 = cat w"
    "tx_run E t [create_user_sql u p, add_owner_sql u, ''use master''] w1 = (r, w')"
  from tx_use [OF tx0 plain(1) 1(1)] have d: "d \<in> dom v" and tx1: "tx w1 t = Some (d, v)" by auto
  show ?thesis
  proof (rule tx_step [OF 1(3)])
    fix w2 assume 2: "txExec E t (create_user_sql u p) w1 = (None, w2)" "cat w2 = cat w1"
      "tx_run E t [add_owner_sql u, ''use master''] w2 = (r, w')"
    from tx_create_user [OF tx1 plain(2,3) 2(1)]
    have u: "u \<notin> users v d" and tx2: "tx w2 t = Some (d, put_principal d u (Some p, False) v)" by auto
    show ?thesis
    proof (rule tx_step [OF 2(3)])
      fix w3 assume 3: "txExec E t (add_owner_sql u) w2 = (None, w3)" "cat w3 = cat w2"
        "tx_run E t [''use master''] w3 = (r, w')"
      from tx_add_owner [OF tx2 plain(2) 3(1)] d
      have tx3: "tx w3 t = Some (d, put_principal d u (Some p, True) v)"
        by (auto simp: put_principal_def)
      show ?thesis
      proof (rule tx_step [OF 3(3)])
        fix w4 assume 4: "txExec E t ''use master'' w3 = (None, w4)" "cat w4 = cat w3"
          "tx_run E t [] w4 = (r, w')"
        with tx_use_master [OF tx3 4(1)] 1(2) 2(2) 3(2) d u show ?thesis by auto
      qed (use 1(2) 2(2) 3(2) tx_use_master [OF tx3] in auto)
    qed (use 1(2) 2(2) tx_add_owner [OF tx2 plain(2)] in auto)
  qed (use 1(2) tx_create_user [OF tx1 plain(2,3)] in auto)
qed (use tx_use [OF tx0 plain(1)] in auto)

lemma drop_user_tx:
  assumes run: "tx_run E t [use_sql d, drop_user_sql u, ''use master''] w = (r, w')"
    and tx0: "tx w t = Some (cur, v)"
    and plain: "plain_name d" "plain_name u"
  shows "cat w' = cat w \<and> (r = None \<longrightarrow> u \<in> users v d \<and>
    (\<exists>c. tx w' t = Some (c, remove_user d u v)))"
proof (rule tx_step [OF run])
  fix w1 assume 1: "txExec E t (use_sql d) w = (None, w1)" "cat w1 = cat w"
    "tx_run E t [drop_user_sql u, ''use master''] w1 = (r, w')"
  from tx_use [OF tx0 plain(1) 1(1)] have tx1: "tx w1 t = Some (d, v)" by auto
  show ?thesis
  proof (rule tx_step [OF 1(3)])
    fix w2 assume 2: "txExec E t (drop_user_sql u) w1 = (None, w2)" "cat w2 = cat w1"
      "tx_run E t [''use master''] w2 = (r, w')"
    from tx_drop_user [OF tx1 plain(2) 2(1)]
    have u: "u \<in> users v d" and tx2: "tx w2 t = Some (d, remove_user d u v)" by auto
    show ?thesis
    proof (rule tx_step [OF 2(3)])
      fix w3 assume "txExec E t ''use master'' w2 = (None, w3)" "cat w3 = cat w2"
        "tx_run E t [] w3 = (r, w')"
      with tx_use_master [OF tx2] 1(2) 2(2) u show ?thesis by auto
    qed (use 1(2) 2(2) tx_use_master [OF tx2] in auto)
  qed (use 1(2) tx_drop_user [OF tx1 plain(2)] in auto)
qed (use tx_use [OF tx0 plain(1)] in auto)

text \<open>
  A template run in a transaction is atomic: it ends with the catalog as it was, or
  with the view its statements built.  When the commit itself fails, either can be.
\<close>

lemma transaction_atomic:
  assumes client: "dbClient p = Some db"
    and run: "executeTemplateWithTx E p template a s = (x, s')"
    and body: "\<And>t cur w r w'. tx w t = Some (cur, cat w) \<Longrightarrow>
      tx_run E t (map (\<lambda>t. compileTemplate t a) template) w = (r, w') \<Longrightarrow>
      cat w' = cat w \<and> (r = None \<longrightarrow> P (cat w) \<and> (\<exists>c. tx w' t = Some (c, f (cat w))))"
  shows "(x = Ret None \<longrightarrow> P (cat (world s)) \<and> cat (world s') = f (cat (world s))) \<and>
    (x \<noteq> Ret None \<longrightarrow> cat (world s') = cat (world s) \<or>
       P (cat (world s)) \<and> cat (world s') = f (cat (world s)))"
proof -
  obtain begun w1 where b: "sqlBegin E db (world s) = (begun, w1)" by fastforce
  note run' = withTx_run [OF client run b]
  show ?thesis
  proof (cases begun)
    case (Inl e)
    with run' begin_tx [OF b] show ?thesis by auto
  next
    case (Inr t)
    with begin_tx [OF b] obtain cur where t: "tx w1 t = Some (cur, cat w1)" "cat w1 = cat (world s)"
      by auto
    obtain r w2 where r: "tx_run E t (map (\<lambda>t. compileTemplate t a) template) w1 = (r, w2)"
      by fastforce
    note body' = body [OF t(1) r]
    show ?thesis
    proof (cases r)
      case None
      with body' obtain c where c: "tx w2 t = Some (c, f (cat w1))" "P (cat w1)" by auto
      obtain rc w3 where "txCommit E t w2 = (rc, w3)" by fastforce
      with tx_commit [OF c(1)] run' Inr None r body' c(2) t(2) show ?thesis by auto
    next
      case (Some e)
      with run' Inr r body' t(2) show ?thesis by auto
    qed
  qed
qed

lemma CreateUser_law:
  assumes "dbClient p = Some db" and "CreateUser E p d u pw s = (x, s')"
    and "plain_name d" "plain_name u" "plain_password pw"
  shows "(x = Ret None \<longrightarrow> (d \<in> dom (cat (world s)) \<and> u \<notin> users (cat (world s)) d) \<and>
      cat (world s') = put_principal d u (Some pw, True) (cat (world s))) \<and>
    (x \<noteq> Ret None \<longrightarrow> cat (world s') = cat (world s) \<or>
       (d \<in> dom (cat (world s)) \<and> u \<notin> users (cat (world s)) d) \<and>
       cat (world s') = put_principal d u (Some pw, True) (cat (world s)))"
proof (rule transaction_atomic [OF assms(1) assms(2) [unfolded CreateUser_def]])
  fix t cur w r w'
  assume "tx w t = Some (cur, cat w)"
    and "tx_run E t (map (\<lambda>t. compileTemplate t [d, u, pw]) createUserTemplate) w = (r, w')"
  with assms(3-5) create_user_tx [of t d u pw w r w' cur "cat w"]
  show "cat w' = cat w \<and> (r = None \<longrightarrow> (d \<in> dom (cat w) \<and> u \<notin> users (cat w) d) \<and>
      (\<exists>c. tx w' t = Some (c, put_principal d u (Some pw, True) (cat w))))"
    by (simp add: plain_nameD del: tx_run.simps)
qed

lemma DeleteUser_law:
  assumes "dbClient p = Some db" and "DeleteUser E p d u s = (x, s')"
    and "plain_name d" "plain_name u"
  shows "(x = Ret None \<longrightarrow> u \<in> users (cat (world s)) d \<and>
      cat (world s') = remove_user d u (cat (world s))) \<and>
    (x \<noteq> Ret None \<longrightarrow> cat (world s') = cat (world s) \<or>
       u \<in> users (cat (world s)) d \<and> cat (world s') = remove_user d u (cat (world s)))"
proof (rule transaction_atomic [OF assms(1) assms(2) [unfolded DeleteUser_def]])
  fix t cur w r w'
  assume "tx w t = Some (cur, cat w)"
    and "tx_run E t (map (\<lambda>t. compileTemplate t [d, u]) deleteUserTemplate) w = (r, w')"
  with assms(3,4) drop_user_tx [of t d u w r w' cur "cat w"]
  show "cat w' = cat w \<and> (r = None \<longrightarrow> u \<in> users (cat w) d \<and>
      (\<exists>c. tx w' t = Some (c, remove_user d u (cat w))))"
    by (simp add: plain_nameD del: tx_run.simps)
qed

lemma CreateDatabase_law:
  assumes "dbClient p = Some db" and run: "CreateDatabase E p d s = (x, s')" and "plain_name d"
  shows "\<exists>err. x = Ret err \<and>
    (err = None \<longrightarrow> d \<notin> dom (cat (world s)) \<and>
       cat (world s') = add_database builtin d (cat (world s))) \<and>
    (err \<noteq> None \<longrightarrow> cat (world s') = cat (world s) \<or>
       d \<notin> dom (cat (world s)) \<and> cat (world s') = add_database builtin d (cat (world s)))"
proof -
  obtain r w' where r: "sqlExec E db (create_database_sql d) (world s) = (r, w')" by fastforce
  then have "exec_run E db (map (\<lambda>t. compileTemplate t [d]) createDatabaseTemplate) (world s) = (r, w')"
    using assms(3) by (simp add: plain_nameD split: option.splits)
  from withoutTx_run [OF assms(1) run [unfolded CreateDatabase_def] this]
  show ?thesis using create_database [OF assms(3) r] by auto
qed

lemma DeleteDatabase_law:
  assumes "dbClient p = Some db" and run: "DeleteDatabase E p d s = (x, s')" and "plain_name d"
  shows "\<exists>err. x = Ret err \<and>
    (err = None \<longrightarrow> d \<in> dom (cat (world s)) \<and>
       cat (world s') = remove_database d (cat (world s))) \<and>
    (err \<noteq> None \<longrightarrow> cat (world s') = cat (world s) \<or>
       cat (world s') = remove_database d (cat (world s)))"
proof -
  obtain r1 w1 where r1: "sqlExec E db (single_user_sql d) (world s) = (r1, w1)" by fastforce
  obtain r2 w2 where r2: "sqlExec E db (drop_database_sql d) w1 = (r2, w2)" by fastforce
  have "exec_run E db (map (\<lambda>t. compileTemplate t [d]) deleteDatabaseTemplate) (world s)
     = (if r1 = None then (r2, w2) else (r1, w1))"
    using assms(3) r1 r2 by (auto simp: plain_nameD split: option.splits)
  from withoutTx_run [OF assms(1) run [unfolded DeleteDatabase_def], of "fst (if r1 = None then (r2, w2) else (r1, w1))"
      "snd (if r1 = None then (r2, w2) else (r1, w1))"] this
  show ?thesis using single_user [OF assms(3) r1] drop_database [OF assms(3) r2]
    by (auto split: if_splits)
qed

lemma IsDatabaseCreated_law:
  assumes "dbClient p = Some db" and run: "IsDatabaseCreated E p d s = (x, s')" and "plain_name d"
  shows "cat (world s') = cat (world s) \<and>
    (\<exists>b err. x = Ret (b, err) \<and> (err = None \<longrightarrow> b = (d \<in> dom (cat (world s)))))"
proof -
  obtain r w' where r: "sqlQueryRow E db (count_databases_sql d) (world s) = (r, w')" by fastforce
  then have "sqlQueryRow E db (compileTemplate isDatabaseCreatedTemplate [d]) (world s) = (r, w')"
    using assms(3) by (simp add: plain_nameD)
  from isCreated_run [OF run [unfolded IsDatabaseCreated_def] assms(1) this]
  show ?thesis using count_databases [OF assms(3) r] by (auto split: sum.splits)
qed

lemma IsUserCreated_law:
  assumes "dbClient p = Some db" and run: "IsUserCreated E p d u s = (x, s')"
    and "plain_name d" "plain_name u"
  shows "cat (world s') = cat (world s) \<and>
    (\<exists>b err. x = Ret (b, err) \<and>
       (err = None \<longrightarrow> d \<in> dom (cat (world s)) \<and> b = (u \<in> users (cat (world s)) d)))"
proof -
  obtain r w' where r: "sqlQueryRow E db (count_users_sql d u) (world s) = (r, w')" by fastforce
  then have "sqlQueryRow E db (compileTemplate isUserCreatedTemplate [d, u]) (world s) = (r, w')"
    using assms(3,4) by (simp add: plain_nameD)
  from isCreated_run [OF run [unfolded IsUserCreated_def] assms(1) this]
  show ?thesis using count_users [OF assms(3,4) r] by (auto split: sum.splits)
qed

end

section \<open>The provisioner meets its contract\<close>

interpretation prov: provisioner_contract
  "\<lambda>s. sql_server E db cat tx builtin \<and> dbClient p = Some db" "\<lambda>s. cat (world s)" builtin
  "IsDatabaseCreated E p" "CreateDatabase E p" "DeleteDatabase E p"
  "IsUserCreated E p" "CreateUser E p" "DeleteUser E p"
  for E :: "'w env" and db cat tx builtin p
proof (unfold_locales, goal_cases)
  case (1 s d x t)
  then show ?case using sql_server.IsDatabaseCreated_law [of E db cat tx builtin p d s x t] by simp
next
  case (2 s d x t)
  then show ?case using sql_server.CreateDatabase_law [of E db cat tx builtin p d s x t] by simp
next
  case (3 s d x t)
  then show ?case using sql_server.DeleteDatabase_law [of E db cat tx builtin p d s x t] by simp
next
  case (4 s d u x t)
  then show ?case using sql_server.IsUserCreated_law [of E db cat tx builtin p d u s x t] by simp
next
  case (5 s d u pw x t)
  then show ?case using sql_server.CreateUser_law [of E db cat tx builtin p d u pw s x t] by simp
next
  case (6 s d u x t)
  then show ?case using sql_server.DeleteUser_law [of E db cat tx builtin p d u s x t] by simp
qed

section \<open>Progress on a reliable server\<close>

text \<open>On a reliable server the operations succeed whenever their precondition holds.\<close>

locale provisioner_progress = provisioner_contract +
  fixes live :: "'a \<Rightarrow> bool"
  assumes live_invar: "live s \<Longrightarrow> invar s"
    and live_isDb: "live s \<Longrightarrow> plain_name d \<Longrightarrow> live (snd (isDb d s))"
    and live_isUser: "live s \<Longrightarrow> plain_name d \<Longrightarrow> plain_name u \<Longrightarrow> live (snd (isUser d u s))"
    and isDb_ok:
      "live s \<Longrightarrow> plain_name d \<Longrightarrow> fst (isDb d s) = Ret (d \<in> dom (cat s), None)"
    and createDb_ok:
      "live s \<Longrightarrow> plain_name d \<Longrightarrow> d \<notin> dom (cat s) \<Longrightarrow> fst (createDb d s) = Ret None"
    and deleteDb_ok:
      "live s \<Longrightarrow> plain_name d \<Longrightarrow> d \<in> dom (cat s) \<Longrightarrow> fst (deleteDb d s) = Ret None"
    and isUser_ok:
      "live s \<Longrightarrow> plain_name d \<Longrightarrow> plain_name u \<Longrightarrow> d \<in> dom (cat s) \<Longrightarrow>
       fst (isUser d u s) = Ret (u \<in> users (cat s) d, None)"
    and createUser_ok:
      "live s \<Longrightarrow> plain_name d \<Longrightarrow> plain_name u \<Longrightarrow> plain_password p \<Longrightarrow> d \<in> dom (cat s) \<Longrightarrow>
       u \<notin> users (cat s) d \<Longrightarrow> fst (createUser d u p s) = Ret None"
    and deleteUser_ok:
      "live s \<Longrightarrow> plain_name d \<Longrightarrow> plain_name u \<Longrightarrow> u \<in> users (cat s) d \<Longrightarrow>
       fst (deleteUser d u s) = Ret None"

lemma users_dom: "u \<in> users c d \<Longrightarrow> d \<in> dom c"
  by (auto simp: users_def split: option.splits)

lemma users_put [simp]: "d \<in> dom c \<Longrightarrow> users (put_principal d u e c) d = insert u (users c d)"
  by (auto simp: users_def put_principal_def)

context reliable_sql_server begin

lemma create_user_tx_ok:
  assumes tx0: "tx w t = Some (cur, v)" and plain: "plain_name d" "plain_name u" "plain_password p"
    and pre: "d \<in> dom v" "u \<notin> users v d"
  shows "\<exists>w' c. tx_run E t [use_sql d, create_user_sql u p, add_owner_sql u, ''use master''] w = (None, w') \<and>
    tx w' t = Some c"
proof -
  obtain w1 where 1: "txExec E t (use_sql d) w = (None, w1)"
    using tx_use_ok [OF tx0 plain(1) pre(1)] by (metis fst_conv surj_pair)
  from tx_use [OF tx0 plain(1) 1] have tx1: "tx w1 t = Some (d, v)" by auto
  obtain w2 where 2: "txExec E t (create_user_sql u p) w1 = (None, w2)"
    using tx_create_user_ok [OF tx1 plain(2,3) pre] by (metis fst_conv surj_pair)
  from tx_create_user [OF tx1 plain(2,3) 2]
  have tx2: "tx w2 t = Some (d, put_principal d u (Some p, False) v)" by auto
  obtain w3 where 3: "txExec E t (add_owner_sql u) w2 = (None, w3)"
    using tx_add_owner_ok [OF tx2 plain(2)] pre(1) by (metis fst_conv surj_pair users_put insertI1)
  from tx_add_owner [OF tx2 plain(2) 3] obtain v3 where tx3: "tx w3 t = Some (d, v3)" by auto
  obtain w4 where 4: "txExec E t ''use master'' w3 = (None, w4)"
    using tx_use_master_ok [OF tx3] by (metis fst_conv surj_pair)
  from 1 2 3 4 tx_use_master [OF tx3 4] show ?thesis by simp
qed

lemma drop_user_tx_ok:
  assumes tx0: "tx w t = Some (cur, v)" and plain: "plain_name d" "plain_name u"
    and pre: "u \<in> users v d"
  shows "\<exists>w' c. tx_run E t [use_sql d, drop_user_sql u, ''use master''] w = (None, w') \<and>
    tx w' t = Some c"
proof -
  obtain w1 where 1: "txExec E t (use_sql d) w = (None, w1)"
    using tx_use_ok [OF tx0 plain(1) users_dom [OF pre]] by (metis fst_conv surj_pair)
  from tx_use [OF tx0 plain(1) 1] have tx1: "tx w1 t = Some (d, v)" by auto
  obtain w2 where 2: "txExec E t (drop_user_sql u) w1 = (None, w2)"
    using tx_drop_user_ok [OF tx1 plain(2) pre] by (metis fst_conv surj_pair)
  from tx_drop_user [OF tx1 plain(2) 2] have tx2: "tx w2 t = Some (d, remove_user d u v)" by auto
  obtain w3 where 3: "txExec E t ''use master'' w2 = (None, w3)"
    using tx_use_master_ok [OF tx2] by (metis fst_conv surj_pair)
  from 1 2 3 tx_use_master [OF tx2 3] show ?thesis by simp
qed

text \<open>A transaction whose statements all succeed commits.\<close>

lemma transaction_ok:
  assumes client: "dbClient p = Some db"
    and body: "\<And>t cur w. tx w t = Some (cur, cat w) \<Longrightarrow> cat w = cat (world s) \<Longrightarrow>
      \<exists>w' c. tx_run E t (map (\<lambda>t. compileTemplate t a) template) w = (None, w') \<and> tx w' t = Some c"
  shows "fst (executeTemplateWithTx E p template a s) = Ret None"
proof -
  obtain x s' where run: "executeTemplateWithTx E p template a s = (x, s')" by fastforce
  obtain t w1 where b: "sqlBegin E db (world s) = (Inr t, w1)"
    using begin_ok by (metis fst_conv surj_pair)
  with begin_tx obtain cur where t: "tx w1 t = Some (cur, cat w1)" "cat w1 = cat (world s)"
    by metis
  obtain w2 c v where "tx_run E t (map (\<lambda>t. compileTemplate t a) template) w1 = (None, w2)"
    "tx w2 t = Some (c, v)"
    using body [OF t] by (metis surj_pair)
  with withTx_run [OF client run b] tx_commit_ok run show ?thesis by auto
qed

lemma progress_laws:
  assumes "dbClient p = Some db" and "plain_name d"
  shows "fst (IsDatabaseCreated E p d s) = Ret (d \<in> dom (cat (world s)), None)"
    and "d \<notin> dom (cat (world s)) \<Longrightarrow> fst (CreateDatabase E p d s) = Ret None"
    and "d \<in> dom (cat (world s)) \<Longrightarrow> fst (DeleteDatabase E p d s) = Ret None"
proof -
  obtain x s' where run: "IsDatabaseCreated E p d s = (x, s')" by fastforce
  obtain n w' where r: "sqlQueryRow E db (count_databases_sql d) (world s) = (Inr n, w')"
    using count_databases_ok [OF assms(2)] by (metis fst_conv surj_pair)
  then have "sqlQueryRow E db (compileTemplate isDatabaseCreatedTemplate [d]) (world s) = (Inr n, w')"
    using assms(2) by (simp add: plain_nameD)
  from isCreated_run [OF run [unfolded IsDatabaseCreated_def] assms(1) this]
  show "fst (IsDatabaseCreated E p d s) = Ret (d \<in> dom (cat (world s)), None)"
    using count_databases [OF assms(2) r] run by auto
next
  assume new: "d \<notin> dom (cat (world s))"
  obtain x s' where run: "CreateDatabase E p d s = (x, s')" by fastforce
  obtain w' where "sqlExec E db (create_database_sql d) (world s) = (None, w')"
    using create_database_ok [OF assms(2) new] by (metis fst_conv surj_pair)
  then have "exec_run E db (map (\<lambda>t. compileTemplate t [d]) createDatabaseTemplate) (world s) = (None, w')"
    using assms(2) by (simp add: plain_nameD)
  from withoutTx_run [OF assms(1) run [unfolded CreateDatabase_def] this] run
  show "fst (CreateDatabase E p d s) = Ret None" by simp
next
  assume old: "d \<in> dom (cat (world s))"
  obtain x s' where run: "DeleteDatabase E p d s = (x, s')" by fastforce
  obtain w1 where r1: "sqlExec E db (single_user_sql d) (world s) = (None, w1)"
    using single_user_ok [OF assms(2) old] by (metis fst_conv surj_pair)
  with single_user [OF assms(2)] old have "d \<in> dom (cat w1)" by metis
  from drop_database_ok [OF assms(2) this]
  obtain w' where "sqlExec E db (drop_database_sql d) w1 = (None, w')" by (metis fst_conv surj_pair)
  with r1 have "exec_run E db (map (\<lambda>t. compileTemplate t [d]) deleteDatabaseTemplate) (world s) = (None, w')"
    using assms(2) by (simp add: plain_nameD)
  from withoutTx_run [OF assms(1) run [unfolded DeleteDatabase_def] this] run
  show "fst (DeleteDatabase E p d s) = Ret None" by simp
qed

lemma user_progress_laws:
  assumes "dbClient p = Some db" and "plain_name d" and "plain_name u"
  shows "d \<in> dom (cat (world s)) \<Longrightarrow>
      fst (IsUserCreated E p d u s) = Ret (u \<in> users (cat (world s)) d, None)"
    and "plain_password pw \<Longrightarrow> d \<in> dom (cat (world s)) \<Longrightarrow> u \<notin> users (cat (world s)) d \<Longrightarrow>
      fst (CreateUser E p d u pw s) = Ret None"
    and "u \<in> users (cat (world s)) d \<Longrightarrow> fst (DeleteUser E p d u s) = Ret None"
proof -
  assume old: "d \<in> dom (cat (world s))"
  obtain x s' where run: "IsUserCreated E p d u s = (x, s')" by fastforce
  obtain n w' where r: "sqlQueryRow E db (count_users_sql d u) (world s) = (Inr n, w')"
    using count_users_ok [OF assms(2,3) old] by (metis fst_conv surj_pair)
  then have "sqlQueryRow E db (compileTemplate isUserCreatedTemplate [d, u]) (world s) = (Inr n, w')"
    using assms(2,3) by (simp add: plain_nameD)
  from isCreated_run [OF run [unfolded IsUserCreated_def] assms(1) this]
  show "fst (IsUserCreated E p d u s) = Ret (u \<in> users (cat (world s)) d, None)"
    using count_users [OF assms(2,3) r] run by auto
next
  assume pw: "plain_password pw" and pre: "d \<in> dom (cat (world s))" "u \<notin> users (cat (world s)) d"
  show "fst (CreateUser E p d u pw s) = Ret None"
    unfolding CreateUser_def
  proof (rule transaction_ok [OF assms(1)])
    fix t cur w
    assume "tx w t = Some (cur, cat w)" and "cat w = cat (world s)"
    with create_user_tx_ok [of w t cur "cat w" d u pw] assms(2,3) pw pre
    show "\<exists>w' c. tx_run E t (map (\<lambda>t. compileTemplate t [d, u, pw]) createUserTemplate) w = (None, w') \<and>
        tx w' t = Some c"
      by (simp add: plain_nameD del: tx_run.simps)
  qed
next
  assume pre: "u \<in> users (cat (world s)) d"
  show "fst (DeleteUser E p d u s) = Ret None"
    unfolding DeleteUser_def
  proof (rule transaction_ok [OF assms(1)])
    fix t cur w
    assume "tx w t = Some (cur, cat w)" and "cat w = cat (world s)"
    with drop_user_tx_ok [of w t cur "cat w" d u] assms(2,3) pre
    show "\<exists>w' c. tx_run E t (map (\<lambda>t. compileTemplate t [d, u]) deleteUserTemplate) w = (None, w') \<and>
        tx w' t = Some c"
      by (simp add: plain_nameD del: tx_run.simps)
  qed
qed

end

interpretation live: provisioner_progress
  "\<lambda>s. sql_server E db cat tx builtin \<and> dbClient p = Some db" "\<lambda>s. cat (world s)" builtin
  "IsDatabaseCreated E p" "CreateDatabase E p" "DeleteDatabase E p"
  "IsUserCreated E p" "CreateUser E p" "DeleteUser E p"
  "\<lambda>s. reliable_sql_server E db cat tx builtin \<and> dbClient p = Some db"
  for E :: "'w env" and db cat tx builtin p
  using reliable_sql_server.progress_laws [of E db cat tx builtin p]
    reliable_sql_server.user_progress_laws [of E db cat tx builtin p]
    reliable_sql_server.axioms(1) [of E db cat tx builtin]
  by unfold_locales simp_all

end
