(* ===== verification/Base64.thy ===== *)
theory Base64
  imports Json
begin

text \<open>
  \<open>base64.URLEncoding\<close>, which turns the random bytes of a password into text: the
  URL-safe alphabet, with padding.  A decoder shows that no entropy is lost.
\<close>

definition url_alphabet :: string where
  "url_alphabet = ''ABCDEFGHIJKLMNOPQRSTUVWXYZabcdefghijklmnopqrstuvwxyz0123456789-_''"

definition enc6 :: "nat \<Rightarrow> char" where
  "enc6 n = url_alphabet ! n"

fun URLEncoding :: "string \<Rightarrow> string" where
  "URLEncoding [] = []"
| "URLEncoding [a] =
     [enc6 (byte a div 4), enc6 (byte a mod 4 * 16), CHR ''='', CHR ''='']"
| "URLEncoding [a, b] =
     [enc6 (byte a div 4), enc6 (byte a mod 4 * 16 + byte b div 16), enc6 (byte b mod 16 * 4),
      CHR ''='']"
| "URLEncoding (a # b # c # rest) =
     [enc6 (byte a div 4), enc6 (byte a mod 4 * 16 + byte b div 16),
      enc6 (byte b mod 16 * 4 + byte c div 64), enc6 (byte c mod 64)] @ URLEncoding rest"

fun index_of :: "'a list \<Rightarrow> 'a \<Rightarrow> nat" where
  "index_of [] x = 0"
| "index_of (y # ys) x = (if x = y then 0 else Suc (index_of ys x))"

definition dec6 :: "char \<Rightarrow> nat" where
  "dec6 c = index_of url_alphabet c"

fun URLDecoding :: "string \<Rightarrow> string" where
  "URLDecoding (p # q # r # s # rest) =
     (if r = CHR ''='' then [char_of (dec6 p * 4 + dec6 q div 16)]
      else if s = CHR ''='' then
        [char_of (dec6 p * 4 + dec6 q div 16), char_of (dec6 q mod 16 * 16 + dec6 r div 4)]
      else [char_of (dec6 p * 4 + dec6 q div 16), char_of (dec6 q mod 16 * 16 + dec6 r div 4),
            char_of (dec6 r mod 4 * 64 + dec6 s)] @ URLDecoding rest)"
| "URLDecoding _ = []"

lemma index_of_nth: "distinct xs \<Longrightarrow> i < length xs \<Longrightarrow> index_of xs (xs ! i) = i"
proof (induction xs arbitrary: i)
  case (Cons x xs)
  then show ?case by (cases i) auto
qed simp

lemma length_url_alphabet: "length url_alphabet = 64"
  by (simp add: url_alphabet_def)

lemma distinct_url_alphabet: "distinct url_alphabet"
  by (simp add: url_alphabet_def)

lemma dec6_enc6 [simp]: "n < 64 \<Longrightarrow> dec6 (enc6 n) = n"
  by (simp add: dec6_def enc6_def index_of_nth distinct_url_alphabet length_url_alphabet)

lemma enc6_in_alphabet: "n < 64 \<Longrightarrow> enc6 n \<in> set url_alphabet"
  by (simp add: enc6_def length_url_alphabet)

lemma pad_not_in_alphabet: "CHR ''='' \<notin> set url_alphabet"
  by (simp add: url_alphabet_def)

lemma enc6_not_pad [simp]: "n < 64 \<Longrightarrow> enc6 n \<noteq> CHR ''=''"
  using enc6_in_alphabet pad_not_in_alphabet by metis

lemma byte_bound [simp]: "byte c < 256"
  using of_char_mod_256 [of c, where 'a = nat] by (metis byte_def mod_less_divisor zero_less_numeral)

lemma char_of_byte [simp]: "char_of (byte c) = c"
  by (simp add: byte_def)

lemma six_bits [simp]:
  "byte a div 4 < 64" "byte a mod 4 * 16 < 64" "byte a mod 4 * 16 + byte b div 16 < 64"
  "byte b mod 16 * 4 < 64" "byte b mod 16 * 4 + byte c div 64 < 64" "byte c mod 64 < 64"
  using byte_bound [of a] byte_bound [of b] byte_bound [of c] by linarith+

lemma byte_groups [simp]:
  "byte b div 16 div 16 = 0" "byte b div 16 mod 16 = byte b div 16"
  "byte b div 64 div 4 = 0" "byte b div 64 mod 4 = byte b div 64"
  using byte_bound [of b] by (simp_all add: less_mult_imp_div_less div_less mod_less)

lemma URLDecoding_URLEncoding [simp]: "URLDecoding (URLEncoding s) = s"
  by (induction s rule: URLEncoding.induct) simp_all

lemma length_URLEncoding: "length (URLEncoding s) = 4 * ((length s + 2) div 3)"
  by (induction s rule: URLEncoding.induct) (simp_all, presburger)

lemma URLEncoding_chars: "c \<in> set (URLEncoding s) \<Longrightarrow> c \<in> set url_alphabet \<or> c = CHR ''=''"
  by (induction s rule: URLEncoding.induct) (auto simp: enc6_in_alphabet)

end
