(* ===== verification/Catalog.thy ===== *)
theory Catalog
  imports Json
begin

text \<open>
  The data the broker serves and is configured with: the service catalog and the request
  details of package brokerapi, and the configuration record of package config, with the
  JSON forms in which they are sent and logged.  A nil slice is \<open>None\<close> (it is encoded
  as \<open>null\<close>), and a nil map likewise.
\<close>

record ServicePlanMetadata =
  planMeta_Bullets :: "string list option"
  planMeta_DisplayName :: string

record ServicePlan =
  plan_ID :: string
  plan_Name :: string
  plan_Description :: string
  plan_Metadata :: ServicePlanMetadata

record ServiceMetadataListing =
  listing_Blurb :: string
  listing_ImageUrl :: string

record ServiceMetadataProvider =
  provider_Name :: string

record ServiceMetadata =
  meta_DisplayName :: string
  meta_LongDescription :: string
  meta_DocumentationUrl :: string
  meta_SupportUrl :: string
  meta_Listing :: ServiceMetadataListing
  meta_Provider :: ServiceMetadataProvider

record Service =
  svc_ID :: string
  svc_Name :: string
  svc_Description :: string
  svc_Bindable :: bool
  svc_Plans :: "ServicePlan list option"
  svc_Metadata :: ServiceMetadata
  svc_Tags :: "string list option"

record ServiceDetails =
  details_ID :: string
  details_PlanID :: string
  details_OrganizationGUID :: string
  details_SpaceGUID :: string

record BrokerCredentials =
  cred_Username :: string
  cred_Password :: string

record Config =
  DbIdentifierPrefix :: string
  ListeningAddr :: string
  ConfigLogLevel :: string
  Crednetials :: BrokerCredentials
  ServiceCatalog :: "Service list option"
  BrokerGoSqlDriver :: string
  BrokerMssqlConnection :: "(string \<times> string) list option"
  ServedBindingHostname :: string
  ServedBindingPort :: int

section \<open>JSON forms\<close>

definition json_slice :: "('a \<Rightarrow> json) \<Rightarrow> 'a list option \<Rightarrow> json" where
  "json_slice f xs = (case xs of None \<Rightarrow> JNull | Some ys \<Rightarrow> JArr (map f ys))"

definition planMetadata_json :: "ServicePlanMetadata \<Rightarrow> json" where
  "planMetadata_json m = JObj
     [(''bullets'', json_slice JStr (planMeta_Bullets m)),
      (''displayName'', JStr (planMeta_DisplayName m))]"

definition plan_json :: "ServicePlan \<Rightarrow> json" where
  "plan_json p = JObj
     [(''id'', JStr (plan_ID p)), (''name'', JStr (plan_Name p)),
      (''description'', JStr (plan_Description p)),
      (''metadata'', planMetadata_json (plan_Metadata p))]"

definition listing_json :: "ServiceMetadataListing \<Rightarrow> json" where
  "listing_json l = JObj
     [(''blurb'', JStr (listing_Blurb l)), (''imageUrl'', JStr (listing_ImageUrl l))]"

definition provider_json :: "ServiceMetadataProvider \<Rightarrow> json" where
  "provider_json p = JObj [(''name'', JStr (provider_Name p))]"

definition metadata_json :: "ServiceMetadata \<Rightarrow> json" where
  "metadata_json m = JObj
     [(''displayName'', JStr (meta_DisplayName m)),
      (''longDescription'', JStr (meta_LongDescription m)),
      (''documentationUrl'', JStr (meta_DocumentationUrl m)),
      (''supportUrl'', JStr (meta_SupportUrl m)),
      (''listing'', listing_json (meta_Listing m)),
      (''provider'', provider_json (meta_Provider m))]"

definition service_json :: "Service \<Rightarrow> json" where
  "service_json s = JObj
     [(''id'', JStr (svc_ID s)), (''name'', JStr (svc_Name s)),
      (''description'', JStr (svc_Description s)), (''bindable'', JBool (svc_Bindable s)),
      (''plans'', json_slice plan_json (svc_Plans s)),
      (''metadata'', metadata_json (svc_Metadata s)),
      (''tags'', json_slice JStr (svc_Tags s))]"

definition details_json :: "ServiceDetails \<Rightarrow> json" where
  "details_json d = JObj
     [(''service_id'', JStr (details_ID d)), (''plan_id'', JStr (details_PlanID d)),
      (''organization_guid'', JStr (details_OrganizationGUID d)),
      (''space_guid'', JStr (details_SpaceGUID d))]"

definition credentials_json :: "BrokerCredentials \<Rightarrow> json" where
  "credentials_json c = JObj
     [(''Username'', JStr (cred_Username c)), (''Password'', JStr (cred_Password c))]"

definition string_map_json :: "(string \<times> string) list option \<Rightarrow> json" where
  "string_map_json m =
     (case m of None \<Rightarrow> JNull | Some kvs \<Rightarrow> json_map (map (\<lambda>(k, v). (k, JStr v)) kvs))"

definition config_json :: "Config \<Rightarrow> json" where
  "config_json c = JObj
     [(''dbIdentifierPrefix'', JStr (DbIdentifierPrefix c)),
      (''listeningAddr'', JStr (ListeningAddr c)),
      (''logLevel'', JStr (ConfigLogLevel c)),
      (''brokerCredentials'', credentials_json (Crednetials c)),
      (''serviceCatalog'', json_slice service_json (ServiceCatalog c)),
      (''brokerGoSqlDriver'', JStr (BrokerGoSqlDriver c)),
      (''brokerMssqlConnection'', string_map_json (BrokerMssqlConnection c)),
      (''servedMssqlBindingHostname'', JStr (ServedBindingHostname c)),
      (''servedMssqlBindingPort'', json_int (ServedBindingPort c))]"

end
