(* ===== verification/Credentials.thy ===== *)
theory Credentials
  imports Catalog
begin

text \<open>
  The credentials a binding returns (mssql_binding_credentials.go): the record, its JSON
  form, and the ADO.NET connection string.
\<close>

record MssqlBindingCredentials =
  Hostname :: string
  Host :: string
  Port :: int
  Name :: string
  Username :: string
  Password :: string
  ConnectionString :: string

definition connectionStringTemplate :: string where
  "connectionStringTemplate = ''Address=%[1]v,%[2]v;Database=%[3]v;UID=%[4]v;PWD=%[5]v;''"

definition generateConnectionString ::
  "string \<Rightarrow> int \<Rightarrow> string \<Rightarrow> string \<Rightarrow> string \<Rightarrow> string" where
  "generateConnectionString hostname port databaseName username password =
     Sprintf connectionStringTemplate
       [AStr hostname, AInt port, AStr databaseName, AStr username, AStr password]"

definition binding_json :: "MssqlBindingCredentials \<Rightarrow> json" where
  "binding_json c = JObj
     [(''hostname'', JStr (Hostname c)), (''host'', JStr (Host c)),
      (''port'', json_int (Port c)), (''name'', JStr (Name c)),
      (''username'', JStr (Username c)), (''password'', JStr (Password c)),
      (''connectionString'', JStr (ConnectionString c))]"

lemma generateConnectionString_eq:
  "generateConnectionString h p d u pw =
     ''Address='' @ h @ '','' @ Itoa p @ '';Database='' @ d @ '';UID='' @ u @ '';PWD='' @ pw @ '';''"
  by (simp add: generateConnectionString_def connectionStringTemplate_def Sprintf_eval)

end
