(* ===== verification/Broker.thy ===== *)
theory Broker
  imports ProvisionerSpec Base64 Credentials
begin

text \<open>
  The service broker of package main (mssql_service_broker.go): password generation and
  the five operations of the brokerapi interface.  \<open>cfg\<close> and \<open>p\<close> are the globals
  \<open>brokerConfig\<close> and \<open>mssqlProv\<close>, which \<open>runMain\<close> sets before the first request
  and nothing assigns to afterwards.
\<close>

definition happySqlPasswordPolicySuffix :: string where
  "happySqlPasswordPolicySuffix = ''Aa_0''"

text \<open>\<open>Read\<close> fills the zeroed slice from its start, and cannot write past its end.\<close>

definition fill_slice :: "nat \<Rightarrow> string \<Rightarrow> string" where
  "fill_slice n bytes = take n (bytes @ replicate n (CHR 0x00))"

definition fatal :: "'w env \<Rightarrow> string \<Rightarrow> go_error \<Rightarrow> ('w proc, unit) go" where
  "fatal E action err = readG (\<lambda>s. logger_Fatal E (the_logger s) action (Some err) [])"

definition secureRandomString :: "'w env \<Rightarrow> nat \<Rightarrow> ('w proc, string) go" where
  "secureRandomString E bytesOfEntpry =
     bindG (liftW (randRead E bytesOfEntpry)) (\<lambda>(err, bytes).
       let rb = fill_slice bytesOfEntpry bytes
       in seqG (whenErr err (fatal E ''rng-failure''))
            (ret (URLEncoding rb)))"

definition log_call :: "'w env \<Rightarrow> string \<Rightarrow> Data list \<Rightarrow> ('w proc, unit) go" where
  "log_call E action data = readG (\<lambda>s. logger_Info E (the_logger s) action data)"

definition Services :: "'w env \<Rightarrow> Config \<Rightarrow> ('w proc, Service list option) go" where
  "Services E cfg = seqG (log_call E ''catalog-called'' []) (ret (ServiceCatalog cfg))"

definition Provision ::
  "'w env \<Rightarrow> Config \<Rightarrow> MssqlProvisioner \<Rightarrow> string \<Rightarrow> ServiceDetails
     \<Rightarrow> ('w proc, go_error option) go" where
  "Provision E cfg p instanceID serviceDetails =
     seqG (log_call E ''provision-called''
             [[(''instanceId'', JStr instanceID), (''serviceDetails'', details_json serviceDetails)]])
     (let databaseName = DbIdentifierPrefix cfg @ instanceID
      in bindG (IsDatabaseCreated E p databaseName) (\<lambda>(exist, err).
         seqG (whenErr err (fatal E ''provisioner-error''))
         (if exist then ret (Some ErrInstanceAlreadyExists)
          else bindG (CreateDatabase E p databaseName) (\<lambda>err.
               seqG (whenErr err (fatal E ''provisioner-error''))
               (ret None)))))"

definition Deprovision ::
  "'w env \<Rightarrow> Config \<Rightarrow> MssqlProvisioner \<Rightarrow> string \<Rightarrow> ('w proc, go_error option) go" where
  "Deprovision E cfg p instanceID =
     seqG (log_call E ''deprovision-called'' [[(''instanceId'', JStr instanceID)]])
     (let databaseName = DbIdentifierPrefix cfg @ instanceID
      in bindG (IsDatabaseCreated E p databaseName) (\<lambda>(exist, err).
         seqG (whenErr err (fatal E ''provisioner-error''))
         (if \<not> exist then ret (Some ErrInstanceDoesNotExist)
          else bindG (DeleteDatabase E p databaseName) (\<lambda>err.
               seqG (whenErr err (fatal E ''provisioner-error''))
               (ret None)))))"

definition Bind ::
  "'w env \<Rightarrow> Config \<Rightarrow> MssqlProvisioner \<Rightarrow> string \<Rightarrow> string
     \<Rightarrow> ('w proc, MssqlBindingCredentials option \<times> go_error option) go" where
  "Bind E cfg p instanceID bindingID =
     seqG (log_call E ''bind-called''
             [[(''instanceId'', JStr instanceID), (''bindingId'', JStr bindingID)]])
     (let databaseName = DbIdentifierPrefix cfg @ instanceID;
          username = databaseName @ ''-'' @ bindingID
      in bindG (secureRandomString E 32) (\<lambda>random.
         let password = random @ happySqlPasswordPolicySuffix
         in bindG (IsDatabaseCreated E p databaseName) (\<lambda>(exist, err).
            seqG (whenErr err (fatal E ''provisioner-error''))
            (if \<not> exist then ret (None, Some ErrInstanceDoesNotExist)
             else bindG (IsUserCreated E p databaseName username) (\<lambda>(exist, err).
                  seqG (whenErr err (fatal E ''provisioner-error''))
                  (if exist then ret (None, Some ErrBindingAlreadyExists)
                   else bindG (CreateUser E p databaseName username password) (\<lambda>err.
                        seqG (whenErr err (fatal E ''provisioner-error''))
                        (let bindingInfo =
                           \<lparr>Hostname = ServedBindingHostname cfg,
                            Host = ServedBindingHostname cfg,
                            Port = ServedBindingPort cfg,
                            Name = databaseName,
                            Username = username,
                            Password = password,
                            ConnectionString =
                              generateConnectionString (ServedBindingHostname cfg)
                                (ServedBindingPort cfg) databaseName username password\<rparr>
                         in ret (Some bindingInfo, None)))))))))"

definition Unbind ::
  "'w env \<Rightarrow> Config \<Rightarrow> MssqlProvisioner \<Rightarrow> string \<Rightarrow> string
     \<Rightarrow> ('w proc, go_error option) go" where
  "Unbind E cfg p instanceID bindingID =
     seqG (log_call E ''unbind-called''
             [[(''instanceId'', JStr instanceID), (''bindingId'', JStr bindingID)]])
     (let databaseName = DbIdentifierPrefix cfg @ instanceID;
          username = databaseName @ ''-'' @ bindingID
      in bindG (IsDatabaseCreated E p databaseName) (\<lambda>(exist, err).
         seqG (whenErr err (fatal E ''provisioner-error''))
         (if \<not> exist then ret (Some ErrInstanceDoesNotExist)
          else bindG (IsUserCreated E p databaseName username) (\<lambda>(exist, err).
               seqG (whenErr err (fatal E ''provisioner-error''))
               (if \<not> exist then ret (Some ErrBindingAlreadyExists)
                else bindG (DeleteUser E p databaseName username) (\<lambda>err.
                     seqG (whenErr err (fatal E ''provisioner-error''))
                     (ret None)))))))"

end
