(* ===== verification/ClientSpec.thy ===== *)
theory ClientSpec
  imports Broker
begin

text \<open>
  What a client that checks before it acts makes of the provisioner's contract.  The
  locale \<open>provisioner_client\<close> proves the four flows of the broker over any provisioner
  and any way to abort; \<open>live_client\<close> adds that on a live server they do not abort.
  Both are interpreted on the model of package provisioner and the broker's \<open>fatal\<close>.
\<close>

section \<open>Check, then act\<close>

locale provisioner_client = provisioner_contract +
  fixes abort :: "go_error \<Rightarrow> ('a, unit) go"
  assumes abort:
    "invar s \<Longrightarrow> abort e s = (x, t) \<Longrightarrow> (\<exists>v. x = Panicked v) \<and> invar t \<and> cat t = cat s"
begin

lemma guarded_isDb:
  assumes "invar s" and "plain_name d"
    and "bindG (isDb d) (\<lambda>(exist, err). seqG (whenErr err abort) (k exist)) s = (x, t)"
  obtains (crash) "\<exists>v. x = Panicked v" "invar t" "cat t = cat s"
    | (found) u where "invar u" "cat u = cat s" "k (d \<in> dom (cat s)) u = (x, t)"
proof -
  obtain y u where r: "isDb d s = (y, u)" by fastforce
  with isDb [OF assms(1,2)] obtain b err where y: "y = Ret (b, err)"
    and u: "invar u" "cat u = cat s" and b: "err = None \<Longrightarrow> b = (d \<in> dom (cat s))" by blast
  show thesis
  proof (cases err)
    case None
    with y u b r assms(3) show thesis by (intro found) (auto simp: go_simps)
  next
    case (Some e)
    obtain z t' where a: "abort e u = (z, t')" by fastforce
    with abort [OF u(1) a] Some y u r assms(3) show thesis
      by (intro crash) (auto simp: go_simps)
  qed
qed

lemma guarded_isUser:
  assumes "invar s" and "plain_name d" and "plain_name n"
    and "bindG (isUser d n) (\<lambda>(exist, err). seqG (whenErr err abort) (k exist)) s = (x, t)"
  obtains (crash) "\<exists>v. x = Panicked v" "invar t" "cat t = cat s"
    | (found) u where "invar u" "cat u = cat s" "k (n \<in> users (cat s) d) u = (x, t)"
proof -
  obtain y u where r: "isUser d n s = (y, u)" by fastforce
  with isUser [OF assms(1-3)] obtain b err where y: "y = Ret (b, err)"
    and u: "invar u" "cat u = cat s" and b: "err = None \<Longrightarrow> b = (n \<in> users (cat s) d)" by blast
  show thesis
  proof (cases err)
    case None
    with y u b r assms(4) show thesis by (intro found) (auto simp: go_simps)
  next
    case (Some e)
    obtain z t' where a: "abort e u = (z, t')" by fastforce
    with abort [OF u(1) a] Some y u r assms(4) show thesis
      by (intro crash) (auto simp: go_simps)
  qed
qed

text \<open>An action whose error aborts: the catalog is old or new, and it is new on return.\<close>

lemma guarded_action:
  assumes inv: "invar s"
    and act: "\<And>y u. act s = (y, u) \<Longrightarrow> invar u \<and> (y = Ret None \<longrightarrow> P \<and> cat u = c) \<and>
       (y \<noteq> Ret None \<longrightarrow> cat u = cat s \<or> P \<and> cat u = c)"
    and run: "bindG act (\<lambda>err. seqG (whenErr err abort) (ret z)) s = (x, t)"
  shows "invar t \<and> (x = Ret z \<and> P \<and> cat t = c \<or>
     (\<exists>v. x = Panicked v) \<and> (cat t = cat s \<or> P \<and> cat t = c))"
proof -
  obtain y u where r: "act s = (y, u)" by fastforce
  note law = act [OF r]
  show ?thesis
  proof (cases y)
    case (Panicked v)
    with r law run show ?thesis by (auto simp: go_simps)
  next
    case (Ret err)
    show ?thesis
    proof (cases err)
      case None
      with Ret r law run show ?thesis by (auto simp: go_simps)
    next
      case (Some e)
      obtain z' t' where a: "abort e u = (z', t')" by fastforce
      with abort [OF _ a] Some Ret r law run show ?thesis by (auto simp: go_simps)
    qed
  qed
qed

lemma provision_flow:
  assumes "invar s" and "plain_name d"
    and "bindG (isDb d) (\<lambda>(exist, err). seqG (whenErr err abort)
      (if exist then ret (Some e)
       else bindG (createDb d) (\<lambda>err. seqG (whenErr err abort) (ret None)))) s = (x, t)"
  shows "invar t \<and>
    (d \<in> dom (cat s) \<and> x = Ret (Some e) \<and> cat t = cat s \<or>
     d \<notin> dom (cat s) \<and> x = Ret None \<and> cat t = add_database builtin d (cat s) \<or>
     (\<exists>v. x = Panicked v) \<and> (cat t = cat s \<or> d \<notin> dom (cat s) \<and> cat t = add_database builtin d (cat s)))"
  using assms(1-3)
proof (cases rule: guarded_isDb)
  case (found u)
  show ?thesis
  proof (cases "d \<in> dom (cat s)")
    case True
    with found show ?thesis by simp
  next
    case False
    with found have "bindG (createDb d) (\<lambda>err. seqG (whenErr err abort) (ret None)) u = (x, t)" by simp
    from guarded_action [OF found(1) _ this, of "d \<notin> dom (cat u)" "add_database builtin d (cat u)"]
      createDb [OF found(1) assms(2)] found(2) False show ?thesis by fastforce
  qed
qed auto

lemma deprovision_flow:
  assumes "invar s" and "plain_name d"
    and "bindG (isDb d) (\<lambda>(exist, err). seqG (whenErr err abort)
      (if \<not> exist then ret (Some e)
       else bindG (deleteDb d) (\<lambda>err. seqG (whenErr err abort) (ret None)))) s = (x, t)"
  shows "invar t \<and>
    (d \<notin> dom (cat s) \<and> x = Ret (Some e) \<and> cat t = cat s \<or>
     d \<in> dom (cat s) \<and> x = Ret None \<and> cat t = remove_database d (cat s) \<or>
     (\<exists>v. x = Panicked v) \<and> (cat t = cat s \<or> cat t = remove_database d (cat s)))"
  using assms(1-3)
proof (cases rule: guarded_isDb)
  case (found u)
  show ?thesis
  proof (cases "d \<in> dom (cat s)")
    case False
    with found show ?thesis by simp
  next
    case True
    with found have "bindG (deleteDb d) (\<lambda>err. seqG (whenErr err abort) (ret None)) u = (x, t)" by simp
    from guarded_action [OF found(1) _ this, of True "remove_database d (cat u)"]
      deleteDb [OF found(1) assms(2)] found(2) True show ?thesis by fastforce
  qed
qed auto

lemma createUser_act:
  assumes "invar s" and "plain_name d" and "plain_name n" and "plain_password pw"
    and "createUser d n pw s = (y, u)"
  shows "invar u \<and>
    (y = Ret None \<longrightarrow> (d \<in> dom (cat s) \<and> n \<notin> users (cat s) d) \<and>
       cat u = put_principal d n (Some pw, True) (cat s)) \<and>
    (y \<noteq> Ret None \<longrightarrow> cat u = cat s \<or> (d \<in> dom (cat s) \<and> n \<notin> users (cat s) d) \<and>
       cat u = put_principal d n (Some pw, True) (cat s))"
  using createUser [OF assms] by blast

lemma bind_flow:
  assumes "invar s" and "plain_name d" and "plain_name n" and "plain_password pw"
    and "bindG (isDb d) (\<lambda>(exist, err). seqG (whenErr err abort)
      (if \<not> exist then ret (None, Some e1)
       else bindG (isUser d n) (\<lambda>(exist, err). seqG (whenErr err abort)
         (if exist then ret (None, Some e2)
          else bindG (createUser d n pw) (\<lambda>err. seqG (whenErr err abort) (ret z)))))) s = (x, t)"
  shows "invar t \<and>
    (d \<notin> dom (cat s) \<and> x = Ret (None, Some e1) \<and> cat t = cat s \<or>
     n \<in> users (cat s) d \<and> x = Ret (None, Some e2) \<and> cat t = cat s \<or>
     d \<in> dom (cat s) \<and> n \<notin> users (cat s) d \<and> x = Ret z \<and>
       cat t = put_principal d n (Some pw, True) (cat s) \<or>
     (\<exists>v. x = Panicked v) \<and> (cat t = cat s \<or>
       d \<in> dom (cat s) \<and> n \<notin> users (cat s) d \<and> cat t = put_principal d n (Some pw, True) (cat s)))"
  using assms(1,2,5)
proof (cases rule: guarded_isDb)
  case (found u)
  show ?thesis
  proof (cases "d \<in> dom (cat s)")
    case False
    with found show ?thesis by simp
  next
    case True
    with found have "bindG (isUser d n) (\<lambda>(exist, err). seqG (whenErr err abort)
         (if exist then ret (None, Some e2)
          else bindG (createUser d n pw) (\<lambda>err. seqG (whenErr err abort) (ret z)))) u = (x, t)" by simp
    with found(1) assms(2,3) show ?thesis
    proof (cases rule: guarded_isUser)
      case (found u')
      note u = \<open>invar u\<close> \<open>cat u = cat s\<close>
      show ?thesis
      proof (cases "n \<in> users (cat u) d")
        case True
        with found u show ?thesis by simp
      next
        case False
        with found have "bindG (createUser d n pw) (\<lambda>err. seqG (whenErr err abort) (ret z)) u' = (x, t)"
          by simp
        from guarded_action [OF found(1) createUser_act [OF found(1) assms(2-4)] this]
          found(2) u(2) False True show ?thesis by simp
      qed
    qed (use found in auto)
  qed
qed auto

lemma unbind_flow:
  assumes "invar s" and "plain_name d" and "plain_name n"
    and "bindG (isDb d) (\<lambda>(exist, err). seqG (whenErr err abort)
      (if \<not> exist then ret (Some e1)
       else bindG (isUser d n) (\<lambda>(exist, err). seqG (whenErr err abort)
         (if \<not> exist then ret (Some e2)
          else bindG (deleteUser d n) (\<lambda>err. seqG (whenErr err abort) (ret None)))))) s = (x, t)"
  shows "invar t \<and>
    (d \<notin> dom (cat s) \<and> x = Ret (Some e1) \<and> cat t = cat s \<or>
     d \<in> dom (cat s) \<and> n \<notin> users (cat s) d \<and> x = Ret (Some e2) \<and> cat t = cat s \<or>
     n \<in> users (cat s) d \<and> x = Ret None \<and> cat t = remove_user d n (cat s) \<or>
     (\<exists>v. x = Panicked v) \<and> (cat t = cat s \<or> cat t = remove_user d n (cat s)))"
  using assms(1,2,4)
proof (cases rule: guarded_isDb)
  case (found u)
  show ?thesis
  proof (cases "d \<in> dom (cat s)")
    case False
    with found show ?thesis by simp
  next
    case True
    with found have "bindG (isUser d n) (\<lambda>(exist, err). seqG (whenErr err abort)
         (if \<not> exist then ret (Some e2)
          else bindG (deleteUser d n) (\<lambda>err. seqG (whenErr err abort) (ret None)))) u = (x, t)" by simp
    with found(1) assms(2,3) show ?thesis
    proof (cases rule: guarded_isUser)
      case (found u')
      note u = \<open>invar u\<close> \<open>cat u = cat s\<close>
      show ?thesis
      proof (cases "n \<in> users (cat u) d")
        case False
        with found u True show ?thesis by simp
      next
        case True
        with found have "bindG (deleteUser d n) (\<lambda>err. seqG (whenErr err abort) (ret None)) u' = (x, t)"
          by simp
        from guarded_action [OF found(1) _ this, of "n \<in> users (cat u') d" "remove_user d n (cat u')"]
          deleteUser [OF found(1) assms(2,3)] found(2) u(2) True show ?thesis by fastforce
      qed
    qed (use found in auto)
  qed
qed auto

end

locale live_client = provisioner_client + provisioner_progress
begin

text \<open>On a live state the checks answer and the actions whose precondition they found succeed.\<close>

lemma live_found:
  assumes "live s" and "plain_name d"
    and "bindG (isDb d) (\<lambda>(exist, err). seqG (whenErr err abort) (k exist)) s = (x, t)"
  obtains u where "live u" "cat u = cat s" "k (d \<in> dom (cat s)) u = (x, t)"
proof -
  obtain u where u: "isDb d s = (Ret (d \<in> dom (cat s), None), u)"
    using isDb_ok [OF assms(1,2)] by (metis prod.collapse)
  with live_isDb [OF assms(1,2)] isDb [OF live_invar [OF assms(1)] assms(2) u] assms(3)
  show thesis by (intro that [of u]) (auto simp: go_simps)
qed

lemma live_found_user:
  assumes "live s" and "plain_name d" and "plain_name n" and "d \<in> dom (cat s)"
    and "bindG (isUser d n) (\<lambda>(exist, err). seqG (whenErr err abort) (k exist)) s = (x, t)"
  obtains u where "live u" "cat u = cat s" "k (n \<in> users (cat s) d) u = (x, t)"
proof -
  obtain u where u: "isUser d n s = (Ret (n \<in> users (cat s) d, None), u)"
    using isUser_ok [OF assms(1-4)] by (metis prod.collapse)
  with live_isUser [OF assms(1-3)] isUser [OF live_invar [OF assms(1)] assms(2,3) u] assms(5)
  show thesis by (intro that [of u]) (auto simp: go_simps)
qed

lemma live_action:
  assumes "fst (act s) = Ret None"
    and "bindG act (\<lambda>err. seqG (whenErr err abort) (ret z)) s = (x, t)"
  shows "x = Ret z"
  using assms by (auto simp: go_simps split: prod.splits)

lemma live_branch:
  assumes "(if b then ret y else bindG act (\<lambda>err. seqG (whenErr err abort) (ret z))) s = (x, t)"
    and "\<not> b \<Longrightarrow> fst (act s) = Ret None"
  shows "\<exists>r. x = Ret r"
proof (cases b)
  case True
  with assms(1) show ?thesis by auto
next
  case False
  with assms have "x = Ret z" by (intro live_action [of act s z x t]) simp_all
  then show ?thesis by blast
qed

lemma provision_live:
  assumes "live s" and "plain_name d"
    and "bindG (isDb d) (\<lambda>(exist, err). seqG (whenErr err abort)
      (if exist then ret (Some e)
       else bindG (createDb d) (\<lambda>err. seqG (whenErr err abort) (ret None)))) s = (x, t)"
  shows "\<exists>r. x = Ret r"
  using assms
proof (rule live_found)
  fix u
  assume u: "live u" "cat u = cat s"
    "(if d \<in> dom (cat s) then ret (Some e)
      else bindG (createDb d) (\<lambda>err. seqG (whenErr err abort) (ret None))) u = (x, t)"
  from live_branch [OF u(3)] createDb_ok [OF u(1) assms(2)] u(2) show ?thesis by simp
qed

lemma deprovision_live:
  assumes "live s" and "plain_name d"
    and "bindG (isDb d) (\<lambda>(exist, err). seqG (whenErr err abort)
      (if \<not> exist then ret (Some e)
       else bindG (deleteDb d) (\<lambda>err. seqG (whenErr err abort) (ret None)))) s = (x, t)"
  shows "\<exists>r. x = Ret r"
  using assms
proof (rule live_found)
  fix u
  assume u: "live u" "cat u = cat s"
    "(if \<not> d \<in> dom (cat s) then ret (Some e)
      else bindG (deleteDb d) (\<lambda>err. seqG (whenErr err abort) (ret None))) u = (x, t)"
  from live_branch [OF u(3)] deleteDb_ok [OF u(1) assms(2)] u(2) show ?thesis by simp
qed

lemma bind_live:
  assumes "live s" and "plain_name d" and "plain_name n" and "plain_password pw"
    and "bindG (isDb d) (\<lambda>(exist, err). seqG (whenErr err abort)
      (if \<not> exist then ret (None, Some e1)
       else bindG (isUser d n) (\<lambda>(exist, err). seqG (whenErr err abort)
         (if exist then ret (None, Some e2)
          else bindG (createUser d n pw) (\<lambda>err. seqG (whenErr err abort) (ret z)))))) s = (x, t)"
  shows "\<exists>r. x = Ret r"
  using assms(1,2,5)
proof (rule live_found)
  fix u
  assume u: "live u" "cat u = cat s" and k: "(if \<not> d \<in> dom (cat s) then ret (None, Some e1)
     else bindG (isUser d n) (\<lambda>(exist, err). seqG (whenErr err abort)
       (if exist then ret (None, Some e2)
        else bindG (createUser d n pw) (\<lambda>err. seqG (whenErr err abort) (ret z))))) u = (x, t)"
  show ?thesis
  proof (cases "d \<in> dom (cat u)")
    case False
    with u k show ?thesis by auto
  next
    case True
    with u k have "bindG (isUser d n) (\<lambda>(exist, err). seqG (whenErr err abort)
       (if exist then ret (None, Some e2)
        else bindG (createUser d n pw) (\<lambda>err. seqG (whenErr err abort) (ret z)))) u = (x, t)" by simp
    with u(1) assms(2,3) True show ?thesis
    proof (rule live_found_user)
      fix u'
      assume u': "live u'" "cat u' = cat u" "(if n \<in> users (cat u) d then ret (None, Some e2)
        else bindG (createUser d n pw) (\<lambda>err. seqG (whenErr err abort) (ret z))) u' = (x, t)"
      from live_branch [OF u'(3)] createUser_ok [OF u'(1) assms(2-4)] u'(2) True
      show ?thesis by simp
    qed
  qed
qed

lemma unbind_live:
  assumes "live s" and "plain_name d" and "plain_name n"
    and "bindG (isDb d) (\<lambda>(exist, err). seqG (whenErr err abort)
      (if \<not> exist then ret (Some e1)
       else bindG (isUser d n) (\<lambda>(exist, err). seqG (whenErr err abort)
         (if \<not> exist then ret (Some e2)
          else bindG (deleteUser d n) (\<lambda>err. seqG (whenErr err abort) (ret None)))))) s = (x, t)"
  shows "\<exists>r. x = Ret r"
  using assms(1,2,4)
proof (rule live_found)
  fix u
  assume u: "live u" "cat u = cat s" and k: "(if \<not> d \<in> dom (cat s) then ret (Some e1)
     else bindG (isUser d n) (\<lambda>(exist, err). seqG (whenErr err abort)
       (if \<not> exist then ret (Some e2)
        else bindG (deleteUser d n) (\<lambda>err. seqG (whenErr err abort) (ret None))))) u = (x, t)"
  show ?thesis
  proof (cases "d \<in> dom (cat u)")
    case False
    with u k show ?thesis by auto
  next
    case True
    with u k have "bindG (isUser d n) (\<lambda>(exist, err). seqG (whenErr err abort)
       (if \<not> exist then ret (Some e2)
        else bindG (deleteUser d n) (\<lambda>err. seqG (whenErr err abort) (ret None)))) u = (x, t)" by simp
    with u(1) assms(2,3) True show ?thesis
    proof (rule live_found_user)
      fix u'
      assume u': "live u'" "cat u' = cat u" "(if \<not> n \<in> users (cat u) d then ret (Some e2)
        else bindG (deleteUser d n) (\<lambda>err. seqG (whenErr err abort) (ret None))) u' = (x, t)"
      from live_branch [OF u'(3)] deleteUser_ok [OF u'(1) assms(2,3)] u'(2)
      show ?thesis by simp
    qed
  qed
qed

end

section \<open>The broker as the client\<close>

lemma fatal_run:
  assumes "fatal E action e s = (x, t)"
  shows "x = Panicked (PanicError (Some e)) \<and> world t = world s"
proof -
  have "logger_Fatal E (the_logger s) action (Some e) [] s = (x, t)"
    using assms by (simp add: fatal_def)
  then show ?thesis
    by (metis fst_conv snd_conv logger_Fatal_outcome logger_Fatal_frame(1))
qed

interpretation client: live_client
  "\<lambda>s. sql_server E db cat tx builtin \<and> dbClient p = Some db" "\<lambda>s. cat (world s)" builtin
  "IsDatabaseCreated E p" "CreateDatabase E p" "DeleteDatabase E p"
  "IsUserCreated E p" "CreateUser E p" "DeleteUser E p"
  "fatal E ''provisioner-error''"
  "\<lambda>s. reliable_sql_server E db cat tx builtin \<and> dbClient p = Some db"
  for E :: "'w env" and db cat tx builtin p
  by unfold_locales (auto dest: fatal_run)

end
