(* ===== verification/BrokerSpec.thy ===== *)
theory BrokerSpec
  imports ClientSpec
begin

text \<open>
  What the broker's five calls do: to the server's catalog (\<open>catalog_step\<close>) and, seen
  from Cloud Foundry, to the service instances and their bindings (\<open>broker_spec\<close>).  Each
  call of the model either makes its specified step or crashes with the catalog before or
  after that step; on a reliable server it does not crash.
\<close>

section \<open>Passwords\<close>

lemma url_alphabet_plain:
  "c \<in> set url_alphabet \<or> c = CHR ''='' \<Longrightarrow> c \<noteq> CHR 0x27 \<and> c \<noteq> CHR ''%'' \<and> c \<noteq> CHR '';''"
  by (auto simp: url_alphabet_def)

lemma password_chars:
  assumes "c \<in> set (URLEncoding r @ happySqlPasswordPolicySuffix)"
  shows "c \<noteq> CHR 0x27 \<and> c \<noteq> CHR ''%'' \<and> c \<noteq> CHR '';''"
  using assms URLEncoding_chars url_alphabet_plain
  by (auto simp: happySqlPasswordPolicySuffix_def)

lemma length_fill_slice [simp]: "length (fill_slice n bytes) = n"
  by (simp add: fill_slice_def)

lemma password_length:
  "length (URLEncoding (fill_slice 32 bytes) @ happySqlPasswordPolicySuffix) = 48"
  by (simp add: length_URLEncoding happySqlPasswordPolicySuffix_def)

lemma plain_password_generated:
  "plain_password (URLEncoding (fill_slice 32 bytes) @ happySqlPasswordPolicySuffix)"
proof -
  let ?p = "URLEncoding (fill_slice 32 bytes) @ happySqlPasswordPolicySuffix"
  have "CHR ''%'' \<notin> set ?p" and "CHR 0x27 \<notin> set ?p" using password_chars by blast+
  moreover have "?p \<noteq> []" by (simp add: happySqlPasswordPolicySuffix_def)
  ultimately show ?thesis
    using password_length [of bytes]
    by (simp add: plain_password_def no_marker_def not_sublist_char [of "CHR ''%''"] extra_marker_def)
qed

section \<open>Seeing through the logging and the random source\<close>

lemma log_call_run [go_simps]:
  "log_call E action data s = (Ret (), log_all (the_logger s) INFO
     (log_format E (the_logger s) INFO action (baseData (the_logger s) data) s) s)"
  by (simp add: log_call_def go_simps)

lemma after_log_call:
  assumes "seqG (log_call E action data) k s = (x, t)"
  obtains u where "world u = world s" and "the_logger u = the_logger s" and "k u = (x, t)"
proof -
  let ?u = "log_all (the_logger s) INFO
    (log_format E (the_logger s) INFO action (baseData (the_logger s) data) s) s"
  show thesis by (rule that [of ?u]) (use assms in \<open>simp_all add: go_simps\<close>)
qed

lemma after_random:
  assumes "bindG (secureRandomString E n) k s = (x, t)"
    and "randRead E n (world s) = ((err, bytes), w)"
  obtains (crash) e where "err = Some e" "x = Panicked (PanicError (Some e))" "world t = w"
    | (filled) u where "err = None" "world u = w" "k (URLEncoding (fill_slice n bytes)) u = (x, t)"
proof (cases err)
  case None
  with assms show thesis by (intro filled) (auto simp: secureRandomString_def go_simps Let_def)
next
  case (Some e)
  obtain y u where f: "fatal E ''rng-failure'' e (s\<lparr>world := w\<rparr>) = (y, u)" by fastforce
  from fatal_run [OF f] f Some assms show thesis
    by (intro crash) (auto simp: secureRandomString_def go_simps Let_def)
qed

section \<open>The abstract broker\<close>

text \<open>
  What Cloud Foundry sees of the broker: the service instances, and the bindings of each.
  \<open>broker_spec\<close> is one call on it: the error the call returns, and the instances after.
\<close>

type_synonym instances = "string \<rightharpoonup> string set"

datatype broker_call =
    CallProvision string ServiceDetails
  | CallDeprovision string
  | CallBind string string
  | CallUnbind string string

fun broker_spec :: "broker_call \<Rightarrow> instances \<Rightarrow> go_error option \<times> instances" where
  "broker_spec (CallProvision i _) m =
     (if i \<in> dom m then (Some ErrInstanceAlreadyExists, m) else (None, m(i \<mapsto> {})))"
| "broker_spec (CallDeprovision i) m =
     (if i \<in> dom m then (None, m(i := None)) else (Some ErrInstanceDoesNotExist, m))"
| "broker_spec (CallBind i b) m =
     (case m i of
        None \<Rightarrow> (Some ErrInstanceDoesNotExist, m)
      | Some bs \<Rightarrow> if b \<in> bs then (Some ErrBindingAlreadyExists, m)
                  else (None, m(i \<mapsto> insert b bs)))"
| "broker_spec (CallUnbind i b) m =
     (case m i of
        None \<Rightarrow> (Some ErrInstanceDoesNotExist, m)
      | Some bs \<Rightarrow> if b \<in> bs then (None, m(i \<mapsto> bs - {b}))
                  else (Some ErrBindingAlreadyExists, m))"

definition database_of :: "Config \<Rightarrow> string \<Rightarrow> string" where
  "database_of cfg i = DbIdentifierPrefix cfg @ i"

definition user_of :: "Config \<Rightarrow> string \<Rightarrow> string \<Rightarrow> string" where
  "user_of cfg i b = database_of cfg i @ ''-'' @ b"

definition instances_of :: "Config \<Rightarrow> catalog \<Rightarrow> instances" where
  "instances_of cfg c =
     (\<lambda>i. map_option (\<lambda>m. {b. user_of cfg i b \<in> dom m}) (c (database_of cfg i)))"

lemma database_of_inject [simp]: "database_of cfg i = database_of cfg j \<longleftrightarrow> i = j"
  by (simp add: database_of_def)

lemma user_of_inject [simp]: "user_of cfg i b = user_of cfg i b' \<longleftrightarrow> b = b'"
  by (simp add: user_of_def)

lemma instances_of_dom: "i \<in> dom (instances_of cfg c) \<longleftrightarrow> database_of cfg i \<in> dom c"
  by (simp add: instances_of_def dom_def)

lemma instances_of_bindings:
  "b \<in> the (instances_of cfg c i) \<longleftrightarrow> user_of cfg i b \<in> users c (database_of cfg i)"
  if "database_of cfg i \<in> dom c"
  using that by (auto simp: instances_of_def users_def)

text \<open>The principals a new database has: none of them is named like a user of the broker.\<close>

definition builtin_names :: "(string \<rightharpoonup> principal) \<Rightarrow> bool" where
  "builtin_names builtin \<longleftrightarrow> (\<forall>u \<in> dom builtin. CHR ''-'' \<notin> set u)"

lemma builtin_names_user: "builtin_names builtin \<Longrightarrow> builtin (user_of cfg i b) = None"
  by (rule ccontr) (auto simp: builtin_names_def user_of_def dest!: bspec [of _ _ "user_of cfg i b"])

lemma instances_add:
  "builtin_names builtin \<Longrightarrow>
   instances_of cfg (add_database builtin (database_of cfg i) c) = (instances_of cfg c)(i \<mapsto> {})"
  by (rule ext) (simp add: instances_of_def add_database_def domIff builtin_names_user)

lemma instances_remove:
  "instances_of cfg (remove_database (database_of cfg i) c) = (instances_of cfg c)(i := None)"
  by (rule ext) (auto simp: instances_of_def remove_database_def)

lemma instances_put:
  "c (database_of cfg i) = Some m \<Longrightarrow>
   instances_of cfg (put_principal (database_of cfg i) (user_of cfg i b) e c)
     = (instances_of cfg c)(i \<mapsto> insert b (the (instances_of cfg c i)))"
  by (rule ext) (auto simp: instances_of_def put_principal_def)

lemma instances_remove_user:
  "c (database_of cfg i) = Some m \<Longrightarrow>
   instances_of cfg (remove_user (database_of cfg i) (user_of cfg i b) c)
     = (instances_of cfg c)(i \<mapsto> the (instances_of cfg c i) - {b})"
  by (rule ext) (auto simp: instances_of_def remove_user_def)


text \<open>The same calls on the server's catalog, where a binding has a password.\<close>

fun catalog_step ::
  "Config \<Rightarrow> (string \<rightharpoonup> principal) \<Rightarrow> string \<Rightarrow> broker_call \<Rightarrow> catalog \<Rightarrow> go_error option \<times> catalog" where
  "catalog_step cfg builtin pw (CallProvision i _) c =
     (if database_of cfg i \<in> dom c then (Some ErrInstanceAlreadyExists, c)
      else (None, add_database builtin (database_of cfg i) c))"
| "catalog_step cfg builtin pw (CallDeprovision i) c =
     (if database_of cfg i \<in> dom c then (None, remove_database (database_of cfg i) c)
      else (Some ErrInstanceDoesNotExist, c))"
| "catalog_step cfg builtin pw (CallBind i b) c =
     (if database_of cfg i \<notin> dom c then (Some ErrInstanceDoesNotExist, c)
      else if user_of cfg i b \<in> users c (database_of cfg i) then (Some ErrBindingAlreadyExists, c)
      else (None, put_principal (database_of cfg i) (user_of cfg i b) (Some pw, True) c))"
| "catalog_step cfg builtin pw (CallUnbind i b) c =
     (if database_of cfg i \<notin> dom c then (Some ErrInstanceDoesNotExist, c)
      else if user_of cfg i b \<notin> users c (database_of cfg i) then (Some ErrBindingAlreadyExists, c)
      else (None, remove_user (database_of cfg i) (user_of cfg i b) c))"

lemma catalog_step_refines:
  assumes "builtin_names builtin"
  shows "fst (catalog_step cfg builtin pw call c) = fst (broker_spec call (instances_of cfg c))"
    and "instances_of cfg (snd (catalog_step cfg builtin pw call c))
       = snd (broker_spec call (instances_of cfg c))"
proof -
  have "fst (catalog_step cfg builtin pw call c) = fst (broker_spec call (instances_of cfg c)) \<and>
    instances_of cfg (snd (catalog_step cfg builtin pw call c))
       = snd (broker_spec call (instances_of cfg c))"
  proof (cases call)
    case (CallProvision i d)
    then show ?thesis by (simp add: instances_of_dom instances_add [OF assms])
  next
    case (CallDeprovision i)
    then show ?thesis by (simp add: instances_of_dom instances_remove)
  next
    case (CallBind i b)
    show ?thesis
    proof (cases "c (database_of cfg i)")
      case None
      with CallBind show ?thesis by (simp add: instances_of_def domIff)
    next
      case (Some m)
      with CallBind instances_put [where cfg = cfg and i = i and c = c, OF Some] show ?thesis
        by (auto simp: domIff users_def) (auto simp: instances_of_def)
    qed
  next
    case (CallUnbind i b)
    show ?thesis
    proof (cases "c (database_of cfg i)")
      case None
      with CallUnbind show ?thesis by (simp add: instances_of_def domIff)
    next
      case (Some m)
      with CallUnbind instances_remove_user [where cfg = cfg and i = i and c = c, OF Some] show ?thesis
        by (auto simp: domIff users_def) (auto simp: instances_of_def)
    qed
  qed
  then show "fst (catalog_step cfg builtin pw call c) = fst (broker_spec call (instances_of cfg c))"
    and "instances_of cfg (snd (catalog_step cfg builtin pw call c))
       = snd (broker_spec call (instances_of cfg c))" by simp_all
qed

fun call_instance :: "broker_call \<Rightarrow> string" where
  "call_instance (CallProvision i _) = i"
| "call_instance (CallDeprovision i) = i"
| "call_instance (CallBind i b) = i"
| "call_instance (CallUnbind i b) = i"

lemma catalog_step_frame:
  "d \<noteq> database_of cfg (call_instance call) \<Longrightarrow> snd (catalog_step cfg builtin pw call c) d = c d"
  by (cases call)
     (auto simp: add_database_def remove_database_def put_principal_def remove_user_def
       split: option.splits)

section \<open>The broker's calls\<close>

definition run_call ::
  "'w env \<Rightarrow> Config \<Rightarrow> MssqlProvisioner \<Rightarrow> broker_call \<Rightarrow> ('w proc, go_error option) go" where
  "run_call E cfg p call =
     (case call of
        CallProvision i d \<Rightarrow> Provision E cfg p i d
      | CallDeprovision i \<Rightarrow> Deprovision E cfg p i
      | CallBind i b \<Rightarrow> bindG (Bind E cfg p i b) (\<lambda>(_, err). ret err)
      | CallUnbind i b \<Rightarrow> Unbind E cfg p i b)"

fun call_plain :: "Config \<Rightarrow> broker_call \<Rightarrow> bool" where
  "call_plain cfg (CallProvision i _) = plain_name (database_of cfg i)"
| "call_plain cfg (CallDeprovision i) = plain_name (database_of cfg i)"
| "call_plain cfg (CallBind i b) =
     (plain_name (database_of cfg i) \<and> plain_name (user_of cfg i b))"
| "call_plain cfg (CallUnbind i b) =
     (plain_name (database_of cfg i) \<and> plain_name (user_of cfg i b))"

text \<open>Reading random bytes does not touch the SQL server.\<close>

definition rng_quiet :: "'w env \<Rightarrow> ('w \<Rightarrow> catalog) \<Rightarrow> bool" where
  "rng_quiet E cat \<longleftrightarrow> (\<forall>n w. cat (snd (randRead E n w)) = cat w)"


definition step_or_crash ::
  "'a outcome \<Rightarrow> catalog \<Rightarrow> 'a \<Rightarrow> catalog \<Rightarrow> catalog \<Rightarrow> bool" where
  "step_or_crash x c' r c spec \<longleftrightarrow>
     x = Ret r \<and> c' = spec \<or> (\<exists>v. x = Panicked v) \<and> (c' = c \<or> c' = spec)"

lemma Provision_step:
  assumes "sql_server E db cat tx builtin \<and> dbClient p = Some db"
    and "plain_name (database_of cfg i)"
    and "Provision E cfg p i details s = (x, t)"
  shows "case catalog_step cfg builtin pw (CallProvision i details) (cat (world s)) of
    (r, c) \<Rightarrow> step_or_crash x (cat (world t)) r (cat (world s)) c"
  using assms(3) [unfolded Provision_def Let_def]
proof (cases rule: after_log_call)
  case (1 u)
  from client.provision_flow [OF assms(1,2) [unfolded database_of_def] 1(3)] 1(1)
  show ?thesis by (auto simp: database_of_def step_or_crash_def)
qed

lemma Provision_live:
  assumes "reliable_sql_server E db cat tx builtin \<and> dbClient p = Some db"
    and "plain_name (database_of cfg i)"
    and "Provision E cfg p i details s = (x, t)"
  shows "\<exists>r. x = Ret r"
  using assms(3) [unfolded Provision_def Let_def]
proof (cases rule: after_log_call)
  case (1 u)
  show ?thesis by (rule client.provision_live [OF assms(1,2) [unfolded database_of_def] 1(3)])
qed

lemma Deprovision_step:
  assumes "sql_server E db cat tx builtin \<and> dbClient p = Some db"
    and "plain_name (database_of cfg i)"
    and "Deprovision E cfg p i s = (x, t)"
  shows "case catalog_step cfg builtin pw (CallDeprovision i) (cat (world s)) of
    (r, c) \<Rightarrow> step_or_crash x (cat (world t)) r (cat (world s)) c"
  using assms(3) [unfolded Deprovision_def Let_def]
proof (cases rule: after_log_call)
  case (1 u)
  from client.deprovision_flow [OF assms(1,2) [unfolded database_of_def] 1(3)] 1(1)
  show ?thesis by (auto simp: database_of_def step_or_crash_def remove_database_def)
qed

lemma Deprovision_live:
  assumes "reliable_sql_server E db cat tx builtin \<and> dbClient p = Some db"
    and "plain_name (database_of cfg i)"
    and "Deprovision E cfg p i s = (x, t)"
  shows "\<exists>r. x = Ret r"
  using assms(3) [unfolded Deprovision_def Let_def]
proof (cases rule: after_log_call)
  case (1 u)
  show ?thesis by (rule client.deprovision_live [OF assms(1,2) [unfolded database_of_def] 1(3)])
qed

lemma users_dom_database: "u \<in> users c d \<Longrightarrow> d \<in> dom c"
  by (auto simp: users_def split: option.splits)

lemma remove_absent_user: "u \<notin> users c d \<Longrightarrow> remove_user d u c = c"
  by (auto simp: users_def remove_user_def fun_upd_idem domIff split: option.splits)

lemma Unbind_step:
  assumes "sql_server E db cat tx builtin \<and> dbClient p = Some db"
    and "plain_name (database_of cfg i)" and "plain_name (user_of cfg i b)"
    and "Unbind E cfg p i b s = (x, t)"
  shows "case catalog_step cfg builtin pw (CallUnbind i b) (cat (world s)) of
    (r, c) \<Rightarrow> step_or_crash x (cat (world t)) r (cat (world s)) c"
  using assms(4) [unfolded Unbind_def Let_def]
proof (cases rule: after_log_call)
  case (1 u)
  from client.unbind_flow [OF assms(1,2,3) [unfolded user_of_def database_of_def append_assoc]
      1(3) [unfolded append_assoc]] 1(1)
  show ?thesis
    using users_dom_database [of "user_of cfg i b" "cat (world s)" "database_of cfg i"]
      remove_absent_user [of "user_of cfg i b" "cat (world s)" "database_of cfg i"]
    by (auto simp: database_of_def user_of_def step_or_crash_def domIff
        remove_user_def split: option.splits)
qed

text \<open>The password a binding made in world \<open>w\<close> gets, and the credentials it returns.\<close>

definition bind_password :: "'w env \<Rightarrow> 'w \<Rightarrow> string" where
  "bind_password E w =
     URLEncoding (fill_slice 32 (snd (fst (randRead E 32 w)))) @ happySqlPasswordPolicySuffix"

definition bind_credentials :: "Config \<Rightarrow> string \<Rightarrow> string \<Rightarrow> string \<Rightarrow> MssqlBindingCredentials" where
  "bind_credentials cfg i b pw =
     \<lparr>Hostname = ServedBindingHostname cfg, Host = ServedBindingHostname cfg,
      Port = ServedBindingPort cfg, Name = database_of cfg i, Username = user_of cfg i b,
      Password = pw,
      ConnectionString = generateConnectionString (ServedBindingHostname cfg)
        (ServedBindingPort cfg) (database_of cfg i) (user_of cfg i b) pw\<rparr>"

definition bind_reply ::
  "Config \<Rightarrow> string \<Rightarrow> string \<Rightarrow> string \<Rightarrow> go_error option
     \<Rightarrow> MssqlBindingCredentials option \<times> go_error option" where
  "bind_reply cfg i b pw err =
     (case err of None \<Rightarrow> (Some (bind_credentials cfg i b pw), None) | Some e \<Rightarrow> (None, Some e))"

lemma Bind_step:
  assumes "sql_server E db cat tx builtin \<and> dbClient p = Some db" and rng: "rng_quiet E cat"
    and "plain_name (database_of cfg i)" and "plain_name (user_of cfg i b)"
    and "Bind E cfg p i b s = (x, t)"
  shows "case catalog_step cfg builtin (bind_password E (world s)) (CallBind i b) (cat (world s)) of
    (r, c) \<Rightarrow> step_or_crash x (cat (world t))
      (bind_reply cfg i b (bind_password E (world s)) r) (cat (world s)) c"
  using assms(5) [unfolded Bind_def Let_def]
proof (cases rule: after_log_call)
  case (1 u)
  obtain err bytes w where r: "randRead E 32 (world u) = ((err, bytes), w)"
    by (metis prod.collapse)
  with rng 1(1) have w: "cat w = cat (world s)" by (metis rng_quiet_def snd_conv)
  have pw: "bind_password E (world s) = URLEncoding (fill_slice 32 bytes) @ happySqlPasswordPolicySuffix"
    using r 1(1) by (simp add: bind_password_def)
  from 1(3) r show ?thesis
  proof (cases rule: after_random)
    case (crash e)
    with w show ?thesis by (auto simp: step_or_crash_def split: prod.split)
  next
    case (filled v)
    from client.bind_flow [OF assms(1,3,4) [unfolded user_of_def database_of_def append_assoc]
        plain_password_generated filled(3) [unfolded append_assoc]] filled(2) w
    show ?thesis
      using users_dom_database [of "user_of cfg i b" "cat (world s)" "database_of cfg i"]
      unfolding pw
      by (auto simp: database_of_def user_of_def step_or_crash_def bind_reply_def
          bind_credentials_def domIff)
  qed
qed

definition rng_works :: "'w env \<Rightarrow> bool" where
  "rng_works E \<longleftrightarrow> (\<forall>w. fst (fst (randRead E 32 w)) = None)"

lemma Bind_live:
  assumes "reliable_sql_server E db cat tx builtin \<and> dbClient p = Some db" and rng: "rng_works E"
    and "plain_name (database_of cfg i)" and "plain_name (user_of cfg i b)"
    and "Bind E cfg p i b s = (x, t)"
  shows "\<exists>r. x = Ret r"
  using assms(5) [unfolded Bind_def Let_def]
proof (cases rule: after_log_call)
  case (1 u)
  obtain err bytes w where r: "randRead E 32 (world u) = ((err, bytes), w)"
    by (metis prod.collapse)
  with rng have none: "err = None" by (metis rng_works_def fst_conv)
  from 1(3) r show ?thesis
  proof (cases rule: after_random)
    case (filled v)
    show ?thesis
      by (rule client.bind_live [OF assms(1,3,4) [unfolded user_of_def database_of_def append_assoc]
        plain_password_generated filled(3) [unfolded append_assoc]])
  qed (use none in simp)
qed

lemma Unbind_live:
  assumes "reliable_sql_server E db cat tx builtin \<and> dbClient p = Some db"
    and "plain_name (database_of cfg i)" and "plain_name (user_of cfg i b)"
    and "Unbind E cfg p i b s = (x, t)"
  shows "\<exists>r. x = Ret r"
  using assms(4) [unfolded Unbind_def Let_def]
proof (cases rule: after_log_call)
  case (1 u)
  show ?thesis
    by (rule client.unbind_live [OF assms(1,2,3) [unfolded user_of_def database_of_def append_assoc]
      1(3) [unfolded append_assoc]])
qed

section \<open>Every call\<close>

lemma run_call_step:
  assumes server: "sql_server E db cat tx builtin" and client: "dbClient p = Some db"
    and rng: "rng_quiet E cat" and plain: "call_plain cfg call"
    and run: "run_call E cfg p call s = (x, t)"
  shows "case catalog_step cfg builtin (bind_password E (world s)) call (cat (world s)) of
    (r, c) \<Rightarrow> step_or_crash x (cat (world t)) r (cat (world s)) c"
proof -
  have inv: "sql_server E db cat tx builtin \<and> dbClient p = Some db" using server client by blast
  show ?thesis
  proof (cases call)
    case (CallProvision i d)
    with Provision_step [OF inv] plain run show ?thesis by (simp add: run_call_def)
  next
    case (CallDeprovision i)
    with Deprovision_step [OF inv] plain run show ?thesis by (simp add: run_call_def)
  next
    case (CallBind i b)
    obtain y u where y: "Bind E cfg p i b s = (y, u)" by fastforce
    from Bind_step [OF inv rng _ _ y] plain run y CallBind show ?thesis
      by (fastforce simp: run_call_def bindG_apply step_or_crash_def bind_reply_def
          split: prod.splits outcome.splits option.splits)
  next
    case (CallUnbind i b)
    with Unbind_step [OF inv] plain run show ?thesis by (simp add: run_call_def)
  qed
qed

lemma run_call_live:
  assumes server: "reliable_sql_server E db cat tx builtin" and client: "dbClient p = Some db"
    and rng: "rng_works E" and plain: "call_plain cfg call"
    and run: "run_call E cfg p call s = (x, t)"
  shows "\<exists>r. x = Ret r"
proof -
  have inv: "reliable_sql_server E db cat tx builtin \<and> dbClient p = Some db"
    using server client by blast
  show ?thesis
  proof (cases call)
    case (CallProvision i d)
    with Provision_live [OF inv] plain run show ?thesis by (simp add: run_call_def)
  next
    case (CallDeprovision i)
    with Deprovision_live [OF inv] plain run show ?thesis by (simp add: run_call_def)
  next
    case (CallBind i b)
    obtain y u where y: "Bind E cfg p i b s = (y, u)" by fastforce
    from Bind_live [OF inv rng _ _ y] plain run y CallBind show ?thesis
      by (auto simp: run_call_def bindG_apply split: prod.splits)
  next
    case (CallUnbind i b)
    then have "Unbind E cfg p i b s = (x, t)" using run by (simp add: run_call_def)
    from Unbind_live [OF inv _ _ this] plain CallUnbind show ?thesis by simp
  qed
qed
end
