(* ===== verification/RefServer.thy ===== *)
theory RefServer
  imports BrokerSpec
begin

text \<open>
  A small SQL server, executable, that meets \<open>reliable_sql_server\<close>: it parses the
  statements the provisioner sends and keeps the catalog they describe, with a list of
  open transactions.  It shows that the laws the proofs ask of a server can be met
  together, and it is the concrete environment in which the theorems are applied.
\<close>

section \<open>Statements\<close>

definition between :: "string \<Rightarrow> string \<Rightarrow> string \<Rightarrow> string option" where
  "between pre post q =
     (if take (length pre) q = pre \<and> length pre + length post \<le> length q
         \<and> drop (length q - length post) q = post
      then Some (take (length q - length pre - length post) (drop (length pre) q))
      else None)"

lemma between_self [simp]: "between pre post (pre @ m @ post) = Some m"
  by (simp add: between_def)

lemma between_other: "take (length pre) q \<noteq> pre \<Longrightarrow> between pre post q = None"
  by (simp add: between_def)

text \<open>A name up to the closing bracket, and what follows the bracket.\<close>

definition bracketed :: "string \<Rightarrow> string \<times> string" where
  "bracketed q = (takeWhile (\<lambda>c. c \<noteq> CHR '']'') q, dropWhile (\<lambda>c. c \<noteq> CHR '']'') q)"

lemma bracketed_name [simp]: "CHR '']'' \<notin> set n \<Longrightarrow> bracketed (n @ CHR '']'' # r) = (n, CHR '']'' # r)"
  by (induction n) (auto simp: bracketed_def)

datatype statement =
    CreateDb string
  | SingleUser string
  | DropDb string
  | UseDb string
  | UseMaster
  | NewUser string string
  | AddOwner string
  | DropUser string

definition parse_statement :: "string \<Rightarrow> statement option" where
  "parse_statement q =
     (if q = ''use master'' then Some UseMaster
      else case between ''create database ['' ''] containment = partial'' q of
        Some d \<Rightarrow> Some (CreateDb d)
      | None \<Rightarrow> (case between ''alter database ['' ''] set single_user with rollback immediate'' q of
        Some d \<Rightarrow> Some (SingleUser d)
      | None \<Rightarrow> (case between ''drop database ['' '']'' q of
        Some d \<Rightarrow> Some (DropDb d)
      | None \<Rightarrow> (case between ''use ['' '']'' q of
        Some d \<Rightarrow> Some (UseDb d)
      | None \<Rightarrow> (case between ''alter role [db_owner] add member ['' '']'' q of
        Some u \<Rightarrow> Some (AddOwner u)
      | None \<Rightarrow> (case between ''drop user ['' '']'' q of
        Some u \<Rightarrow> Some (DropUser u)
      | None \<Rightarrow> (case between ''create user ['' [CHR 0x27] q of
        Some r \<Rightarrow> (case bracketed r of (u, r') \<Rightarrow>
          map_option (NewUser u) (between ('']'' @ '' with password='' @ [CHR 0x27]) [] r'))
      | None \<Rightarrow> None)))))))"

lemma parse_create_database [simp]: "parse_statement (create_database_sql d) = Some (CreateDb d)"
  using between_self [of "''create database [''" "''] containment = partial''" d]
  by (simp add: parse_statement_def sql_text_defs)

lemma parse_single_user [simp]: "parse_statement (single_user_sql d) = Some (SingleUser d)"
  using between_self [of "''alter database [''" "''] set single_user with rollback immediate''" d]
  by (simp add: parse_statement_def sql_text_defs between_def [of "''create database [''"])

lemma parse_drop_database [simp]: "parse_statement (drop_database_sql d) = Some (DropDb d)"
  using between_self [of "''drop database [''" "'']''" d]
  by (simp add: parse_statement_def sql_text_defs between_def [of "''create database [''"]
      between_def [of "''alter database [''"])

lemma parse_use [simp]: "parse_statement (use_sql d) = Some (UseDb d)"
  using between_self [of "''use [''" "'']''" d]
  by (simp add: parse_statement_def sql_text_defs between_def [of "''create database [''"]
      between_def [of "''alter database [''"] between_def [of "''drop database [''"])

lemma parse_use_master [simp]: "parse_statement ''use master'' = Some UseMaster"
  by (simp add: parse_statement_def)

lemma parse_add_owner [simp]: "parse_statement (add_owner_sql u) = Some (AddOwner u)"
  using between_self [of "''alter role [db_owner] add member [''" "'']''" u]
  by (simp add: parse_statement_def sql_text_defs between_def [of "''create database [''"]
      between_def [of "''alter database [''"] between_def [of "''drop database [''"]
      between_def [of "''use [''"])

lemma parse_drop_user [simp]: "parse_statement (drop_user_sql u) = Some (DropUser u)"
  using between_self [of "''drop user [''" "'']''" u]
  by (simp add: parse_statement_def sql_text_defs between_def [of "''create database [''"]
      between_def [of "''alter database [''"] between_def [of "''drop database [''"]
      between_def [of "''use [''"] between_def [of "''alter role [db_owner] add member [''"])

lemma parse_create_user [simp]:
  assumes "CHR '']'' \<notin> set u"
  shows "parse_statement (create_user_sql u p) = Some (NewUser u p)"
  using between_self [of "''create user [''" "[CHR 0x27]" "u @ '']'' @ '' with password='' @ [CHR 0x27] @ p"]
    between_self [of "'']'' @ '' with password='' @ [CHR 0x27]" "[]" p] assms
  by (simp add: parse_statement_def sql_text_defs between_def [of "''create database [''"]
      between_def [of "''alter database [''"] between_def [of "''drop database [''"]
      between_def [of "''use [''"] between_def [of "''alter role [db_owner] add member [''"]
      between_def [of "''drop user [''"])

datatype scalar_query = CountDatabases string | CountUsers string string

definition parse_query :: "string \<Rightarrow> scalar_query option" where
  "parse_query q =
     (case between ''select count(*)  from ['' [CHR 0x27] q of
        None \<Rightarrow> None
      | Some r \<Rightarrow> (case bracketed r of (d, r') \<Rightarrow>
          (case between ('']'' @ ''.sys.database_principals  where name = '' @ [CHR 0x27]) [] r' of
             Some u \<Rightarrow> Some (CountUsers d u)
           | None \<Rightarrow> if d = ''master''
               then map_option CountDatabases
                 (between ('']'' @ ''.sys.databases  where name = '' @ [CHR 0x27]) [] r')
               else None)))"

lemma parse_count_users [simp]:
  assumes "CHR '']'' \<notin> set d"
  shows "parse_query (count_users_sql d u) = Some (CountUsers d u)"
  using between_self [of "''select count(*)  from [''" "[CHR 0x27]"
      "d @ '']'' @ ''.sys.database_principals  where name = '' @ [CHR 0x27] @ u"]
    between_self [of "'']'' @ ''.sys.database_principals  where name = '' @ [CHR 0x27]" "[]" u] assms
  by (simp add: parse_query_def sql_text_defs)

lemma parse_count_databases [simp]: "parse_query (count_databases_sql d) = Some (CountDatabases d)"
  using between_self [of "''select count(*)  from [''" "[CHR 0x27]"
      "''master'' @ '']'' @ ''.sys.databases  where name = '' @ [CHR 0x27] @ d"]
    between_self [of "'']'' @ ''.sys.databases  where name = '' @ [CHR 0x27]" "[]" d]
    bracketed_name [of "''master''" "''.sys.databases  where name = '' @ [CHR 0x27] @ d"]
  by (simp add: parse_query_def sql_text_defs
      between_other)


section \<open>The server\<close>

text \<open>
  The state: the catalog, the transactions (a closed one is \<open>None\<close>), and the byte the
  random source repeats.
\<close>

record ref_world =
  rw_catalog :: catalog
  rw_txs :: "(string \<times> catalog) option list"
  rw_random :: char

definition ref_builtin :: "string \<rightharpoonup> principal" where
  "ref_builtin = [''dbo'' \<mapsto> (None, True), ''guest'' \<mapsto> (None, False)]"

definition ref_tx :: "ref_world \<Rightarrow> nat \<Rightarrow> (string \<times> catalog) option" where
  "ref_tx w t = (if t < length (rw_txs w) then rw_txs w ! t else None)"

definition ref_error :: "string \<Rightarrow> go_error" where
  "ref_error msg = OtherError (''mssql: '' @ msg)"

definition ref_exec :: "string \<Rightarrow> ref_world \<Rightarrow> go_error option \<times> ref_world" where
  "ref_exec q w =
     (case parse_statement q of
        Some (CreateDb d) \<Rightarrow>
          (case rw_catalog w d of
             None \<Rightarrow> (None, w\<lparr>rw_catalog := add_database ref_builtin d (rw_catalog w)\<rparr>)
           | Some _ \<Rightarrow> (Some (ref_error ''database exists''), w))
      | Some (SingleUser d) \<Rightarrow>
          (case rw_catalog w d of
             None \<Rightarrow> (Some (ref_error ''no such database''), w)
           | Some _ \<Rightarrow> (None, w))
      | Some (DropDb d) \<Rightarrow>
          (case rw_catalog w d of
             None \<Rightarrow> (Some (ref_error ''no such database''), w)
           | Some _ \<Rightarrow> (None, w\<lparr>rw_catalog := remove_database d (rw_catalog w)\<rparr>))
      | _ \<Rightarrow> (Some (ref_error ''syntax''), w))"

definition ref_query :: "string \<Rightarrow> ref_world \<Rightarrow> (go_error + int) \<times> ref_world" where
  "ref_query q w =
     (case parse_query q of
        Some (CountDatabases d) \<Rightarrow>
          (Inr (case rw_catalog w d of None \<Rightarrow> 0 | Some _ \<Rightarrow> 1), w)
      | Some (CountUsers d u) \<Rightarrow>
          (case rw_catalog w d of
             None \<Rightarrow> (Inl (ref_error ''no such database''), w)
           | Some m \<Rightarrow> (Inr (case m u of None \<Rightarrow> 0 | Some _ \<Rightarrow> 1), w))
      | None \<Rightarrow> (Inl (ref_error ''syntax''), w))"

definition set_tx :: "nat \<Rightarrow> (string \<times> catalog) option \<Rightarrow> ref_world \<Rightarrow> ref_world" where
  "set_tx t e w = w\<lparr>rw_txs := (rw_txs w)[t := e]\<rparr>"

definition ref_begin :: "ref_world \<Rightarrow> (go_error + nat) \<times> ref_world" where
  "ref_begin w =
     (Inr (length (rw_txs w)), w\<lparr>rw_txs := rw_txs w @ [Some (''master'', rw_catalog w)]\<rparr>)"

definition ref_txExec :: "nat \<Rightarrow> string \<Rightarrow> ref_world \<Rightarrow> go_error option \<times> ref_world" where
  "ref_txExec t q w =
     (case ref_tx w t of
        None \<Rightarrow> (Some (OtherError ''sql: Transaction has already been committed or rolled back''), w)
      | Some (cur, v) \<Rightarrow>
          (case parse_statement q of
             Some (UseDb d) \<Rightarrow>
               (case v d of
                  None \<Rightarrow> (Some (ref_error ''no such database''), w)
                | Some _ \<Rightarrow> (None, set_tx t (Some (d, v)) w))
           | Some UseMaster \<Rightarrow> (None, set_tx t (Some (''master'', v)) w)
           | Some (NewUser u p) \<Rightarrow>
               (case v cur of
                  None \<Rightarrow> (Some (ref_error ''no such database''), w)
                | Some m \<Rightarrow>
                    if m u = None
                    then (None, set_tx t (Some (cur, put_principal cur u (Some p, False) v)) w)
                    else (Some (ref_error ''user exists''), w))
           | Some (AddOwner u) \<Rightarrow>
               (case v cur of
                  None \<Rightarrow> (Some (ref_error ''no such database''), w)
                | Some m \<Rightarrow> (case m u of
                    None \<Rightarrow> (Some (ref_error ''no such user''), w)
                  | Some e \<Rightarrow> (None, set_tx t (Some (cur, put_principal cur u (fst e, True) v)) w)))
           | Some (DropUser u) \<Rightarrow>
               (case v cur of
                  None \<Rightarrow> (Some (ref_error ''no such database''), w)
                | Some m \<Rightarrow>
                    if m u = None then (Some (ref_error ''no such user''), w)
                    else (None, set_tx t (Some (cur, remove_user cur u v)) w))
           | _ \<Rightarrow> (Some (ref_error ''syntax''), w)))"

definition ref_commit :: "nat \<Rightarrow> ref_world \<Rightarrow> go_error option \<times> ref_world" where
  "ref_commit t w =
     (case ref_tx w t of
        None \<Rightarrow> (Some (OtherError ''sql: Transaction has already been committed or rolled back''), w)
      | Some (cur, v) \<Rightarrow> (None, set_tx t None w\<lparr>rw_catalog := v\<rparr>))"

definition ref_rollback :: "nat \<Rightarrow> ref_world \<Rightarrow> go_error option \<times> ref_world" where
  "ref_rollback t w = (None, set_tx t None w)"

definition ref_env :: "ref_world env" where
  "ref_env =
     \<lparr>clock = (\<lambda>w. ''0.000000000''), stackTrace = (\<lambda>w. ''goroutine 1''),
      randRead = (\<lambda>n w. ((None, replicate n (rw_random w)), w)),
      sqlDrivers = [''mssql''], sqlPing = (\<lambda>db w. (None, w)), sqlClose = (\<lambda>db w. (None, w)),
      sqlExec = (\<lambda>db. ref_exec), sqlQueryRow = (\<lambda>db. ref_query), sqlBegin = (\<lambda>db. ref_begin),
      txExec = ref_txExec, txCommit = ref_commit, txRollback = ref_rollback,
      jsonError = (\<lambda>s. OtherError ''invalid JSON''), listen = (\<lambda>addr w. (None, w)),
      readFile = (\<lambda>f w. Inl (OtherError (''open '' @ f @ '': no such file or directory''))),
      binDir = (\<lambda>w. Inr ''/broker''), getenv = (\<lambda>v. [])\<rparr>"

lemmas ref_defs = ref_env_def ref_exec_def ref_query_def ref_begin_def ref_txExec_def
  ref_commit_def ref_rollback_def ref_tx_def set_tx_def

lemma plain_name_bracket: "plain_name d \<Longrightarrow> CHR '']'' \<notin> set d"
  by (simp add: plain_name_def)

interpretation ref: reliable_sql_server ref_env db rw_catalog ref_tx ref_builtin for db
proof unfold_locales
qed (auto simp: ref_defs plain_name_bracket users_def domIff nth_append remove_database_def fun_upd_idem split: option.splits if_splits)


section \<open>A concrete deployment\<close>

definition ref_config :: Config where
  "ref_config =
     \<lparr>DbIdentifierPrefix = ''cf-'', ListeningAddr = '':3000'', ConfigLogLevel = ''info'',
      Crednetials = \<lparr>cred_Username = ''admin'', cred_Password = ''secret''\<rparr>,
      ServiceCatalog = Some [], BrokerGoSqlDriver = ''mssql'',
      BrokerMssqlConnection = Some [(''server'', ''localhost'')],
      ServedBindingHostname = ''192.168.1.10'', ServedBindingPort = 38017\<rparr>"

definition ref_db :: sql_db where
  "ref_db = \<lparr>db_driver = ''mssql'', db_dsn = ''server=localhost;'', db_maxIdle = -1\<rparr>"

definition ref_prov :: MssqlProvisioner where
  "ref_prov = \<lparr>dbClient = Some ref_db, goSqlDriver = ''mssql'',
     connectionParams = [(''server'', ''localhost'')]\<rparr>"

definition ref_world0 :: ref_world where
  "ref_world0 = \<lparr>rw_catalog = Map.empty, rw_txs = [], rw_random = CHR ''r''\<rparr>"

definition ref_start :: "ref_world proc" where
  "ref_start = \<lparr>world = ref_world0, written = [],
     the_logger = RegisterSink (NewLogger ''mssql_broker'') (NewWriterSink INFO)\<rparr>"

definition ref_details :: ServiceDetails where
  "ref_details = \<lparr>details_ID = ''service'', details_PlanID = ''plan'',
     details_OrganizationGUID = ''org'', details_SpaceGUID = ''space''\<rparr>"

lemma ref_prov_client [simp]: "dbClient ref_prov = Some ref_db"
  by (simp add: ref_prov_def)

lemma ref_rng [simp]: "rng_quiet ref_env rw_catalog" "rng_works ref_env"
  by (simp_all add: rng_quiet_def rng_works_def ref_env_def)

lemma ref_builtin_names [simp]: "builtin_names ref_builtin"
  by (simp add: builtin_names_def ref_builtin_def)

lemma ref_sql_server [simp]: "sql_server ref_env db rw_catalog ref_tx ref_builtin"
  by (rule ref.sql_server_axioms)

lemma ref_reliable [simp]: "reliable_sql_server ref_env db rw_catalog ref_tx ref_builtin"
  by (rule ref.reliable_sql_server_axioms)

lemma plain_nameI:
  "n \<noteq> [] \<Longrightarrow> length n \<le> 128 \<Longrightarrow> CHR '']'' \<notin> set n \<Longrightarrow> CHR 0x27 \<notin> set n \<Longrightarrow>
   CHR ''%'' \<notin> set n \<Longrightarrow> plain_name n"
  by (simp add: plain_name_def no_marker_def not_sublist_char [of "CHR ''%''"] extra_marker_def)

lemma ref_plain [simp]:
  "plain_name (database_of ref_config ''i1'')" "plain_name (user_of ref_config ''i1'' ''b1'')"
  "plain_name (database_of ref_config ''i2'')" "plain_name (user_of ref_config ''i2'' ''b1'')"
  by (rule plain_nameI; simp add: database_of_def user_of_def ref_config_def)+

definition ref_bound :: "ref_world proc" where
  "ref_bound = ref_start\<lparr>world := ref_world0\<lparr>rw_catalog := [''cf-i1'' \<mapsto> ref_builtin]\<rparr>\<rparr>"

lemma ref_bound_catalog: "rw_catalog (world ref_bound) = [database_of ref_config ''i1'' \<mapsto> ref_builtin]"
  by (simp add: ref_bound_def database_of_def ref_config_def)

end
