(* ===== verification/BrokerTheorems.thy ===== *)
theory BrokerTheorems
  imports RefServer
begin

text \<open>
  The properties of the broker: its calls refine the abstract broker, a fault of the
  server can only stop a call before or after its step, credentials open the database
  they name, and instances do not interfere.
\<close>

section \<open>Sequences of calls\<close>

fun run_calls ::
  "'w env \<Rightarrow> Config \<Rightarrow> MssqlProvisioner \<Rightarrow> broker_call list \<Rightarrow> ('w proc, go_error option list) go" where
  "run_calls E cfg p [] = ret []"
| "run_calls E cfg p (call # calls) =
     bindG (run_call E cfg p call) (\<lambda>err.
     bindG (run_calls E cfg p calls) (\<lambda>errs. ret (err # errs)))"

fun spec_calls :: "broker_call list \<Rightarrow> instances \<Rightarrow> go_error option list \<times> instances" where
  "spec_calls [] m = ([], m)"
| "spec_calls (call # calls) m =
     (case broker_spec call m of (err, m') \<Rightarrow>
        (case spec_calls calls m' of (errs, m'') \<Rightarrow> (err # errs, m'')))"

text \<open>A call as a step on the instances: it makes the specified step, or crashes beside it.\<close>

lemma run_call_instances:
  assumes "sql_server E db cat tx builtin" and "dbClient p = Some db"
    and "rng_quiet E cat" and names: "builtin_names builtin" and "call_plain cfg call"
    and "run_call E cfg p call s = (x, t)"
    and spec: "broker_spec call (instances_of cfg (cat (world s))) = (r, m)"
  shows "x = Ret r \<and> instances_of cfg (cat (world t)) = m \<or>
    (\<exists>v. x = Panicked v) \<and>
      instances_of cfg (cat (world t)) \<in> {instances_of cfg (cat (world s)), m}"
  using run_call_step [OF assms(1-3,5,6)] spec
    catalog_step_refines [OF names, of cfg "bind_password E (world s)" call "cat (world s)"]
  by (auto simp: step_or_crash_def split: prod.splits)

text \<open>C1: on a server that fails only where a statement is wrong, any sequence of broker
  calls answers exactly as the abstract broker does and leaves exactly its instances and
  bindings, from any state of the server.\<close>

theorem broker_refines_spec:
  assumes "reliable_sql_server E db cat tx builtin" and "dbClient p = Some db"
    and "rng_quiet E cat" and "rng_works E" and "builtin_names builtin"
    and "list_all (call_plain cfg) calls"
  shows "\<exists>t. run_calls E cfg p calls s
      = (Ret (fst (spec_calls calls (instances_of cfg (cat (world s))))), t) \<and>
    instances_of cfg (cat (world t)) = snd (spec_calls calls (instances_of cfg (cat (world s))))"
  using assms(6)
proof (induction calls arbitrary: s)
  case Nil
  then show ?case by simp
next
  case (Cons call calls)
  obtain r m where spec: "broker_spec call (instances_of cfg (cat (world s))) = (r, m)" by fastforce
  obtain x t where run: "run_call E cfg p call s = (x, t)" by fastforce
  have plain: "call_plain cfg call" using Cons.prems by simp
  have "\<exists>r. x = Ret r" by (rule run_call_live [OF assms(1,2,4) plain run])
  with run_call_instances [OF reliable_sql_server.axioms(1) [OF assms(1)] assms(2,3,5) plain run spec]
  have x: "x = Ret r" and t: "instances_of cfg (cat (world t)) = m" by auto
  from Cons.IH [of t] Cons.prems obtain u where
    "run_calls E cfg p calls t = (Ret (fst (spec_calls calls m)), u)"
    "instances_of cfg (cat (world u)) = snd (spec_calls calls m)" by (auto simp: t)
  with run x spec show ?case by (auto simp: bindG_apply split: prod.splits)
qed

definition ref_calls :: "broker_call list" where
  "ref_calls = [CallProvision ''i1'' ref_details, CallBind ''i1'' ''b1'', CallBind ''i1'' ''b1'',
     CallUnbind ''i1'' ''b1'', CallUnbind ''i1'' ''b1'', CallDeprovision ''i1'', CallDeprovision ''i1'']"

lemma ref_calls_plain [simp]: "list_all (call_plain ref_config) ref_calls"
  by (simp add: ref_calls_def)

theorem broker_refines_spec_witness:
  "\<exists>t. run_calls ref_env ref_config ref_prov ref_calls ref_start
      = (Ret [None, None, Some ErrBindingAlreadyExists, None, Some ErrBindingAlreadyExists,
              None, Some ErrInstanceDoesNotExist], t) \<and>
    instances_of ref_config (rw_catalog (world t)) = Map.empty"
proof -
  have empty: "instances_of ref_config (rw_catalog (world ref_start)) = Map.empty"
    by (simp add: instances_of_def ref_start_def ref_world0_def)
  have spec: "spec_calls ref_calls Map.empty
      = ([None, None, Some ErrBindingAlreadyExists, None, Some ErrBindingAlreadyExists,
          None, Some ErrInstanceDoesNotExist], Map.empty)"
    by (simp add: ref_calls_def)
  show ?thesis
    using broker_refines_spec [OF ref_reliable ref_prov_client ref_rng ref_builtin_names
        ref_calls_plain, of ref_start]
    unfolding empty spec by simp
qed


section \<open>Faults and restarts\<close>

text \<open>
  Serving a sequence of calls when the process may crash: the platform restarts it, and
  \<open>restart\<close> is whatever the restart does to the process and the world.
\<close>

fun serve ::
  "('w proc \<Rightarrow> 'w proc) \<Rightarrow> 'w env \<Rightarrow> Config \<Rightarrow> MssqlProvisioner \<Rightarrow> broker_call list \<Rightarrow> 'w proc
     \<Rightarrow> go_error option outcome list \<times> 'w proc" where
  "serve restart E cfg p [] s = ([], s)"
| "serve restart E cfg p (call # calls) s =
     (case run_call E cfg p call s of (x, t) \<Rightarrow>
        (case serve restart E cfg p calls (case x of Ret _ \<Rightarrow> t | Panicked _ \<Rightarrow> restart t) of
           (xs, u) \<Rightarrow> (x # xs, u)))"

text \<open>What the instances may be: a call that crashed counts, or does not count.\<close>

fun explained :: "broker_call list \<Rightarrow> go_error option outcome list \<Rightarrow> instances \<Rightarrow> instances \<Rightarrow> bool" where
  "explained [] [] m m' \<longleftrightarrow> m = m'"
| "explained (call # calls) (Ret r # xs) m m' \<longleftrightarrow>
     r = fst (broker_spec call m) \<and> explained calls xs (snd (broker_spec call m)) m'"
| "explained (call # calls) (Panicked _ # xs) m m' \<longleftrightarrow>
     explained calls xs m m' \<or> explained calls xs (snd (broker_spec call m)) m'"
| "explained _ _ m m' \<longleftrightarrow> False"

text \<open>C2: on a server any of whose calls may fail, every call that returns did exactly its
  specified step, and a call that crashes has either not happened or happened completely,
  over any sequence of calls and restarts.\<close>

theorem broker_crash_safe:
  assumes "sql_server E db cat tx builtin" and "dbClient p = Some db"
    and "rng_quiet E cat" and "builtin_names builtin"
    and "\<And>s. cat (world (restart s)) = cat (world s)"
    and "list_all (call_plain cfg) calls"
    and "serve restart E cfg p calls s = (xs, t)"
  shows "explained calls xs (instances_of cfg (cat (world s))) (instances_of cfg (cat (world t)))"
  using assms(6,7)
proof (induction calls arbitrary: s xs t)
  case Nil
  then show ?case by simp
next
  case (Cons call calls)
  obtain x u where run: "run_call E cfg p call s = (x, u)" by fastforce
  let ?u = "case x of Ret _ \<Rightarrow> u | Panicked _ \<Rightarrow> restart u"
  obtain ys where ys: "serve restart E cfg p calls ?u = (ys, t)" and xs: "xs = x # ys"
    using Cons.prems(2) run by (auto split: prod.splits)
  have rest: "explained calls ys (instances_of cfg (cat (world ?u))) (instances_of cfg (cat (world t)))"
    using Cons.IH [OF _ ys] Cons.prems(1) by simp
  obtain r m where spec: "broker_spec call (instances_of cfg (cat (world s))) = (r, m)" by fastforce
  from run_call_instances [OF assms(1-4) _ run spec] Cons.prems(1) rest spec xs assms(5)
  show ?case by (cases x) auto
qed

theorem broker_crash_safe_witness:
  "\<exists>t. serve id ref_env ref_config ref_prov [CallProvision ''i1'' ref_details] ref_start = ([Ret None], t) \<and>
     explained [CallProvision ''i1'' ref_details] [Ret None]
       (instances_of ref_config (rw_catalog (world ref_start))) (instances_of ref_config (rw_catalog (world t)))"
proof -
  let ?calls = "[CallProvision ''i1'' ref_details]"
  have plain: "list_all (call_plain ref_config) ?calls" by simp
  obtain xs t where run: "serve id ref_env ref_config ref_prov ?calls ref_start = (xs, t)" by fastforce
  obtain x u where call: "run_call ref_env ref_config ref_prov (CallProvision ''i1'' ref_details) ref_start = (x, u)"
    by fastforce
  have "\<exists>r. x = Ret r"
    by (rule run_call_live [OF ref_reliable ref_prov_client ref_rng(2) _ call]) simp
  moreover have "explained ?calls xs (instances_of ref_config (rw_catalog (world ref_start)))
      (instances_of ref_config (rw_catalog (world t)))"
    by (rule broker_crash_safe [OF ref_sql_server ref_prov_client ref_rng(1) ref_builtin_names _ plain run])
      simp
  ultimately show ?thesis using run call
    by (auto simp: instances_of_def ref_start_def ref_world0_def)
qed

section \<open>Bindings\<close>

text \<open>C3: when Bind returns credentials, the named user did not exist, and now the server
  has it in the named database, with the returned password and as an owner; every other
  database and user is as before; and the credentials carry the configured host and port.\<close>

theorem bind_credentials_valid:
  assumes "sql_server E db cat tx builtin" and "dbClient p = Some db" and "rng_quiet E cat"
    and "plain_name (database_of cfg i)" and "plain_name (user_of cfg i b)"
    and "Bind E cfg p i b s = (Ret (Some c, err), t)"
  shows "err = None \<and> Name c = database_of cfg i \<and> Username c = user_of cfg i b \<and>
    Host c = ServedBindingHostname cfg \<and> Port c = ServedBindingPort cfg \<and>
    (\<exists>m. cat (world s) (Name c) = Some m \<and> m (Username c) = None \<and>
      cat (world t) = (cat (world s))(Name c \<mapsto> m(Username c \<mapsto> (Some (Password c), True))))"
proof -
  have inv: "sql_server E db cat tx builtin \<and> dbClient p = Some db" using assms(1,2) by blast
  from Bind_step [OF inv assms(3-6)] show ?thesis
    by (auto simp: step_or_crash_def bind_reply_def bind_credentials_def put_principal_def users_def
        split: if_splits option.splits)
qed

lemma ref_Bind_returns:
  "\<exists>c t. Bind ref_env ref_config ref_prov ''i1'' ''b1'' ref_bound = (Ret (Some c, None), t)"
proof -
  obtain x t where run: "Bind ref_env ref_config ref_prov ''i1'' ''b1'' ref_bound = (x, t)" by fastforce
  from Bind_live [OF _ ref_rng(2) ref_plain(1,2) run] obtain r where "x = Ret r"
    by (metis ref_reliable ref_prov_client)
  with Bind_step [OF _ ref_rng(1) ref_plain(1,2) run, of ref_db ref_tx ref_builtin] run show ?thesis
    by (auto simp: step_or_crash_def bind_reply_def ref_bound_catalog users_def
        builtin_names_user [OF ref_builtin_names] domIff)
qed

theorem bind_credentials_valid_witness:
  "\<exists>c t. Bind ref_env ref_config ref_prov ''i1'' ''b1'' ref_bound = (Ret (Some c, None), t) \<and>
     Name c = ''cf-i1'' \<and> Username c = ''cf-i1-b1'' \<and> Port c = 38017"
proof -
  obtain c t where run: "Bind ref_env ref_config ref_prov ''i1'' ''b1'' ref_bound = (Ret (Some c, None), t)"
    using ref_Bind_returns by blast
  from bind_credentials_valid [OF ref_sql_server ref_prov_client ref_rng(1) ref_plain(1,2) run] run
  show ?thesis by (auto simp: database_of_def user_of_def ref_config_def)
qed


text \<open>C4: a successful Unbind had a user to remove, removes exactly that user of exactly
  that database, and so revokes the binding's access.\<close>

theorem unbind_revokes:
  assumes "sql_server E db cat tx builtin" and "dbClient p = Some db"
    and "plain_name (database_of cfg i)" and "plain_name (user_of cfg i b)"
    and "Unbind E cfg p i b s = (Ret None, t)"
  shows "\<exists>m e. cat (world s) (database_of cfg i) = Some m \<and> m (user_of cfg i b) = Some e \<and>
    cat (world t) = (cat (world s))(database_of cfg i \<mapsto> m(user_of cfg i b := None))"
proof -
  have inv: "sql_server E db cat tx builtin \<and> dbClient p = Some db" using assms(1,2) by blast
  from Unbind_step [OF inv assms(3-5)] show ?thesis
    by (auto simp: step_or_crash_def remove_user_def users_def domIff split: if_splits option.splits)
qed

definition ref_unbindable :: "ref_world proc" where
  "ref_unbindable = ref_start\<lparr>world := ref_world0\<lparr>rw_catalog :=
     [''cf-i1'' \<mapsto> ref_builtin(''cf-i1-b1'' \<mapsto> (Some ''pw'', True))]\<rparr>\<rparr>"

theorem unbind_revokes_witness:
  "\<exists>t. Unbind ref_env ref_config ref_prov ''i1'' ''b1'' ref_unbindable = (Ret None, t) \<and>
     user_of ref_config ''i1'' ''b1'' \<notin> users (rw_catalog (world t)) (database_of ref_config ''i1'')"
proof -
  have cat: "rw_catalog (world ref_unbindable)
      = [database_of ref_config ''i1'' \<mapsto> ref_builtin(user_of ref_config ''i1'' ''b1'' \<mapsto> (Some ''pw'', True))]"
    by (simp add: ref_unbindable_def database_of_def user_of_def ref_config_def)
  obtain x t where run: "Unbind ref_env ref_config ref_prov ''i1'' ''b1'' ref_unbindable = (x, t)" by fastforce
  from Unbind_live [OF _ ref_plain(1,2) run] obtain r where "x = Ret r"
    by (metis ref_reliable ref_prov_client)
  with Unbind_step [OF _ ref_plain(1,2) run, of ref_db rw_catalog ref_tx ref_builtin] have x: "x = Ret None"
    by (auto simp: step_or_crash_def cat users_def)
  from unbind_revokes [OF ref_sql_server ref_prov_client ref_plain(1,2) run [unfolded x]] run x
  show ?thesis by (auto simp: users_def)
qed

section \<open>Isolation\<close>

text \<open>C5: whatever a call does, returns or crashes, with any faults of the server, it
  changes no database but the one of the instance it names.\<close>

theorem broker_call_isolated:
  assumes "sql_server E db cat tx builtin" and "dbClient p = Some db"
    and "rng_quiet E cat" and "call_plain cfg call"
    and "run_call E cfg p call s = (x, t)" and "d \<noteq> database_of cfg (call_instance call)"
  shows "cat (world t) d = cat (world s) d"
  using run_call_step [OF assms(1-5)]
    catalog_step_frame [OF assms(6), of builtin "bind_password E (world s)" "cat (world s)"]
  by (auto simp: step_or_crash_def split: prod.splits)

theorem broker_call_isolated_witness:
  "rw_catalog (world (snd (run_call ref_env ref_config ref_prov (CallDeprovision ''i2'') ref_bound))) ''cf-i1''
     = Some ref_builtin"
proof -
  obtain x t where run: "run_call ref_env ref_config ref_prov (CallDeprovision ''i2'') ref_bound = (x, t)"
    by fastforce
  have "rw_catalog (world t) ''cf-i1'' = rw_catalog (world ref_bound) ''cf-i1''"
  proof (rule broker_call_isolated [OF ref_sql_server ref_prov_client ref_rng(1) _ run])
    show "call_plain ref_config (CallDeprovision ''i2'')" by simp
  qed (simp add: database_of_def ref_config_def)
  with run show ?thesis by (simp add: ref_bound_def)
qed

section \<open>Passwords\<close>

lemma Bind_password:
  assumes "Bind E cfg p i b s = (Ret (Some c, err), t)"
  shows "Password c = bind_password E (world s)"
  using assms [unfolded Bind_def Let_def]
proof (cases rule: after_log_call)
  case (1 u)
  obtain e bytes w where r: "randRead E 32 (world u) = ((e, bytes), w)" by (metis prod.collapse)
  have pw: "bind_password E (world s) = URLEncoding (fill_slice 32 bytes) @ happySqlPasswordPolicySuffix"
    using r 1(1) by (simp add: bind_password_def)
  from 1(3) r show ?thesis
    by (cases rule: after_random) (auto simp: pw elim!: bindG_RetD seqG_RetD split: if_splits)
qed

text \<open>C6: whatever the server does, the password of the credentials Bind returns has 48 bytes,
  fits between the quotes of the statement and the separators of the connection string, meets
  the server's complexity rule with an upper case letter, a lower case letter, a digit and an
  underscore, and keeps all the 32 random bytes: they can be decoded from it.\<close>

theorem bind_password_policy:
  assumes "Bind E cfg p i b s = (Ret (Some c, err), t)"
  shows "length (Password c) = 48 \<and> plain_password (Password c) \<and>
   CHR '';'' \<notin> set (Password c) \<and> set ''Aa_0'' \<subseteq> set (Password c) \<and>
   URLDecoding (take 44 (Password c)) = take 32 (snd (fst (randRead E 32 (world s))) @ replicate 32 (CHR 0x00))"
proof -
  have "CHR '';'' \<notin> set (bind_password E w)" "set ''Aa_0'' \<subseteq> set (bind_password E w)" for w
    using password_chars by (auto simp: bind_password_def happySqlPasswordPolicySuffix_def)
  then show ?thesis
    using password_length plain_password_generated Bind_password [OF assms]
    by (simp add: bind_password_def length_URLEncoding fill_slice_def)
qed

theorem bind_password_policy_witness:
  "\<exists>c t. Bind ref_env ref_config ref_prov ''i1'' ''b1'' ref_bound = (Ret (Some c, None), t) \<and>
     URLDecoding (take 44 (Password c)) = replicate 32 (CHR ''r'')"
proof -
  obtain c t where run: "Bind ref_env ref_config ref_prov ''i1'' ''b1'' ref_bound = (Ret (Some c, None), t)"
    using ref_Bind_returns by blast
  have "randRead ref_env 32 (world ref_bound) = ((None, replicate 32 (CHR ''r'')), world ref_bound)"
    by (simp add: ref_env_def ref_bound_def ref_start_def ref_world0_def)
  with bind_password_policy [OF run] run show ?thesis by simp
qed

text \<open>C7: \<open>secureRandomString\<close> either fails with the error of the random source, which is
  fatal, or returns text from which the requested number of random bytes is recovered.\<close>

theorem secureRandomString_entropy:
  assumes "randRead E n (world s) = ((err, bytes), w)"
  shows "case err of
      Some e \<Rightarrow> fst (secureRandomString E n s) = Panicked (PanicError (Some e))
    | None \<Rightarrow> \<exists>r t. secureRandomString E n s = (Ret r, t) \<and> world t = w \<and>
        length r = 4 * ((n + 2) div 3) \<and> URLDecoding r = take n (bytes @ replicate n (CHR 0x00))"
proof -
  obtain x t where run: "bindG (secureRandomString E n) ret s = (x, t)" by fastforce
  from run assms have "case err of
      Some e \<Rightarrow> x = Panicked (PanicError (Some e))
    | None \<Rightarrow> x = Ret (URLEncoding (fill_slice n bytes)) \<and> world t = w"
    by (cases rule: after_random) auto
  with run show ?thesis by (auto simp: length_URLEncoding fill_slice_def split: option.splits)
qed

theorem secureRandomString_entropy_witness:
  "\<exists>r t. secureRandomString ref_env 3 ref_start = (Ret r, t) \<and> URLDecoding r = ''rrr''"
proof -
  have "randRead ref_env 3 (world ref_start) = ((None, ''rrr''), ref_world0)"
    by (simp add: ref_env_def ref_start_def ref_world0_def numeral_3_eq_3)
  from secureRandomString_entropy [OF this] show ?thesis by simp blast
qed

section \<open>Connection strings\<close>

text \<open>
  How a client of ADO.NET reads a connection string: settings that end with a semicolon, each a
  keyword up to the first equals sign and a value; an address is a host and, after a comma, a
  port.
\<close>

fun settings :: "string \<Rightarrow> string \<Rightarrow> string list" where
  "settings acc [] = (if acc = [] then [] else [acc])"
| "settings acc (c # cs) = (if c = CHR '';'' then acc # settings [] cs else settings (acc @ [c]) cs)"

definition cut_at :: "char \<Rightarrow> string \<Rightarrow> string \<times> string" where
  "cut_at x t = (takeWhile (\<lambda>c. c \<noteq> x) t, tl (dropWhile (\<lambda>c. c \<noteq> x) t))"

definition setting_of :: "string \<Rightarrow> string \<Rightarrow> string option" where
  "setting_of text keyword = map_of (map (cut_at (CHR ''='')) (settings [] text)) keyword"

lemma settings_value: "CHR '';'' \<notin> set v \<Longrightarrow> settings acc (v @ r) = settings (acc @ v) r"
  by (induction v arbitrary: acc) auto

lemma cut_at_first: "x \<notin> set k \<Longrightarrow> cut_at x (k @ x # v) = (k, v)"
  by (induction k) (auto simp: cut_at_def)

lemma setting_cuts: "cut_at (CHR ''='') (''Address='' @ v) = (''Address'', v)"
  "cut_at (CHR ''='') (''Database='' @ v) = (''Database'', v)"
  "cut_at (CHR ''='') (''UID='' @ v) = (''UID'', v)" "cut_at (CHR ''='') (''PWD='' @ v) = (''PWD'', v)"
  by (simp_all add: cut_at_def)

text \<open>C8: a client that reads the connection string of a binding finds every part under its
  keyword: the host and the port in the address, the database, the user and the password, and
  nothing else, where no part has a semicolon and the host no comma.  The passwords that Bind
  makes have no semicolon: they are of the alphabet of C6.\<close>

theorem connection_string_fields:
  assumes "CHR '','' \<notin> set h" and "CHR '';'' \<notin> set (h @ d @ u @ pw)"
  shows "setting_of (generateConnectionString h p d u pw) =
      [''Address'' \<mapsto> h @ '','' @ Itoa p, ''Database'' \<mapsto> d, ''UID'' \<mapsto> u, ''PWD'' \<mapsto> pw] \<and>
    cut_at (CHR '','') (h @ '','' @ Itoa p) = (h, Itoa p)"
proof -
  have "CHR '';'' \<notin> set (Itoa p)" using Itoa_chars [of "CHR '';''" p] by (auto simp: is_digit_def)
  then have parts: "CHR '';'' \<notin> set (h @ '','' @ Itoa p)" "CHR '';'' \<notin> set d" "CHR '';'' \<notin> set u" "CHR '';'' \<notin> set pw"
    using assms(2) by auto
  have "settings [] (generateConnectionString h p d u pw) =
      [''Address='' @ h @ '','' @ Itoa p, ''Database='' @ d, ''UID='' @ u, ''PWD='' @ pw]"
    using settings_value [OF parts(1), of "''Address=''"] settings_value [OF parts(2), of "''Database=''"]
      settings_value [OF parts(3), of "''UID=''"] settings_value [OF parts(4), of "''PWD=''"]
    by (simp add: generateConnectionString_eq)
  then have "setting_of (generateConnectionString h p d u pw) keyword =
      [''Address'' \<mapsto> h @ '','' @ Itoa p, ''Database'' \<mapsto> d, ''UID'' \<mapsto> u, ''PWD'' \<mapsto> pw] keyword" for keyword
    by (simp only: setting_of_def list.map setting_cuts) simp
  moreover have "cut_at (CHR '','') (h @ '','' @ Itoa p) = (h, Itoa p)"
    using cut_at_first [OF assms(1), of "Itoa p"] by simp
  ultimately show ?thesis by blast
qed

theorem connection_string_fields_witness:
  "map (setting_of (generateConnectionString ''h'' 1433 ''d'' ''u'' ''p='')) [''Database'', ''UID'', ''PWD'', ''uid''] =
     [Some ''d'', Some ''u'', Some ''p='', None]"
  using connection_string_fields [of "''h''" "''d''" "''u''" "''p=''" 1433] by simp

end
