(* ===== verification/Utf8.thy ===== *)
theory Utf8
  imports Json
begin

text \<open>
  UTF-8: the code points of a text (\<open>for range\<close> over a string, \<open>[]rune(s)\<close>), texts that are
  well formed, and the inverse laws of \<open>DecodeRune\<close> and \<open>EncodeRune\<close>.
\<close>

function utf8 :: "string \<Rightarrow> bool" where
  "utf8 [] = True"
| "utf8 (c # cs) = (case DecodeRune (c # cs) of None \<Rightarrow> False | Some (r, n) \<Rightarrow> utf8 (drop (n - 1) cs))"
  by pat_completeness auto
termination
  by (relation "measure length") auto

declare utf8.simps [simp del]

lemma DecodeRune_ascii: "byte c < 128 \<Longrightarrow> DecodeRune (c # cs) = Some (byte c, 1)"
  by (simp add: DecodeRune_def)

lemma byte_char_of [simp]: "k < 256 \<Longrightarrow> byte (char_of k) = k"
  by (simp add: byte_def)

lemma byte_lt [simp]: "byte c < 256"
  unfolding byte_def using of_char_mod_256 [of c, where 'a = nat] mod_less_divisor by (metis zero_less_numeral)

lemma char_of_byte' [simp]: "char_of (byte c) = c"
  by (simp add: byte_def)

lemma byte_eqD: "byte c = k \<Longrightarrow> c = char_of k"
  by auto

lemma shift64: "y < 64 \<Longrightarrow> (x * 64 + y) div 64 = (x::nat)" "y < 64 \<Longrightarrow> (x * 64 + y) mod 64 = (y::nat)"
  by simp_all

lemma div_64_powers: "r div 4096 = r div 64 div 64" "r div 262144 = r div 64 div 64 div (64::nat)"
  by (simp_all flip: div_mult2_eq)

lemma cont_byteE:
  assumes "cont_byte b"
  obtains y where "b = 128 + y" and "y < 64"
  using assms by (intro that [of "b - 128"]) (auto simp: cont_byte_def)

lemma rune2:
  assumes "192 \<le> b0" "b0 < 224" "cont_byte b1" and r: "r = (b0 - 192) * 64 + (b1 - 128)"
  shows "192 + r div 64 = b0" "128 + r mod 64 = b1" "r \<le> 2047"
proof -
  obtain x where x: "b0 = 192 + x" using assms(1) le_Suc_ex by blast
  obtain y where y: "b1 = 128 + y" "y < 64" using assms(3) by (rule cont_byteE)
  have r': "r = x * 64 + y" by (simp add: r x y)
  show "192 + r div 64 = b0" "128 + r mod 64 = b1"
    unfolding r' x y(1) using y(2) by (simp_all only: shift64)
  show "r \<le> 2047" using r' x y(2) assms(2) by simp
qed

lemma rune3:
  assumes "224 \<le> b0" "b0 < 240" "cont_byte b1" "cont_byte b2"
    and r: "r = (b0 - 224) * 4096 + (b1 - 128) * 64 + (b2 - 128)"
  shows "224 + r div 4096 = b0" "128 + r div 64 mod 64 = b1" "128 + r mod 64 = b2" "r \<le> 65535"
proof -
  obtain x where x: "b0 = 224 + x" using assms(1) le_Suc_ex by blast
  obtain y where y: "b1 = 128 + y" "y < 64" using assms(3) by (rule cont_byteE)
  obtain z where z: "b2 = 128 + z" "z < 64" using assms(4) by (rule cont_byteE)
  have r': "r = (x * 64 + y) * 64 + z" by (simp add: r x y z)
  show "224 + r div 4096 = b0" "128 + r div 64 mod 64 = b1" "128 + r mod 64 = b2"
    unfolding r' div_64_powers x y(1) z(1) using y(2) z(2) by (simp_all only: shift64)
  have "x < 16" using x assms(2) by simp
  then show "r \<le> 65535" unfolding r' using y(2) z(2) by presburger
qed

lemma rune4:
  assumes "240 \<le> b0" "cont_byte b1" "cont_byte b2" "cont_byte b3"
    and r: "r = (b0 - 240) * 262144 + (b1 - 128) * 4096 + (b2 - 128) * 64 + (b3 - 128)"
  shows "240 + r div 262144 = b0" "128 + r div 4096 mod 64 = b1" "128 + r div 64 mod 64 = b2"
    "128 + r mod 64 = b3"
proof -
  obtain x where x: "b0 = 240 + x" using assms(1) le_Suc_ex by blast
  obtain y where y: "b1 = 128 + y" "y < 64" using assms(2) by (rule cont_byteE)
  obtain z where z: "b2 = 128 + z" "z < 64" using assms(3) by (rule cont_byteE)
  obtain u where u: "b3 = 128 + u" "u < 64" using assms(4) by (rule cont_byteE)
  have r': "r = ((x * 64 + y) * 64 + z) * 64 + u" by (simp add: r x y z u)
  show "240 + r div 262144 = b0" "128 + r div 4096 mod 64 = b1" "128 + r div 64 mod 64 = b2"
    "128 + r mod 64 = b3"
    unfolding r' div_64_powers x y(1) z(1) u(1) using y(2) z(2) u(2) by (simp_all only: shift64)
qed

lemma DecodeRune_shape:
  assumes "DecodeRune (c # cs) = Some (r, n)"
  shows "1 \<le> n \<and> n - 1 \<le> length cs \<and> EncodeRune r = take n (c # cs) \<and>
    DecodeRune (c # take (n - 1) cs @ rest) = Some (r, n)"
proof (cases "byte c < 128")
  case True
  with assms show ?thesis by (auto simp: DecodeRune_ascii EncodeRune_def)
next
  case False
  with assms obtain d ds where cs: "cs = d # ds" and c: "192 \<le> byte c" and d: "cont_byte (byte d)"
    by (cases cs) (auto simp: DecodeRune_def split: if_splits)
  show ?thesis
  proof (cases "byte c < 224")
    case True
    with assms cs c d False have r: "r = (byte c - 192) * 64 + (byte d - 128)"
      and n: "n = 2" "\<not> r \<le> 127"
      by (auto simp: DecodeRune_def Let_def split: if_splits)
    note parts = rune2 [OF c True d r]
    have "DecodeRune (c # d # ts) = Some (r, 2)" for ts
      using cs c d True False n(2) by (simp add: DecodeRune_def Let_def r)
    moreover have "EncodeRune r = [c, d]"
      using n(2) parts by (simp add: EncodeRune_def)
    ultimately show ?thesis using cs n by (simp add: numeral_2_eq_2)
  next
    case c2: False
    with assms cs c d obtain e es where ds: "ds = e # es" and e: "cont_byte (byte e)"
      by (cases ds) (auto simp: DecodeRune_def split: if_splits)
    show ?thesis
    proof (cases "byte c < 240")
      case True
      with assms cs ds c c2 d e False
      have r: "r = (byte c - 224) * 4096 + (byte d - 128) * 64 + (byte e - 128)"
        and n: "n = 3" "\<not> r \<le> 2047" "\<not> (55296 \<le> r \<and> r \<le> 57343)"
        by (auto simp: DecodeRune_def Let_def split: if_splits)
      have c': "224 \<le> byte c" using c2 by simp
      note parts = rune3 [OF c' True d e r]
      have "DecodeRune (c # d # e # ts) = Some (r, 3)" for ts
        using cs c d e True c2 False n(2,3) by (simp add: DecodeRune_def Let_def flip: r)
      moreover have "EncodeRune r = [c, d, e]"
        using n(2,3) parts by (auto simp: EncodeRune_def)
      ultimately show ?thesis using cs ds n by (simp add: numeral_2_eq_2 numeral_3_eq_3)
    next
      case c3: False
      with assms cs ds c d e obtain f fs where es: "es = f # fs" and f: "cont_byte (byte f)"
        by (cases es) (auto simp: DecodeRune_def split: if_splits)
      with assms cs ds c c2 c3 d e False
      have r: "r = (byte c - 240) * 262144 + (byte d - 128) * 4096 + (byte e - 128) * 64 + (byte f - 128)"
        and n: "n = 4" "\<not> r \<le> 65535" "\<not> 1114111 < r" "byte c < 248"
        by (auto simp: DecodeRune_def Let_def split: if_splits)
      have c': "240 \<le> byte c" using c3 by simp
      note parts = rune4 [OF c' d e f r]
      have "DecodeRune (c # d # e # f # ts) = Some (r, n)" for ts
        using cs c d e f c2 c3 False n by (simp add: DecodeRune_def Let_def flip: r)
      moreover have "EncodeRune r = [c, d, e, f]"
        using n(2,3) parts by (simp add: EncodeRune_def)
      moreover have "n = Suc (Suc (Suc (Suc 0)))" using n(1) by simp
      ultimately show ?thesis using cs ds es by simp
    qed
  qed
qed

lemma EncodeRune_ascii: "byte c < 128 \<Longrightarrow> EncodeRune (byte c) = [c]"
  by (simp add: EncodeRune_def)

lemma utf8_append: "utf8 a \<Longrightarrow> utf8 b \<Longrightarrow> utf8 (a @ b)"
proof (induction a rule: utf8.induct)
  case (2 c cs)
  from "2.prems"(1) obtain r n where d: "DecodeRune (c # cs) = Some (r, n)" and u: "utf8 (drop (n - 1) cs)"
    by (auto simp: utf8.simps split: option.splits)
  from DecodeRune_shape [OF d, of "drop (n - 1) cs @ b"]
  have "DecodeRune (c # cs @ b) = Some (r, n)" and n: "n - 1 \<le> length cs"
    by (simp_all flip: append_assoc)
  with "2.IH" [OF d refl u "2.prems"(2)] show ?case by (simp add: utf8.simps)
qed simp

lemma utf8_ascii: "list_all (\<lambda>c. byte c < 128) s \<Longrightarrow> utf8 s"
  by (induction s) (simp_all add: utf8.simps DecodeRune_ascii)

section \<open>The code points of a text\<close>

text \<open>A byte that starts no well-formed code point gives the replacement character.\<close>

function runes :: "string \<Rightarrow> nat list" where
  "runes [] = []"
| "runes (c # cs) = (case DecodeRune (c # cs) of
     None \<Rightarrow> 65533 # runes cs | Some (r, n) \<Rightarrow> r # runes (drop (n - 1) cs))"
  by pat_completeness auto
termination
  by (relation "measure length") auto

declare runes.simps [simp del]

definition string_of_runes :: "nat list \<Rightarrow> string" where
  "string_of_runes rs = concat (map EncodeRune rs)"

definition valid_rune :: "nat \<Rightarrow> bool" where
  "valid_rune r \<longleftrightarrow> r \<le> 1114111 \<and> \<not> (55296 \<le> r \<and> r \<le> 57343)"

lemma runes_Nil [simp]: "runes [] = []"
  by (simp add: runes.simps)

lemma string_of_runes_simps [simp]:
  "string_of_runes [] = []"
  "string_of_runes (r # rs) = EncodeRune r @ string_of_runes rs"
  "string_of_runes (rs @ rs') = string_of_runes rs @ string_of_runes rs'"
  by (simp_all add: string_of_runes_def)

lemma runes_ascii [simp]: "byte c < 128 \<Longrightarrow> runes (c # cs) = byte c # runes cs"
  by (simp add: runes.simps DecodeRune_ascii)

lemma DecodeRune_append:
  assumes "DecodeRune (c # cs) = Some (r, n)"
  obtains k where "n = Suc k" and "k \<le> length cs" and "DecodeRune (c # cs @ b) = Some (r, n)"
    and "EncodeRune r = take n (c # cs)"
  using DecodeRune_shape [OF assms, of "drop (n - 1) cs @ b"]
  by (cases n) (simp_all flip: append_assoc)

lemma runes_append: "utf8 a \<Longrightarrow> runes (a @ b) = runes a @ runes b"
proof (induction a rule: utf8.induct)
  case (2 c cs)
  from "2.prems" obtain r n where d: "DecodeRune (c # cs) = Some (r, n)" and u: "utf8 (drop (n - 1) cs)"
    by (auto simp: utf8.simps split: option.splits)
  from "2.IH" [OF d refl u] d show ?case
    by (cases rule: DecodeRune_append [OF d, of b]) (simp add: runes.simps)
qed simp

lemma string_of_runes_runes: "utf8 s \<Longrightarrow> string_of_runes (runes s) = s"
proof (induction s rule: utf8.induct)
  case (2 c cs)
  from "2.prems" obtain r n where d: "DecodeRune (c # cs) = Some (r, n)" and u: "utf8 (drop (n - 1) cs)"
    by (auto simp: utf8.simps split: option.splits)
  from "2.IH" [OF d refl u] d show ?case
    by (cases rule: DecodeRune_append [OF d]) (simp add: runes.simps)
qed simp

lemma DecodeRune_EncodeRune:
  assumes "valid_rune r"
  shows "DecodeRune (EncodeRune r @ s) = Some (r, length (EncodeRune r))"
proof -
  have small: "r div 64 mod 64 < 64" "r mod 64 < 64" "r div 4096 mod 64 < 64" by simp_all
  consider "r \<le> 127" | "127 < r" "r \<le> 2047" | "2047 < r" "r \<le> 65535" | "65535 < r" by linarith
  then show ?thesis
  proof cases
    case 2
    have a: "r div 64 < 32" "2 \<le> r div 64" using 2 by linarith+
    have "EncodeRune r = map char_of [192 + r div 64, 128 + r mod 64]"
      using 2 by (simp add: EncodeRune_def)
    with a small 2 show ?thesis
      by (simp add: DecodeRune_def cont_byte_def)
  next
    case 3
    have a: "r div 4096 < 16" using 3 by linarith
    have "r div 4096 = r div 64 div 64" by (simp flip: div_mult2_eq)
    then have e: "r div 4096 * 4096 + r div 64 mod 64 * 64 + r mod 64 = r"
      using div_mult_mod_eq [of r 64] div_mult_mod_eq [of "r div 64" 64] by linarith
    from 3 a small assms show ?thesis
      by (simp add: EncodeRune_def DecodeRune_def cont_byte_def Let_def valid_rune_def e)
  next
    case 4
    have "r \<le> 1114111" using assms by (simp add: valid_rune_def)
    then have a: "r div 262144 < 5" by linarith
    have "r div 4096 = r div 64 div 64" "r div 262144 = r div 4096 div 64"
      by (simp_all flip: div_mult2_eq)
    then have e: "r div 262144 * 262144 + r div 4096 mod 64 * 4096 + r div 64 mod 64 * 64 + r mod 64 = r"
      using div_mult_mod_eq [of r 64] div_mult_mod_eq [of "r div 64" 64] div_mult_mod_eq [of "r div 4096" 64]
      by linarith
    from 4 a small assms show ?thesis
      by (simp add: EncodeRune_def DecodeRune_def cont_byte_def Let_def valid_rune_def e)
  qed (simp add: EncodeRune_def DecodeRune_def)
qed

lemma EncodeRune_Cons: obtains c cs where "EncodeRune r = c # cs"
  by (cases "EncodeRune r") (auto simp: EncodeRune_def split: if_splits)

lemma runes_EncodeRune: "valid_rune r \<Longrightarrow> runes (EncodeRune r @ s) = r # runes s"
  using DecodeRune_EncodeRune [of r s] by (cases rule: EncodeRune_Cons [of r]) (simp add: runes.simps)

lemma utf8_EncodeRune: "valid_rune r \<Longrightarrow> utf8 (EncodeRune r @ s) = utf8 s"
  using DecodeRune_EncodeRune [of r s] by (cases rule: EncodeRune_Cons [of r]) (simp add: utf8.simps)

lemma EncodeRune_invalid: "\<not> valid_rune r \<Longrightarrow> EncodeRune r = EncodeRune 65533"
  by (auto simp: EncodeRune_def valid_rune_def)

lemma valid_replacement [simp]: "valid_rune 65533"
  by (simp add: valid_rune_def)

lemma utf8_EncodeRune' [simp]: "utf8 (EncodeRune r)"
  by (metis EncodeRune_invalid append_Nil2 utf8.simps(1) utf8_EncodeRune valid_replacement)

lemma utf8_string_of_runes [simp]: "utf8 (string_of_runes rs)"
  by (induction rs) (simp_all add: utf8.simps(1) utf8_append)

lemma runes_string_of_runes: "list_all valid_rune rs \<Longrightarrow> runes (string_of_runes rs) = rs"
  by (induction rs) (simp_all add: runes_EncodeRune)

lemma DecodeRune_valid: "DecodeRune s = Some (r, n) \<Longrightarrow> valid_rune r"
  by (auto simp: DecodeRune_def valid_rune_def cont_byte_def Let_def split: list.splits if_splits)

lemma runes_valid: "list_all valid_rune (runes s)"
  by (induction s rule: runes.induct)
     (auto simp: runes.simps split: option.splits dest: DecodeRune_valid)

end
