(* ===== verification/JsonParse.thy ===== *)
theory JsonParse
  imports Utf8
begin

text \<open>
  Go's JSON scanner and its reading of literals (encoding/json), which the broker uses for
  its configuration file and for the body of a provision request: \<open>parse_value\<close> reads one
  value, \<open>json_unmarshal\<close> a whole text, \<open>json_decode\<close> the first value of a stream.  The
  fuel of \<open>parse_value\<close> bounds its recursion depth; \<open>parse_fuel\<close> shows that twice the
  length of the text is always enough.
\<close>

section \<open>String literals\<close>

definition is_space :: "char \<Rightarrow> bool" where
  "is_space c \<longleftrightarrow> byte c \<in> {32, 9, 13, 10}"

definition skip_ws :: "string \<Rightarrow> string" where
  "skip_ws s = dropWhile is_space s"

definition hex_val :: "char \<Rightarrow> nat option" where
  "hex_val c =
     (if 48 \<le> byte c \<and> byte c \<le> 57 then Some (byte c - 48)
      else if 97 \<le> byte c \<and> byte c \<le> 102 then Some (byte c - 87)
      else if 65 \<le> byte c \<and> byte c \<le> 70 then Some (byte c - 55)
      else None)"

fun hex4 :: "string \<Rightarrow> nat option" where
  "hex4 (a # b # c # d # _) =
     (case (hex_val a, hex_val b, hex_val c, hex_val d) of
        (Some p, Some q, Some r, Some s) \<Rightarrow> Some (((p * 16 + q) * 16 + r) * 16 + s)
      | _ \<Rightarrow> None)"
| "hex4 _ = None"

text \<open>The one-byte escapes, after the backslash.\<close>

definition short_escape :: "char \<Rightarrow> char option" where
  "short_escape c =
     (if byte c \<in> {34, 92, 47} then Some c
      else if c = CHR ''b'' then Some (char_of (8::nat))
      else if c = CHR ''f'' then Some (char_of (12::nat))
      else if c = CHR ''n'' then Some (char_of (10::nat))
      else if c = CHR ''r'' then Some (char_of (13::nat))
      else if c = CHR ''t'' then Some (char_of (9::nat))
      else None)"

definition high_surrogate :: "nat \<Rightarrow> bool" where
  "high_surrogate r \<longleftrightarrow> 55296 \<le> r \<and> r < 56320"

definition low_surrogate :: "nat \<Rightarrow> bool" where
  "low_surrogate r \<longleftrightarrow> 56320 \<le> r \<and> r < 57344"

definition surrogate_pair :: "nat \<Rightarrow> string \<Rightarrow> nat option" where
  "surrogate_pair r rest =
     (if high_surrogate r \<and> take 2 rest = [CHR 0x5C, CHR ''u''] then
        (case hex4 (drop 2 rest) of
           Some q \<Rightarrow> if low_surrogate q then Some ((r - 55296) * 1024 + (q - 56320) + 65536) else None
         | None \<Rightarrow> None)
      else None)"

definition put :: "string \<Rightarrow> (string \<times> string) option \<Rightarrow> (string \<times> string) option" where
  "put p = map_option (map_prod (append p) id)"

text \<open>
  The text of a literal, from after its opening quote: the bytes it denotes and what
  follows the closing quote.  A byte that is not UTF-8, and an unpaired surrogate,
  becomes the replacement character.
\<close>

function unquote :: "string \<Rightarrow> (string \<times> string) option" where
  "unquote [] = None"
| "unquote (c # cs) =
     (if c = CHR 0x22 then Some ([], cs)
      else if c = CHR 0x5C then
        (case cs of
           [] \<Rightarrow> None
         | e # es \<Rightarrow>
             if e = CHR ''u'' then
               (case hex4 es of
                  None \<Rightarrow> None
                | Some r \<Rightarrow>
                    if high_surrogate r \<or> low_surrogate r then
                      (case surrogate_pair r (drop 4 es) of
                         Some q \<Rightarrow> put (EncodeRune q) (unquote (drop 10 es))
                       | None \<Rightarrow> put (EncodeRune 65533) (unquote (drop 4 es)))
                    else put (EncodeRune r) (unquote (drop 4 es)))
             else (case short_escape e of None \<Rightarrow> None | Some d \<Rightarrow> put [d] (unquote es)))
      else if byte c < 32 then None
      else if byte c < 128 then put [c] (unquote cs)
      else (case DecodeRune (c # cs) of
              None \<Rightarrow> put (EncodeRune 65533) (unquote cs)
            | Some (r, n) \<Rightarrow> put (take n (c # cs)) (unquote (drop (n - 1) cs))))"
  by pat_completeness auto
termination
  by (relation "measure length") auto

declare unquote.simps [simp del]

section \<open>Numbers\<close>

definition digits :: "string \<Rightarrow> string \<times> string" where
  "digits s = (takeWhile is_digit s, dropWhile is_digit s)"

definition fraction :: "string \<Rightarrow> (string \<times> string) option" where
  "fraction s =
     (case s of
        [] \<Rightarrow> Some ([], s)
      | c # cs \<Rightarrow>
          if c = CHR ''.'' then
            (case digits cs of (ds, r) \<Rightarrow> if ds = [] then None else Some (c # ds, r))
          else Some ([], s))"

definition exponent :: "string \<Rightarrow> (string \<times> string) option" where
  "exponent s =
     (case s of
        [] \<Rightarrow> Some ([], s)
      | c # cs \<Rightarrow>
          if c = CHR ''e'' \<or> c = CHR ''E'' then
            (let (sign, t) = (case cs of
                 d # ds \<Rightarrow> if d = CHR ''+'' \<or> d = CHR ''-'' then ([d], ds) else ([], cs)
               | [] \<Rightarrow> ([], []))
             in case digits t of (ds, r) \<Rightarrow> if ds = [] then None else Some (c # sign @ ds, r))
          else Some ([], s))"

definition parse_number :: "string \<Rightarrow> (string \<times> string) option" where
  "parse_number s =
     (let (sign, t) = (case s of
          c # cs \<Rightarrow> if c = CHR ''-'' then ([c], cs) else ([], s)
        | [] \<Rightarrow> ([], []))
      in case t of
           [] \<Rightarrow> None
         | d # ds \<Rightarrow>
             if \<not> is_digit d then None
             else (let (whole, u) = (if d = CHR ''0'' then ([d], ds) else digits t)
                   in case fraction u of
                        None \<Rightarrow> None
                      | Some (frac, v) \<Rightarrow>
                          (case exponent v of
                             None \<Rightarrow> None
                           | Some (e, w) \<Rightarrow> Some (sign @ whole @ frac @ e, w))))"

section \<open>Values\<close>

definition literal :: "string \<Rightarrow> json \<Rightarrow> string \<Rightarrow> (json \<times> string) option" where
  "literal word v s =
     (if take (length word) s = word then Some (v, drop (length word) s) else None)"

fun parse_value :: "nat \<Rightarrow> string \<Rightarrow> (json \<times> string) option"
  and parse_elems :: "nat \<Rightarrow> string \<Rightarrow> (json list \<times> string) option"
  and parse_members :: "nat \<Rightarrow> string \<Rightarrow> ((string \<times> json) list \<times> string) option" where
  "parse_value 0 s = None"
| "parse_value (Suc n) s =
     (case s of
        [] \<Rightarrow> None
      | c # cs \<Rightarrow>
          if c = CHR 0x7B then
            (case skip_ws cs of
               [] \<Rightarrow> None
             | d # ds \<Rightarrow> if d = CHR 0x7D then Some (JObj [], ds)
                 else map_option (map_prod JObj id) (parse_members n (d # ds)))
          else if c = CHR ''['' then
            (case skip_ws cs of
               [] \<Rightarrow> None
             | d # ds \<Rightarrow> if d = CHR '']'' then Some (JArr [], ds)
                 else map_option (map_prod JArr id) (parse_elems n (d # ds)))
          else if c = CHR 0x22 then map_option (map_prod JStr id) (unquote cs)
          else if c = CHR ''n'' then literal ''null'' JNull s
          else if c = CHR ''t'' then literal ''true'' (JBool True) s
          else if c = CHR ''f'' then literal ''false'' (JBool False) s
          else map_option (map_prod JNum id) (parse_number s))"
| "parse_elems 0 s = None"
| "parse_elems (Suc n) s =
     (case parse_value n s of
        None \<Rightarrow> None
      | Some (v, r) \<Rightarrow>
          (case skip_ws r of
             [] \<Rightarrow> None
           | d # ds \<Rightarrow>
               if d = CHR '']'' then Some ([v], ds)
               else if d = CHR '','' then
                 map_option (map_prod (Cons v) id) (parse_elems n (skip_ws ds))
               else None))"
| "parse_members 0 s = None"
| "parse_members (Suc n) s =
     (case s of
        [] \<Rightarrow> None
      | c # cs \<Rightarrow>
          if c \<noteq> CHR 0x22 then None
          else (case unquote cs of
             None \<Rightarrow> None
           | Some (k, r) \<Rightarrow>
               (case skip_ws r of
                  [] \<Rightarrow> None
                | d # ds \<Rightarrow>
                    if d \<noteq> CHR '':'' then None
                    else (case parse_value n (skip_ws ds) of
                       None \<Rightarrow> None
                     | Some (v, r) \<Rightarrow>
                         (case skip_ws r of
                            [] \<Rightarrow> None
                          | d # ds \<Rightarrow>
                              if d = CHR 0x7D then Some ([(k, v)], ds)
                              else if d = CHR '','' then
                                map_option (map_prod (Cons (k, v)) id)
                                  (parse_members n (skip_ws ds))
                              else None)))))"

text \<open>\<open>json.NewDecoder(r).Decode\<close> reads the first value; \<open>json.Unmarshal\<close> the only one.\<close>

definition fuel_for :: "string \<Rightarrow> nat" where
  "fuel_for s = 2 * length s + 2"

definition json_decode :: "string \<Rightarrow> json option" where
  "json_decode s = map_option fst (parse_value (fuel_for (skip_ws s)) (skip_ws s))"

definition json_unmarshal :: "string \<Rightarrow> json option" where
  "json_unmarshal s =
     (case parse_value (fuel_for (skip_ws s)) (skip_ws s) of
        None \<Rightarrow> None
      | Some (v, rest) \<Rightarrow> if skip_ws rest = [] then Some v else None)"

section \<open>Enough fuel\<close>

lemma length_skip_ws: "length (skip_ws s) \<le> length s"
  by (simp add: skip_ws_def length_dropWhile_le)

declare escape.simps [simp del]

lemma put_SomeE:
  assumes "put p m = Some (x, r)"
  obtains y where "m = Some (y, r)"
  using assms by (auto simp: put_def)

lemma unquote_step:
  assumes "unquote (c # cs) = Some (x, r)"
  obtains (close) "r = cs"
    | (inside) t y where "length t \<le> length cs" "unquote t = Some (y, r)"
proof -
  have drop_inside: thesis if "put p (unquote (drop n t)) = Some (x, r)" "length t \<le> length cs" for p n t
    using that by (auto elim!: put_SomeE intro!: inside [of "drop n t"])
  note here = drop_inside [where n = 0, simplified]
  from assms show thesis
    by (subst (asm) unquote.simps)
       (auto split: if_splits list.splits option.splits intro: close here drop_inside)
qed

lemma unquote_length: "unquote s = Some (x, r) \<Longrightarrow> length r < length s"
proof (induction "length s" arbitrary: s x rule: less_induct)
  case less
  show ?case
  proof (cases s)
    case Nil
    with less.prems show ?thesis by (simp add: unquote.simps)
  next
    case (Cons c cs)
    from less.prems [unfolded Cons] show ?thesis
    proof (cases rule: unquote_step)
      case (inside t y)
      with less.hyps [of t y] Cons show ?thesis by simp
    qed (simp add: Cons)
  qed
qed

lemma digits_length: "digits s = (ds, r) \<Longrightarrow> length ds + length r = length s"
  by (auto simp: digits_def length_append [symmetric] simp del: length_append)

lemma fraction_length: "fraction s = Some (f, r) \<Longrightarrow> length r \<le> length s"
  using digits_length by (fastforce simp: fraction_def split: list.splits if_splits prod.splits)

lemma exponent_length: "exponent s = Some (f, r) \<Longrightarrow> length r \<le> length s"
  using digits_length by (fastforce simp: exponent_def split: list.splits if_splits prod.splits)

lemma digits_nonempty: "is_digit d \<Longrightarrow> digits (d # ds) = (x, r) \<Longrightarrow> length r \<le> length ds"
  by (auto simp: digits_def length_dropWhile_le)

lemma parse_number_length: "parse_number s = Some (x, r) \<Longrightarrow> length r < length s"
  by (auto simp: parse_number_def Let_def split: list.splits if_splits prod.splits option.splits
      dest!: fraction_length exponent_length digits_nonempty)

lemma literal_length: "word \<noteq> [] \<Longrightarrow> literal word v s = Some (x, r) \<Longrightarrow> length r < length s"
  by (cases s) (auto simp: literal_def split: if_splits)

lemma skip_ws_Cons: "skip_ws s = d # ds \<Longrightarrow> length ds < length s"
  using length_skip_ws [of s] by simp

lemma map_fst_Some:
  "map_option (map_prod f id) m = Some (v, r) \<longleftrightarrow> (\<exists>x. m = Some (x, r) \<and> v = f x)"
  by (cases m) auto

lemma parse_value_length_step:
  assumes elems: "\<And>s vs r. parse_elems n s = Some (vs, r) \<Longrightarrow> length r < length s"
    and members: "\<And>s kvs r. parse_members n s = Some (kvs, r) \<Longrightarrow> length r < length s"
    and run: "parse_value (Suc n) s = Some (v, r)"
  shows "length r < length s"
proof (cases s)
  case (Cons c cs)
  show ?thesis
  proof (cases "c = CHR 0x7B \<or> c = CHR ''[''")
    case True
    obtain d ds where d: "skip_ws cs = d # ds"
      using run Cons True by (cases "skip_ws cs") (auto split: if_splits)
    have "length r < Suc (length (d # ds))"
      using run Cons True d elems [of "d # ds"] members [of "d # ds"]
      by (auto simp: map_fst_Some split: if_splits)
    with d Cons length_skip_ws [of cs] show ?thesis by simp
  next
    case False
    with run Cons have "(\<exists>x. unquote cs = Some (x, r)) \<or> (\<exists>x. parse_number s = Some (x, r)) \<or>
        (\<exists>word x. word \<noteq> [] \<and> literal word x s = Some (v, r))"
      by (simp add: map_fst_Some split: if_splits) blast+
    with Cons show ?thesis
      by (auto dest: unquote_length parse_number_length literal_length)
  qed
qed (use run in simp)

lemma parse_elems_length_step:
  assumes vals: "\<And>s v r. parse_value n s = Some (v, r) \<Longrightarrow> length r < length s"
    and elems: "\<And>s vs r. parse_elems n s = Some (vs, r) \<Longrightarrow> length r < length s"
    and run: "parse_elems (Suc n) s = Some (vs, r)"
  shows "length r < length s"
proof -
  from run obtain v u d ds where v: "parse_value n s = Some (v, u)" and d: "skip_ws u = d # ds"
    by (auto split: option.splits list.splits)
  have "r = ds \<or> (\<exists>ws. parse_elems n (skip_ws ds) = Some (ws, r))"
    using run v d by (auto simp: map_fst_Some split: if_splits)
  with vals [OF v] skip_ws_Cons [OF d] length_skip_ws [of ds] elems [of "skip_ws ds"]
  show ?thesis by fastforce
qed

lemma parse_members_length_step:
  assumes vals: "\<And>s v r. parse_value n s = Some (v, r) \<Longrightarrow> length r < length s"
    and members: "\<And>s kvs r. parse_members n s = Some (kvs, r) \<Longrightarrow> length r < length s"
    and run: "parse_members (Suc n) s = Some (kvs, r)"
  shows "length r < length s"
proof -
  from run obtain cs k u d ds v w e es where s: "s = CHR 0x22 # cs" and k: "unquote cs = Some (k, u)"
    and d: "skip_ws u = d # ds" and v: "parse_value n (skip_ws ds) = Some (v, w)"
    and e: "skip_ws w = e # es" and c: "d = CHR '':''"
    by (auto split: option.splits list.splits if_splits)
  have "r = es \<or> (\<exists>ws. parse_members n (skip_ws es) = Some (ws, r))"
    using run s k d v e c by (auto simp: map_fst_Some split: if_splits)
  then have "length r \<le> length es"
    using length_skip_ws [of es] members [of "skip_ws es"] by fastforce
  also have "length es < length w" by (rule skip_ws_Cons [OF e])
  also have "length w < length ds" using vals [OF v] length_skip_ws [of ds] by linarith
  also have "length ds < length u" by (rule skip_ws_Cons [OF d])
  also have "length u < length cs" by (rule unquote_length [OF k])
  finally show ?thesis using s by simp
qed

lemma parse_lengths:
  "(\<forall>s v r. parse_value n s = Some (v, r) \<longrightarrow> length r < length s) \<and>
   (\<forall>s vs r. parse_elems n s = Some (vs, r) \<longrightarrow> length r < length s) \<and>
   (\<forall>s kvs r. parse_members n s = Some (kvs, r) \<longrightarrow> length r < length s)"
proof (induction n)
  case (Suc n)
  then show ?case
    by (intro conjI allI impI)
       (erule parse_value_length_step [rotated 2] parse_elems_length_step [rotated 2]
         parse_members_length_step [rotated 2]; blast)+
qed simp

lemmas parse_length = parse_lengths [THEN conjunct1, rule_format]
  parse_lengths [THEN conjunct2, THEN conjunct1, rule_format]
  parse_lengths [THEN conjunct2, THEN conjunct2, rule_format]

lemma parse_value_fuel_step:
  assumes elems: "\<And>s. 2 * length s + 2 \<le> n \<Longrightarrow> parse_elems (Suc n) s = parse_elems n s"
    and members: "\<And>s. 2 * length s + 2 \<le> n \<Longrightarrow> parse_members (Suc n) s = parse_members n s"
    and n: "2 * length s + 1 \<le> Suc n"
  shows "parse_value (Suc (Suc n)) s = parse_value (Suc n) s"
proof (cases s)
  case (Cons c cs)
  have "parse_elems (Suc n) (skip_ws cs) = parse_elems n (skip_ws cs)"
    and "parse_members (Suc n) (skip_ws cs) = parse_members n (skip_ws cs)"
    using n Cons length_skip_ws [of cs] by (intro elems members; simp)+
  with Cons show ?thesis
    by (cases "skip_ws cs") (auto simp del: parse_elems.simps parse_members.simps)
qed simp

lemma parse_elems_fuel_step:
  assumes vals: "\<And>s. 2 * length s + 1 \<le> n \<Longrightarrow> parse_value (Suc n) s = parse_value n s"
    and elems: "\<And>s. 2 * length s + 2 \<le> n \<Longrightarrow> parse_elems (Suc n) s = parse_elems n s"
    and n: "2 * length s + 2 \<le> Suc n"
  shows "parse_elems (Suc (Suc n)) s = parse_elems (Suc n) s"
proof -
  have v: "parse_value (Suc n) s = parse_value n s" by (rule vals) (use n in simp)
  show ?thesis
  proof (cases "parse_value n s")
    case (Some vr)
    obtain v r where vr: "vr = (v, r)" by fastforce
    with Some have r: "length r < length s" by (blast dest: parse_length)
    have "parse_elems (Suc n) (skip_ws ds) = parse_elems n (skip_ws ds)"
      if "skip_ws r = d # ds" for d ds
      using n r skip_ws_Cons [OF that] length_skip_ws [of ds] by (intro elems) linarith
    with v Some vr show ?thesis
      by (subst (1 2) parse_elems.simps)
         (simp del: parse_elems.simps parse_value.simps split: list.split)
  qed (use v in \<open>simp add: parse_elems.simps del: parse_value.simps\<close>)
qed

lemma parse_members_fuel_step:
  assumes vals: "\<And>s. 2 * length s + 1 \<le> n \<Longrightarrow> parse_value (Suc n) s = parse_value n s"
    and members: "\<And>s. 2 * length s + 2 \<le> n \<Longrightarrow> parse_members (Suc n) s = parse_members n s"
    and n: "2 * length s + 2 \<le> Suc n"
  shows "parse_members (Suc (Suc n)) s = parse_members (Suc n) s"
proof -
  have v: "parse_value (Suc n) (skip_ws ds) = parse_value n (skip_ws ds)"
    if "s = c # cs" "unquote cs = Some (k, r)" "skip_ws r = d # ds" for c cs k r d ds
    using n that unquote_length [OF that(2)] skip_ws_Cons [OF that(3)] length_skip_ws [of ds]
    by (intro vals) simp
  have m: "parse_members (Suc n) (skip_ws es) = parse_members n (skip_ws es)"
    if "s = c # cs" "unquote cs = Some (k, r)" "skip_ws r = d # ds"
      "parse_value n (skip_ws ds) = Some (v, w)" "skip_ws w = e # es" for c cs k r d ds v w e es
    using n that(1) unquote_length [OF that(2)] skip_ws_Cons [OF that(3)] length_skip_ws [of ds]
      parse_length(1) [OF that(4)] skip_ws_Cons [OF that(5)] length_skip_ws [of es]
    by (intro members) simp
  show ?thesis
    by (subst (1 2) parse_members.simps)
       (simp del: parse_members.simps parse_value.simps add: v m split: list.split option.split prod.split)
qed

lemma parse_fuel_steps:
  "(\<forall>s. 2 * length s + 1 \<le> n \<longrightarrow> parse_value (Suc n) s = parse_value n s) \<and>
   (\<forall>s. 2 * length s + 2 \<le> n \<longrightarrow> parse_elems (Suc n) s = parse_elems n s) \<and>
   (\<forall>s. 2 * length s + 2 \<le> n \<longrightarrow> parse_members (Suc n) s = parse_members n s)"
proof (induction n)
  case (Suc n)
  then show ?case
    by (intro conjI allI impI parse_value_fuel_step parse_elems_fuel_step parse_members_fuel_step) blast+
qed simp

lemma parse_fuel:
  assumes "2 * length s + 1 \<le> n"
  shows "parse_value n s = parse_value (2 * length s + 1) s"
proof -
  have "parse_value (2 * length s + 1 + k) s = parse_value (2 * length s + 1) s" for k
  proof (induction k)
    case (Suc k)
    with parse_fuel_steps [of "2 * length s + 1 + k"] show ?case by simp
  qed simp
  from this [of "n - (2 * length s + 1)"] assms show ?thesis by simp
qed

section \<open>What the encoder writes, the parser reads\<close>

declare escape.simps [simp del]

lemma put_Some [simp]: "put p (Some (x, r)) = Some (p @ x, r)"
  by (simp add: put_def)

lemma backslash [simp]: "char_of (92::nat) = CHR 0x5C"
  by code_simp

lemma hex_val_digit: "n < 16 \<Longrightarrow> hex_val (hex_digit n) = Some n"
  by (auto simp: hex_val_def hex_digit_def)

lemma hex_val_examples: "hex_val (CHR ''0'') = Some 0" "hex_val (CHR ''2'') = Some 2"
  by (simp_all add: hex_val_def byte_def)

lemma unquote_plain: "plain_byte c \<Longrightarrow> unquote (c # t) = put [c] (unquote t)"
  by (subst unquote.simps) (auto simp: plain_byte_def byte_def)

lemma unquote_close: "unquote (CHR 0x22 # t) = Some ([], t)"
  by (simp add: unquote.simps)

lemma unquote_short:
  "short_escape e = Some d \<Longrightarrow> e \<noteq> CHR ''u'' \<Longrightarrow> unquote (CHR 0x5C # e # t) = put [d] (unquote t)"
  by (subst unquote.simps) simp

lemma unquote_u:
  "hex4 h = Some r \<Longrightarrow> length h = 4 \<Longrightarrow> \<not> high_surrogate r \<Longrightarrow> \<not> low_surrogate r \<Longrightarrow>
   unquote (CHR 0x5C # CHR ''u'' # h @ t) = put (EncodeRune r) (unquote t)"
  by (subst unquote.simps) (auto simp: eval_nat_numeral length_Suc_conv)

lemma unquote_escape_ascii:
  assumes "byte c < 128" and "\<not> plain_byte c"
  shows "unquote (escape_ascii c @ t) = put [c] (unquote t)"
proof -
  consider "byte c = 92 \<or> byte c = 34" | "byte c = 10" | "byte c = 13" | "byte c \<notin> {92, 34, 10, 13}"
    by blast
  then show ?thesis
  proof cases
    case 1
    then have "short_escape c = Some c" and "c \<noteq> CHR ''u''"
      by (auto simp: short_escape_def byte_def)
    with 1 show ?thesis by (auto simp: escape_ascii_def unquote_short)
  next
    case 2
    then have "c = char_of (10::nat)" using byte_eqD by blast
    with 2 show ?thesis
      by (simp add: escape_ascii_def unquote_short short_escape_def byte_def)
  next
    case 3
    then have "c = char_of (13::nat)" using byte_eqD by blast
    with 3 show ?thesis
      by (simp add: escape_ascii_def unquote_short short_escape_def byte_def)
  next
    case 4
    have "hex4 [CHR ''0'', CHR ''0'', hex_digit (byte c div 16), hex_digit (byte c mod 16)] = Some (byte c)"
      using assms(1) by (simp add: hex_val_digit hex_val_examples)
    from unquote_u [OF this, of t] assms(1) 4 show ?thesis
      by (simp add: escape_ascii_def EncodeRune_ascii high_surrogate_def low_surrogate_def)
  qed
qed

lemma unquote_rune:
  assumes "DecodeRune (c # cs) = Some (r, n)" and "128 \<le> byte c"
  shows "unquote (take n (c # cs) @ t) = put (take n (c # cs)) (unquote t)"
proof -
  note shape = DecodeRune_shape [OF assms(1), of t]
  then obtain k where n: "n = Suc k" by (cases n) auto
  with shape have k: "k \<le> length cs" and d: "DecodeRune (c # take k cs @ t) = Some (r, Suc k)" by auto
  have "c \<noteq> CHR 0x22" "c \<noteq> CHR 0x5C" using assms(2) by (auto simp: byte_def)
  with assms(2) d k n show ?thesis by (simp add: unquote.simps)
qed

lemma unquote_line_separator:
  assumes "DecodeRune (c # cs) = Some (r, n)" and "r = 8232 \<or> r = 8233"
  shows "unquote (CHR 0x5C # ''u202'' @ [hex_digit (r mod 16)] @ t) = put (take n (c # cs)) (unquote t)"
proof -
  have "hex4 [CHR ''2'', CHR ''0'', CHR ''2'', hex_digit (r mod 16)] = Some r"
    using assms(2) by (auto simp: hex_val_digit hex_val_examples)
  from unquote_u [OF this, of t] assms(2) DecodeRune_shape [OF assms(1)] show ?thesis
    by (auto simp: high_surrogate_def low_surrogate_def)
qed

theorem unquote_escape: "utf8 s \<Longrightarrow> unquote (escape s @ CHR 0x22 # rest) = Some (s, rest)"
proof (induction s rule: escape.induct)
  case 1
  then show ?case by (simp add: escape.simps unquote_close)
next
  case (2 c cs)
  show ?case
  proof (cases "byte c < 128")
    case True
    with "2.prems" have "utf8 cs" by (simp add: utf8.simps DecodeRune_ascii)
    with True 2 show ?thesis
      by (cases "plain_byte c") (simp_all add: escape.simps unquote_plain unquote_escape_ascii)
  next
    case False
    with "2.prems" obtain r n where d: "DecodeRune (c # cs) = Some (r, n)" and u: "utf8 (drop (n - 1) cs)"
      by (auto simp: utf8.simps split: option.splits)
    have whole: "take n (c # cs) @ drop (n - 1) cs = c # cs"
      using DecodeRune_shape [OF d] by (cases n) auto
    have plain: "\<not> plain_byte c" using False by (simp add: plain_byte_def)
    have IH: "unquote (escape (drop (n - 1) cs) @ CHR 0x22 # rest) = Some (drop (n - 1) cs, rest)"
      using "2.IH"(4) [OF plain False d refl u] .
    show ?thesis
    proof (cases "r = 8232 \<or> r = 8233")
      case True
      then have "escape (c # cs) = CHR 0x5C # ''u202'' @ [hex_digit (r mod 16)] @ escape (drop (n - 1) cs)"
        using plain False d by (simp add: escape.simps)
      with unquote_line_separator [OF d True, of "escape (drop (n - 1) cs) @ CHR 0x22 # rest"] IH whole
      show ?thesis by simp
    next
      case no: False
      then have "escape (c # cs) = take n (c # cs) @ escape (drop (n - 1) cs)"
        using plain False d by (simp add: escape.simps)
      with unquote_rune [OF d, of "escape (drop (n - 1) cs) @ CHR 0x22 # rest"] False IH whole
      show ?thesis by simp
    qed
  qed
qed

text \<open>The numbers the program encodes are integers.\<close>

definition integer_text :: "string \<Rightarrow> bool" where
  "integer_text t \<longleftrightarrow> (case Atoi t of None \<Rightarrow> False | Some i \<Rightarrow> Itoa i = t)"

definition ends_number :: "string \<Rightarrow> bool" where
  "ends_number s \<longleftrightarrow>
     (case s of [] \<Rightarrow> True | c # _ \<Rightarrow> \<not> is_digit c \<and> c \<notin> {CHR ''.'', CHR ''e'', CHR ''E''})"

lemma decimal_head: "decimal n = CHR ''0'' # ds \<Longrightarrow> ds = []"
proof (induction n arbitrary: ds rule: decimal.induct)
  case (1 n)
  show ?case
  proof (cases "n < 10")
    case True
    with "1.prems" show ?thesis by (subst (asm) decimal.simps) simp
  next
    case False
    have "decimal n = decimal (n div 10) @ [digit (n mod 10)]"
      using False by (subst decimal.simps) simp
    with "1.prems" obtain es where "decimal (n div 10) = CHR ''0'' # es"
      by (cases "decimal (n div 10)") auto
    with "1.IH" [OF False] have "decimal (n div 10) = ''0''" by blast
    then have "read_decimal (decimal (n div 10)) = 0" by (simp add: read_decimal_def digit_val_def)
    with False show ?thesis by simp
  qed
qed

lemma digits_append:
  "list_all is_digit ds \<Longrightarrow> ends_number rest \<Longrightarrow> digits (ds @ rest) = (ds, rest)"
  by (induction ds) (auto simp: digits_def ends_number_def split: list.splits)

lemma parse_decimal:
  assumes "ends_number rest" and d: "decimal n = c # ds"
  shows "(if c = CHR ''0'' then ([c], ds @ rest) else digits (c # ds @ rest)) = (c # ds, rest)"
  using assms digits_append [of "c # ds" rest] decimal_digits [of n] decimal_head [of n ds]
  by (auto simp: list_all_iff)

lemma number_tail: "ends_number rest \<Longrightarrow> fraction rest = Some ([], rest)"
  "ends_number rest \<Longrightarrow> exponent rest = Some ([], rest)"
  by (auto simp: ends_number_def fraction_def exponent_def split: list.splits)

lemma parse_number_Itoa:
  assumes "ends_number rest"
  shows "parse_number (Itoa i @ rest) = Some (Itoa i, rest)"
proof -
  obtain c ds where d: "decimal (nat \<bar>i\<bar>) = c # ds" by (cases "decimal (nat \<bar>i\<bar>)") auto
  then have c: "is_digit c" "c \<noteq> CHR ''-''" using decimal_digits [of "nat \<bar>i\<bar>"] decimal_not_minus by auto
  note whole = parse_decimal [OF assms d]
  show ?thesis
  proof (cases "i < 0")
    case True
    then have "Itoa i = CHR ''-'' # c # ds" using d by (simp add: Itoa_def)
    with c whole number_tail [OF assms] show ?thesis by (simp add: parse_number_def Let_def)
  next
    case False
    then have "Itoa i = c # ds" using d by (simp add: Itoa_def)
    with c whole number_tail [OF assms] show ?thesis by (simp add: parse_number_def Let_def)
  qed
qed

lemma integer_textD: "integer_text t \<Longrightarrow> \<exists>i. t = Itoa i"
  by (auto simp: integer_text_def split: option.splits)

fun wf_json :: "json \<Rightarrow> bool" where
  "wf_json JNull = True"
| "wf_json (JBool _) = True"
| "wf_json (JNum t) = integer_text t"
| "wf_json (JStr s) = utf8 s"
| "wf_json (JArr xs) = list_all wf_json xs"
| "wf_json (JObj kvs) = list_all (\<lambda>(k, v). utf8 k \<and> wf_json v) kvs"

definition reads :: "json \<Rightarrow> bool" where
  "reads j \<longleftrightarrow> (\<forall>rest. ends_number rest \<longrightarrow>
     (\<exists>N. \<forall>n \<ge> N. parse_value n (encode j @ rest) = Some (j, rest)))"

lemma skip_ws_nonspace [simp]: "\<not> is_space c \<Longrightarrow> skip_ws (c # s) = c # s"
  by (simp add: skip_ws_def)

lemma nonspace [simp]:
  "\<not> is_space (CHR 0x7B)" "\<not> is_space (CHR 0x7D)" "\<not> is_space (CHR 0x22)" "\<not> is_space (CHR '':'')"
  "\<not> is_space (CHR '','')" "\<not> is_space (CHR ''['')" "\<not> is_space (CHR '']'')"
  "\<not> is_space (CHR ''n'')" "\<not> is_space (CHR ''t'')" "\<not> is_space (CHR ''f'')" "\<not> is_space (CHR ''-'')"
  by (simp_all add: is_space_def byte_def)

lemma digit_nonspace [simp]: "is_digit c \<Longrightarrow> \<not> is_space c \<and> c \<noteq> CHR '']'' \<and> c \<noteq> CHR 0x7D"
  by (auto simp: is_space_def is_digit_def byte_def)

lemma Itoa_head:
  obtains c cs where "Itoa i = c # cs" and "c = CHR ''-'' \<or> is_digit c"
proof -
  have "Itoa i \<noteq> []" by (simp add: Itoa_def)
  then obtain c cs where "Itoa i = c # cs" by (cases "Itoa i") auto
  with Itoa_chars [of c i] that show thesis by simp
qed

lemma encode_head:
  assumes "wf_json j"
  obtains c cs where "encode j = c # cs" and "\<not> is_space c" and "c \<noteq> CHR '']''" and "c \<noteq> CHR 0x7D"
proof (cases j)
  case (JNum t)
  with assms obtain i where "t = Itoa i" using integer_textD by auto
  moreover obtain c cs where "Itoa i = c # cs" and c: "c = CHR ''-'' \<or> is_digit c" by (rule Itoa_head)
  moreover have "\<not> is_space c \<and> c \<noteq> CHR '']'' \<and> c \<noteq> CHR 0x7D"
    using c by (auto simp: is_digit_def is_space_def byte_def)
  ultimately show thesis using JNum by (intro that) auto
next
  case (JBool b)
  with that show thesis by (cases b) auto
qed (use that in \<open>auto simp: quote_json_def\<close>)

lemma readsE:
  assumes "reads j" and "ends_number rest"
  obtains N where "\<And>n. N \<le> n \<Longrightarrow> parse_value n (encode j @ rest) = Some (j, rest)"
  using assms by (auto simp: reads_def)

lemma reads_number: "reads (JNum (Itoa i))"
  unfolding reads_def
proof (intro allI impI exI [of _ 1])
  fix rest :: string and n :: nat
  assume rest: "ends_number rest" and "1 \<le> n"
  then obtain k where n: "n = Suc k" by (cases n) auto
  obtain c cs where i: "Itoa i = c # cs" and c: "c = CHR ''-'' \<or> is_digit c" by (rule Itoa_head)
  have "c \<noteq> CHR 0x7B \<and> c \<noteq> CHR ''['' \<and> c \<noteq> CHR 0x22 \<and> c \<noteq> CHR ''n'' \<and> c \<noteq> CHR ''t'' \<and> c \<noteq> CHR ''f''"
    using c by (auto simp: is_digit_def)
  with parse_number_Itoa [OF rest, of i] i n
  show "parse_value n (encode (JNum (Itoa i)) @ rest) = Some (JNum (Itoa i), rest)" by simp
qed

lemma reads_elems:
  assumes "xs \<noteq> []" and "\<forall>x \<in> set xs. reads x \<and> wf_json x"
  shows "\<exists>N. \<forall>n \<ge> N. parse_elems n (join '','' (map encode xs) @ CHR '']'' # rest) = Some (xs, rest)"
  using assms
proof (induction xs rule: induct_list012)
  case (2 x)
  have "ends_number (CHR '']'' # rest)" by (simp add: ends_number_def is_digit_def)
  with 2 obtain N where N: "parse_value n (encode x @ CHR '']'' # rest) = Some (x, CHR '']'' # rest)"
    if "N \<le> n" for n by (auto simp: reads_def)
  have "parse_elems n (join '','' (map encode [x]) @ CHR '']'' # rest) = Some ([x], rest)"
    if "Suc N \<le> n" for n
    using that N [of "n - 1"] by (cases n) simp_all
  then show ?case by blast
next
  case (3 x y zs)
  let ?tail = "join '','' (map encode (y # zs)) @ CHR '']'' # rest"
  obtain N where N: "parse_elems n ?tail = Some (y # zs, rest)" if "N \<le> n" for n
    using 3 by fastforce
  have x: "reads x" and ends: "ends_number (CHR '','' # ?tail)"
    using 3 by (simp_all add: ends_number_def is_digit_def)
  obtain M where M: "parse_value n (encode x @ CHR '','' # ?tail) = Some (x, CHR '','' # ?tail)"
    if "M \<le> n" for n using readsE [OF x ends] by metis
  obtain c cs where "encode y = c # cs" "\<not> is_space c"
    using 3 by (auto intro: encode_head [of y])
  then have y: "skip_ws ?tail = ?tail" by (cases zs) simp_all
  have "parse_elems n (join '','' (map encode (x # y # zs)) @ CHR '']'' # rest) = Some (x # y # zs, rest)"
    if "Suc (max N M) \<le> n" for n
    using that N [of "n - 1"] M [of "n - 1"] y by (cases n) simp_all
  then show ?case by blast
qed simp

definition encode_member :: "string \<times> json \<Rightarrow> string" where
  "encode_member = (\<lambda>(k, v). quote_json k @ '':'' @ encode v)"

lemma encode_JObj:
  "encode (JObj kvs) = CHR 0x7B # join '','' (map encode_member kvs) @ [CHR 0x7D]"
  by (simp add: encode_member_def)

lemma parse_member:
  assumes "utf8 k" and "reads v" and "wf_json v" and ends: "ends_number (d # ds)" and "\<not> is_space d"
  shows "\<exists>N. \<forall>n \<ge> N. parse_members (Suc n) (encode_member (k, v) @ d # ds) =
    (if d = CHR 0x7D then Some ([(k, v)], ds)
     else if d = CHR '','' then map_option (map_prod (Cons (k, v)) id) (parse_members n (skip_ws ds))
     else None)"
proof -
  obtain N where N: "parse_value n (encode v @ d # ds) = Some (v, d # ds)" if "N \<le> n" for n
    using readsE [OF assms(2) ends] by metis
  obtain c cs where "encode v = c # cs" "\<not> is_space c"
    using assms(3) by (auto intro: encode_head [of v])
  then have v: "skip_ws (encode v @ d # ds) = encode v @ d # ds" by simp
  show ?thesis
  proof (intro exI allI impI)
    fix n assume "N \<le> n"
    from N [OF this] v assms(5) unquote_escape [OF assms(1), of "CHR '':'' # encode v @ d # ds"]
    show "parse_members (Suc n) (encode_member (k, v) @ d # ds) =
      (if d = CHR 0x7D then Some ([(k, v)], ds)
       else if d = CHR '','' then map_option (map_prod (Cons (k, v)) id) (parse_members n (skip_ws ds))
       else None)"
      by (simp add: encode_member_def quote_json_def)
  qed
qed

lemma encode_member_head: "encode_member m = CHR 0x22 # tl (encode_member m)"
  by (simp add: encode_member_def quote_json_def split: prod.split)

lemma reads_members:
  assumes "kvs \<noteq> []" and "\<forall>(k, v) \<in> set kvs. utf8 k \<and> reads v \<and> wf_json v"
  shows "\<exists>N. \<forall>n \<ge> N. parse_members n (join '','' (map encode_member kvs) @ CHR 0x7D # rest) = Some (kvs, rest)"
  using assms
proof (induction kvs rule: induct_list012)
  case (2 m)
  obtain k v where m: "m = (k, v)" by fastforce
  have "ends_number (CHR 0x7D # rest)" by (simp add: ends_number_def is_digit_def)
  with 2 m parse_member [of k v "CHR 0x7D" rest] obtain N where
    "\<forall>n \<ge> N. parse_members (Suc n) (encode_member (k, v) @ CHR 0x7D # rest) = Some ([(k, v)], rest)"
    by (auto simp del: parse_members.simps)
  then have "parse_members n (encode_member (k, v) @ CHR 0x7D # rest) = Some ([(k, v)], rest)"
    if "Suc N \<le> n" for n
    using that by (cases n) (auto simp del: parse_members.simps)
  with m show ?case by auto
next
  case (3 m m' zs)
  obtain k v where m: "m = (k, v)" by fastforce
  let ?tail = "join '','' (map encode_member (m' # zs)) @ CHR 0x7D # rest"
  have "\<exists>N. \<forall>n \<ge> N. parse_members n ?tail = Some (m' # zs, rest)"
    by (rule "3.IH"(2)) (use "3.prems" in auto)
  then obtain N where N: "parse_members n ?tail = Some (m' # zs, rest)" if "N \<le> n" for n by blast
  have tail: "skip_ws ?tail = ?tail"
    using encode_member_head [of m'] by (cases zs) (metis append_Cons skip_ws_nonspace nonspace(3) join.simps(2,3) list.map)+
  have "ends_number (CHR '','' # ?tail)" by (simp add: ends_number_def is_digit_def)
  with "3.prems" m parse_member [of k v "CHR '',''" ?tail] obtain M where M: "\<forall>n \<ge> M.
      parse_members (Suc n) (encode_member (k, v) @ CHR '','' # ?tail)
        = map_option (map_prod (Cons (k, v)) id) (parse_members n (skip_ws ?tail))"
    by (auto simp del: parse_members.simps)
  have "parse_members n (join '','' (map encode_member (m # m' # zs)) @ CHR 0x7D # rest) = Some (m # m' # zs, rest)"
    if n: "Suc (max N M) \<le> n" for n
  proof (cases n)
    case (Suc j)
    with n M N [of j] tail m show ?thesis by (simp del: parse_members.simps)
  qed (use n in simp)
  then show ?case by blast
qed simp

lemma reads_wf: "wf_json j \<Longrightarrow> reads j"
proof (induction j)
  case (JNum t)
  then show ?case using reads_number integer_textD by fastforce
next
  case (JStr t)
  have "parse_value n (encode (JStr t) @ rest) = Some (JStr t, rest)" if "1 \<le> n" for n rest
    using that JStr unquote_escape [of t rest] by (cases n) (simp_all add: quote_json_def)
  then show ?case unfolding reads_def by blast
next
  case (JArr xs)
  show ?case
  proof (cases "xs = []")
    case True
    have "parse_value n (encode (JArr xs) @ rest) = Some (JArr xs, rest)" if "1 \<le> n" for n rest
      using that True by (cases n) simp_all
    then show ?thesis unfolding reads_def by blast
  next
    case False
    show ?thesis
      unfolding reads_def
    proof (intro allI impI)
      fix rest :: string
      have "\<forall>x \<in> set xs. reads x \<and> wf_json x" using JArr by (auto simp: list_all_iff)
      from reads_elems [OF False this] obtain N where
        N: "\<And>n. N \<le> n \<Longrightarrow> parse_elems n (join '','' (map encode xs) @ CHR '']'' # rest) = Some (xs, rest)"
        by blast
      obtain y ys where xs: "xs = y # ys" using False by (cases xs) auto
      then obtain c cs where y: "encode y = c # cs" "\<not> is_space c" "c \<noteq> CHR '']''"
        using JArr.prems by (auto intro: encode_head [of y])
      then obtain ds where head: "join '','' (map encode xs) = c # ds" using xs by (cases ys) auto
      have "parse_value n (encode (JArr xs) @ rest) = Some (JArr xs, rest)" if "Suc N \<le> n" for n
        using that N [of "n - 1"] head y by (cases n) (simp_all del: parse_elems.simps)
      then show "\<exists>N. \<forall>n \<ge> N. parse_value n (encode (JArr xs) @ rest) = Some (JArr xs, rest)" by blast
    qed
  qed
next
  case (JObj kvs)
  show ?case
  proof (cases "kvs = []")
    case True
    have "parse_value n (encode (JObj kvs) @ rest) = Some (JObj kvs, rest)" if "1 \<le> n" for n rest
      using that True by (cases n) simp_all
    then show ?thesis unfolding reads_def by blast
  next
    case False
    show ?thesis
      unfolding reads_def
    proof (intro allI impI)
      fix rest :: string
      have "\<forall>(k, v) \<in> set kvs. utf8 k \<and> reads v \<and> wf_json v"
        using JObj by (fastforce simp: list_all_iff)
      from reads_members [OF False this] obtain N where N: "\<And>n. N \<le> n \<Longrightarrow>
          parse_members n (join '','' (map encode_member kvs) @ CHR 0x7D # rest) = Some (kvs, rest)"
        by blast
      obtain m ms where kvs: "kvs = m # ms" using False by (cases kvs) auto
      obtain t where "encode_member m = CHR 0x22 # t" using encode_member_head by blast
      with kvs obtain ds where head: "join '','' (map encode_member kvs) = CHR 0x22 # ds"
        by (cases ms) simp_all
      have "parse_value n (encode (JObj kvs) @ rest) = Some (JObj kvs, rest)" if "Suc N \<le> n" for n
        using that N [of "n - 1"] head
        by (cases n) (simp_all add: encode_JObj del: parse_members.simps encode.simps)
      then show "\<exists>N. \<forall>n \<ge> N. parse_value n (encode (JObj kvs) @ rest) = Some (JObj kvs, rest)" by blast
    qed
  qed
next
  case JNull
  have "parse_value n (encode JNull @ rest) = Some (JNull, rest)" if "1 \<le> n" for n rest
    using that by (cases n) (simp_all add: literal_def)
  then show ?case unfolding reads_def by blast
next
  case (JBool b)
  have "parse_value n (encode (JBool b) @ rest) = Some (JBool b, rest)" if "1 \<le> n" for n rest
    using that by (cases n) (simp_all add: literal_def)
  then show ?case unfolding reads_def by blast
qed

text \<open>Decoding an encoded value, with the line feed an \<open>Encoder\<close> appends or any other
  text that cannot continue a number.\<close>

lemma parse_encoded:
  assumes "wf_json j" and "ends_number rest"
  shows "skip_ws (encode j @ rest) = encode j @ rest"
    and "parse_value (fuel_for (encode j @ rest)) (encode j @ rest) = Some (j, rest)"
proof -
  obtain c cs where "encode j = c # cs" "\<not> is_space c" using assms(1) by (rule encode_head)
  then show "skip_ws (encode j @ rest) = encode j @ rest" by simp
  obtain N where N: "\<And>n. N \<le> n \<Longrightarrow> parse_value n (encode j @ rest) = Some (j, rest)"
    using readsE [OF reads_wf [OF assms(1)] assms(2)] by metis
  let ?s = "encode j @ rest"
  have "parse_value (fuel_for ?s) ?s = parse_value (max N (fuel_for ?s)) ?s"
    using parse_fuel [of ?s "fuel_for ?s"] parse_fuel [of ?s "max N (fuel_for ?s)"]
    by (simp add: fuel_for_def)
  with N show "parse_value (fuel_for ?s) ?s = Some (j, rest)" by simp
qed

lemma json_decode_encode: "wf_json j \<Longrightarrow> ends_number rest \<Longrightarrow> json_decode (encode j @ rest) = Some j"
  using parse_encoded by (simp add: json_decode_def)

lemma json_unmarshal_encode: "wf_json j \<Longrightarrow> json_unmarshal (encode j) = Some j"
  using parse_encoded [of j "[]"] by (simp add: json_unmarshal_def ends_number_def skip_ws_def)

end
