(* ===== verification/Unmarshal.thy ===== *)
theory Unmarshal
  imports JsonParse Catalog "HOL-Library.AList" "HOL-Library.Multiset"
begin

text \<open>
  How \<open>encoding/json\<close> stores a parsed value in the program's types: a member goes to the
  field of that name (first the exact name, then one equal up to case folding), an unknown
  member is skipped, a repeated member is decoded over the first one, \<open>null\<close> leaves a
  string, number, boolean or struct as it was and makes a slice, map or pointer nil.  A
  value of the wrong type is an error of the whole call (\<open>None\<close>): the program returns
  the error and drops what was decoded.
\<close>

section \<open>Field names\<close>

definition upper :: "char \<Rightarrow> char" where
  "upper c = (if 97 \<le> byte c \<and> byte c \<le> 122 then char_of (byte c - 32) else c)"

text \<open>\<open>bytes.EqualFold\<close> of an ASCII name and a key: besides ASCII case, the long s
  (0xC5 0xBF) folds to s and the Kelvin sign (0xE2 0x84 0xAA) to k.\<close>

fun fold_eq :: "string \<Rightarrow> string \<Rightarrow> bool" where
  "fold_eq [] key = (key = [])"
| "fold_eq (n # ns) key =
     (case key of
        [] \<Rightarrow> False
      | k # ks \<Rightarrow>
          if upper k = upper n then fold_eq ns ks
          else if upper n = CHR ''S'' \<and> take 2 key = [CHR 0xC5, CHR 0xBF] then fold_eq ns (drop 2 key)
          else if upper n = CHR ''K'' \<and> take 3 key = [CHR 0xE2, CHR 0x84, CHR 0xAA]
            then fold_eq ns (drop 3 key)
          else False)"

fun find_first :: "('a \<Rightarrow> bool) \<Rightarrow> 'a list \<Rightarrow> 'a option" where
  "find_first p [] = None"
| "find_first p (x # xs) = (if p x then Some x else find_first p xs)"

type_synonym 'a field = "string \<times> (json \<Rightarrow> 'a \<Rightarrow> 'a option)"

definition field_for :: "'a field list \<Rightarrow> string \<Rightarrow> 'a field option" where
  "field_for fs key =
     (case find_first (\<lambda>f. fst f = key) fs of
        Some f \<Rightarrow> Some f
      | None \<Rightarrow> find_first (\<lambda>f. fold_eq (fst f) key) fs)"

section \<open>Values\<close>

fun decode_members :: "'a field list \<Rightarrow> (string \<times> json) list \<Rightarrow> 'a \<Rightarrow> 'a option" where
  "decode_members fs [] cur = Some cur"
| "decode_members fs ((k, v) # kvs) cur =
     (case field_for fs k of
        None \<Rightarrow> decode_members fs kvs cur
      | Some f \<Rightarrow> (case snd f v cur of
          None \<Rightarrow> None
        | Some cur' \<Rightarrow> decode_members fs kvs cur'))"

definition decode_struct :: "'a field list \<Rightarrow> json \<Rightarrow> 'a \<Rightarrow> 'a option" where
  "decode_struct fs j cur =
     (case j of
        JObj kvs \<Rightarrow> decode_members fs kvs cur
      | JNull \<Rightarrow> Some cur
      | _ \<Rightarrow> None)"

definition decode_string :: "json \<Rightarrow> string \<Rightarrow> string option" where
  "decode_string j cur = (case j of JStr s \<Rightarrow> Some s | JNull \<Rightarrow> Some cur | _ \<Rightarrow> None)"

definition decode_bool :: "json \<Rightarrow> bool \<Rightarrow> bool option" where
  "decode_bool j cur = (case j of JBool b \<Rightarrow> Some b | JNull \<Rightarrow> Some cur | _ \<Rightarrow> None)"

text \<open>An \<open>int\<close> of 64 bits; a fraction, an exponent or an overflow is an error.\<close>

definition decode_int :: "json \<Rightarrow> int \<Rightarrow> int option" where
  "decode_int j cur =
     (case j of
        JNum t \<Rightarrow> (case Atoi t of
            Some i \<Rightarrow> if - (2 ^ 63) \<le> i \<and> i < 2 ^ 63 then Some i else None
          | None \<Rightarrow> None)
      | JNull \<Rightarrow> Some cur
      | _ \<Rightarrow> None)"

text \<open>Elements are decoded over the old ones as far as these go, then over zero values.\<close>

fun decode_elems :: "(json \<Rightarrow> 'a \<Rightarrow> 'a option) \<Rightarrow> 'a \<Rightarrow> 'a list \<Rightarrow> json list \<Rightarrow> 'a list option" where
  "decode_elems f zero old [] = Some []"
| "decode_elems f zero old (x # xs) =
     (case f x (case old of [] \<Rightarrow> zero | o' # _ \<Rightarrow> o') of
        None \<Rightarrow> None
      | Some y \<Rightarrow> map_option (Cons y) (decode_elems f zero (drop 1 old) xs))"

definition decode_slice ::
  "(json \<Rightarrow> 'a \<Rightarrow> 'a option) \<Rightarrow> 'a \<Rightarrow> json \<Rightarrow> 'a list option \<Rightarrow> 'a list option option" where
  "decode_slice f zero j cur =
     (case j of
        JArr xs \<Rightarrow> map_option Some (decode_elems f zero (case cur of None \<Rightarrow> [] | Some ys \<Rightarrow> ys) xs)
      | JNull \<Rightarrow> Some None
      | _ \<Rightarrow> None)"

fun decode_entries :: "(string \<times> json) list \<Rightarrow> (string \<times> string) list \<Rightarrow> (string \<times> string) list option" where
  "decode_entries [] m = Some m"
| "decode_entries ((k, v) # kvs) m =
     (case decode_string v [] of
        None \<Rightarrow> None
      | Some s \<Rightarrow> decode_entries kvs (AList.update k s m))"

definition decode_string_map ::
  "json \<Rightarrow> (string \<times> string) list option \<Rightarrow> (string \<times> string) list option option" where
  "decode_string_map j cur =
     (case j of
        JObj kvs \<Rightarrow> map_option Some (decode_entries kvs (case cur of None \<Rightarrow> [] | Some m \<Rightarrow> m))
      | JNull \<Rightarrow> Some None
      | _ \<Rightarrow> None)"

text \<open>A field: how to get at it, how to store it, and how to decode it.\<close>

definition field ::
  "string \<Rightarrow> (json \<Rightarrow> 'b \<Rightarrow> 'b option) \<Rightarrow> ('a \<Rightarrow> 'b) \<Rightarrow> ('b \<Rightarrow> 'a \<Rightarrow> 'a) \<Rightarrow> 'a field" where
  "field name f get upd = (name, \<lambda>j cur. map_option (\<lambda>x. upd x cur) (f j (get cur)))"

section \<open>The program's structs\<close>

definition details_fields :: "ServiceDetails field list" where
  "details_fields =
     [field ''service_id'' decode_string details_ID (\<lambda>x. details_ID_update (\<lambda>_. x)),
      field ''plan_id'' decode_string details_PlanID (\<lambda>x. details_PlanID_update (\<lambda>_. x)),
      field ''organization_guid'' decode_string details_OrganizationGUID
        (\<lambda>x. details_OrganizationGUID_update (\<lambda>_. x)),
      field ''space_guid'' decode_string details_SpaceGUID (\<lambda>x. details_SpaceGUID_update (\<lambda>_. x))]"

definition zero_details :: ServiceDetails where
  "zero_details = \<lparr>details_ID = [], details_PlanID = [], details_OrganizationGUID = [],
     details_SpaceGUID = []\<rparr>"

definition credentials_fields :: "BrokerCredentials field list" where
  "credentials_fields =
     [field ''Username'' decode_string cred_Username (\<lambda>x. cred_Username_update (\<lambda>_. x)),
      field ''Password'' decode_string cred_Password (\<lambda>x. cred_Password_update (\<lambda>_. x))]"

definition planMetadata_fields :: "ServicePlanMetadata field list" where
  "planMetadata_fields =
     [field ''bullets'' (decode_slice decode_string []) planMeta_Bullets
        (\<lambda>x. planMeta_Bullets_update (\<lambda>_. x)),
      field ''displayName'' decode_string planMeta_DisplayName
        (\<lambda>x. planMeta_DisplayName_update (\<lambda>_. x))]"

definition zero_plan :: ServicePlan where
  "zero_plan = \<lparr>plan_ID = [], plan_Name = [], plan_Description = [],
     plan_Metadata = \<lparr>planMeta_Bullets = None, planMeta_DisplayName = []\<rparr>\<rparr>"

definition plan_fields :: "ServicePlan field list" where
  "plan_fields =
     [field ''id'' decode_string plan_ID (\<lambda>x. plan_ID_update (\<lambda>_. x)),
      field ''name'' decode_string plan_Name (\<lambda>x. plan_Name_update (\<lambda>_. x)),
      field ''description'' decode_string plan_Description (\<lambda>x. plan_Description_update (\<lambda>_. x)),
      field ''metadata'' (decode_struct planMetadata_fields) plan_Metadata
        (\<lambda>x. plan_Metadata_update (\<lambda>_. x))]"

definition listing_fields :: "ServiceMetadataListing field list" where
  "listing_fields =
     [field ''blurb'' decode_string listing_Blurb (\<lambda>x. listing_Blurb_update (\<lambda>_. x)),
      field ''imageUrl'' decode_string listing_ImageUrl (\<lambda>x. listing_ImageUrl_update (\<lambda>_. x))]"

definition provider_fields :: "ServiceMetadataProvider field list" where
  "provider_fields =
     [field ''name'' decode_string provider_Name (\<lambda>x. provider_Name_update (\<lambda>_. x))]"

definition metadata_fields :: "ServiceMetadata field list" where
  "metadata_fields =
     [field ''displayName'' decode_string meta_DisplayName (\<lambda>x. meta_DisplayName_update (\<lambda>_. x)),
      field ''longDescription'' decode_string meta_LongDescription
        (\<lambda>x. meta_LongDescription_update (\<lambda>_. x)),
      field ''documentationUrl'' decode_string meta_DocumentationUrl
        (\<lambda>x. meta_DocumentationUrl_update (\<lambda>_. x)),
      field ''supportUrl'' decode_string meta_SupportUrl (\<lambda>x. meta_SupportUrl_update (\<lambda>_. x)),
      field ''listing'' (decode_struct listing_fields) meta_Listing (\<lambda>x. meta_Listing_update (\<lambda>_. x)),
      field ''provider'' (decode_struct provider_fields) meta_Provider
        (\<lambda>x. meta_Provider_update (\<lambda>_. x))]"

definition zero_service :: Service where
  "zero_service = \<lparr>svc_ID = [], svc_Name = [], svc_Description = [], svc_Bindable = False,
     svc_Plans = None,
     svc_Metadata = \<lparr>meta_DisplayName = [], meta_LongDescription = [], meta_DocumentationUrl = [],
       meta_SupportUrl = [], meta_Listing = \<lparr>listing_Blurb = [], listing_ImageUrl = []\<rparr>,
       meta_Provider = \<lparr>provider_Name = []\<rparr>\<rparr>,
     svc_Tags = None\<rparr>"

definition service_fields :: "Service field list" where
  "service_fields =
     [field ''id'' decode_string svc_ID (\<lambda>x. svc_ID_update (\<lambda>_. x)),
      field ''name'' decode_string svc_Name (\<lambda>x. svc_Name_update (\<lambda>_. x)),
      field ''description'' decode_string svc_Description (\<lambda>x. svc_Description_update (\<lambda>_. x)),
      field ''bindable'' decode_bool svc_Bindable (\<lambda>x. svc_Bindable_update (\<lambda>_. x)),
      field ''plans'' (decode_slice (decode_struct plan_fields) zero_plan) svc_Plans
        (\<lambda>x. svc_Plans_update (\<lambda>_. x)),
      field ''metadata'' (decode_struct metadata_fields) svc_Metadata
        (\<lambda>x. svc_Metadata_update (\<lambda>_. x)),
      field ''tags'' (decode_slice decode_string []) svc_Tags (\<lambda>x. svc_Tags_update (\<lambda>_. x))]"

definition zero_config :: Config where
  "zero_config = \<lparr>DbIdentifierPrefix = [], ListeningAddr = [], ConfigLogLevel = [],
     Crednetials = \<lparr>cred_Username = [], cred_Password = []\<rparr>, ServiceCatalog = None,
     BrokerGoSqlDriver = [], BrokerMssqlConnection = None, ServedBindingHostname = [],
     ServedBindingPort = 0\<rparr>"

definition config_fields :: "Config field list" where
  "config_fields =
     [field ''dbIdentifierPrefix'' decode_string DbIdentifierPrefix
        (\<lambda>x. DbIdentifierPrefix_update (\<lambda>_. x)),
      field ''listeningAddr'' decode_string ListeningAddr (\<lambda>x. ListeningAddr_update (\<lambda>_. x)),
      field ''logLevel'' decode_string ConfigLogLevel (\<lambda>x. ConfigLogLevel_update (\<lambda>_. x)),
      field ''brokerCredentials'' (decode_struct credentials_fields) Crednetials
        (\<lambda>x. Crednetials_update (\<lambda>_. x)),
      field ''serviceCatalog'' (decode_slice (decode_struct service_fields) zero_service)
        ServiceCatalog (\<lambda>x. ServiceCatalog_update (\<lambda>_. x)),
      field ''brokerGoSqlDriver'' decode_string BrokerGoSqlDriver
        (\<lambda>x. BrokerGoSqlDriver_update (\<lambda>_. x)),
      field ''brokerMssqlConnection'' decode_string_map BrokerMssqlConnection
        (\<lambda>x. BrokerMssqlConnection_update (\<lambda>_. x)),
      field ''servedMssqlBindingHostname'' decode_string ServedBindingHostname
        (\<lambda>x. ServedBindingHostname_update (\<lambda>_. x)),
      field ''servedMssqlBindingPort'' decode_int ServedBindingPort
        (\<lambda>x. ServedBindingPort_update (\<lambda>_. x))]"

section \<open>What is encoded is decoded again\<close>

named_theorems decodes \<open>decoding the JSON form of a value gives the value\<close>

lemma fst_field [simp]: "fst (field name f get upd) = name"
  by (simp add: field_def)

lemma snd_field [simp]: "snd (field name f get upd) j cur = map_option (\<lambda>x. upd x cur) (f j (get cur))"
  by (simp add: field_def)

lemma decode_scalar [decodes]:
  "decode_string (JStr s) cur = Some s"
  "decode_bool (JBool b) old = Some b"
  "- (2 ^ 63) \<le> i \<Longrightarrow> i < 2 ^ 63 \<Longrightarrow> decode_int (json_int i) k = Some i"
  by (simp_all add: decode_string_def decode_bool_def decode_int_def json_int_def)

lemma decode_elems_map:
  "(\<And>x. x \<in> set xs \<Longrightarrow> f (to x) zero = Some x) \<Longrightarrow> decode_elems f zero [] (map to xs) = Some xs"
  by (induction xs) simp_all

lemma decode_slice_json [decodes]:
  "(\<And>x. f (to x) zero = Some x) \<Longrightarrow> decode_slice f zero (json_slice to xs) None = Some xs"
  by (cases xs) (simp_all add: decode_slice_def json_slice_def decode_elems_map)

lemma decode_struct_JObj: "decode_struct fs (JObj kvs) cur = decode_members fs kvs cur"
  by (simp add: decode_struct_def)

lemmas field_lookup = decode_struct_JObj field_for_def

lemma decode_details [decodes]: "decode_struct details_fields (details_json d) zero_details = Some d"
  by (simp add: details_fields_def details_json_def field_lookup decodes)

lemma decode_credentials [decodes]:
  "decode_struct credentials_fields (credentials_json c) cur = Some c"
  by (simp add: credentials_fields_def credentials_json_def field_lookup decodes)

lemma decode_planMetadata [decodes]:
  "planMeta_Bullets cur = None \<Longrightarrow>
   decode_struct planMetadata_fields (planMetadata_json m) cur = Some m"
  by (simp add: planMetadata_fields_def planMetadata_json_def field_lookup decodes)

lemma decode_plan [decodes]: "decode_struct plan_fields (plan_json p) zero_plan = Some p"
  by (simp add: plan_fields_def plan_json_def zero_plan_def field_lookup decodes)

lemma decode_listing [decodes]: "decode_struct listing_fields (listing_json l) cur = Some l"
  by (simp add: listing_fields_def listing_json_def field_lookup decodes)

lemma decode_provider [decodes]: "decode_struct provider_fields (provider_json p) cur = Some p"
  by (simp add: provider_fields_def provider_json_def field_lookup decodes)

lemma decode_metadata [decodes]: "decode_struct metadata_fields (metadata_json m) cur = Some m"
  by (simp add: metadata_fields_def metadata_json_def field_lookup decodes)

lemma decode_service [decodes]:
  "decode_struct service_fields (service_json s) zero_service = Some s"
  by (simp add: service_fields_def service_json_def zero_service_def field_lookup decodes)

text \<open>A map is sent in the order of its keys.\<close>

lemma decode_entries_distinct:
  "distinct (map fst (m @ kvs)) \<Longrightarrow>
   decode_entries (map (\<lambda>(k, v). (k, JStr v)) kvs) m = Some (m @ kvs)"
proof (induction kvs arbitrary: m)
  case (Cons kv kvs)
  obtain k v where kv: "kv = (k, v)" by fastforce
  with Cons.prems have "k \<notin> fst ` set m" by auto
  with Cons.IH [of "m @ [(k, v)]"] Cons.prems kv show ?case
    by (simp add: decode_scalar update_new)
qed simp

lemma insort_key_pairs:
  "insort_key fst (k, JStr v) (map (\<lambda>(k, v). (k, JStr v)) kvs)
     = map (\<lambda>(k, v). (k, JStr v)) (insort_key fst (k, v) kvs)"
  by (induction kvs) auto

lemma sort_key_pairs:
  "sort_key fst (map (\<lambda>(k, v). (k, JStr v)) kvs) = map (\<lambda>(k, v). (k, JStr v)) (sort_key fst kvs)"
  by (induction kvs) (auto simp: insort_key_pairs)

lemma distinct_sort_key:
  assumes "distinct (map fst kvs)"
  shows "distinct (map fst (sort_key fst kvs))"
proof -
  have "mset (map fst (sort_key fst kvs)) = mset (map fst kvs)" by (simp only: mset_map mset_sort)
  with assms show ?thesis by (metis mset_eq_imp_distinct_iff)
qed

lemma decode_string_map_json [decodes]:
  "(\<And>kvs. m = Some kvs \<Longrightarrow> distinct (map fst kvs)) \<Longrightarrow>
   decode_string_map (string_map_json m) None = Some (map_option (sort_key fst) m)"
  by (cases m)
     (simp_all add: decode_string_map_def string_map_json_def json_map_def sort_key_pairs
       decode_entries_distinct distinct_sort_key)

lemma decode_config [decodes]:
  assumes "\<And>kvs. BrokerMssqlConnection c = Some kvs \<Longrightarrow> distinct (map fst kvs)"
    and "- (2 ^ 63) \<le> ServedBindingPort c" and "ServedBindingPort c < 2 ^ 63"
  shows "decode_struct config_fields (config_json c) zero_config
    = Some (c\<lparr>BrokerMssqlConnection := map_option (sort_key fst) (BrokerMssqlConnection c)\<rparr>)"
  using assms by (simp add: config_fields_def config_json_def zero_config_def field_lookup decodes)

end
