(* ===== verification/Mux.thy ===== *)
theory Mux
  imports Prelude
begin

text \<open>
  The router the broker's HTTP handlers are registered with: gorilla/mux as brokerapi
  uses it (path templates with \<open>{name}\<close> variables of the default pattern, and a method),
  the path cleaning of mux and net/http, and brokerapi's three registration methods.
\<close>

section \<open>Canonical paths\<close>

definition clean_step :: "string list \<Rightarrow> string \<Rightarrow> string list" where
  "clean_step segs seg =
     (if seg = [] \<or> seg = ''.'' then segs
      else if seg = ''..'' then butlast segs
      else segs @ [seg])"

text \<open>\<open>path.Clean\<close> of a rooted path.\<close>

definition path_Clean :: "string \<Rightarrow> string" where
  "path_Clean p =
     (case foldl clean_step [] (split_at (CHR ''/'') p) of
        [] \<Rightarrow> ''/''
      | segs \<Rightarrow> concat (map (Cons (CHR ''/'')) segs))"

definition cleanPath :: "string \<Rightarrow> string" where
  "cleanPath p =
     (if p = [] then ''/''
      else (let p = (if hd p = CHR ''/'' then p else CHR ''/'' # p);
                np = path_Clean p
            in if last p = CHR ''/'' \<and> np \<noteq> ''/'' then np @ ''/'' else np))"

section \<open>Templates\<close>

text \<open>
  \<open>braceIndices\<close>: the positions of the outermost braces, or None where they do not
  balance.  The arguments are the loop's \<open>level\<close>, \<open>idx\<close> and \<open>i\<close>.
\<close>

fun brace_loop :: "nat \<Rightarrow> nat \<Rightarrow> nat \<Rightarrow> string \<Rightarrow> (nat \<times> nat) list option" where
  "brace_loop level idx i [] = (if level = 0 then Some [] else None)"
| "brace_loop level idx i (c # cs) =
     (if c = CHR 0x7B then brace_loop (level + 1) (if level = 0 then i else idx) (i + 1) cs
      else if c = CHR 0x7D then
        (if level = 0 then None
         else if level = 1
         then map_option (Cons (idx, i + 1)) (brace_loop 0 idx (i + 1) cs)
         else brace_loop (level - 1) idx (i + 1) cs)
      else brace_loop level idx (i + 1) cs)"

definition braceIndices :: "string \<Rightarrow> (nat \<times> nat) list option" where
  "braceIndices s = brace_loop 0 0 0 s"

text \<open>
  A compiled path template: literal text, and variables of the default pattern
  \<open>[^/]+\<close>.  A template that gives a pattern of its own is not compiled here.
\<close>

datatype piece = Lit string | Var string

fun template_pieces :: "string \<Rightarrow> nat \<Rightarrow> (nat \<times> nat) list \<Rightarrow> piece list option" where
  "template_pieces tpl end [] = Some [Lit (drop end tpl)]"
| "template_pieces tpl end ((i, j) # idxs) =
     (let raw = take (i - end) (drop end tpl);
          name = take (j - i - 2) (drop (i + 1) tpl)
      in if name = [] \<or> CHR '':'' \<in> set name then None
         else map_option (\<lambda>ps. Lit raw # Var name # ps) (template_pieces tpl j idxs))"

definition newRouteRegexp :: "string \<Rightarrow> piece list option" where
  "newRouteRegexp tpl =
     (case braceIndices tpl of None \<Rightarrow> None | Some idxs \<Rightarrow> template_pieces tpl 0 idxs)"

text \<open>
  The match of the anchored expression, leftmost-first: a variable takes as many bytes
  other than a slash as the rest allows, and at least one.
\<close>

fun match_pieces :: "piece list \<Rightarrow> string \<Rightarrow> (string \<times> string) list option"
  and match_var :: "string \<Rightarrow> piece list \<Rightarrow> nat \<Rightarrow> string \<Rightarrow> (string \<times> string) list option" where
  "match_pieces [] s = (if s = [] then Some [] else None)"
| "match_pieces (Lit l # ps) s =
     (if take (length l) s = l then match_pieces ps (drop (length l) s) else None)"
| "match_pieces (Var n # ps) s = match_var n ps (length (takeWhile (\<lambda>c. c \<noteq> CHR ''/'') s)) s"
| "match_var n ps 0 s = None"
| "match_var n ps (Suc k) s =
     (case match_pieces ps (drop (Suc k) s) of
        Some vars \<Rightarrow> Some ((n, take (Suc k) s) # vars)
      | None \<Rightarrow> match_var n ps k s)"

section \<open>Routes and the router\<close>

record 'h route =
  route_pieces :: "piece list option"
  route_methods :: "string list"
  route_handler :: 'h

text \<open>\<open>HandleFunc(url, handler).Methods(m)\<close>, as \<open>Get\<close>, \<open>Put\<close> and \<open>Delete\<close> call it;
  a template that does not start with a slash makes a route that never matches.\<close>

definition handle :: "string \<Rightarrow> string \<Rightarrow> 'h \<Rightarrow> 'h route list \<Rightarrow> 'h route list" where
  "handle meth url h rs =
     rs @ [\<lparr>route_pieces = (if take 1 url = ''/'' then newRouteRegexp url else None),
           route_methods = [meth], route_handler = h\<rparr>]"

definition router_Get :: "string \<Rightarrow> 'h \<Rightarrow> 'h route list \<Rightarrow> 'h route list" where
  "router_Get = handle ''GET''"

definition router_Put :: "string \<Rightarrow> 'h \<Rightarrow> 'h route list \<Rightarrow> 'h route list" where
  "router_Put = handle ''PUT''"

definition router_Delete :: "string \<Rightarrow> 'h \<Rightarrow> 'h route list \<Rightarrow> 'h route list" where
  "router_Delete = handle ''DELETE''"

definition route_Match :: "'h route \<Rightarrow> string \<Rightarrow> string \<Rightarrow> ('h \<times> (string \<times> string) list) option" where
  "route_Match r meth path =
     (case route_pieces r of
        None \<Rightarrow> None
      | Some ps \<Rightarrow>
          (case match_pieces ps path of
             None \<Rightarrow> None
           | Some vars \<Rightarrow>
               if meth \<in> set (route_methods r) then Some (route_handler r, vars) else None))"

fun router_Match :: "'h route list \<Rightarrow> string \<Rightarrow> string \<Rightarrow> ('h \<times> (string \<times> string) list) option" where
  "router_Match [] meth path = None"
| "router_Match (r # rs) meth path =
     (case route_Match r meth path of Some m \<Rightarrow> Some m | None \<Rightarrow> router_Match rs meth path)"

datatype 'h dispatch = RedirectTo string | NotFound | Dispatch 'h "(string \<times> string) list"

definition router_dispatch :: "'h route list \<Rightarrow> string \<Rightarrow> string \<Rightarrow> 'h dispatch" where
  "router_dispatch rs meth path =
     (if cleanPath path \<noteq> path then RedirectTo (cleanPath path)
      else (case router_Match rs meth path of
              Some (h, vars) \<Rightarrow> Dispatch h vars
            | None \<Rightarrow> NotFound))"

text \<open>\<open>vars[name]\<close>, with the empty string for a missing variable.\<close>

definition var_of :: "(string \<times> string) list \<Rightarrow> string \<Rightarrow> string" where
  "var_of vars name = (case map_of vars name of Some v \<Rightarrow> v | None \<Rightarrow> [])"

section \<open>Matching a variable that is followed by a slash or the end\<close>

lemma takeWhile_slash_free:
  "CHR ''/'' \<notin> set v \<Longrightarrow> takeWhile (\<lambda>c. c \<noteq> CHR ''/'') v = v"
  "CHR ''/'' \<notin> set v \<Longrightarrow> takeWhile (\<lambda>c. c \<noteq> CHR ''/'') (v @ CHR ''/'' # r) = v"
  by (induction v) auto

lemma match_var_last:
  assumes "CHR ''/'' \<notin> set v" and "v \<noteq> []"
  shows "match_pieces [Var n, Lit []] v = Some [(n, v)]"
proof (cases "length v")
  case (Suc k)
  then show ?thesis using assms by (simp add: takeWhile_slash_free)
qed (use assms in simp)

lemma match_var_slash:
  assumes "CHR ''/'' \<notin> set v" and "v \<noteq> []"
    and "match_pieces (Lit (CHR ''/'' # l) # ps) (CHR ''/'' # r) = Some vars"
  shows "match_pieces (Var n # Lit (CHR ''/'' # l) # ps) (v @ CHR ''/'' # r) = Some ((n, v) # vars)"
proof (cases "length v")
  case (Suc k)
  then have "match_pieces (Lit (CHR ''/'' # l) # ps) (drop (Suc k) (v @ CHR ''/'' # r)) = Some vars"
    using assms(3) by simp
  with Suc assms(1) show ?thesis by (simp add: takeWhile_slash_free del: match_pieces.simps(2))
qed (use assms in simp)

lemma match_var_not_last:
  "k < length s \<Longrightarrow> match_var n [Lit []] k s = None"
  by (induction k) simp_all

lemma match_var_no_slash:
  assumes "CHR ''/'' \<notin> set v"
  shows "match_var n (Lit (CHR ''/'' # l) # ps) k v = None"
proof (induction k)
  case (Suc k)
  have "take (length (CHR ''/'' # l)) (drop (Suc k) v) \<noteq> CHR ''/'' # l"
    using assms in_set_takeD [of "CHR ''/''"] in_set_dropD [of "CHR ''/''"]
    by (metis list.set_intros(1))
  with Suc show ?case by simp
qed simp

section \<open>Paths that are canonical already\<close>

definition segment :: "string \<Rightarrow> bool" where
  "segment w \<longleftrightarrow> w \<noteq> [] \<and> CHR ''/'' \<notin> set w \<and> w \<noteq> ''.'' \<and> w \<noteq> ''..''"

definition path_of :: "string list \<Rightarrow> string" where
  "path_of segs = concat (map (Cons (CHR ''/'')) segs)"

lemma split_at_path:
  "list_all (\<lambda>v. CHR ''/'' \<notin> set v) (w # segs) \<Longrightarrow>
   split_at (CHR ''/'') (w @ path_of segs) = w # segs"
proof (induction segs arbitrary: w)
  case Nil
  then show ?case by (simp add: path_of_def split_at_free)
next
  case (Cons v segs)
  from Cons.IH [of v] Cons.prems show ?case
    by (simp add: path_of_def split_at_free)
qed

lemma segment_slash_free: "list_all segment segs \<Longrightarrow> list_all (\<lambda>v. CHR ''/'' \<notin> set v) segs"
  by (simp add: list_all_iff segment_def)

lemma clean_segments: "list_all segment segs \<Longrightarrow> foldl clean_step acc segs = acc @ segs"
  by (induction segs arbitrary: acc) (simp_all add: clean_step_def segment_def)

lemma path_Clean_path_of:
  assumes "list_all segment segs" and "segs \<noteq> []"
  shows "path_Clean (path_of segs) = path_of segs"
proof -
  have "split_at (CHR ''/'') (path_of segs) = [] # segs"
    using split_at_path [of "[]" segs] segment_slash_free [OF assms(1)] by simp
  with assms clean_segments [OF assms(1), of "[]"] show ?thesis
    by (cases segs) (simp_all add: path_Clean_def path_of_def clean_step_def)
qed

lemma last_path_of:
  assumes "list_all segment segs" and "segs \<noteq> []"
  shows "last (path_of segs) \<noteq> CHR ''/''"
proof -
  obtain front w where segs: "segs = front @ [w]" using assms(2) by (cases segs rule: rev_cases) auto
  with assms(1) have "w \<noteq> []" "CHR ''/'' \<notin> set w" by (simp_all add: segment_def)
  then show ?thesis using segs by (auto simp: path_of_def dest: last_in_set)
qed

lemma cleanPath_path_of:
  assumes "list_all segment segs" and "segs \<noteq> []"
  shows "cleanPath (path_of segs) = path_of segs"
proof -
  have "hd (path_of segs) = CHR ''/''" "path_of segs \<noteq> []"
    using assms(2) by (cases segs; simp add: path_of_def)+
  with path_Clean_path_of [OF assms] last_path_of [OF assms] show ?thesis
    by (simp add: cleanPath_def)
qed

text \<open>Cleaning is idempotent: a request is redirected at most once.\<close>

lemma clean_step_segments:
  "list_all segment acc \<Longrightarrow> CHR ''/'' \<notin> set w \<Longrightarrow> list_all segment (clean_step acc w)"
  by (auto simp: clean_step_def segment_def list_all_iff dest: in_set_butlastD)

lemma foldl_clean_segments:
  "list_all segment acc \<Longrightarrow> list_all (\<lambda>w. CHR ''/'' \<notin> set w) ws \<Longrightarrow>
   list_all segment (foldl clean_step acc ws)"
proof (induction ws arbitrary: acc)
  case (Cons w ws)
  then show ?case using clean_step_segments [of acc w] by simp
qed simp

lemma path_Clean_segments:
  obtains (root) "path_Clean p = ''/''"
    | (segs) segs where "path_Clean p = path_of segs" "list_all segment segs" "segs \<noteq> []"
proof -
  let ?segs = "foldl clean_step [] (split_at (CHR ''/'') p)"
  have all: "list_all segment ?segs"
    by (rule foldl_clean_segments) (auto simp: list_all_iff dest: split_at_slash_free)
  show thesis
  proof (cases ?segs)
    case Nil
    then show thesis by (intro root) (simp add: path_Clean_def)
  next
    case (Cons v vs)
    with all show thesis by (intro segs [of ?segs]) (simp_all add: path_Clean_def path_of_def)
  qed
qed

lemma path_Clean_trailing:
  assumes "list_all segment segs" and "segs \<noteq> []"
  shows "path_Clean (path_of segs @ ''/'') = path_of segs"
proof -
  have "split_at (CHR ''/'') (path_of (segs @ [[]])) = [] # segs @ [[]]"
    using split_at_path [of "[]" "segs @ [[]]"] segment_slash_free [OF assms(1)] by simp
  moreover have "path_of (segs @ [[]]) = path_of segs @ ''/''" by (simp add: path_of_def)
  ultimately show ?thesis
    using assms clean_segments [OF assms(1), of "[]"]
    by (cases segs) (simp_all add: path_Clean_def path_of_def clean_step_def)
qed

lemma cleanPath_root: "cleanPath ''/'' = ''/''" "cleanPath [] = ''/''"
  by code_simp+

lemma cleanPath_idem: "cleanPath (cleanPath p) = cleanPath p"
proof (cases "p = []")
  case False
  define q where "q = (if hd p = CHR ''/'' then p else CHR ''/'' # p)"
  have p: "cleanPath p = (if last q = CHR ''/'' \<and> path_Clean q \<noteq> ''/'' then path_Clean q @ ''/'' else path_Clean q)"
    using False by (simp add: cleanPath_def q_def Let_def)
  show ?thesis
  proof (cases rule: path_Clean_segments [of q])
    case root
    with p cleanPath_root show ?thesis by simp
  next
    case (segs segs)
    then have head: "hd (path_of segs) = CHR ''/''" "path_of segs \<noteq> []" "path_of segs \<noteq> ''/''"
      by (cases segs; simp add: path_of_def segment_def)+
    have "cleanPath (path_of segs @ ''/'') = path_of segs @ ''/''"
      using head path_Clean_trailing [OF segs(2,3)] by (simp add: cleanPath_def)
    with p segs cleanPath_path_of [OF segs(2,3)] show ?thesis by simp
  qed
qed (simp add: cleanPath_root)

end
