(* ===== verification/ConfigFile.thy ===== *)
theory ConfigFile
  imports Unmarshal World Mux
begin

text \<open>
  Package config: reading the configuration file.  \<open>ParseJson\<close> hands \<open>json.Unmarshal\<close>
  a pointer to the configuration pointer, so the text \<open>null\<close> makes that pointer nil
  and is not an error; a configuration is therefore an option.
\<close>

definition ParseJson :: "'w env \<Rightarrow> string \<Rightarrow> go_error + Config option" where
  "ParseJson E jsonConf =
     (case json_unmarshal jsonConf of
        None \<Rightarrow> Inl (jsonError E jsonConf)
      | Some JNull \<Rightarrow> Inr None
      | Some j \<Rightarrow> (case decode_struct config_fields j zero_config of
          None \<Rightarrow> Inl (jsonError E jsonConf)
        | Some config \<Rightarrow> Inr (Some config)))"

text \<open>\<open>filepath.Join\<close> of an absolute directory and a file name.\<close>

definition filepath_Join :: "string \<Rightarrow> string \<Rightarrow> string" where
  "filepath_Join dir name = path_Clean (dir @ ''/'' @ name)"

definition LoadFromFile :: "'w env \<Rightarrow> string \<Rightarrow> 'w \<Rightarrow> go_error + Config option" where
  "LoadFromFile E path w =
     (case (if path = []
            then (case binDir E w of
                    Inl err \<Rightarrow> Inl err
                  | Inr dir \<Rightarrow> Inr (filepath_Join dir ''cf_mssql_broker_config.json''))
            else Inr path) of
        Inl err \<Rightarrow> Inl err
      | Inr path \<Rightarrow>
          (case readFile E path w of
             Inl err \<Rightarrow> Inl err
           | Inr jsonConf \<Rightarrow> ParseJson E jsonConf))"

section \<open>Properties\<close>

text \<open>A configuration whose JSON form the encoder writes without loss.\<close>

definition config_utf8 :: "Config \<Rightarrow> bool" where
  "config_utf8 c \<longleftrightarrow> wf_json (config_json c)"

lemma ParseJson_config:
  assumes "config_utf8 c"
    and "\<And>kvs. BrokerMssqlConnection c = Some kvs \<Longrightarrow> distinct (map fst kvs)"
    and "- (2 ^ 63) \<le> ServedBindingPort c" and "ServedBindingPort c < 2 ^ 63"
  shows "ParseJson E (encode (config_json c))
    = Inr (Some (c\<lparr>BrokerMssqlConnection := map_option (sort_key fst) (BrokerMssqlConnection c)\<rparr>))"
proof -
  obtain kvs where "config_json c = JObj kvs" by (simp add: config_json_def)
  with decode_config [OF assms(2-4)] json_unmarshal_encode [of "config_json c"] assms(1)
  show ?thesis by (simp add: ParseJson_def config_utf8_def)
qed

lemma ParseJson_null: "ParseJson E ''null'' = Inr None"
  using json_unmarshal_encode [of JNull] by (simp add: ParseJson_def)

end
