(* ===== verification/BrokerApi.thy ===== *)
theory BrokerApi
  imports Mux Unmarshal Broker
begin

text \<open>
  Package brokerapi: the HTTP handlers of the service broker API over the ServiceBroker
  interface, the basic authentication in front of them, their routes, and the broker's
  own implementation of the interface.
\<close>

section \<open>Requests and responses\<close>

text \<open>\<open>req_path\<close> is \<open>URL.Path\<close> (percent-decoded), \<open>req_auth\<close> what \<open>BasicAuth()\<close> finds.\<close>

record request =
  req_method :: string
  req_path :: string
  req_auth :: "(string \<times> string) option"
  req_body :: string

record response =
  rsp_status :: nat
  rsp_headers :: "(string \<times> string) list"
  rsp_body :: string

text \<open>\<open>respond\<close>: the encoder ends the value with a line feed.\<close>

definition respond :: "nat \<Rightarrow> json \<Rightarrow> response" where
  "respond status body =
     \<lparr>rsp_status = status, rsp_headers = [(''Content-Type'', ''application/json'')],
      rsp_body = encode body @ ''\<newline>''\<rparr>"

text \<open>\<open>http.Error\<close>, and mux's redirect, whose Location is kept as a plain path.\<close>

definition http_Error :: "string \<Rightarrow> nat \<Rightarrow> response" where
  "http_Error msg status =
     \<lparr>rsp_status = status, rsp_headers = [(''Content-Type'', ''text/plain; charset=utf-8'')],
      rsp_body = msg @ ''\<newline>''\<rparr>"

definition moved_permanently :: "string \<Rightarrow> response" where
  "moved_permanently path =
     \<lparr>rsp_status = 301, rsp_headers = [(''Location'', path)], rsp_body = []\<rparr>"

definition EmptyResponse :: json where
  "EmptyResponse = JObj []"

definition ErrorResponse :: "string \<Rightarrow> json" where
  "ErrorResponse description = JObj [(''description'', JStr description)]"

definition CatalogResponse :: "Service list option \<Rightarrow> json" where
  "CatalogResponse services = JObj [(''services'', json_slice service_json services)]"

definition ProvisioningResponse :: "string \<Rightarrow> json" where
  "ProvisioningResponse url = JObj (if url = [] then [] else [(''dashboard_url'', JStr url)])"

definition BindingResponse :: "json \<Rightarrow> json" where
  "BindingResponse credentials = JObj [(''credentials'', credentials)]"

section \<open>The ServiceBroker interface\<close>

record 'w ServiceBroker =
  sb_Services :: "('w proc, Service list option) go"
  sb_Provision :: "string \<Rightarrow> ServiceDetails \<Rightarrow> ('w proc, go_error option) go"
  sb_Deprovision :: "string \<Rightarrow> ('w proc, go_error option) go"
  sb_Bind :: "string \<Rightarrow> string \<Rightarrow> ('w proc, json \<times> go_error option) go"
  sb_Unbind :: "string \<Rightarrow> string \<Rightarrow> ('w proc, go_error option) go"

text \<open>The broker of package main; its credentials are an \<open>interface{}\<close>, nil on error.\<close>

definition mssqlServiceBroker :: "'w env \<Rightarrow> Config \<Rightarrow> MssqlProvisioner \<Rightarrow> 'w ServiceBroker" where
  "mssqlServiceBroker E cfg p =
     \<lparr>sb_Services = Services E cfg,
      sb_Provision = Provision E cfg p,
      sb_Deprovision = Deprovision E cfg p,
      sb_Bind = (\<lambda>i b. bindG (Bind E cfg p i b) (\<lambda>(c, err).
        ret (case c of None \<Rightarrow> JNull | Some c \<Rightarrow> binding_json c, err))),
      sb_Unbind = Unbind E cfg p\<rparr>"

section \<open>The handlers\<close>

definition new_session :: "string \<Rightarrow> Data list \<Rightarrow> ('w proc, logger) go" where
  "new_session task data s =
     (case Session (the_logger s) task data of (l, l') \<Rightarrow> (Ret l, s\<lparr>the_logger := l'\<rparr>))"

definition decode_body :: "'w env \<Rightarrow> string \<Rightarrow> go_error + ServiceDetails" where
  "decode_body E body =
     (case json_decode body of
        None \<Rightarrow> Inl (jsonError E body)
      | Some j \<Rightarrow> (case decode_struct details_fields j zero_details of
          None \<Rightarrow> Inl (jsonError E body)
        | Some d \<Rightarrow> Inr d))"

definition api_catalog :: "'w ServiceBroker \<Rightarrow> ('w proc, response) go" where
  "api_catalog sb = bindG (sb_Services sb) (\<lambda>services. ret (respond 200 (CatalogResponse services)))"

definition api_provision ::
  "'w env \<Rightarrow> 'w ServiceBroker \<Rightarrow> (string \<times> string) list \<Rightarrow> string \<Rightarrow> ('w proc, response) go" where
  "api_provision E sb vars body =
     (let instanceID = var_of vars ''instance_id''
      in bindG (new_session ''provision'' [[(''instance-id'', JStr instanceID)]]) (\<lambda>logger.
         case decode_body E body of
           Inl err \<Rightarrow>
             seqG (logger_Error E logger ''invalid-service-details'' (Some err) [])
               (ret (respond 422 (ErrorResponse (error_text err))))
         | Inr serviceDetails \<Rightarrow>
             (let logger = WithData logger [(''instance-details'', details_json serviceDetails)]
              in bindG (sb_Provision sb instanceID serviceDetails) (\<lambda>err.
                 case err of
                   None \<Rightarrow> ret (respond 201 (ProvisioningResponse []))
                 | Some ErrInstanceAlreadyExists \<Rightarrow>
                     seqG (logger_Error E logger ''instance-already-exists'' err [])
                       (ret (respond 409 EmptyResponse))
                 | Some ErrInstanceLimitMet \<Rightarrow>
                     seqG (logger_Error E logger ''instance-limit-reached'' err [])
                       (ret (respond 500 (ErrorResponse (error_text ErrInstanceLimitMet))))
                 | Some e \<Rightarrow>
                     seqG (logger_Error E logger ''unknown-error'' err [])
                       (ret (respond 500 (ErrorResponse (error_text e))))))))"

definition api_deprovision ::
  "'w env \<Rightarrow> 'w ServiceBroker \<Rightarrow> (string \<times> string) list \<Rightarrow> ('w proc, response) go" where
  "api_deprovision E sb vars =
     (let instanceID = var_of vars ''instance_id''
      in bindG (new_session ''deprovision'' [[(''instance-id'', JStr instanceID)]]) (\<lambda>logger.
         bindG (sb_Deprovision sb instanceID) (\<lambda>err.
           case err of
             None \<Rightarrow> ret (respond 200 EmptyResponse)
           | Some ErrInstanceDoesNotExist \<Rightarrow>
               seqG (logger_Error E logger ''instance-missing'' err [])
                 (ret (respond 410 EmptyResponse))
           | Some e \<Rightarrow>
               seqG (logger_Error E logger ''unknown-error'' err [])
                 (ret (respond 500 (ErrorResponse (error_text e)))))))"

definition api_bind ::
  "'w env \<Rightarrow> 'w ServiceBroker \<Rightarrow> (string \<times> string) list \<Rightarrow> ('w proc, response) go" where
  "api_bind E sb vars =
     (let instanceID = var_of vars ''instance_id''; bindingID = var_of vars ''binding_id''
      in bindG (new_session ''bind''
             [[(''instance-id'', JStr instanceID), (''binding-id'', JStr bindingID)]]) (\<lambda>logger.
         bindG (sb_Bind sb instanceID bindingID) (\<lambda>(credentials, err).
           case err of
             None \<Rightarrow> ret (respond 201 (BindingResponse credentials))
           | Some ErrInstanceDoesNotExist \<Rightarrow>
               seqG (logger_Error E logger ''instance-missing'' err [])
                 (ret (respond 404 (ErrorResponse (error_text ErrInstanceDoesNotExist))))
           | Some ErrBindingAlreadyExists \<Rightarrow>
               seqG (logger_Error E logger ''binding-already-exists'' err [])
                 (ret (respond 409 (ErrorResponse (error_text ErrBindingAlreadyExists))))
           | Some e \<Rightarrow>
               seqG (logger_Error E logger ''unknown-error'' err [])
                 (ret (respond 500 (ErrorResponse (error_text e)))))))"

definition api_unbind ::
  "'w env \<Rightarrow> 'w ServiceBroker \<Rightarrow> (string \<times> string) list \<Rightarrow> ('w proc, response) go" where
  "api_unbind E sb vars =
     (let instanceID = var_of vars ''instance_id''; bindingID = var_of vars ''binding_id''
      in bindG (new_session ''unbind''
             [[(''instance-id'', JStr instanceID), (''binding-id'', JStr bindingID)]]) (\<lambda>logger.
         bindG (sb_Unbind sb instanceID bindingID) (\<lambda>err.
           case err of
             None \<Rightarrow> ret (respond 200 EmptyResponse)
           | Some ErrInstanceDoesNotExist \<Rightarrow>
               seqG (logger_Error E logger ''instance-missing'' err [])
                 (ret (respond 404 EmptyResponse))
           | Some ErrBindingDoesNotExist \<Rightarrow>
               seqG (logger_Error E logger ''binding-missing'' err [])
                 (ret (respond 410 EmptyResponse))
           | Some e \<Rightarrow>
               seqG (logger_Error E logger ''unknown-error'' err [])
                 (ret (respond 500 (ErrorResponse (error_text e)))))))"

section \<open>Routes and authentication\<close>

datatype api_handler = HCatalog | HProvision | HDeprovision | HBind | HUnbind

definition api_routes :: "api_handler route list" where
  "api_routes =
     router_Delete ''/v2/service_instances/{instance_id}/service_bindings/{binding_id}'' HUnbind
     (router_Put ''/v2/service_instances/{instance_id}/service_bindings/{binding_id}'' HBind
     (router_Delete ''/v2/service_instances/{instance_id}'' HDeprovision
     (router_Put ''/v2/service_instances/{instance_id}'' HProvision
     (router_Get ''/v2/catalog'' HCatalog []))))"

definition router_ServeHTTP :: "'w env \<Rightarrow> 'w ServiceBroker \<Rightarrow> request \<Rightarrow> ('w proc, response) go" where
  "router_ServeHTTP E sb req =
     (case router_dispatch api_routes (req_method req) (req_path req) of
        RedirectTo path \<Rightarrow> ret (moved_permanently path)
      | NotFound \<Rightarrow> ret (http_Error ''404 page not found'' 404)
      | Dispatch h vars \<Rightarrow>
          (case h of
             HCatalog \<Rightarrow> api_catalog sb
           | HProvision \<Rightarrow> api_provision E sb vars (req_body req)
           | HDeprovision \<Rightarrow> api_deprovision E sb vars
           | HBind \<Rightarrow> api_bind E sb vars
           | HUnbind \<Rightarrow> api_unbind E sb vars))"

definition authorized :: "BrokerCredentials \<Rightarrow> request \<Rightarrow> bool" where
  "authorized creds req =
     (case req_auth req of
        None \<Rightarrow> False
      | Some (username, password) \<Rightarrow>
          username = cred_Username creds \<and> password = cred_Password creds)"

definition auth_Wrap ::
  "BrokerCredentials \<Rightarrow> (request \<Rightarrow> ('w proc, response) go) \<Rightarrow> request \<Rightarrow> ('w proc, response) go" where
  "auth_Wrap creds handler req =
     (if \<not> authorized creds req then ret (http_Error ''Not Authorized'' 401) else handler req)"

definition brokerapi_New ::
  "'w env \<Rightarrow> 'w ServiceBroker \<Rightarrow> BrokerCredentials \<Rightarrow> request \<Rightarrow> ('w proc, response) go" where
  "brokerapi_New E sb creds = auth_Wrap creds (router_ServeHTTP E sb)"

end
