(* ===== verification/MainProg.thy ===== *)
theory MainProg
  imports ConfigFile BrokerApi
begin

text \<open>
  Package main: choosing the listening address and the log level, starting the broker
  (\<open>runMain\<close>), and serving a request through \<open>http.DefaultServeMux\<close> and the wrapper
  that turns a handler's panic into the end of the process.
\<close>

definition getListeningAddr :: "'w env \<Rightarrow> Config \<Rightarrow> string" where
  "getListeningAddr E config =
     (let envPort = getenv E ''PORT''
      in if envPort = []
         then (if length (ListeningAddr config) = 0 then '':3000'' else ListeningAddr config)
         else '':'' @ envPort)"

definition getLogLevel :: "Config option \<Rightarrow> ('s, LogLevel) go" where
  "getLogLevel config =
     (case config of
        None \<Rightarrow> go_panic NilPointerDereference
      | Some c \<Rightarrow>
          if ConfigLogLevel c = ''debug'' then ret DEBUG
          else if ConfigLogLevel c = ''info'' then ret INFO
          else if ConfigLogLevel c = ''error'' then ret ERROR
          else if ConfigLogLevel c = ''fatal'' then ret FATAL
          else go_panic (PanicError (Some (OtherError
                 (Sprintf ''invalid log level: %s'' [AStr (ConfigLogLevel c)])))))"

definition register_sink :: "LogLevel \<Rightarrow> ('w proc, unit) go" where
  "register_sink level s =
     (Ret (), s\<lparr>the_logger := RegisterSink (the_logger s) (NewWriterSink level)\<rparr>)"

definition with_logger :: "(logger \<Rightarrow> ('w proc, 'a) go) \<Rightarrow> ('w proc, 'a) go" where
  "with_logger f = readG (\<lambda>s. f (the_logger s))"

text \<open>
  The driver parameter \<open>runMain\<close> adds for odbc when there is none.  Reading a nil map
  finds nothing; assigning to one panics.
\<close>

definition default_driver ::
  "string \<Rightarrow> Config \<Rightarrow> ('s, (string \<times> string) list option) go" where
  "default_driver goos c =
     (let mssqlPars = BrokerMssqlConnection c;
          present = (case mssqlPars of None \<Rightarrow> False | Some m \<Rightarrow> ''driver'' \<in> fst ` set m)
      in if \<not> present \<and> BrokerGoSqlDriver c = ''odbc''
         then (case mssqlPars of
                 None \<Rightarrow> go_panic NilMapAssignment
               | Some m \<Rightarrow> ret (Some (AList.update ''driver''
                   (if goos \<noteq> ''windows'' then ''freetds'' else ''sql server'') m)))
         else ret mssqlPars)"

text \<open>What serving needs: the globals \<open>brokerConfig\<close> and \<open>mssqlProv\<close>.\<close>

record running =
  run_config :: Config
  run_prov :: MssqlProvisioner

definition runMain :: "'w env \<Rightarrow> string \<Rightarrow> string \<Rightarrow> ('w proc, running) go" where
  "runMain E goos configFile =
     readG (\<lambda>s. case LoadFromFile E configFile (world s) of
       Inl err \<Rightarrow> go_panic (PanicError (Some (OtherError
         (Sprintf ''configuration load error from file %s. Err: %s''
           [AStr configFile, AStr (error_text err)]))))
     | Inr brokerConfig \<Rightarrow>
         bindG (getLogLevel brokerConfig) (\<lambda>level.
         seqG (register_sink level)
         (let config = the brokerConfig
          in seqG (with_logger (\<lambda>logger. logger_Debug E logger ''config-load-success''
                [[(''file-source'', JStr configFile), (''config'', config_json config)]]))
         (bindG (default_driver goos config) (\<lambda>mssqlPars.
          let config = config\<lparr>BrokerMssqlConnection := mssqlPars\<rparr>;
              mssqlProv = NewMssqlProvisioner (BrokerGoSqlDriver config)
                            (case mssqlPars of None \<Rightarrow> [] | Some m \<Rightarrow> m)
          in bindG (Init E mssqlProv) (\<lambda>(mssqlProv, err).
             seqG (whenErr err (\<lambda>e. with_logger (\<lambda>logger.
               logger_Fatal E logger ''error-initializing-provisioner'' (Some e) [])))
             (let addr = getListeningAddr E config
              in seqG (with_logger (\<lambda>logger. logger_Info E logger ''start-listening'' [[(''addr'', JStr addr)]]))
              (bindG (liftW (listen E addr)) (\<lambda>err.
               seqG (whenErr err (\<lambda>e. with_logger (\<lambda>logger.
                 logger_Fatal E logger ''error-listening'' (Some e) [])))
               (ret \<lparr>run_config = config, run_prov = mssqlProv\<rparr>))))))))))"

section \<open>Serving\<close>

text \<open>
  \<open>http.DefaultServeMux\<close> with the one pattern \<open>/\<close>.  The short HTML body of its redirect
  is left out.
\<close>

definition defaultServeMux ::
  "(request \<Rightarrow> ('w proc, response) go) \<Rightarrow> request \<Rightarrow> ('w proc, response) go" where
  "defaultServeMux handler req =
     (if req_method req \<noteq> ''CONNECT'' \<and> cleanPath (req_path req) \<noteq> req_path req
      then ret (moved_permanently (cleanPath (req_path req)))
      else if take 1 (req_path req) = ''/'' then handler req
      else ret (http_Error ''404 page not found'' 404))"

datatype served = Responded response | ProcessExit panic_value

definition exitOnPanicWrapper ::
  "(request \<Rightarrow> ('w proc, response) go) \<Rightarrow> request \<Rightarrow> 'w proc \<Rightarrow> served \<times> 'w proc" where
  "exitOnPanicWrapper parrent req s =
     (case parrent req s of
        (Ret rsp, t) \<Rightarrow> (Responded rsp, t)
      | (Panicked v, t) \<Rightarrow> (ProcessExit v, t))"

text \<open>One request to the running broker.\<close>

definition serve_request :: "'w env \<Rightarrow> running \<Rightarrow> request \<Rightarrow> 'w proc \<Rightarrow> served \<times> 'w proc" where
  "serve_request E run req =
     exitOnPanicWrapper
       (defaultServeMux (brokerapi_New E
          (mssqlServiceBroker E (run_config run) (run_prov run)) (Crednetials (run_config run)))) req"

end
