(* ===== verification/ApiSpec.thy ===== *)
theory ApiSpec
  imports MainProg BrokerSpec
begin

text \<open>
  From an HTTP request to the broker call it makes and back: which route a canonical path
  takes, what each handler answers for each result of its call, and the state it leaves.
\<close>

section \<open>The routes\<close>

lemma api_routes_eq:
  "api_routes =
     [\<lparr>route_pieces = Some [Lit ''/v2/catalog''], route_methods = [''GET''], route_handler = HCatalog\<rparr>,
      \<lparr>route_pieces = Some [Lit ''/v2/service_instances/'', Var ''instance_id'', Lit []],
       route_methods = [''PUT''], route_handler = HProvision\<rparr>,
      \<lparr>route_pieces = Some [Lit ''/v2/service_instances/'', Var ''instance_id'', Lit []],
       route_methods = [''DELETE''], route_handler = HDeprovision\<rparr>,
      \<lparr>route_pieces = Some [Lit ''/v2/service_instances/'', Var ''instance_id'',
         Lit ''/service_bindings/'', Var ''binding_id'', Lit []],
       route_methods = [''PUT''], route_handler = HBind\<rparr>,
      \<lparr>route_pieces = Some [Lit ''/v2/service_instances/'', Var ''instance_id'',
         Lit ''/service_bindings/'', Var ''binding_id'', Lit []],
       route_methods = [''DELETE''], route_handler = HUnbind\<rparr>]"
  by code_simp

definition instance_path :: "string \<Rightarrow> string" where
  "instance_path i = ''/v2/service_instances/'' @ i"

definition binding_path :: "string \<Rightarrow> string \<Rightarrow> string" where
  "binding_path i b = instance_path i @ ''/service_bindings/'' @ b"

lemma canonical_paths:
  "segment i \<Longrightarrow> cleanPath (instance_path i) = instance_path i"
  "segment i \<Longrightarrow> segment b \<Longrightarrow> cleanPath (binding_path i b) = binding_path i b"
  "cleanPath ''/v2/catalog'' = ''/v2/catalog''"
  using cleanPath_path_of [of "[''v2'', ''service_instances'', i]"]
    cleanPath_path_of [of "[''v2'', ''service_instances'', i, ''service_bindings'', b]"]
    cleanPath_path_of [of "[''v2'', ''catalog'']"]
  by (simp_all add: path_of_def instance_path_def binding_path_def segment_def)

lemma match_instance:
  assumes "segment i"
  shows "match_pieces [Lit ''/v2/catalog''] (instance_path i) = None"
    and "match_pieces [Lit ''/v2/service_instances/'', Var ''instance_id'', Lit []] (instance_path i)
      = Some [(''instance_id'', i)]"
    and "match_pieces [Lit ''/v2/service_instances/'', Var ''instance_id'',
         Lit ''/service_bindings/'', Var ''binding_id'', Lit []] (instance_path i) = None"
  using assms match_var_last [of i "''instance_id''"]
    match_var_no_slash [of i "''instance_id''" "''service_bindings/''" "[Var ''binding_id'', Lit []]"]
  by (simp_all add: instance_path_def segment_def takeWhile_slash_free)

lemma match_binding:
  assumes "segment i" and "segment b"
  shows "match_pieces [Lit ''/v2/catalog''] (binding_path i b) = None"
    and "match_pieces [Lit ''/v2/service_instances/'', Var ''instance_id'', Lit []] (binding_path i b) = None"
    and "match_pieces [Lit ''/v2/service_instances/'', Var ''instance_id'',
         Lit ''/service_bindings/'', Var ''binding_id'', Lit []] (binding_path i b)
      = Some [(''instance_id'', i), (''binding_id'', b)]"
proof -
  have b: "match_pieces (Lit ''/service_bindings/'' # [Var ''binding_id'', Lit []]) (''/service_bindings/'' @ b)
      = Some [(''binding_id'', b)]"
    using assms(2) match_var_last [of b "''binding_id''"] by (simp add: segment_def)
  show "match_pieces [Lit ''/v2/catalog''] (binding_path i b) = None"
    by (simp add: binding_path_def instance_path_def)
  show "match_pieces [Lit ''/v2/service_instances/'', Var ''instance_id'', Lit []] (binding_path i b) = None"
    using assms(1) match_var_not_last [of "length i" "i @ ''/service_bindings/'' @ b" "''instance_id''"]
    by (simp add: binding_path_def instance_path_def segment_def takeWhile_slash_free)
  show "match_pieces [Lit ''/v2/service_instances/'', Var ''instance_id'',
         Lit ''/service_bindings/'', Var ''binding_id'', Lit []] (binding_path i b)
      = Some [(''instance_id'', i), (''binding_id'', b)]"
    using assms(1) match_var_slash [of i "''service_bindings/''" "[Var ''binding_id'', Lit []]"
        "''service_bindings/'' @ b" "[(''binding_id'', b)]" "''instance_id''"] b
    by (simp add: binding_path_def instance_path_def segment_def del: match_pieces.simps(3))
qed

lemma dispatch_routes:
  assumes "segment i"
  shows "router_dispatch api_routes ''PUT'' (instance_path i) = Dispatch HProvision [(''instance_id'', i)]"
    and "router_dispatch api_routes ''DELETE'' (instance_path i) = Dispatch HDeprovision [(''instance_id'', i)]"
    and "segment b \<Longrightarrow> router_dispatch api_routes ''PUT'' (binding_path i b)
      = Dispatch HBind [(''instance_id'', i), (''binding_id'', b)]"
    and "segment b \<Longrightarrow> router_dispatch api_routes ''DELETE'' (binding_path i b)
      = Dispatch HUnbind [(''instance_id'', i), (''binding_id'', b)]"
  using canonical_paths(1) [of i] canonical_paths(2) [of i b] match_instance [OF assms] match_binding [OF assms, of b] assms
  by (simp_all add: router_dispatch_def api_routes_eq route_Match_def del: match_pieces.simps)

section \<open>Calls as requests\<close>

fun call_request :: "BrokerCredentials \<Rightarrow> broker_call \<Rightarrow> request" where
  "call_request creds (CallProvision i d) =
     \<lparr>req_method = ''PUT'', req_path = instance_path i,
      req_auth = Some (cred_Username creds, cred_Password creds),
      req_body = encode (details_json d)\<rparr>"
| "call_request creds (CallDeprovision i) =
     \<lparr>req_method = ''DELETE'', req_path = instance_path i,
      req_auth = Some (cred_Username creds, cred_Password creds), req_body = []\<rparr>"
| "call_request creds (CallBind i b) =
     \<lparr>req_method = ''PUT'', req_path = binding_path i b,
      req_auth = Some (cred_Username creds, cred_Password creds), req_body = []\<rparr>"
| "call_request creds (CallUnbind i b) =
     \<lparr>req_method = ''DELETE'', req_path = binding_path i b,
      req_auth = Some (cred_Username creds, cred_Password creds), req_body = []\<rparr>"

fun call_segments :: "broker_call \<Rightarrow> bool" where
  "call_segments (CallProvision i d) \<longleftrightarrow> segment i \<and> wf_json (details_json d)"
| "call_segments (CallDeprovision i) \<longleftrightarrow> segment i"
| "call_segments (CallBind i b) \<longleftrightarrow> segment i \<and> segment b"
| "call_segments (CallUnbind i b) \<longleftrightarrow> segment i \<and> segment b"

text \<open>The status each handler answers for the error of its call.\<close>

fun call_status :: "broker_call \<Rightarrow> go_error option \<Rightarrow> nat" where
  "call_status (CallProvision _ _) err =
     (if err = None then 201 else if err = Some ErrInstanceAlreadyExists then 409 else 500)"
| "call_status (CallDeprovision _) err =
     (if err = None then 200 else if err = Some ErrInstanceDoesNotExist then 410 else 500)"
| "call_status (CallBind _ _) err =
     (if err = None then 201 else if err = Some ErrInstanceDoesNotExist then 404
      else if err = Some ErrBindingAlreadyExists then 409 else 500)"
| "call_status (CallUnbind _ _) err =
     (if err = None then 200 else if err = Some ErrInstanceDoesNotExist then 404
      else if err = Some ErrBindingDoesNotExist then 410 else 500)"

text \<open>What a client is told of a call that failed, by the API and in the text of the body.\<close>

definition json_text :: "nat \<Rightarrow> string \<Rightarrow> response" where
  "json_text status text =
     \<lparr>rsp_status = status, rsp_headers = [(''Content-Type'', ''application/json'')], rsp_body = text @ ''\<newline>''\<rparr>"

definition described :: "string \<Rightarrow> string" where
  "described text =
     [CHR ''{'', CHR 0x22] @ ''description'' @ [CHR 0x22, CHR '':'', CHR 0x22] @ text @ [CHR 0x22, CHR ''}'']"

fun failure_response :: "broker_call \<Rightarrow> go_error \<Rightarrow> response" where
  "failure_response (CallProvision _ _) ErrInstanceAlreadyExists = json_text 409 ''{}''"
| "failure_response (CallDeprovision _) ErrInstanceDoesNotExist = json_text 410 ''{}''"
| "failure_response (CallBind _ _) ErrInstanceDoesNotExist = json_text 404 (described ''instance does not exist'')"
| "failure_response (CallBind _ _) ErrBindingAlreadyExists = json_text 409 (described ''binding already exists'')"
| "failure_response (CallUnbind _ _) ErrInstanceDoesNotExist = json_text 404 ''{}''"
| "failure_response (CallUnbind _ _) ErrBindingDoesNotExist = json_text 410 ''{}''"
| "failure_response (CallUnbind _ _) ErrBindingAlreadyExists = json_text 500 (described ''binding already exists'')"
| "failure_response _ e = respond 500 (ErrorResponse (error_text e))"

lemma json_text_status [simp]: "rsp_status (json_text n text) = n"
  by (simp add: json_text_def)

lemma plain_texts: "list_all plain_byte ''description''" "list_all plain_byte ''instance does not exist''"
  "list_all plain_byte ''binding already exists''"
  by code_simp+

lemma respond_texts:
  "respond n EmptyResponse = json_text n ''{}''"
  "respond n (ErrorResponse ''instance does not exist'') = json_text n (described ''instance does not exist'')"
  "respond n (ErrorResponse ''binding already exists'') = json_text n (described ''binding already exists'')"
  by (simp_all add: respond_def json_text_def EmptyResponse_def ErrorResponse_def described_def
      plain_texts [THEN quote_json_plain])

lemma respond_status [simp]: "rsp_status (respond n j) = n"
  by (simp add: respond_def)

lemma decode_body_details:
  assumes "wf_json (details_json d)"
  shows "decode_body E (encode (details_json d)) = Inr d"
  using json_decode_encode [OF assms, of "[]"]
  by (simp add: decode_body_def ends_number_def decode_details)

lemma new_session_run:
  obtains l s' where "new_session task data s = (Ret l, s')" and "world s' = world s"
proof (cases "Session (the_logger s) task data")
  case (Pair l l')
  then show thesis by (intro that [of l "s\<lparr>the_logger := l'\<rparr>"]) (simp_all add: new_session_def)
qed

text \<open>What a handler answers, given the result of its call in the session's state.\<close>

definition answers ::
  "broker_call \<Rightarrow> (go_error option outcome \<times> 'w proc) \<Rightarrow> response outcome \<times> 'w proc \<Rightarrow> bool" where
  "answers call result answer \<longleftrightarrow>
     world (snd answer) = world (snd result) \<and>
     (case fst result of
        Panicked v \<Rightarrow> fst answer = Panicked v
      | Ret err \<Rightarrow> (\<exists>rsp. fst answer = Ret rsp \<and> rsp_status rsp = call_status call err \<and>
          (\<forall>e. err = Some e \<longrightarrow> rsp = failure_response call e)))"

lemma provision_answers:
  assumes "decode_body E body = Inr d"
  shows "\<exists>s'. world s' = world s \<and> answers (CallProvision i d) (run_call E cfg p (CallProvision i d) s')
    (api_provision E (mssqlServiceBroker E cfg p) [(''instance_id'', i)] body s)"
proof -
  obtain l s' where ses: "new_session ''provision'' [[(''instance-id'', JStr i)]] s = (Ret l, s')"
    and w: "world s' = world s" by (rule new_session_run)
  obtain x t where "Provision E cfg p i d s' = (x, t)" by fastforce
  with ses assms have "answers (CallProvision i d) (run_call E cfg p (CallProvision i d) s')
    (api_provision E (mssqlServiceBroker E cfg p) [(''instance_id'', i)] body s)"
    by (cases x)
       (auto simp: answers_def run_call_def api_provision_def var_of_def bindG_apply seqG_apply Let_def
         mssqlServiceBroker_def logger_Error_run respond_texts split: option.split go_error.split)
  with w show ?thesis by blast
qed

lemma deprovision_answers:
  "\<exists>s'. world s' = world s \<and> answers (CallDeprovision i) (run_call E cfg p (CallDeprovision i) s')
    (api_deprovision E (mssqlServiceBroker E cfg p) [(''instance_id'', i)] s)"
proof -
  obtain l s' where ses: "new_session ''deprovision'' [[(''instance-id'', JStr i)]] s = (Ret l, s')"
    and w: "world s' = world s" by (rule new_session_run)
  obtain x t where "Deprovision E cfg p i s' = (x, t)" by fastforce
  with ses have "answers (CallDeprovision i) (run_call E cfg p (CallDeprovision i) s')
    (api_deprovision E (mssqlServiceBroker E cfg p) [(''instance_id'', i)] s)"
    by (cases x)
       (auto simp: answers_def run_call_def api_deprovision_def var_of_def bindG_apply seqG_apply Let_def
         mssqlServiceBroker_def logger_Error_run respond_texts split: option.split go_error.split)
  with w show ?thesis by blast
qed

lemma bind_answers:
  "\<exists>s'. world s' = world s \<and> answers (CallBind i b) (run_call E cfg p (CallBind i b) s')
    (api_bind E (mssqlServiceBroker E cfg p) [(''instance_id'', i), (''binding_id'', b)] s)"
proof -
  obtain l s' where ses: "new_session ''bind'' [[(''instance-id'', JStr i), (''binding-id'', JStr b)]] s = (Ret l, s')"
    and w: "world s' = world s" by (rule new_session_run)
  obtain x t where "Bind E cfg p i b s' = (x, t)" by fastforce
  with ses have "answers (CallBind i b) (run_call E cfg p (CallBind i b) s')
    (api_bind E (mssqlServiceBroker E cfg p) [(''instance_id'', i), (''binding_id'', b)] s)"
    by (cases x)
       (auto simp: answers_def run_call_def api_bind_def var_of_def bindG_apply seqG_apply Let_def
         mssqlServiceBroker_def logger_Error_run respond_texts split: option.split go_error.split)
  with w show ?thesis by blast
qed

lemma unbind_answers:
  "\<exists>s'. world s' = world s \<and> answers (CallUnbind i b) (run_call E cfg p (CallUnbind i b) s')
    (api_unbind E (mssqlServiceBroker E cfg p) [(''instance_id'', i), (''binding_id'', b)] s)"
proof -
  obtain l s' where ses: "new_session ''unbind'' [[(''instance-id'', JStr i), (''binding-id'', JStr b)]] s = (Ret l, s')"
    and w: "world s' = world s" by (rule new_session_run)
  obtain x t where "Unbind E cfg p i b s' = (x, t)" by fastforce
  with ses have "answers (CallUnbind i b) (run_call E cfg p (CallUnbind i b) s')
    (api_unbind E (mssqlServiceBroker E cfg p) [(''instance_id'', i), (''binding_id'', b)] s)"
    by (cases x)
       (auto simp: answers_def run_call_def api_unbind_def var_of_def bindG_apply seqG_apply Let_def
         mssqlServiceBroker_def logger_Error_run respond_texts split: option.split go_error.split)
  with w show ?thesis by blast
qed

lemma api_answers:
  assumes "call_segments call"
  shows "\<exists>s'. world s' = world s \<and> answers call (run_call E cfg p call s')
    (brokerapi_New E (mssqlServiceBroker E cfg p) creds (call_request creds call) s)"
proof (cases call)
  case (CallProvision i d)
  with provision_answers [OF decode_body_details, of d] assms show ?thesis
    by (simp add: brokerapi_New_def auth_Wrap_def authorized_def router_ServeHTTP_def dispatch_routes)
next
  case (CallDeprovision i)
  with deprovision_answers assms show ?thesis
    by (simp add: brokerapi_New_def auth_Wrap_def authorized_def router_ServeHTTP_def dispatch_routes)
next
  case (CallBind i b)
  with bind_answers assms show ?thesis
    by (simp add: brokerapi_New_def auth_Wrap_def authorized_def router_ServeHTTP_def dispatch_routes)
next
  case (CallUnbind i b)
  with unbind_answers assms show ?thesis
    by (simp add: brokerapi_New_def auth_Wrap_def authorized_def router_ServeHTTP_def dispatch_routes)
qed

section \<open>The running broker\<close>

lemma call_path_clean:
  "call_segments call \<Longrightarrow>
   cleanPath (req_path (call_request creds call)) = req_path (call_request creds call) \<and>
   take 1 (req_path (call_request creds call)) = ''/''"
  by (cases call) (simp_all add: canonical_paths, simp_all add: instance_path_def binding_path_def)

text \<open>A running broker answers a request by its call, or exits as the call panics.\<close>

lemma serve_request_answer:
  assumes "call_segments call"
    and "serve_request E run (call_request (Crednetials (run_config run)) call) s = (out, t)"
  obtains s' x u where "world s' = world s" and "world t = world u"
    and "run_call E (run_config run) (run_prov run) call s' = (x, u)"
    and "case x of Panicked v \<Rightarrow> out = ProcessExit v
         | Ret err \<Rightarrow> \<exists>rsp. out = Responded rsp \<and> rsp_status rsp = call_status call err \<and>
             (\<forall>e. err = Some e \<longrightarrow> rsp = failure_response call e)"
proof -
  let ?api = "brokerapi_New E (mssqlServiceBroker E (run_config run) (run_prov run))
    (Crednetials (run_config run)) (call_request (Crednetials (run_config run)) call) s"
  obtain a b where api: "?api = (a, b)" by fastforce
  obtain s' where s': "world s' = world s"
    "answers call (run_call E (run_config run) (run_prov run) call s') ?api"
    using api_answers [OF assms(1)] by blast
  obtain x u where x: "run_call E (run_config run) (run_prov run) call s' = (x, u)" by fastforce
  have out: "(out, t) = (case a of Ret rsp \<Rightarrow> Responded rsp | Panicked v \<Rightarrow> ProcessExit v, b)"
    using assms(2) api call_path_clean [OF assms(1)]
    by (auto simp: serve_request_def exitOnPanicWrapper_def defaultServeMux_def split: outcome.splits)
  show thesis
    by (rule that [OF s'(1) _ x]) (use s'(2) x api out in \<open>auto simp: answers_def split: outcome.splits\<close>)
qed

lemma serve_request_call:
  assumes "call_segments call"
    and "serve_request E run (call_request (Crednetials (run_config run)) call) s = (out, t)"
  obtains s' x u where "world s' = world s" and "world t = world u"
    and "run_call E (run_config run) (run_prov run) call s' = (x, u)"
    and "case x of Panicked v \<Rightarrow> out = ProcessExit v
         | Ret err \<Rightarrow> \<exists>rsp. out = Responded rsp \<and> rsp_status rsp = call_status call err"
  by (rule serve_request_answer [OF assms], rule that) (auto split: outcome.splits)

end
