(* ===== verification/ApiTheorems.thy ===== *)
theory ApiTheorems
  imports ApiSpec BrokerTheorems
begin

text \<open>
  The properties of the HTTP interface: requests refine the abstract broker, faults of the
  server end the process and never leave half a step, nothing happens without the
  credentials, and a binding's credentials reach the client unchanged.
\<close>

section \<open>Requests as calls\<close>

text \<open>C9: on a server that fails only where a statement is wrong, the running broker answers
  every well-formed provision, deprovision, bind and unbind request: the status tells the
  outcome of the abstract broker's step, and the instances and bindings become exactly
  those of that step.\<close>

theorem http_refines_spec:
  assumes "reliable_sql_server E db cat tx builtin" and "dbClient (run_prov run) = Some db"
    and "rng_quiet E cat" and "rng_works E" and "builtin_names builtin"
    and "call_segments call" and "call_plain (run_config run) call"
    and "broker_spec call (instances_of (run_config run) (cat (world s))) = (err, m)"
  shows "\<exists>rsp t. serve_request E run (call_request (Crednetials (run_config run)) call) s
      = (Responded rsp, t) \<and> rsp_status rsp = call_status call err \<and>
    instances_of (run_config run) (cat (world t)) = m"
proof -
  obtain out t where run: "serve_request E run (call_request (Crednetials (run_config run)) call) s = (out, t)"
    by fastforce
  obtain s' x u where w: "world s' = world s" "world t = world u"
    and call: "run_call E (run_config run) (run_prov run) call s' = (x, u)"
    and out: "case x of Panicked v \<Rightarrow> out = ProcessExit v
         | Ret err \<Rightarrow> \<exists>rsp. out = Responded rsp \<and> rsp_status rsp = call_status call err"
    by (rule serve_request_call [OF assms(6) run])
  obtain r where x: "x = Ret r" using run_call_live [OF assms(1,2,4,7) call] by blast
  have "r = err \<and> instances_of (run_config run) (cat (world u)) = m"
    using run_call_instances [OF reliable_sql_server.axioms(1) [OF assms(1)] assms(2,3,5,7) call]
      assms(8) x w(1) by simp
  moreover from out x obtain rsp where "out = Responded rsp" "rsp_status rsp = call_status call r"
    by auto
  ultimately show ?thesis using run w(2) by (intro exI [of _ rsp] exI [of _ t]) simp
qed

definition ref_running :: running where
  "ref_running = \<lparr>run_config = ref_config, run_prov = ref_prov\<rparr>"

lemma ref_running_simps [simp]:
  "run_config ref_running = ref_config" "run_prov ref_running = ref_prov"
  by (simp_all add: ref_running_def)

lemma ref_segments [simp]: "segment ''i1''" "segment ''b1''" "segment ''i2''"
  by (simp_all add: segment_def)

theorem http_refines_spec_witness:
  "\<exists>rsp t. serve_request ref_env ref_running (call_request (Crednetials ref_config) (CallUnbind ''i1'' ''b1'')) ref_start
     = (Responded rsp, t) \<and> rsp_status rsp = 404"
proof -
  have spec: "broker_spec (CallUnbind ''i1'' ''b1'') (instances_of (run_config ref_running) (rw_catalog (world ref_start)))
      = (Some ErrInstanceDoesNotExist, Map.empty)"
    by (simp add: instances_of_def ref_start_def ref_world0_def)
  show ?thesis
    using http_refines_spec [OF ref_reliable _ ref_rng ref_builtin_names _ _ spec] by force
qed

text \<open>C10: whatever faults the server has, a request is answered only after its call made
  exactly its step; otherwise the process exits with the call's panic, and the instances
  are those before or after that step.\<close>

theorem http_fail_fast:
  assumes "sql_server E db cat tx builtin" and "dbClient (run_prov run) = Some db"
    and "rng_quiet E cat" and "builtin_names builtin"
    and "call_segments call" and "call_plain (run_config run) call"
    and "broker_spec call (instances_of (run_config run) (cat (world s))) = (err, m)"
    and "serve_request E run (call_request (Crednetials (run_config run)) call) s = (out, t)"
  shows "case out of
      Responded rsp \<Rightarrow> rsp_status rsp = call_status call err \<and>
        instances_of (run_config run) (cat (world t)) = m
    | ProcessExit v \<Rightarrow> instances_of (run_config run) (cat (world t))
        \<in> {instances_of (run_config run) (cat (world s)), m}"
proof -
  obtain s' x u where w: "world s' = world s" "world t = world u"
    and call: "run_call E (run_config run) (run_prov run) call s' = (x, u)"
    and out: "case x of Panicked v \<Rightarrow> out = ProcessExit v
         | Ret err \<Rightarrow> \<exists>rsp. out = Responded rsp \<and> rsp_status rsp = call_status call err"
    by (rule serve_request_call [OF assms(5,8)])
  have step: "x = Ret err \<and> instances_of (run_config run) (cat (world u)) = m \<or>
      (\<exists>v. x = Panicked v) \<and> instances_of (run_config run) (cat (world u))
        \<in> {instances_of (run_config run) (cat (world s)), m}"
    using run_call_instances [OF assms(1-4,6) call] assms(7) w(1) by simp
  show ?thesis
  proof (cases x)
    case (Ret r)
    with out obtain rsp where "out = Responded rsp" "rsp_status rsp = call_status call r" by auto
    with step Ret w(2) show ?thesis by simp
  next
    case (Panicked v)
    with out have "out = ProcessExit v" by simp
    with step Panicked w(2) show ?thesis by simp
  qed
qed

theorem http_fail_fast_witness:
  "case serve_request ref_env ref_running
     (call_request (Crednetials ref_config) (CallProvision ''i1'' ref_details)) ref_start of
     (Responded rsp, t) \<Rightarrow> rsp_status rsp = 201
   | (ProcessExit v, t) \<Rightarrow> instances_of ref_config (rw_catalog (world t)) \<in> {Map.empty, [''i1'' \<mapsto> {}]}"
proof -
  let ?call = "CallProvision ''i1'' ref_details"
  obtain out t where run: "serve_request ref_env ref_running
      (call_request (Crednetials (run_config ref_running)) ?call) ref_start = (out, t)" by fastforce
  have empty: "instances_of ref_config (rw_catalog (world ref_start)) = Map.empty"
    by (simp add: instances_of_def ref_start_def ref_world0_def)
  have spec: "broker_spec ?call (instances_of (run_config ref_running) (rw_catalog (world ref_start)))
      = (None, [''i1'' \<mapsto> {}])" by (simp add: empty)
  have json: "wf_json (details_json ref_details)"
    by (simp add: ref_details_def details_json_def utf8.simps DecodeRune_def byte_def)
  show ?thesis
    using http_fail_fast [OF ref_sql_server _ ref_rng(1) ref_builtin_names _ _ spec run] run json empty
    by (cases out) auto
qed

section \<open>Authentication\<close>

text \<open>Requests one after another, with their answers; after an exit there are no more.\<close>

fun serve_all :: "'w env \<Rightarrow> running \<Rightarrow> request list \<Rightarrow> 'w proc \<Rightarrow> (request \<times> served) list \<times> 'w proc" where
  "serve_all E run [] s = ([], s)"
| "serve_all E run (req # reqs) s =
     (case serve_request E run req s of
        (ProcessExit v, t) \<Rightarrow> ([(req, ProcessExit v)], t)
      | (Responded rsp, t) \<Rightarrow> apfst (Cons (req, Responded rsp)) (serve_all E run reqs t))"

text \<open>What a caller without the credentials is told: it depends on the request alone.\<close>

definition refusal :: "request \<Rightarrow> response" where
  "refusal req =
     (if req_method req \<noteq> ''CONNECT'' \<and> cleanPath (req_path req) \<noteq> req_path req
      then \<lparr>rsp_status = 301, rsp_headers = [(''Location'', cleanPath (req_path req))], rsp_body = []\<rparr>
      else if take 1 (req_path req) = ''/''
      then \<lparr>rsp_status = 401, rsp_headers = [(''Content-Type'', ''text/plain; charset=utf-8'')],
             rsp_body = ''Not Authorized'' @ ''\<newline>''\<rparr>
      else \<lparr>rsp_status = 404, rsp_headers = [(''Content-Type'', ''text/plain; charset=utf-8'')],
             rsp_body = ''404 page not found'' @ ''\<newline>''\<rparr>)"

lemma serve_refused:
  assumes "req_auth req \<noteq> Some (cred_Username (Crednetials (run_config run)), cred_Password (Crednetials (run_config run)))"
  shows "serve_request E run req s = (Responded (refusal req), s)"
proof -
  have "\<not> authorized (Crednetials (run_config run)) req"
    using assms by (auto simp: authorized_def split: option.splits)
  then show ?thesis
    by (simp add: serve_request_def exitOnPanicWrapper_def defaultServeMux_def brokerapi_New_def auth_Wrap_def
        refusal_def moved_permanently_def http_Error_def)
qed

text \<open>C11: requests without the configured user name and password might as well not have been
  made.  Whatever is sent to the broker, in any order, each of them gets its refusal, which does
  not depend on the broker; the requests with the credentials get the same answers as without
  them, exits of the process included; and the server, the log and the broker end up the
  same.\<close>

theorem unauthorized_is_inert:
  assumes "user = cred_Username (Crednetials (run_config run))" and "password = cred_Password (Crednetials (run_config run))"
    and "genuine = (\<lambda>req. req_auth req = Some (user, password))"
    and "serve_all E run reqs s = (answered, t)"
  shows "(\<forall>(req, out) \<in> set answered. \<not> genuine req \<longrightarrow> out = Responded (refusal req)) \<and>
    serve_all E run (filter genuine reqs) s = (filter (\<lambda>(req, out). genuine req) answered, t)"
  using assms(4)
proof (induction reqs arbitrary: s answered t)
  case (Cons req reqs)
  obtain out u where out: "serve_request E run req s = (out, u)" by fastforce
  show ?case
  proof (cases "genuine req")
    case True
    show ?thesis
    proof (cases out)
      case (Responded rsp)
      obtain rest v where rest: "serve_all E run reqs u = (rest, v)" by fastforce
      from Cons.IH [OF this] Cons.prems out True Responded rest show ?thesis by auto
    next
      case (ProcessExit v)
      with Cons.prems out True show ?thesis by auto
    qed
  next
    case False
    then have "serve_request E run req s = (Responded (refusal req), s)"
      by (intro serve_refused) (simp add: assms(1-3))
    moreover obtain rest v where rest: "serve_all E run reqs s = (rest, v)" by fastforce
    ultimately show ?thesis using Cons.IH [OF rest] Cons.prems False rest by auto
  qed
qed simp

definition guess :: request where
  "guess = \<lparr>req_method = ''DELETE'', req_path = instance_path ''i1'',
     req_auth = Some (cred_Username (Crednetials ref_config), ''guess''), req_body = []\<rparr>"

theorem unauthorized_is_inert_witness:
  "\<exists>answered. serve_all ref_env ref_running [guess, guess\<lparr>req_auth := None\<rparr>] ref_bound = (answered, ref_bound) \<and>
     (\<forall>(req, out) \<in> set answered. out = Responded (refusal req))"
proof -
  obtain answered t where run: "serve_all ref_env ref_running [guess, guess\<lparr>req_auth := None\<rparr>] ref_bound = (answered, t)"
    by fastforce
  let ?genuine = "\<lambda>req. req_auth req =
    Some (cred_Username (Crednetials (run_config ref_running)), cred_Password (Crednetials (run_config ref_running)))"
  have "filter ?genuine [guess, guess\<lparr>req_auth := None\<rparr>] = []" by (simp add: guess_def ref_config_def)
  with unauthorized_is_inert [OF refl refl refl run] have
    "\<forall>(req, out) \<in> set answered. \<not> ?genuine req \<longrightarrow> out = Responded (refusal req)"
    "filter (\<lambda>(req, out). ?genuine req) answered = []" "t = ref_bound" by simp_all
  with run show ?thesis by (auto simp: filter_empty_conv)
qed

section \<open>Credentials on the wire\<close>

lemma api_bind_credentials:
  assumes "segment i" and "segment b"
  obtains s' where "world s' = world s"
    and "\<And>c u. Bind E (run_config run) (run_prov run) i b s' = (Ret (Some c, None), u) \<Longrightarrow>
      serve_request E run (call_request (Crednetials (run_config run)) (CallBind i b)) s
        = (Responded (respond 201 (BindingResponse (binding_json c))), u)"
proof -
  obtain l s' where ses: "new_session ''bind'' [[(''instance-id'', JStr i), (''binding-id'', JStr b)]] s = (Ret l, s')"
    and w: "world s' = world s" by (rule new_session_run)
  have "serve_request E run (call_request (Crednetials (run_config run)) (CallBind i b)) s
        = (Responded (respond 201 (BindingResponse (binding_json c))), u)"
    if "Bind E (run_config run) (run_prov run) i b s' = (Ret (Some c, None), u)" for c u
    using that ses assms call_path_clean [of "CallBind i b" "Crednetials (run_config run)"]
    by (simp add: serve_request_def exitOnPanicWrapper_def defaultServeMux_def brokerapi_New_def
        auth_Wrap_def authorized_def router_ServeHTTP_def dispatch_routes api_bind_def var_of_def
        bindG_apply mssqlServiceBroker_def Let_def)
  with w show thesis by (rule that)
qed

lemma utf8_credentials:
  assumes "utf8 (ServedBindingHostname cfg)" and "utf8 (DbIdentifierPrefix cfg)" and "utf8 i" and "utf8 b"
  shows "wf_json (BindingResponse (binding_json (bind_credentials cfg i b (bind_password E w))))"
proof -
  have pw: "utf8 (bind_password E w)"
  proof (rule utf8_ascii, unfold list_all_iff, rule ballI)
    fix c assume "c \<in> set (bind_password E w)"
    then have "c \<in> set url_alphabet \<or> c = CHR ''='' \<or> c \<in> set ''Aa_0''"
      using URLEncoding_chars by (auto simp: bind_password_def happySqlPasswordPolicySuffix_def)
    then show "byte c < 128" by (auto simp: url_alphabet_def byte_def)
  qed
  have num: "utf8 (Itoa k)" for k
    by (rule utf8_ascii) (auto simp: list_all_iff byte_def is_digit_def dest!: Itoa_chars)
  have lit: "utf8 t" if "list_all (\<lambda>c. byte c < 128) t" for t using that by (rule utf8_ascii)
  have int: "integer_text (Itoa k)" for k by (simp add: integer_text_def)
  have dash: "utf8 (''-'' @ b)" by (rule utf8_append [OF lit assms(4)]) (simp add: byte_def)
  have d: "utf8 (database_of cfg i)" using assms by (simp add: database_of_def utf8_append)
  have u: "utf8 (user_of cfg i b)"
    unfolding user_of_def by (intro utf8_append d dash)
  have "utf8 (''Address='' @ ServedBindingHostname cfg @ '','' @ Itoa (ServedBindingPort cfg) @ '';Database='' @
      database_of cfg i @ '';UID='' @ user_of cfg i b @ '';PWD='' @ bind_password E w @ '';'')"
    by (intro utf8_append assms(1) num d u pw; rule lit; simp add: byte_def)
  with assms pw num d u int show ?thesis
    by (simp add: BindingResponse_def binding_json_def bind_credentials_def json_int_def lit byte_def
        generateConnectionString_eq)
qed

text \<open>C12: a bind request for a new binding of an existing instance is answered 201, with a
  JSON body from which the client reads exactly the credentials the server now accepts:
  the named database has the named user with that password, as an owner.\<close>

theorem bind_response_credentials:
  assumes "reliable_sql_server E db cat tx builtin" and "dbClient (run_prov run) = Some db"
    and "rng_quiet E cat" and "rng_works E" and "segment i" and "segment b"
    and "call_plain (run_config run) (CallBind i b)"
    and "utf8 (ServedBindingHostname (run_config run))" and "utf8 (DbIdentifierPrefix (run_config run))"
    and "utf8 i" and "utf8 b"
    and "cat (world s) (database_of (run_config run) i) = Some m" and "m (user_of (run_config run) i b) = None"
  shows "\<exists>rsp t c. serve_request E run (call_request (Crednetials (run_config run)) (CallBind i b)) s
      = (Responded rsp, t) \<and> rsp_status rsp = 201 \<and>
    json_decode (rsp_body rsp) = Some (JObj [(''credentials'', binding_json c)]) \<and>
    cat (world t) (Name c) = Some (m(Username c \<mapsto> (Some (Password c), True)))"
proof -
  let ?cfg = "run_config run"
  obtain s' where w: "world s' = world s"
    and answer: "\<And>c u. Bind E ?cfg (run_prov run) i b s' = (Ret (Some c, None), u) \<Longrightarrow>
      serve_request E run (call_request (Crednetials ?cfg) (CallBind i b)) s
        = (Responded (respond 201 (BindingResponse (binding_json c))), u)"
    by (rule api_bind_credentials [OF assms(5,6), of s E run]) blast
  obtain x u where run: "Bind E ?cfg (run_prov run) i b s' = (x, u)" by fastforce
  have plain: "plain_name (database_of ?cfg i)" "plain_name (user_of ?cfg i b)" using assms(7) by simp_all
  have live: "reliable_sql_server E db cat tx builtin \<and> dbClient (run_prov run) = Some db"
    using assms(1,2) by blast
  then have safe: "sql_server E db cat tx builtin \<and> dbClient (run_prov run) = Some db"
    by (blast dest: reliable_sql_server.axioms)
  let ?c = "bind_credentials ?cfg i b (bind_password E (world s))"
  obtain r where "x = Ret r" using Bind_live [OF live assms(4) plain run] by blast
  with Bind_step [OF safe assms(3) plain run] assms(12,13) w
  have x: "x = Ret (Some ?c, None)"
    and t: "cat (world u) = put_principal (database_of ?cfg i) (user_of ?cfg i b)
      (Some (bind_password E (world s)), True) (cat (world s))"
    by (auto simp: step_or_crash_def users_def bind_reply_def domIff)
  have "json_decode (encode (BindingResponse (binding_json ?c)) @ ''\<newline>'')
      = Some (BindingResponse (binding_json ?c))"
    by (rule json_decode_encode [OF utf8_credentials [OF assms(8-11)]])
      (simp add: ends_number_def is_digit_def)
  then show ?thesis
    using answer [OF run [unfolded x]] t assms(12)
    by (intro exI [of _ "respond 201 (BindingResponse (binding_json ?c))"] exI [of _ u] exI [of _ ?c])
       (simp add: respond_def BindingResponse_def bind_credentials_def put_principal_def)
qed

theorem bind_response_credentials_witness:
  "\<exists>rsp t. serve_request ref_env ref_running (call_request (Crednetials ref_config) (CallBind ''i1'' ''b1'')) ref_bound
     = (Responded rsp, t) \<and> rsp_status rsp = 201"
proof -
  have plain: "call_plain (run_config ref_running) (CallBind ''i1'' ''b1'')" by simp
  have utf8: "utf8 (ServedBindingHostname (run_config ref_running))"
    "utf8 (DbIdentifierPrefix (run_config ref_running))" "utf8 ''i1''" "utf8 ''b1''"
    by (rule utf8_ascii; simp add: ref_config_def byte_def)+
  have "rw_catalog (world ref_bound) (database_of (run_config ref_running) ''i1'') = Some ref_builtin"
    "ref_builtin (user_of (run_config ref_running) ''i1'' ''b1'') = None"
    by (simp_all add: ref_bound_catalog builtin_names_user)
  from bind_response_credentials [OF ref_reliable _ ref_rng ref_segments(1,2) plain utf8 this]
  show ?thesis by force
qed

section \<open>Failed calls\<close>

text \<open>C13: a call that the abstract broker refuses changes nothing on the server, its whole catalog
  is the same, and the client is told exactly why: 409 and 410 with an empty object for an
  instance that is there already or is missing, 404 and 409 with a description for a bind, 404
  with an empty object for an unbind without its instance.  An unbind of a missing binding is
  answered 500 with the description \<open>binding already exists\<close>, and not 410, the status the API has
  for it.\<close>

theorem failed_call_response:
  assumes "reliable_sql_server E db cat tx builtin" and "dbClient (run_prov run) = Some db"
    and "rng_quiet E cat" and "rng_works E" and "builtin_names builtin"
    and "call_segments call" and "call_plain (run_config run) call"
    and "broker_spec call (instances_of (run_config run) (cat (world s))) = (Some e, m)"
  shows "\<exists>t. serve_request E run (call_request (Crednetials (run_config run)) call) s
      = (Responded (failure_response call e), t) \<and> cat (world t) = cat (world s)"
proof -
  let ?c = "cat (world s)"
  obtain out t where run: "serve_request E run (call_request (Crednetials (run_config run)) call) s = (out, t)"
    by fastforce
  obtain s' x u where w: "world s' = world s" "world t = world u"
    and call: "run_call E (run_config run) (run_prov run) call s' = (x, u)"
    and out: "case x of Panicked v \<Rightarrow> out = ProcessExit v
         | Ret err \<Rightarrow> \<exists>rsp. out = Responded rsp \<and> rsp_status rsp = call_status call err \<and>
             (\<forall>e. err = Some e \<longrightarrow> rsp = failure_response call e)"
    by (rule serve_request_answer [OF assms(6) run])
  obtain r where x: "x = Ret r" using run_call_live [OF assms(1,2,4,7) call] by blast
  let ?step = "catalog_step (run_config run) builtin (bind_password E (world s)) call ?c"
  have "fst ?step = Some e" using catalog_step_refines(1) [OF assms(5)] assms(8) by simp
  then have "?step = (Some e, ?c)" by (cases call) (auto split: if_splits)
  with run_call_step [OF reliable_sql_server.axioms(1) [OF assms(1)] assms(2,3,7) call] x w(1)
  have "r = Some e" "cat (world u) = ?c" by (auto simp: step_or_crash_def)
  with out x w(2) run show ?thesis by auto
qed

theorem failed_call_response_witness:
  "\<exists>t. serve_request ref_env ref_running (call_request (Crednetials ref_config) (CallUnbind ''i1'' ''b1'')) ref_bound
     = (Responded (json_text 500 (described ''binding already exists'')), t) \<and>
   rw_catalog (world t) = rw_catalog (world ref_bound)"
proof -
  have plain: "call_plain (run_config ref_running) (CallUnbind ''i1'' ''b1'')" by simp
  have seg: "call_segments (CallUnbind ''i1'' ''b1'')" by simp
  have "rw_catalog (world ref_bound) (database_of (run_config ref_running) ''i1'') = Some ref_builtin"
    "ref_builtin (user_of (run_config ref_running) ''i1'' ''b1'') = None"
    by (simp_all add: ref_bound_catalog builtin_names_user)
  then have spec: "broker_spec (CallUnbind ''i1'' ''b1'') (instances_of (run_config ref_running) (rw_catalog (world ref_bound)))
      = (Some ErrBindingAlreadyExists, instances_of (run_config ref_running) (rw_catalog (world ref_bound)))"
    by (simp add: instances_of_def domIff)
  from failed_call_response [OF ref_reliable _ ref_rng ref_builtin_names seg plain spec] show ?thesis by force
qed

end
