(* ===== verification/SqlTokens.thy ===== *)
theory SqlTokens
  imports SqlServer
begin

text \<open>
  How SQL Server reads the text of a statement: words, names in brackets, strings in quotes and
  single marks.  In a bracketed name a closing bracket is written twice, in a string a quote.
\<close>

datatype sql_token = Word string | Name string | Text string | Mark char

datatype lexing =
    Between
  | InWord string
  | InName string
  | NameOrBracket string
  | InText string
  | TextOrQuote string

definition word_char :: "char \<Rightarrow> bool" where
  "word_char c \<longleftrightarrow> c \<in> set ''abcdefghijklmnopqrstuvwxyz_''"

text \<open>What a character begins.\<close>

definition begin_token :: "char \<Rightarrow> sql_token list \<times> lexing" where
  "begin_token c =
     (if word_char c then ([], InWord [c])
      else if c = CHR ''['' then ([], InName [])
      else if c = CHR 0x27 then ([], InText [])
      else if c = CHR '' '' then ([], Between)
      else ([Mark c], Between))"

text \<open>A text that ends inside a name or a string has no tokens.\<close>

fun last_token :: "lexing \<Rightarrow> sql_token list option" where
  "last_token Between = Some []"
| "last_token (InWord w) = Some [Word w]"
| "last_token (NameOrBracket n) = Some [Name n]"
| "last_token (TextOrQuote t) = Some [Text t]"
| "last_token _ = None"

definition next_token :: "lexing \<Rightarrow> char \<Rightarrow> sql_token list \<times> lexing" where
  "next_token st c =
     (case st of
        Between \<Rightarrow> begin_token c
      | InWord w \<Rightarrow> if word_char c then ([], InWord (w @ [c])) else apfst (Cons (Word w)) (begin_token c)
      | InName n \<Rightarrow> if c = CHR '']'' then ([], NameOrBracket n) else ([], InName (n @ [c]))
      | NameOrBracket n \<Rightarrow>
          if c = CHR '']'' then ([], InName (n @ [c])) else apfst (Cons (Name n)) (begin_token c)
      | InText t \<Rightarrow> if c = CHR 0x27 then ([], TextOrQuote t) else ([], InText (t @ [c]))
      | TextOrQuote t \<Rightarrow>
          if c = CHR 0x27 then ([], InText (t @ [c])) else apfst (Cons (Text t)) (begin_token c))"

fun sql_lex :: "lexing \<Rightarrow> string \<Rightarrow> sql_token list option" where
  "sql_lex st [] = last_token st"
| "sql_lex st (c # cs) = (case next_token st c of (ts, st') \<Rightarrow> map_option (append ts) (sql_lex st' cs))"

definition sql_tokens :: "string \<Rightarrow> sql_token list option" where
  "sql_tokens text = sql_lex Between text"

lemma append_nothing [simp]: "map_option (append []) x = x"
  by (cases x) simp_all

text \<open>A name or a string without its closing character is read to its end.\<close>

lemma lex_name: "CHR '']'' \<notin> set n \<Longrightarrow> sql_lex (InName m) (n @ r) = sql_lex (InName (m @ n)) r"
  by (induction n arbitrary: m) (auto simp: next_token_def)

lemma lex_text: "CHR 0x27 \<notin> set t \<Longrightarrow> sql_lex (InText m) (t @ r) = sql_lex (InText (m @ t)) r"
  by (induction t arbitrary: m) (auto simp: next_token_def)

lemma lex_closed_name: "CHR '']'' \<notin> set n \<Longrightarrow>
   sql_lex (InName []) (n @ CHR '']'' # r) = sql_lex (NameOrBracket n) r"
  by (simp add: lex_name next_token_def)

lemma lex_closed_text: "CHR 0x27 \<notin> set t \<Longrightarrow>
   sql_lex (InText []) (t @ CHR 0x27 # r) = sql_lex (TextOrQuote t) r"
  by (simp add: lex_text next_token_def)

lemmas lex_simps = sql_tokens_def next_token_def begin_token_def word_char_def option.map_comp comp_def
  lex_closed_name lex_closed_text

lemma plain_closed: "plain_name n \<Longrightarrow> CHR '']'' \<notin> set n" "plain_name n \<Longrightarrow> CHR 0x27 \<notin> set n"
  "plain_password p \<Longrightarrow> CHR 0x27 \<notin> set p"
  by (simp_all add: plain_name_def plain_password_def)

text \<open>The statements of the provisioner, and the words of \<open>use master\<close>.\<close>

lemma statement_tokens:
  assumes "plain_name d"
  shows "sql_tokens (create_database_sql d) =
      Some [Word ''create'', Word ''database'', Name d, Word ''containment'', Mark (CHR ''=''), Word ''partial'']"
    and "sql_tokens (single_user_sql d) =
      Some [Word ''alter'', Word ''database'', Name d, Word ''set'', Word ''single_user'', Word ''with'', Word ''rollback'',
        Word ''immediate'']"
    and "sql_tokens (drop_database_sql d) = Some [Word ''drop'', Word ''database'', Name d]"
    and "sql_tokens (use_sql d) = Some [Word ''use'', Name d]"
    and "sql_tokens (add_owner_sql d) =
      Some [Word ''alter'', Word ''role'', Name ''db_owner'', Word ''add'', Word ''member'', Name d]"
    and "sql_tokens (drop_user_sql d) = Some [Word ''drop'', Word ''user'', Name d]"
    and "plain_password pw \<Longrightarrow> sql_tokens (create_user_sql d pw) =
      Some [Word ''create'', Word ''user'', Name d, Word ''with'', Word ''password'', Mark (CHR ''=''), Text pw]"
    and "sql_tokens (count_databases_sql d) =
      Some [Word ''select'', Word ''count'', Mark (CHR ''(''), Mark (CHR ''*''), Mark (CHR '')''), Word ''from'',
        Name ''master'', Mark (CHR ''.''), Word ''sys'', Mark (CHR ''.''), Word ''databases'', Word ''where'', Word ''name'',
        Mark (CHR ''=''), Text d]"
    and "plain_name u \<Longrightarrow> sql_tokens (count_users_sql d u) =
      Some [Word ''select'', Word ''count'', Mark (CHR ''(''), Mark (CHR ''*''), Mark (CHR '')''), Word ''from'',
        Name d, Mark (CHR ''.''), Word ''sys'', Mark (CHR ''.''), Word ''database_principals'', Word ''where'', Word ''name'',
        Mark (CHR ''=''), Text u]"
  using plain_closed(1,2) [OF assms] plain_closed(2) [of u] plain_closed(3) [of pw] by (simp_all add: sql_text_defs lex_simps)

lemma use_master_tokens: "sql_tokens ''use master'' = Some [Word ''use'', Word ''master'']"
  by (simp add: lex_simps)

end
