(* ===== verification/ProvisionerTheorems.thy ===== *)
theory ProvisionerTheorems
  imports RefServer SqlTokens
begin

text \<open>
  The properties of package provisioner: which statements an operation sends, in which
  order and with which outcome on every branch, atomicity of the user operations, the
  handle \<open>Init\<close> leaves, what is logged, and where the template compiler fails.
\<close>

section \<open>Operations as plain sequences of statements\<close>

text \<open>A transaction without the templates and the logging: the reference.\<close>

fun statements_in_tx ::
  "'w env \<Rightarrow> nat \<Rightarrow> string list \<Rightarrow> 'w \<Rightarrow> go_error option outcome \<times> 'w" where
  "statements_in_tx E t [] w = (case txCommit E t w of (r, w') \<Rightarrow> (Ret r, w'))"
| "statements_in_tx E t (q # qs) w =
     (case txExec E t q w of
        (None, w') \<Rightarrow> statements_in_tx E t qs w'
      | (Some e, w') \<Rightarrow>
          (case txRollback E t w' of
             (None, w'') \<Rightarrow> (Ret (Some e), w'')
           | (Some r, w'') \<Rightarrow> (Panicked (PanicString (error_text r)), w'')))"

definition run_in_tx ::
  "'w env \<Rightarrow> sql_db \<Rightarrow> string list \<Rightarrow> 'w \<Rightarrow> go_error option outcome \<times> 'w" where
  "run_in_tx E db qs w =
     (case sqlBegin E db w of
        (Inl e, w') \<Rightarrow> (Ret (Some e), w')
      | (Inr t, w') \<Rightarrow> statements_in_tx E t qs w')"

lemma txLines_reference:
  assumes "txLines E tx a template s = (x, u)"
  shows "statements_in_tx E tx (map (\<lambda>t. compileTemplate t a) template) (world s) =
    (case x of
       Ret None \<Rightarrow> (case txCommit E tx (world u) of (r, w') \<Rightarrow> (Ret r, w'))
     | _ \<Rightarrow> (x, world u))"
  using assms
proof (induction template arbitrary: s)
  case Nil
  then show ?case by auto
next
  case (Cons l template)
  then show ?case
    by (auto simp: go_simps db_defs Let_def split: option.splits prod.splits dest!: Cons.IH)
qed

lemma withTx_reference:
  assumes "dbClient p = Some db"
  shows "map_prod id world (executeTemplateWithTx E p template a s)
    = run_in_tx E db (map (\<lambda>t. compileTemplate t a) template) (world s)"
proof (cases "sqlBegin E db (world s)")
  case (Pair begun w)
  show ?thesis
  proof (cases begun)
    case (Inl e)
    with Pair assms show ?thesis
      by (simp add: executeTemplateWithTx_def run_in_tx_def go_simps db_defs)
  next
    case (Inr t)
    obtain x u where l: "txLines E t a template (s\<lparr>world := w\<rparr>) = (x, u)" by fastforce
    with txLines_reference [OF l] Pair Inr assms show ?thesis
      by (auto simp: executeTemplateWithTx_def run_in_tx_def go_simps db_defs
          split: outcome.splits option.splits prod.splits)
  qed
qed

text \<open>C14: for operands without \<open>Sprintf\<close>'s marker, CreateUser sends exactly \<open>use\<close>, \<open>create
  user\<close>, \<open>alter role\<close> and \<open>use master\<close> on one transaction, in this order, and ends as that
  transaction does: commit, an error after a rollback, or a panic when the rollback fails;
  DeleteUser likewise with its three statements.\<close>

theorem user_operations_reference:
  assumes "dbClient p = Some db" and "no_marker d" and "no_marker u" and "no_marker pw"
  shows "map_prod id world (CreateUser E p d u pw s)
      = run_in_tx E db [use_sql d, create_user_sql u pw, add_owner_sql u, ''use master''] (world s) \<and>
    map_prod id world (DeleteUser E p d u s)
      = run_in_tx E db [use_sql d, drop_user_sql u, ''use master''] (world s)"
  using withTx_reference [OF assms(1), of E createUserTemplate "[d, u, pw]" s]
    withTx_reference [OF assms(1), of E deleteUserTemplate "[d, u]" s]
    compile_createUser [OF assms(2-4)] compile_deleteUser [OF assms(2,3)]
  by (simp add: CreateUser_def DeleteUser_def)

lemma ref_marker [simp]: "no_marker ''d''" "no_marker ''u''" "no_marker ''p''"
  by (simp_all add: no_marker_def extra_marker_def sublist_Cons_right)

theorem user_operations_reference_witness:
  "map_prod id world (DeleteUser ref_env ref_prov ''d'' ''u'' ref_start)
     = run_in_tx ref_env ref_db [use_sql ''d'', drop_user_sql ''u'', ''use master''] (world ref_start)"
  using user_operations_reference [OF ref_prov_client ref_marker] by blast

text \<open>C15: CreateDatabase sends one statement and DeleteDatabase two, outside a transaction,
  and stop at the first error: when the drop fails, the switch to single-user mode that
  precedes it stays in effect.\<close>

theorem database_operations_reference:
  assumes "dbClient p = Some db" and "no_marker d"
  shows "map_prod id world (CreateDatabase E p d s)
      = map_prod Ret id (sqlExec E db (create_database_sql d) (world s)) \<and>
    map_prod id world (DeleteDatabase E p d s)
      = (case sqlExec E db (single_user_sql d) (world s) of
           (Some e, w) \<Rightarrow> (Ret (Some e), w)
         | (None, w) \<Rightarrow> map_prod Ret id (sqlExec E db (drop_database_sql d) w))"
proof -
  have run: "map_prod id world (executeTemplateWithoutTx E p template [d] s)
    = map_prod Ret id (exec_run E db (map (\<lambda>t. compileTemplate t [d]) template) (world s))" for template
  proof -
    obtain x t where x: "executeTemplateWithoutTx E p template [d] s = (x, t)" by fastforce
    obtain r w where r: "exec_run E db (map (\<lambda>t. compileTemplate t [d]) template) (world s) = (r, w)"
      by fastforce
    from withoutTx_run [OF assms(1) x r] x r show ?thesis by simp
  qed
  show ?thesis
    unfolding CreateDatabase_def DeleteDatabase_def run compile_createDatabase [OF assms(2)]
      compile_deleteDatabase [OF assms(2)]
    by (auto split: prod.splits option.splits)
qed

theorem database_operations_reference_witness:
  "map_prod id world (CreateDatabase ref_env ref_prov ''d'' ref_start)
     = (Ret None, ref_world0\<lparr>rw_catalog := [''d'' \<mapsto> ref_builtin]\<rparr>)"
proof -
  have "sqlExec ref_env ref_db (create_database_sql ''d'') (world ref_start)
      = (None, ref_world0\<lparr>rw_catalog := [''d'' \<mapsto> ref_builtin]\<rparr>)"
    by (simp add: ref_env_def ref_exec_def ref_start_def ref_world0_def add_database_def)
  with database_operations_reference [OF ref_prov_client ref_marker(1), of ref_env ref_start]
  show ?thesis by simp
qed

section \<open>Atomicity\<close>

text \<open>C16: on any server that keeps the transaction laws, CreateUser leaves the catalog as it
  was or with the complete user, who has the password and owns the database: no fault leaves
  a user without the role, and success means the user is new and complete.\<close>

theorem create_user_atomic:
  assumes "sql_server E db cat tx builtin" and "dbClient p = Some db"
    and "plain_name d" and "plain_name u" and "plain_password pw"
    and "CreateUser E p d u pw s = (x, t)"
  shows "(cat (world t) = cat (world s) \<and> x \<noteq> Ret None) \<or>
    (\<exists>m. cat (world s) d = Some m \<and> m u = None \<and>
       cat (world t) = (cat (world s))(d \<mapsto> m(u \<mapsto> (Some pw, True))))"
  using sql_server.CreateUser_law [OF assms(1,2,6,3-5)]
  by (cases "x = Ret None") (auto simp: users_def put_principal_def split: option.splits)

theorem create_user_atomic_witness:
  "\<exists>x t. CreateUser ref_env ref_prov (database_of ref_config ''i1'') (user_of ref_config ''i1'' ''b1'') ''pw''
       ref_start = (x, t) \<and> x \<noteq> Ret None \<and> rw_catalog (world t) = Map.empty"
proof -
  obtain x t where run: "CreateUser ref_env ref_prov (database_of ref_config ''i1'')
      (user_of ref_config ''i1'' ''b1'') ''pw'' ref_start = (x, t)" by fastforce
  have pw: "plain_password ''pw''"
    by (simp add: plain_password_def no_marker_def extra_marker_def sublist_Cons_right)
  have "rw_catalog (world ref_start) = Map.empty" by (simp add: ref_start_def ref_world0_def)
  with create_user_atomic [OF ref_sql_server ref_prov_client ref_plain(1,2) pw run] run
  show ?thesis by auto
qed

section \<open>Opening the client\<close>

text \<open>Init with a registered driver opens a handle with the connection parameters, no idle
  connections, and returns the error of the first ping; with a driver that is not registered
  it does not return the error of \<open>sql.Open\<close> but dereferences the nil handle and panics.\<close>

theorem init_outcome:
  "Init E p s =
     (if goSqlDriver p \<in> set (sqlDrivers E)
      then (let db = \<lparr>db_driver = goSqlDriver p,
                      db_dsn = concat (map (\<lambda>(k, v). k @ ''='' @ v @ '';'') (connectionParams p)),
                      db_maxIdle = -1\<rparr>
            in case sqlPing E db (world s) of
                 (err, w) \<Rightarrow> (Ret (p\<lparr>dbClient := Some db\<rparr>, err), s\<lparr>world := w\<rparr>))
      else (Panicked NilPointerDereference, s))"
proof -
  have "buildConnectionString ps = concat (map (\<lambda>(k, v). k @ ''='' @ v @ '';'') ps)" for ps
    by (induction ps) auto
  then show ?thesis
    by (simp add: Init_def sql_Open_def SetMaxIdleConns_def db_Ping_def go_simps Let_def
        split: prod.split)
qed

section \<open>The text of a statement\<close>

text \<open>C18: SQL Server reads every statement the provisioner compiles as it is meant: its lexer
  finds the keywords of the statement, the database and the user each as one bracketed name, and
  the password, or the name that is looked up, as one string, and nothing else.  For plain names
  and passwords: nothing in them closes the bracket or the quote they stand in.\<close>

theorem statements_read_as_meant:
  assumes "plain_name d" and "plain_name u" and "plain_password pw"
  shows "map (\<lambda>t. sql_tokens (compileTemplate t [d])) createDatabaseTemplate =
     [Some [Word ''create'', Word ''database'', Name d, Word ''containment'', Mark (CHR ''=''), Word ''partial'']] \<and>
   map (\<lambda>t. sql_tokens (compileTemplate t [d])) deleteDatabaseTemplate =
     [Some [Word ''alter'', Word ''database'', Name d, Word ''set'', Word ''single_user'', Word ''with'', Word ''rollback'',
        Word ''immediate''],
      Some [Word ''drop'', Word ''database'', Name d]] \<and>
   map (\<lambda>t. sql_tokens (compileTemplate t [d, u, pw])) createUserTemplate =
     [Some [Word ''use'', Name d],
      Some [Word ''create'', Word ''user'', Name u, Word ''with'', Word ''password'', Mark (CHR ''=''), Text pw],
      Some [Word ''alter'', Word ''role'', Name ''db_owner'', Word ''add'', Word ''member'', Name u],
      Some [Word ''use'', Word ''master'']] \<and>
   map (\<lambda>t. sql_tokens (compileTemplate t [d, u])) deleteUserTemplate =
     [Some [Word ''use'', Name d], Some [Word ''drop'', Word ''user'', Name u], Some [Word ''use'', Word ''master'']] \<and>
   sql_tokens (compileTemplate isDatabaseCreatedTemplate [d]) =
     Some [Word ''select'', Word ''count'', Mark (CHR ''(''), Mark (CHR ''*''), Mark (CHR '')''), Word ''from'',
        Name ''master'', Mark (CHR ''.''), Word ''sys'', Mark (CHR ''.''), Word ''databases'', Word ''where'', Word ''name'',
        Mark (CHR ''=''), Text d] \<and>
   sql_tokens (compileTemplate isUserCreatedTemplate [d, u]) =
     Some [Word ''select'', Word ''count'', Mark (CHR ''(''), Mark (CHR ''*''), Mark (CHR '')''), Word ''from'',
        Name d, Mark (CHR ''.''), Word ''sys'', Mark (CHR ''.''), Word ''database_principals'', Word ''where'', Word ''name'',
        Mark (CHR ''=''), Text u]"
proof -
  have m: "no_marker d" "no_marker u" "no_marker pw" using assms plain_nameD by blast+
  have compiled: "map (\<lambda>t. sql_tokens (compileTemplate t a)) ts = map sql_tokens (map (\<lambda>t. compileTemplate t a) ts)" for a ts
    by simp
  show ?thesis
    unfolding compiled
    by (simp only: compile_createDatabase compile_deleteDatabase compile_createUser compile_deleteUser
        compile_isDatabaseCreated compile_isUserCreated m list.map use_master_tokens
        statement_tokens [OF assms(1)] statement_tokens [OF assms(2)] assms simp_thms)
qed

theorem statements_read_as_meant_witness:
  "sql_tokens (compileTemplate (createUserTemplate ! 1) [''d'', ''u1'', ''p]w'']) =
     Some [Word ''create'', Word ''user'', Name ''u1'', Word ''with'', Word ''password'', Mark (CHR ''=''), Text ''p]w'']"
proof -
  have "plain_name ''d''" "plain_name ''u1''" by (rule plain_nameI; simp)+
  moreover have "plain_password ''p]w''"
    by (simp add: plain_password_def no_marker_def extra_marker_def sublist_Cons_right)
  ultimately show ?thesis
    using statements_read_as_meant [of "''d''" "''u1''" "''p]w''"] by (simp add: createUserTemplate_def)
qed

text \<open>An operand that contains \<open>Sprintf\<close>'s marker cuts the statement off: the compiled
  \<open>create database\<close> ends inside the bracketed name.\<close>

theorem marker_truncates_statement:
  assumes "CHR ''%'' \<notin> set rest"
  shows "compileTemplate (createDatabaseTemplate ! 0) [front @ ''%!(EXTRA'' @ rest]
    = ''create database ['' @ front"
proof (rule compile_marked)
  show "Sprintf (createDatabaseTemplate ! 0) (map AStr [front @ ''%!(EXTRA'' @ rest])
      = (''create database ['' @ front) @ extra_marker @ rest @ ''] containment = partial''"
    by (simp add: createDatabaseTemplate_def Sprintf_eval extra_marker_def)
  have "CHR ''%'' \<notin> set (tl (extra_marker @ rest @ ''] containment = partial''))"
    using assms by (simp add: extra_marker_def)
  then show "no_marker (tl (extra_marker @ rest @ ''] containment = partial''))"
    unfolding no_marker_def by (intro not_sublist_char [of "CHR ''%''"]) (simp_all add: extra_marker_def)
qed

theorem marker_truncates_statement_witness:
  "compileTemplate (createDatabaseTemplate ! 0) [''cf-x%!(EXTRA'' @ ''y''] = ''create database [cf-x''"
  using marker_truncates_statement [of "''y''" "''cf-x''"] by simp

section \<open>The log\<close>

lemma log_lines_debug_silent:
  "\<forall>sink \<in> set (l_sinks l). DEBUG < minLogLevel sink \<Longrightarrow> log_lines l DEBUG p = []"
  by (rule log_lines_silent)

lemma txLines_silent:
  assumes "\<forall>sink \<in> set (l_sinks (the_logger s)). DEBUG < minLogLevel sink"
    and "txLines E tx a template s = (Ret None, t)"
  shows "written t = written s \<and> the_logger t = the_logger s"
  using assms
proof (induction template arbitrary: s)
  case (Cons l template)
  then obtain u where "txLines E tx a template u = (Ret None, t)"
    "written u = written s" "the_logger u = the_logger s"
    by (auto simp: go_simps db_defs Let_def log_lines_debug_silent split: option.splits prod.splits outcome.splits)
  with Cons.IH [of u] Cons.prems(1) show ?case by simp
qed simp

text \<open>With every sink above the debug level, a CreateUser that succeeds writes nothing to
  the log, so the password in its statement is not written in clear.\<close>

theorem create_user_log_silent:
  assumes "\<forall>sink \<in> set (l_sinks (the_logger s)). DEBUG < minLogLevel sink"
    and "CreateUser E p d u pw s = (Ret None, t)"
  shows "written t = written s"
proof -
  have run: "executeTemplateWithTx E p createUserTemplate [d, u, pw] s = (Ret None, t)"
    using assms(2) by (simp add: CreateUser_def)
  then obtain db where client: "dbClient p = Some db"
    by (cases "dbClient p") (simp_all add: executeTemplateWithTx_def go_simps db_defs)
  with run obtain tx w x t' where l: "txLines E tx [d, u, pw] createUserTemplate (s\<lparr>world := w\<rparr>) = (x, t')"
    and x: "x = Ret None" and t: "written t = written t'"
    by (auto simp: executeTemplateWithTx_def go_simps db_defs simp del: txLines.simps
        split: sum.splits prod.splits outcome.splits if_splits)
  have "\<forall>sink \<in> set (l_sinks (the_logger (s\<lparr>world := w\<rparr>))). DEBUG < minLogLevel sink"
    using assms(1) by simp
  from txLines_silent [OF this l [unfolded x]] t show ?thesis by simp
qed

theorem create_user_log_silent_witness:
  "\<exists>t. CreateUser ref_env ref_prov (database_of ref_config ''i1'') (user_of ref_config ''i1'' ''b1'') ''pw'' ref_bound
      = (Ret None, t) \<and> written t = []"
proof -
  have pw: "plain_password ''pw''"
    by (simp add: plain_password_def no_marker_def extra_marker_def sublist_Cons_right)
  have "rw_catalog (world ref_bound) = [database_of ref_config ''i1'' \<mapsto> ref_builtin]"
    by (simp add: ref_bound_def database_of_def ref_config_def)
  then have "fst (CreateUser ref_env ref_prov (database_of ref_config ''i1'')
      (user_of ref_config ''i1'' ''b1'') ''pw'' ref_bound) = Ret None"
    by (intro reliable_sql_server.user_progress_laws(2) [OF ref_reliable ref_prov_client ref_plain(1,2) pw])
       (simp_all add: users_def builtin_names_user domIff)
  then obtain t where run: "CreateUser ref_env ref_prov (database_of ref_config ''i1'')
      (user_of ref_config ''i1'' ''b1'') ''pw'' ref_bound = (Ret None, t)" by (metis prod.collapse)
  have "\<forall>sink \<in> set (l_sinks (the_logger ref_bound)). DEBUG < minLogLevel sink"
    by (simp add: ref_bound_def ref_start_def RegisterSink_def NewLogger_def NewWriterSink_def level_order)
  from create_user_log_silent [OF this run] run show ?thesis
    by (simp add: ref_bound_def ref_start_def)
qed

end
