(* ===== verification/MainTheorems.thy ===== *)
theory MainTheorems
  imports MainProg RefServer
begin

text \<open>
  The properties of starting the broker: the configuration file is read back as it was
  written, a broker that starts listening is ready to serve, and the two configurations
  with which it crashes before it can report an error.
\<close>

section \<open>The configuration\<close>

text \<open>C21: the JSON form of a configuration with UTF-8 texts and a 64-bit port is parsed to that
  configuration, its connection parameters listed in the order of their names.\<close>

theorem config_roundtrip:
  assumes "config_utf8 c"
    and "\<And>kvs. BrokerMssqlConnection c = Some kvs \<Longrightarrow> distinct (map fst kvs)"
    and "- (2 ^ 63) \<le> ServedBindingPort c" and "ServedBindingPort c < 2 ^ 63"
  shows "ParseJson E (encode (config_json c))
    = Inr (Some (c\<lparr>BrokerMssqlConnection := map_option (sort_key fst) (BrokerMssqlConnection c)\<rparr>))"
  by (rule ParseJson_config [OF assms])

lemma ref_config_utf8 [simp]: "config_utf8 ref_config"
  by (simp add: config_utf8_def ref_config_def config_json_def credentials_json_def string_map_json_def
      json_map_def json_slice_def json_int_def integer_text_def utf8_ascii byte_def)

theorem config_roundtrip_witness:
  "ParseJson ref_env (encode (config_json ref_config)) = Inr (Some ref_config)"
proof -
  have params: "distinct (map fst kvs)" if "BrokerMssqlConnection ref_config = Some kvs" for kvs
    using that by (auto simp: ref_config_def)
  have port: "- (2 ^ 63) \<le> ServedBindingPort ref_config" "ServedBindingPort ref_config < 2 ^ 63"
    by (simp_all add: ref_config_def)
  have sorted: "ref_config\<lparr>BrokerMssqlConnection := map_option (sort_key fst) (BrokerMssqlConnection ref_config)\<rparr>
      = ref_config"
    by (simp add: ref_config_def)
  show ?thesis
    by (rule config_roundtrip [OF ref_config_utf8 params port, of ref_env, unfolded sorted])
qed

section \<open>The log level and the address\<close>

lemma getLogLevel_Ret:
  assumes "getLogLevel c s = (Ret level, t)"
  obtains config where "c = Some config" and "t = s"
    and "(ConfigLogLevel config, level) \<in> {(''debug'', DEBUG), (''info'', INFO), (''error'', ERROR), (''fatal'', FATAL)}"
  using assms by (auto simp: getLogLevel_def split: option.splits if_splits)

text \<open>The four level names give the four levels; any other name makes the broker panic
  with a message that quotes it.\<close>

theorem getLogLevel_spec:
  "fst (getLogLevel (Some c) s) =
     (case map_of [(''debug'', DEBUG), (''info'', INFO), (''error'', ERROR), (''fatal'', FATAL)]
         (ConfigLogLevel c) of
        Some level \<Rightarrow> Ret level
      | None \<Rightarrow> Panicked (PanicError (Some (OtherError (''invalid log level: '' @ ConfigLogLevel c)))))"
  by (simp add: getLogLevel_def Sprintf_eval)

section \<open>Starting\<close>

lemma register_sink_run [simp]:
  "register_sink level s = (Ret (), s\<lparr>the_logger := RegisterSink (the_logger s) (NewWriterSink level)\<rparr>)"
  by (simp add: register_sink_def)

lemma with_logger_run [simp]: "with_logger f s = f (the_logger s) s"
  by (simp add: with_logger_def)

lemma default_driver_Ret:
  assumes "default_driver goos c s = (Ret pars, t)"
  shows "t = s \<and> pars =
    (case BrokerMssqlConnection c of
       None \<Rightarrow> None
     | Some m \<Rightarrow> Some (if ''driver'' \<notin> fst ` set m \<and> BrokerGoSqlDriver c = ''odbc''
         then AList.update ''driver'' (if goos = ''windows'' then ''sql server'' else ''freetds'') m else m))"
  using assms by (auto simp: default_driver_def Let_def split: option.splits if_splits)

definition opened_db :: "MssqlProvisioner \<Rightarrow> sql_db" where
  "opened_db p = \<lparr>db_driver = goSqlDriver p,
     db_dsn = buildConnectionString (connectionParams p), db_maxIdle = -1\<rparr>"

lemma Init_Ret:
  assumes "Init E p s = (Ret (p', err), t)"
  shows "p' = p\<lparr>dbClient := Some (opened_db p)\<rparr> \<and> sqlPing E (opened_db p) (world s) = (err, world t) \<and>
    the_logger t = the_logger s"
  using assms
  by (auto simp: Init_def sql_Open_def SetMaxIdleConns_def db_Ping_def go_simps Let_def opened_db_def
      split: if_splits)

lemma whenErr_fatal_Ret:
  assumes "seqG (whenErr err (\<lambda>e. with_logger (\<lambda>logger. logger_Fatal E logger a (Some e) []))) k s = (Ret r, t)"
  shows "err = None \<and> k s = (Ret r, t)"
  using assms by (cases err) (auto simp: seqG_apply logger_Fatal_def)

lemma seq_log:
  "seqG (with_logger (\<lambda>l. logger_Debug E l a d)) k s = k (log_all (the_logger s) DEBUG
     (log_format E (the_logger s) DEBUG a (baseData (the_logger s) d) s) s)"
  "seqG (with_logger (\<lambda>l. logger_Info E l a d)) k s = k (log_all (the_logger s) INFO
     (log_format E (the_logger s) INFO a (baseData (the_logger s) d) s) s)"
  "seqG (register_sink level) k s = k (s\<lparr>the_logger := RegisterSink (the_logger s) (NewWriterSink level)\<rparr>)"
  by (simp_all add: seqG_apply go_simps)

lemma getLogLevel_state: "getLogLevel c s = (x, t) \<Longrightarrow> t = s \<and> fst (getLogLevel c s') = x"
  by (auto simp: getLogLevel_def split: option.splits if_splits)

lemma default_driver_state: "default_driver goos c s = (x, t) \<Longrightarrow> t = s \<and> fst (default_driver goos c s') = x"
  by (auto simp: default_driver_def Let_def split: option.splits if_splits)

text \<open>C23: when \<open>runMain\<close> gets to serving, the configuration file was read and parsed; there is
  one new sink, of the level that the file names; the provisioner has a handle for the
  configured driver and parameters, with the odbc driver of the platform where none is given;
  and the world has seen exactly two things: a ping that this handle answered, and after it the
  listening on the port of the environment, else on the address of the file, else on port
  3000.\<close>

theorem runMain_ready:
  assumes "runMain E goos file s = (Ret run, t)"
  shows "\<exists>c level pars w.
    LoadFromFile E file (world s) = Inr (Some c) \<and>
    (ConfigLogLevel c, level) \<in> {(''debug'', DEBUG), (''info'', INFO), (''error'', ERROR), (''fatal'', FATAL)} \<and>
    l_sinks (the_logger t) = l_sinks (the_logger s) @ [\<lparr>minLogLevel = level\<rparr>] \<and>
    pars = (case BrokerMssqlConnection c of
       None \<Rightarrow> None
     | Some m \<Rightarrow> Some (if ''driver'' \<notin> fst ` set m \<and> BrokerGoSqlDriver c = ''odbc''
         then AList.update ''driver'' (if goos = ''windows'' then ''sql server'' else ''freetds'') m else m)) \<and>
    run_config run = c\<lparr>BrokerMssqlConnection := pars\<rparr> \<and>
    dbClient (run_prov run) = Some \<lparr>db_driver = BrokerGoSqlDriver c,
      db_dsn = buildConnectionString (case pars of None \<Rightarrow> [] | Some m \<Rightarrow> m), db_maxIdle = -1\<rparr> \<and>
    sqlPing E (the (dbClient (run_prov run))) (world s) = (None, w) \<and>
    listen E (if getenv E ''PORT'' \<noteq> [] then '':'' @ getenv E ''PORT''
              else if ListeningAddr c \<noteq> [] then ListeningAddr c else '':3000'') w = (None, world t)"
proof -
  obtain bc where load: "LoadFromFile E file (world s) = Inr bc"
    using assms by (cases "LoadFromFile E file (world s)") (auto simp: runMain_def)
  note run = assms [unfolded runMain_def readG_apply load sum.case]
  from run obtain level u where g: "getLogLevel bc s = (Ret level, u)"
    by (rule bindG_RetD) (rule that)
  then obtain c where bc: "bc = Some c" and lev: "(ConfigLogLevel c, level) \<in>
      {(''debug'', DEBUG), (''info'', INFO), (''error'', ERROR), (''fatal'', FATAL)}"
    by (rule getLogLevel_Ret)
  have level: "getLogLevel (Some c) s = (Ret level, s)" using getLogLevel_state [OF g, of s] g bc by simp
  note run1 = run [unfolded bc, unfolded bindG_apply [of "getLogLevel (Some c)"] level prod.case
      outcome.case seq_log option.sel Let_def]
  show ?thesis
  proof (cases rule: bindG_RetD [OF run1 [unfolded Let_def]])
    case (1 pars s1)
    note pars = default_driver_Ret [OF 1(1)]
    let ?prov = "NewMssqlProvisioner (BrokerGoSqlDriver c) (case pars of None \<Rightarrow> [] | Some m \<Rightarrow> m)"
    note run2 = 1(2) [simplified]
    show ?thesis
    proof (cases rule: bindG_RetD [OF run2])
      case (1 r s2)
      obtain p' err where r: "r = (p', err)" by fastforce
      note init = Init_Ret [OF 1(1) [unfolded r]]
      note ready = whenErr_fatal_Ret [OF 1(2) [unfolded r prod.case]]
      note run3 = ready [THEN conjunct2, unfolded seq_log]
      show ?thesis
      proof (cases rule: bindG_RetD [OF run3])
        case (1 lerr s3)
        note finish = whenErr_fatal_Ret [OF 1(2)]
        have logs: "the_logger t = RegisterSink (the_logger s) (NewWriterSink level)"
          using finish 1(1) init pars by (auto simp: liftW_run log_all_eq)
        have ping: "sqlPing E (opened_db ?prov) (world s) = (None, world s2)"
          using init ready pars by (simp add: log_all_eq)
        have listening: "listen E (getListeningAddr E (c\<lparr>BrokerMssqlConnection := pars\<rparr>)) (world s2) = (None, world t)"
          using finish 1(1) by (auto simp: liftW_run log_all_eq prod_eq_iff)
        have p': "p' = ?prov\<lparr>dbClient := Some (opened_db ?prov)\<rparr>" using init by blast
        have run: "run = \<lparr>run_config = c\<lparr>BrokerMssqlConnection := pars\<rparr>, run_prov = p'\<rparr>"
          using finish by simp
        have db: "opened_db ?prov = \<lparr>db_driver = BrokerGoSqlDriver c,
            db_dsn = buildConnectionString (case pars of None \<Rightarrow> [] | Some m \<Rightarrow> m), db_maxIdle = -1\<rparr>"
          by (simp add: opened_db_def NewMssqlProvisioner_def)
        have addr: "getListeningAddr E (c\<lparr>BrokerMssqlConnection := pars\<rparr>) =
            (if getenv E ''PORT'' \<noteq> [] then '':'' @ getenv E ''PORT''
             else if ListeningAddr c \<noteq> [] then ListeningAddr c else '':3000'')"
          by (simp add: getListeningAddr_def Let_def)
        have loaded: "LoadFromFile E file (world s) = Inr (Some c)" using load bc by simp
        have sinks: "l_sinks (the_logger t) = l_sinks (the_logger s) @ [\<lparr>minLogLevel = level\<rparr>]"
          using logs by (simp add: RegisterSink_def NewWriterSink_def)
        have config: "run_config run = c\<lparr>BrokerMssqlConnection := pars\<rparr>" by (simp add: run)
        have client: "dbClient (run_prov run) = Some (opened_db ?prov)" by (simp add: run p')
        have answered: "sqlPing E (the (dbClient (run_prov run))) (world s) = (None, world s2)"
          using ping client by simp
        show ?thesis
          by (intro exI [of _ c] exI [of _ level] exI [of _ pars] exI [of _ "world s2"] conjI
              loaded lev sinks pars [THEN conjunct2] config client [unfolded db] answered listening [unfolded addr])
      qed
    qed
  qed
qed

lemma Init_succeeds:
  assumes "goSqlDriver p \<in> set (sqlDrivers E)" and "\<And>db w. fst (sqlPing E db w) = None"
  shows "\<exists>t. Init E p s = (Ret (p\<lparr>dbClient := Some (opened_db p)\<rparr>, None), t)"
  using assms by (simp add: Init_def sql_Open_def SetMaxIdleConns_def db_Ping_def go_simps Let_def opened_db_def)

lemma runMain_runs:
  fixes E :: "'w env"
  assumes "LoadFromFile E file (world s) = Inr (Some c)"
    and "\<And>u :: 'w proc. getLogLevel (Some c) u = (Ret level, u)"
    and "\<And>u :: 'w proc. default_driver goos c u = (Ret pars, u)"
    and "BrokerGoSqlDriver c \<in> set (sqlDrivers E)"
    and "\<And>db w. fst (sqlPing E db w) = None" and "\<And>addr w. fst (listen E addr w) = None"
  shows "\<exists>run t. runMain E goos file s = (Ret run, t)"
proof -
  let ?prov = "NewMssqlProvisioner (BrokerGoSqlDriver c) (case pars of None \<Rightarrow> [] | Some m \<Rightarrow> m)"
  have "goSqlDriver ?prov \<in> set (sqlDrivers E)" using assms(4) by (simp add: NewMssqlProvisioner_def)
  note init = Init_succeeds [OF this assms(5)]
  let ?s0 = "s\<lparr>the_logger := RegisterSink (the_logger s) (NewWriterSink level)\<rparr>"
  let ?s1 = "log_all (the_logger ?s0) DEBUG (log_format E (the_logger ?s0) DEBUG ''config-load-success''
    (baseData (the_logger ?s0) [[(''file-source'', JStr file), (''config'', config_json c)]]) ?s0) ?s0"
  obtain t where "Init E ?prov ?s1 = (Ret (?prov\<lparr>dbClient := Some (opened_db ?prov)\<rparr>, None), t)"
    using init by blast
  then show ?thesis
    by (simp add: runMain_def assms(1,2,3,6) bindG_apply seq_log Let_def liftW_run seqG_apply go_simps)
qed

definition ref_host :: "string \<Rightarrow> ref_world env" where
  "ref_host text = ref_env\<lparr>readFile := (\<lambda>file w. Inr text)\<rparr>"

definition ref_boot :: "ref_world proc" where
  "ref_boot = \<lparr>world = ref_world0, written = [], the_logger = NewLogger ''mssql-service-broker''\<rparr>"

lemma ref_host_load:
  "LoadFromFile (ref_host text) ''broker.json'' w = ParseJson ref_env text"
proof -
  have "jsonError (ref_host text) = jsonError ref_env" by (simp add: ref_host_def)
  then have "ParseJson (ref_host text) text = ParseJson ref_env text" by (simp only: ParseJson_def)
  then show ?thesis by (simp add: LoadFromFile_def) (simp add: ref_host_def)
qed

theorem runMain_ready_witness:
  "\<exists>run t. runMain (ref_host (encode (config_json ref_config))) ''linux'' ''broker.json'' ref_boot = (Ret run, t) \<and>
     dbClient (run_prov run) = Some ref_db \<and> listen ref_env '':3000'' (world ref_boot) = (None, world t)"
proof -
  let ?E = "ref_host (encode (config_json ref_config))"
  have params: "distinct (map fst kvs)" if "BrokerMssqlConnection ref_config = Some kvs" for kvs
    using that by (auto simp: ref_config_def)
  have port: "- (2 ^ 63) \<le> ServedBindingPort ref_config" "ServedBindingPort ref_config < 2 ^ 63"
    by (simp_all add: ref_config_def)
  have sorted: "ref_config\<lparr>BrokerMssqlConnection := map_option (sort_key fst) (BrokerMssqlConnection ref_config)\<rparr>
      = ref_config"
    by (simp add: ref_config_def)
  have load: "LoadFromFile ?E ''broker.json'' w = Inr (Some ref_config)" for w
    unfolding ref_host_load by (rule ParseJson_config [OF ref_config_utf8 params port, unfolded sorted])
  have level: "getLogLevel (Some ref_config) s = (Ret INFO, s)" for s
    by (simp add: getLogLevel_def ref_config_def)
  have driver: "default_driver ''linux'' ref_config s = (Ret (BrokerMssqlConnection ref_config), s)" for s
    by (simp add: default_driver_def ref_config_def)
  have env: "listen ?E = listen ref_env" "sqlPing ?E = sqlPing ref_env" "sqlDrivers ?E = sqlDrivers ref_env"
    "getenv ?E = getenv ref_env"
    by (simp_all add: ref_host_def)
  obtain run t where run: "runMain ?E ''linux'' ''broker.json'' ref_boot = (Ret run, t)"
    using runMain_runs [where s = ref_boot, OF load level driver] env
    by (auto simp: ref_env_def ref_config_def)
  from runMain_ready [OF run, unfolded env load] obtain w where
    db: "dbClient (run_prov run) = Some ref_db" and ping: "sqlPing ref_env ref_db (world ref_boot) = (None, w)"
    and listening: "listen ref_env '':3000'' w = (None, world t)"
    by (auto simp: ref_env_def ref_config_def ref_db_def)
  have "w = world ref_boot" using ping by (simp add: ref_env_def)
  with run db listening show ?thesis by blast
qed

section \<open>Crashes before an error is reported\<close>

text \<open>A configuration file with the text \<open>null\<close> is loaded without an error, and the broker
  then panics with a nil dereference instead of the configuration load error.\<close>

theorem null_configuration_crashes:
  assumes "file \<noteq> []" and "readFile E file (world s) = Inr ''null''"
  shows "LoadFromFile E file (world s) = Inr None \<and>
    runMain E goos file s = (Panicked NilPointerDereference, s)"
proof -
  have load: "LoadFromFile E file (world s) = Inr None"
    using assms ParseJson_null by (simp add: LoadFromFile_def)
  then show ?thesis by (simp add: runMain_def getLogLevel_def)
qed

theorem null_configuration_crashes_witness:
  "runMain (ref_host ''null'') ''linux'' ''broker.json'' ref_boot = (Panicked NilPointerDereference, ref_boot)"
  using null_configuration_crashes [of "''broker.json''" "ref_host ''null''" ref_boot "''linux''"]
  by (simp add: ref_host_def)

lemma default_driver_nil:
  "BrokerGoSqlDriver c = ''odbc'' \<Longrightarrow> BrokerMssqlConnection c = None \<Longrightarrow>
   default_driver goos c u = (Panicked NilMapAssignment, u)"
  by (simp add: default_driver_def)

text \<open>With the odbc driver and no \<open>brokerMssqlConnection\<close> in the file, adding the default
  driver writes to a nil map: the broker panics after the configuration was loaded.\<close>

theorem odbc_without_connection_crashes:
  assumes "LoadFromFile E file (world s) = Inr (Some c)"
    and "getLogLevel (Some c) s = (Ret level, s)"
    and "BrokerGoSqlDriver c = ''odbc''" and "BrokerMssqlConnection c = None"
  shows "fst (runMain E goos file s) = Panicked NilMapAssignment"
  by (simp add: runMain_def assms(1,2) bindG_apply seq_log Let_def default_driver_nil [OF assms(3,4)])

theorem odbc_without_connection_crashes_witness:
  "fst (runMain (ref_host (encode (JObj [(''logLevel'', JStr ''info''), (''brokerGoSqlDriver'', JStr ''odbc'')])))
     ''windows'' ''broker.json'' ref_boot) = Panicked NilMapAssignment"
proof -
  let ?j = "JObj [(''logLevel'', JStr ''info''), (''brokerGoSqlDriver'', JStr ''odbc'')]"
  let ?c = "zero_config\<lparr>ConfigLogLevel := ''info'', BrokerGoSqlDriver := ''odbc''\<rparr>"
  have "wf_json ?j" by (simp add: utf8_ascii byte_def)
  from json_unmarshal_encode [OF this]
  have load: "LoadFromFile (ref_host (encode ?j)) ''broker.json'' (world ref_boot) = Inr (Some ?c)"
    unfolding ref_host_load ParseJson_def
    by (simp del: encode.simps add: config_fields_def zero_config_def field_lookup decode_scalar)
  show ?thesis
    by (rule odbc_without_connection_crashes [OF load])
      (simp_all add: getLogLevel_def zero_config_def)
qed

end
