(* ===== verification/SqlParams.thy ===== *)
theory SqlParams
  imports Utf8
begin

text \<open>
  The rewriting of query parameters in go-mssqldb (\<open>parser.go\<close>): \<open>?\<close>, \<open>$n\<close> and \<open>:n\<close> outside
  quotes, brackets and comments become \<open>@pn\<close>.  The reader is the list of the runes that are
  left, \<open>unread\<close> puts the last one back; \<open>parser\<close> has the rest of the parser's fields.
\<close>

section \<open>The parser\<close>

text \<open>The 64-bit integers of the run-time wrap around.\<close>

definition wrap64 :: "int \<Rightarrow> int" where
  "wrap64 i = (i + 2 ^ 63) mod 2 ^ 64 - 2 ^ 63"

record parser =
  w :: "nat list"
  paramCount :: int
  paramMax :: int

datatype stateFunc =
    ParseNormal
  | ParseParameter
  | ParseQuote
  | ParseDoubleQuote
  | ParseBracket
  | ParseLineComment
  | ParseComment

definition p_write :: "nat \<Rightarrow> parser \<Rightarrow> parser" where
  "p_write ch p = p\<lparr>w := w p @ [ch]\<rparr>"

definition rune_digit :: "nat \<Rightarrow> bool" where
  "rune_digit ch \<longleftrightarrow> 48 \<le> ch \<and> ch \<le> 57"

text \<open>The runes of \<open>? $ : ' " [ ] - / *\<close> and of the line feed, by their codes.\<close>

fun parseNormal :: "nat list \<Rightarrow> parser \<Rightarrow> stateFunc option \<times> nat list \<times> parser" where
  "parseNormal [] p = (None, [], p)"
| "parseNormal (ch # r) p =
     (if ch = 63 then (Some ParseParameter, r, p)
      else if (ch = 36 \<or> ch = 58) \<and> r = [] then (None, [], p_write ch p)
      else if (ch = 36 \<or> ch = 58) \<and> rune_digit (hd r) then (Some ParseParameter, r, p)
      else (let p = p_write ch p
            in if ch = 39 then (Some ParseQuote, r, p)
               else if ch = 34 then (Some ParseDoubleQuote, r, p)
               else if ch = 91 then (Some ParseBracket, r, p)
               else if ch = 45 then (Some ParseLineComment, r, p)
               else if ch = 47 then (Some ParseComment, r, p)
               else parseNormal r p))"

fun parameter_number :: "int \<Rightarrow> nat list \<Rightarrow> int \<times> nat list" where
  "parameter_number paramN [] = (paramN, [])"
| "parameter_number paramN (ch # r) =
     (if rune_digit ch then parameter_number (wrap64 (paramN * 10 + (int ch - 48))) r
      else (paramN, ch # r))"

definition parseParameter :: "nat list \<Rightarrow> parser \<Rightarrow> stateFunc option \<times> nat list \<times> parser" where
  "parseParameter r p =
     (let (paramN, r) = parameter_number 0 r;
          p = (if paramN = 0 then p\<lparr>paramCount := paramCount p + 1\<rparr> else p);
          paramN = (if paramN = 0 then paramCount p else paramN);
          p = (if paramN > paramMax p then p\<lparr>paramMax := paramN\<rparr> else p);
          p = p\<lparr>w := w p @ runes (''@p'' @ Itoa paramN)\<rparr>
      in (if r = [] then None else Some ParseNormal, r, p))"

text \<open>\<open>parseQuote\<close> and \<open>parseDoubleQuote\<close>, by the rune that ends them.\<close>

fun parse_until :: "nat \<Rightarrow> nat list \<Rightarrow> parser \<Rightarrow> stateFunc option \<times> nat list \<times> parser" where
  "parse_until q [] p = (None, [], p)"
| "parse_until q (ch # r) p =
     (if ch = q then (Some ParseNormal, r, p_write ch p) else parse_until q r (p_write ch p))"

definition parseQuote :: "nat list \<Rightarrow> parser \<Rightarrow> stateFunc option \<times> nat list \<times> parser" where
  "parseQuote = parse_until 39"

definition parseDoubleQuote :: "nat list \<Rightarrow> parser \<Rightarrow> stateFunc option \<times> nat list \<times> parser" where
  "parseDoubleQuote = parse_until 34"

fun parseBracket :: "nat list \<Rightarrow> parser \<Rightarrow> stateFunc option \<times> nat list \<times> parser" where
  "parseBracket [] p = (None, [], p)"
| "parseBracket [ch] p = (None, [], p_write ch p)"
| "parseBracket (ch # ch2 # r) p =
     (if ch = 93
      then (if ch2 \<noteq> 93 then (Some ParseNormal, ch2 # r, p_write ch p)
            else parseBracket r (p_write ch2 (p_write ch p)))
      else parseBracket (ch2 # r) (p_write ch p))"

definition parseLineComment :: "nat list \<Rightarrow> parser \<Rightarrow> stateFunc option \<times> nat list \<times> parser" where
  "parseLineComment r p =
     (case r of
        [] \<Rightarrow> (None, [], p)
      | ch # r' \<Rightarrow> if ch \<noteq> 45 then (Some ParseNormal, r, p) else parse_until 10 r' (p_write ch p))"

text \<open>
  The loops of \<open>parseComment\<close>: the outer one, and the two inner ones that run as long as the
  last rune is an asterisk or a slash.
\<close>

fun comment_outer :: "nat \<Rightarrow> nat list \<Rightarrow> parser \<Rightarrow> stateFunc option \<times> nat list \<times> parser"
  and comment_star :: "nat \<Rightarrow> nat list \<Rightarrow> parser \<Rightarrow> stateFunc option \<times> nat list \<times> parser"
  and comment_slash :: "nat \<Rightarrow> nat list \<Rightarrow> parser \<Rightarrow> stateFunc option \<times> nat list \<times> parser" where
  "comment_outer nested [] p = (None, [], p)"
| "comment_outer nested (ch # r) p =
     (if ch = 42 then comment_star nested r (p_write ch p)
      else if ch = 47 then comment_slash nested r (p_write ch p)
      else comment_outer nested r (p_write ch p))"
| "comment_star nested [] p = (None, [], p)"
| "comment_star nested (ch # r) p =
     (if ch = 47 then
        (if nested = 0 then (Some ParseNormal, r, p_write ch p)
         else comment_slash (nested - 1) r (p_write ch p))
      else if ch = 42 then comment_star nested r (p_write ch p)
      else comment_outer nested r (p_write ch p))"
| "comment_slash nested [] p = (None, [], p)"
| "comment_slash nested (ch # r) p =
     (if ch = 42 then comment_outer (nested + 1) r (p_write ch p)
      else if ch = 47 then comment_slash nested r (p_write ch p)
      else comment_outer nested r (p_write ch p))"

definition parseComment :: "nat list \<Rightarrow> parser \<Rightarrow> stateFunc option \<times> nat list \<times> parser" where
  "parseComment r p =
     (case r of
        [] \<Rightarrow> (None, [], p)
      | ch # r' \<Rightarrow> if ch \<noteq> 42 then (Some ParseNormal, r, p) else comment_outer 0 r' (p_write ch p))"

fun call_state :: "stateFunc \<Rightarrow> nat list \<Rightarrow> parser \<Rightarrow> stateFunc option \<times> nat list \<times> parser" where
  "call_state ParseNormal r p = parseNormal r p"
| "call_state ParseParameter r p = parseParameter r p"
| "call_state ParseQuote r p = parseQuote r p"
| "call_state ParseDoubleQuote r p = parseDoubleQuote r p"
| "call_state ParseBracket r p = parseBracket r p"
| "call_state ParseLineComment r p = parseLineComment r p"
| "call_state ParseComment r p = parseComment r p"

text \<open>
  Every state reads what is left of the query further, or goes back to the normal state with
  the same rest: this is why the loop of \<open>parseParams\<close> ends.
\<close>

definition rank :: "stateFunc option \<Rightarrow> nat list \<Rightarrow> nat" where
  "rank st r = (case st of None \<Rightarrow> 0 | Some ParseNormal \<Rightarrow> 2 * length r + 1 | Some _ \<Rightarrow> 2 * length r + 2)"

lemma rank_simps [simp]:
  "rank None r = 0"
  "rank (Some ParseNormal) r = 2 * length r + 1"
  "s \<noteq> ParseNormal \<Longrightarrow> rank (Some s) r = 2 * length r + 2"
  by (auto simp: rank_def split: stateFunc.split)

lemma parseNormal_rank: "rank (fst (parseNormal r p)) (fst (snd (parseNormal r p))) \<le> 2 * length r"
  by (induction r p rule: parseNormal.induct) (auto simp: Let_def)

lemma parameter_number_length: "length (snd (parameter_number n r)) \<le> length r"
  by (induction n r rule: parameter_number.induct) auto

lemma parse_until_rank: "rank (fst (parse_until q r p)) (fst (snd (parse_until q r p))) \<le> 2 * length r + 1"
  by (induction q r p rule: parse_until.induct) auto

lemma parseBracket_rank: "rank (fst (parseBracket r p)) (fst (snd (parseBracket r p))) \<le> 2 * length r + 1"
  by (induction r p rule: parseBracket.induct) auto

lemma comment_rank:
  "rank (fst (comment_outer n r p)) (fst (snd (comment_outer n r p))) \<le> 2 * length r + 1"
  "rank (fst (comment_star n r p)) (fst (snd (comment_star n r p))) \<le> 2 * length r + 1"
  "rank (fst (comment_slash n r p)) (fst (snd (comment_slash n r p))) \<le> 2 * length r + 1"
  by (induction n r p and n r p and n r p rule: comment_outer_comment_star_comment_slash.induct) auto

lemma call_state_rank:
  "rank (fst (call_state s r p)) (fst (snd (call_state s r p))) < rank (Some s) r"
proof (cases s)
  case ParseNormal
  then show ?thesis using parseNormal_rank [of r p] by simp
next
  case ParseParameter
  then show ?thesis using parameter_number_length [of 0 r]
    by (auto simp: parseParameter_def Let_def split: prod.split)
next
  case ParseLineComment
  then show ?thesis
    using parse_until_rank [of 10 "tl r" "p_write (hd r) p"]
    by (auto simp: parseLineComment_def split: list.split)
next
  case ParseComment
  then show ?thesis
    using comment_rank(1) [of 0 "tl r" "p_write (hd r) p"]
    by (auto simp: parseComment_def split: list.split)
next
  case ParseQuote
  then show ?thesis using parse_until_rank [of 39 r p] by (simp add: parseQuote_def)
next
  case ParseDoubleQuote
  then show ?thesis using parse_until_rank [of 34 r p] by (simp add: parseDoubleQuote_def)
next
  case ParseBracket
  then show ?thesis using parseBracket_rank [of r p] by simp
qed

function run_states :: "stateFunc option \<Rightarrow> nat list \<Rightarrow> parser \<Rightarrow> parser" where
  "run_states None r p = p"
| "run_states (Some s) r p = (let next = call_state s r p in run_states (fst next) (fst (snd next)) (snd (snd next)))"
  by pat_completeness auto
termination
  by (relation "measure (\<lambda>(st, r, p). rank st r)") (simp_all add: call_state_rank case_prod_unfold)

lemma run_states_step:
  "call_state s r p = (st, r', p') \<Longrightarrow> run_states (Some s) r p = run_states st r' p'"
  by simp

declare run_states.simps(2) [simp del]

definition parseParams :: "string \<Rightarrow> string \<times> int" where
  "parseParams query =
     (let p = run_states (Some ParseNormal) (runes query) \<lparr>w = [], paramCount = 0, paramMax = 0\<rparr>
      in (string_of_runes (w p), paramMax p))"

section \<open>Text the parser leaves alone\<close>

definition plain_rune :: "nat \<Rightarrow> bool" where
  "plain_rune ch \<longleftrightarrow> ch \<notin> {63, 36, 58, 39, 34, 91, 45, 47}"

definition writes :: "nat list \<Rightarrow> parser \<Rightarrow> parser" where
  "writes xs p = p\<lparr>w := w p @ xs\<rparr>"

lemma writes_simps [simp]:
  "writes [] p = p" "p_write ch p = writes [ch] p" "writes ys (writes xs p) = writes (xs @ ys) p"
  "w (writes xs p) = w p @ xs" "paramMax (writes xs p) = paramMax p"
  by (simp_all add: writes_def p_write_def)

abbreviation run_normal :: "nat list \<Rightarrow> parser \<Rightarrow> parser" where
  "run_normal \<equiv> run_states (Some ParseNormal)"

lemma run_normal_Nil [simp]: "run_normal [] p = p"
  by (simp add: run_states.simps(2))

lemma run_normal_plain:
  "list_all plain_rune xs \<Longrightarrow> run_normal (xs @ r) p = run_normal r (writes xs p)"
proof (induction xs arbitrary: p)
  case (Cons ch xs)
  then have "parseNormal (ch # xs @ r) p = parseNormal (xs @ r) (writes [ch] p)"
    by (simp add: plain_rune_def Let_def)
  then have "run_normal (ch # xs @ r) p = run_normal (xs @ r) (writes [ch] p)"
    by (simp add: run_states.simps(2))
  with Cons show ?case by simp
qed simp

lemma parse_until_body:
  "q \<notin> set xs \<Longrightarrow> parse_until q (xs @ q # r) p = (Some ParseNormal, r, writes (xs @ [q]) p)"
  by (induction xs arbitrary: p) auto

lemma run_normal_quote:
  "39 \<notin> set xs \<Longrightarrow> run_normal (39 # xs @ 39 # r) p = run_normal r (writes (39 # xs @ [39]) p)"
  by (simp add: run_states.simps(2) parseQuote_def parse_until_body Let_def)

lemma parseBracket_body:
  assumes "93 \<notin> set xs" and "r \<noteq> [] \<Longrightarrow> hd r \<noteq> 93"
  shows "parseBracket (xs @ 93 # r) p = (if r = [] then None else Some ParseNormal, r, writes (xs @ [93]) p)"
  using assms
proof (induction xs arbitrary: p)
  case Nil
  then show ?case by (cases r) auto
next
  case (Cons x xs)
  then show ?case by (cases xs) auto
qed

lemma run_normal_bracket:
  assumes "93 \<notin> set xs" and "r \<noteq> [] \<Longrightarrow> hd r \<noteq> 93"
  shows "run_normal (91 # xs @ 93 # r) p = run_normal r (writes (91 # xs @ [93]) p)"
  by (simp add: run_states.simps(2) parseBracket_body [OF assms] Let_def)

lemma DecodeRune_small: "DecodeRune (c # cs) = Some (r, n) \<Longrightarrow> r < 128 \<Longrightarrow> r = byte c"
  by (auto simp: DecodeRune_def cont_byte_def Let_def split: list.splits if_splits)

lemma runes_small: "r \<in> set (runes s) \<Longrightarrow> r < 128 \<Longrightarrow> char_of r \<in> set s"
proof (induction s rule: runes.induct)
  case (2 c cs)
  then show ?case
    using DecodeRune_small [of c cs] by (fastforce simp: runes.simps split: option.splits dest: in_set_dropD)
qed simp

text \<open>A query made of plain text, bracketed names and quoted strings.\<close>

datatype sql_part = Plain string | Bracketed string | Quoted string

fun part_text :: "sql_part \<Rightarrow> string" where
  "part_text (Plain s) = s"
| "part_text (Bracketed s) = ''['' @ s @ '']''"
| "part_text (Quoted s) = CHR 0x27 # s @ [CHR 0x27]"

fun part_ok :: "sql_part \<Rightarrow> bool" where
  "part_ok (Plain s) = (utf8 s \<and> list_all plain_rune (runes s) \<and> s \<noteq> [] \<and> hd s \<noteq> CHR '']'')"
| "part_ok (Bracketed s) = (utf8 s \<and> CHR '']'' \<notin> set s)"
| "part_ok (Quoted s) = (utf8 s \<and> CHR 0x27 \<notin> set s)"

definition parts_text :: "sql_part list \<Rightarrow> string" where
  "parts_text ps = concat (map part_text ps)"

lemma parts_text_simps [simp]:
  "parts_text [] = []" "parts_text (p # ps) = part_text p @ parts_text ps"
  by (simp_all add: parts_text_def)

lemma byte_codes: "byte (CHR 0x27) = 39" "byte (CHR ''['') = 91" "byte (CHR '']'') = 93"
  by (simp_all add: byte_def)

lemma char_codes: "char_of (39 :: nat) = CHR 0x27" "char_of (93 :: nat) = CHR '']''"
  by code_simp+

lemma not_in_runes:
  "CHR '']'' \<notin> set s \<Longrightarrow> 93 \<notin> set (runes s)"
  "CHR 0x27 \<notin> set s \<Longrightarrow> 39 \<notin> set (runes s)"
  using runes_small [of 93 s] runes_small [of 39 s] by (auto simp: char_codes)

lemma hd_runes:
  assumes "s \<noteq> []" and "hd s \<noteq> CHR '']''"
  shows "runes s \<noteq> [] \<Longrightarrow> hd (runes s) \<noteq> 93"
proof (cases s)
  case (Cons c cs)
  with assms show ?thesis
    using DecodeRune_small [of c cs 93] byte_eqD [of c 93]
    by (auto simp: runes.simps char_codes split: option.splits)
qed (use assms in simp)

lemma utf8_Cons_ascii: "byte c < 128 \<Longrightarrow> utf8 (c # cs) = utf8 cs"
  by (simp add: utf8.simps DecodeRune_ascii)

lemma utf8_part: "part_ok p \<Longrightarrow> utf8 (part_text p)"
  by (cases p) (auto intro!: utf8_append simp: byte_codes utf8_Cons_ascii utf8.simps(1))

lemma parts_hd:
  assumes "list_all part_ok ps" and "runes (parts_text ps) \<noteq> []"
  shows "hd (runes (parts_text ps)) \<noteq> 93"
proof -
  have "parts_text ps \<noteq> [] \<and> hd (parts_text ps) \<noteq> CHR '']''"
  proof (cases ps)
    case (Cons p qs)
    with assms show ?thesis by (cases p) auto
  qed (use assms in simp)
  then show ?thesis using hd_runes assms(2) by blast
qed

lemma run_parts:
  "list_all part_ok ps \<Longrightarrow> run_normal (runes (parts_text ps)) p = writes (runes (parts_text ps)) p"
proof (induction ps arbitrary: p)
  case (Cons x ps)
  then have x: "part_ok x" and ps: "list_all part_ok ps" by simp_all
  let ?r = "runes (parts_text ps)"
  have "runes (parts_text (x # ps)) = runes (part_text x) @ ?r"
    using utf8_part [OF x] by (simp add: runes_append)
  moreover have "run_normal (runes (part_text x) @ ?r) p = run_normal ?r (writes (runes (part_text x)) p)"
  proof (cases x)
    case (Plain s)
    with x show ?thesis by (simp add: run_normal_plain)
  next
    case (Bracketed s)
    with x have "runes (part_text x) = 91 # runes s @ [93]" "93 \<notin> set (runes s)"
      by (simp_all add: byte_codes runes_append not_in_runes)
    then show ?thesis
      using run_normal_bracket [of "runes s" ?r p] parts_hd [OF ps] by auto
  next
    case (Quoted s)
    with x have "runes (part_text x) = 39 # runes s @ [39]" "39 \<notin> set (runes s)"
      by (simp_all add: byte_codes runes_append not_in_runes)
    then show ?thesis using run_normal_quote [of "runes s" ?r p] by simp
  qed
  ultimately show ?case using Cons.IH [OF ps] by simp
qed simp

lemma parseParams_parts:
  assumes "list_all part_ok ps"
  shows "parseParams (parts_text ps) = (parts_text ps, 0)"
proof -
  have "utf8 (parts_text ps)"
    using assms by (induction ps) (auto intro: utf8_append utf8_part simp: utf8.simps(1))
  with assms show ?thesis by (simp add: parseParams_def run_parts Let_def string_of_runes_runes)
qed

end
