(* ===== verification/GoStrings.thy ===== *)
theory GoStrings
  imports Utf8
begin

text \<open>
  The functions of Go's \<open>strings\<close> and \<open>strconv\<close> packages the driver uses on its parameters:
  letter case, splitting, the parsing of unsigned numbers and booleans, and quoting.  The
  tables of package unicode for runes above ASCII are a parameter \<open>unicode\<close>.
\<close>

section \<open>Letter case\<close>

record unicode =
  lower_rune :: "nat \<Rightarrow> nat"
  upper_rune :: "nat \<Rightarrow> nat"
  print_rune :: "nat \<Rightarrow> bool"

definition unicode_ToLower :: "unicode \<Rightarrow> nat \<Rightarrow> nat" where
  "unicode_ToLower u r = (if r < 128 then (if 65 \<le> r \<and> r \<le> 90 then r + 32 else r) else lower_rune u r)"

definition unicode_ToUpper :: "unicode \<Rightarrow> nat \<Rightarrow> nat" where
  "unicode_ToUpper u r = (if r < 128 then (if 97 \<le> r \<and> r \<le> 122 then r - 32 else r) else upper_rune u r)"

text \<open>
  \<open>strings.Map\<close>: the bytes in front of the first rune that changes are kept, the rest is
  encoded anew.
\<close>

function strings_Map :: "(nat \<Rightarrow> nat) \<Rightarrow> string \<Rightarrow> string" where
  "strings_Map f [] = []"
| "strings_Map f (c # cs) =
     (case DecodeRune (c # cs) of
        None \<Rightarrow> if f 65533 = 65533 then c # strings_Map f cs
                else string_of_runes (map f (runes (c # cs)))
      | Some (r, n) \<Rightarrow>
          if f r = r then take n (c # cs) @ strings_Map f (drop (n - 1) cs)
          else string_of_runes (map f (runes (c # cs))))"
  by pat_completeness auto
termination
  by (relation "measure (\<lambda>(f, s). length s)") auto

declare strings_Map.simps [simp del]

definition ToLower :: "unicode \<Rightarrow> string \<Rightarrow> string" where
  "ToLower u = strings_Map (unicode_ToLower u)"

definition ToUpper :: "unicode \<Rightarrow> string \<Rightarrow> string" where
  "ToUpper u = strings_Map (unicode_ToUpper u)"

definition lower_text :: "string \<Rightarrow> bool" where
  "lower_text s \<longleftrightarrow> list_all (\<lambda>c. byte c < 128 \<and> \<not> (65 \<le> byte c \<and> byte c \<le> 90)) s"

lemma ToLower_lower: "lower_text s \<Longrightarrow> ToLower u s = s"
  by (induction s)
     (auto simp: ToLower_def lower_text_def strings_Map.simps DecodeRune_ascii unicode_ToLower_def)

section \<open>Splitting\<close>

text \<open>\<open>strings.SplitN(s, c, 2)\<close> for a separator of one character.\<close>

definition SplitN2 :: "char \<Rightarrow> string \<Rightarrow> string list" where
  "SplitN2 c s =
     (let a = takeWhile (\<lambda>x. x \<noteq> c) s
      in if length a = length s then [s] else [a, drop (length a + 1) s])"

lemma takeWhile_free:
  "c \<notin> set a \<Longrightarrow> takeWhile (\<lambda>x. x \<noteq> c) (a @ c # b) = a"
  "c \<notin> set a \<Longrightarrow> takeWhile (\<lambda>x. x \<noteq> c) a = a"
  by (induction a) auto

lemma SplitN2_free [simp]:
  "c \<notin> set a \<Longrightarrow> SplitN2 c (a @ c # b) = [a, b]"
  "c \<notin> set a \<Longrightarrow> SplitN2 c a = [a]"
  by (simp_all add: SplitN2_def takeWhile_free Let_def)

section \<open>Quoting\<close>

definition IsPrint :: "unicode \<Rightarrow> nat \<Rightarrow> bool" where
  "IsPrint u r \<longleftrightarrow> (if r < 128 then 32 \<le> r \<and> r < 127 else print_rune u r)"

definition hex_rune :: "nat \<Rightarrow> nat \<Rightarrow> string" where
  "hex_rune n r = map (\<lambda>i. hex_digit (r div 16 ^ i mod 16)) (rev [0..<n])"

definition quote_rune :: "unicode \<Rightarrow> nat \<Rightarrow> string" where
  "quote_rune u r =
     (if r = 34 \<or> r = 92 then [CHR 0x5C, char_of r]
      else if IsPrint u r then EncodeRune r
      else CHR 0x5C #
        (if r = 7 then ''a'' else if r = 8 then ''b'' else if r = 12 then ''f''
         else if r = 10 then ''n'' else if r = 13 then ''r'' else if r = 9 then ''t''
         else if r = 11 then ''v''
         else if r < 32 then CHR ''x'' # hex_rune 2 r
         else if r < 65536 then CHR ''u'' # hex_rune 4 r
         else CHR ''U'' # hex_rune 8 r))"

function quote_body :: "unicode \<Rightarrow> string \<Rightarrow> string" where
  "quote_body u [] = []"
| "quote_body u (c # cs) =
     (case DecodeRune (c # cs) of
        None \<Rightarrow> CHR 0x5C # CHR ''x'' # hex_rune 2 (byte c) @ quote_body u cs
      | Some (r, n) \<Rightarrow> quote_rune u r @ quote_body u (drop (n - 1) cs))"
  by pat_completeness auto
termination
  by (relation "measure (\<lambda>(u, s). length s)") auto

declare quote_body.simps [simp del]

definition strconv_Quote :: "unicode \<Rightarrow> string \<Rightarrow> string" where
  "strconv_Quote u s = CHR 0x22 # quote_body u s @ [CHR 0x22]"

section \<open>Numbers and booleans\<close>

definition NumError :: "unicode \<Rightarrow> string \<Rightarrow> string \<Rightarrow> string \<Rightarrow> go_error" where
  "NumError u fn s err =
     OtherError (''strconv.'' @ fn @ '': parsing '' @ strconv_Quote u s @ '': '' @ err)"

text \<open>The value of a digit or a letter in the largest base, 36 for any other byte.\<close>

definition base_digit :: "char \<Rightarrow> nat" where
  "base_digit c =
     (let b = byte c
      in if 48 \<le> b \<and> b \<le> 57 then b - 48
         else if 97 \<le> b \<and> b \<le> 122 then b - 87
         else if 65 \<le> b \<and> b \<le> 90 then b - 55
         else 36)"

definition base_value :: "nat \<Rightarrow> string \<Rightarrow> nat" where
  "base_value b s = foldl (\<lambda>n c. b * n + base_digit c) 0 s"

text \<open>The base and the digits: with base 0 the prefix decides.\<close>

definition number_base :: "nat \<Rightarrow> string \<Rightarrow> nat \<times> string" where
  "number_base b s =
     (if b \<noteq> 0 then (b, s)
      else if take 1 s = ''0'' \<and> length s > 1 \<and> (s ! 1 = CHR ''x'' \<or> s ! 1 = CHR ''X'')
      then (16, drop 2 s)
      else if take 1 s = ''0'' then (8, s)
      else (10, s))"

text \<open>
  \<open>strconv.ParseUint(s, b, bits)\<close>, with 64 bits for 0: the digits are read from the left,
  and the scan ends at the first that is none (a syntax error) or that makes the number too
  large (a range error).
\<close>

fun scan_uint :: "nat \<Rightarrow> nat \<Rightarrow> nat \<Rightarrow> string \<Rightarrow> string + nat" where
  "scan_uint b mx n [] = Inr n"
| "scan_uint b mx n (c # cs) =
     (if b \<le> base_digit c then Inl ''invalid syntax''
      else if mx < b * n + base_digit c then Inl ''value out of range''
      else scan_uint b mx (b * n + base_digit c) cs)"

definition ParseUint :: "unicode \<Rightarrow> string \<Rightarrow> nat \<Rightarrow> nat \<Rightarrow> go_error + nat" where
  "ParseUint u s base bits =
     (case number_base base s of (b, digits) \<Rightarrow>
        if digits = [] then Inl (NumError u ''ParseUint'' s ''invalid syntax'')
        else (case scan_uint b (2 ^ (if bits = 0 then 64 else bits) - 1) 0 digits of
                Inl err \<Rightarrow> Inl (NumError u ''ParseUint'' s err)
              | Inr n \<Rightarrow> Inr n))"

definition ParseBool :: "unicode \<Rightarrow> string \<Rightarrow> go_error + bool" where
  "ParseBool u s =
     (if s \<in> set [''1'', ''t'', ''T'', ''true'', ''TRUE'', ''True''] then Inr True
      else if s \<in> set [''0'', ''f'', ''F'', ''false'', ''FALSE'', ''False''] then Inr False
      else Inl (NumError u ''ParseBool'' s ''invalid syntax''))"

end
