(* ===== verification/Bytes.thy ===== *)
theory Bytes
  imports Main "HOL-Library.Word"
begin

unbundle bit_operations_syntax

text \<open>
  Bytes on the wire: the encodings of \<open>encoding/binary\<close> in both byte orders, and the bytes
  of a Go string.
\<close>

type_synonym octet = "8 word"

section \<open>Little-endian and big-endian numbers\<close>

fun le_bytes :: "nat \<Rightarrow> nat \<Rightarrow> octet list" where
  "le_bytes 0 v = []"
| "le_bytes (Suc n) v = of_nat v # le_bytes n (v div 256)"

fun le_value :: "octet list \<Rightarrow> nat" where
  "le_value [] = 0"
| "le_value (b # bs) = unat b + 256 * le_value bs"

definition be_bytes :: "nat \<Rightarrow> nat \<Rightarrow> octet list" where
  "be_bytes n v = rev (le_bytes n v)"

definition be_value :: "octet list \<Rightarrow> nat" where
  "be_value bs = le_value (rev bs)"

lemma length_le_bytes [simp]: "length (le_bytes n v) = n"
  by (induction n arbitrary: v) simp_all

lemma length_be_bytes [simp]: "length (be_bytes n v) = n"
  by (simp add: be_bytes_def)

lemma unat_octet: "unat (of_nat v :: octet) = v mod 256"
  by (simp add: unat_of_nat)

lemma unat_octet_less [simp]: "unat (b :: octet) < 256"
  using unsigned_less [of b, where ?'a = nat] by simp

lemma le_value_bytes [simp]: "le_value (le_bytes n v) = v mod 256 ^ n"
  by (induction n arbitrary: v) (simp_all add: unat_octet mod_mult2_eq mult.commute)

lemma be_value_bytes [simp]: "be_value (be_bytes n v) = v mod 256 ^ n"
  by (simp add: be_value_def be_bytes_def)

lemma le_bytes_value [simp]: "le_bytes (length bs) (le_value bs) = bs"
proof (induction bs)
  case (Cons b bs)
  have "(unat b + 256 * le_value bs) div 256 = le_value bs" by simp
  moreover have "(of_nat (unat b + 256 * le_value bs) :: octet) = b"
    by (rule unsigned_word_eqI [where ?'a = nat]) (simp add: unat_octet del: of_nat_add of_nat_mult)
  ultimately show ?case using Cons by simp
qed simp

lemma be_bytes_value [simp]: "be_bytes (length bs) (be_value bs) = bs"
proof -
  have "be_bytes (length bs) (be_value bs) = rev (le_bytes (length (rev bs)) (le_value (rev bs)))"
    by (simp add: be_bytes_def be_value_def)
  also have "\<dots> = bs" by (simp only: le_bytes_value rev_rev_ident)
  finally show ?thesis .
qed

lemma le_value_less: "le_value bs < 256 ^ length bs"
proof (induction bs)
  case (Cons b bs)
  have "unat b + 256 * le_value bs < 256 * (1 + le_value bs)" unfolding distrib_left using unat_octet_less [of b] by simp
  also have "\<dots> \<le> 256 * 256 ^ length bs" using Cons by (intro mult_left_mono) auto
  finally show ?case by simp
qed simp

lemma le_value_append: "le_value (as @ bs) = le_value as + 256 ^ length as * le_value bs"
  by (induction as) (simp_all add: algebra_simps)

lemma le_bytes_inject: "x < 256 ^ n \<Longrightarrow> y < 256 ^ n \<Longrightarrow> le_bytes n x = le_bytes n y \<longleftrightarrow> x = y"
  by (metis le_value_bytes mod_less)

section \<open>The bytes of a string\<close>

definition octets :: "string \<Rightarrow> octet list" where
  "octets s = map of_char s"

definition text_of :: "octet list \<Rightarrow> string" where
  "text_of bs = map (\<lambda>b. char_of (unat b)) bs"

lemma unat_of_char [simp]: "unat (of_char c :: octet) = of_char c"
proof -
  have "(of_char c :: octet) = of_nat (of_char c)" by (simp add: of_nat_of_char)
  moreover have "(of_char c :: nat) < 256" by simp
  ultimately show ?thesis by (metis mod_less unat_octet)
qed

lemma text_of_octets [simp]: "text_of (octets s) = s"
  by (induction s) (simp_all add: text_of_def octets_def)

lemma octets_text_of [simp]: "octets (text_of bs) = bs"
proof (induction bs)
  case (Cons b bs)
  have "(of_char (char_of (unat b) :: char) :: octet) = b"
    by (rule unsigned_word_eqI [where ?'a = nat]) (simp only: unat_of_char, simp)
  with Cons show ?case by (simp add: text_of_def octets_def)
qed (simp add: text_of_def octets_def)

lemma length_octets [simp]: "length (octets s) = length s"
  by (simp add: octets_def)

lemma length_text_of [simp]: "length (text_of bs) = length bs"
  by (simp add: text_of_def)

lemma octets_append [simp]: "octets (s @ t) = octets s @ octets t"
  by (simp add: octets_def)

lemma text_of_append [simp]: "text_of (a @ b) = text_of a @ text_of b"
  by (simp add: text_of_def)

end
