(* ===== verification/ConnParams.thy ===== *)
theory ConnParams
  imports GoStrings Bytes GoFmt "HOL-Library.AList"
begin

text \<open>
  The connection string and its parameters in go-mssqldb: \<open>parseConnectionString\<close>
  (\<open>mssql.go\<close>), and \<open>parseInstances\<close>, \<open>getInstances\<close> and \<open>parseConnectParams\<close> (\<open>tds.go\<close>).  A
  map of texts is an association list with distinct keys.
\<close>

type_synonym text_map = "(string \<times> string) list"

section \<open>The connection string\<close>

definition connection_part :: "unicode \<Rightarrow> text_map \<Rightarrow> string \<Rightarrow> text_map" where
  "connection_part u res part =
     (if part = [] then res
      else (let lst = SplitN2 (CHR ''='') part;
                name = ToLower u (hd lst)
            in if name = [] then res
               else AList.update name (if length lst > 1 then lst ! 1 else []) res))"

definition parseConnectionString :: "unicode \<Rightarrow> string \<Rightarrow> text_map" where
  "parseConnectionString u dsn = foldl (connection_part u) [] (split_at (CHR '';'') dsn)"

section \<open>The SQL Server Browser\<close>

text \<open>The loop of \<open>parseInstances\<close>; \<open>got\<close> is the name whose value comes next.\<close>

fun instance_tokens ::
  "unicode \<Rightarrow> (string \<times> text_map) list \<Rightarrow> text_map \<Rightarrow> string option \<Rightarrow> string list
     \<Rightarrow> (string \<times> text_map) list" where
  "instance_tokens u results instdict got [] = results"
| "instance_tokens u results instdict (Some name) (token # tokens) =
     instance_tokens u results (AList.update name token instdict) None tokens"
| "instance_tokens u results instdict None (token # tokens) =
     (if token = []
      then (if instdict = [] then results
            else instance_tokens u
              (AList.update (ToUpper u (case map_of instdict ''InstanceName'' of Some n \<Rightarrow> n | None \<Rightarrow> []))
                 instdict results) [] None tokens)
      else instance_tokens u results instdict (Some token) tokens)"

definition parseInstances :: "unicode \<Rightarrow> octet list \<Rightarrow> (string \<times> text_map) list" where
  "parseInstances u msg =
     (if length msg > 3 \<and> msg ! 0 = 5
      then instance_tokens u [] [] None (split_at (CHR '';'') (text_of (drop 3 msg)))
      else [])"

text \<open>
  What the driver asks of the machine and the network: a datagram exchange (the first error
  of opening, sending and receiving, or the reply) and the name of the host.
\<close>

record 'w driver_env =
  uni :: unicode
  udpExchange :: "string \<Rightarrow> octet list \<Rightarrow> 'w \<Rightarrow> go_error + octet list"
  osHostname :: "'w \<Rightarrow> go_error + string"

definition getInstances :: "'w driver_env \<Rightarrow> string \<Rightarrow> 'w \<Rightarrow> go_error + (string \<times> text_map) list" where
  "getInstances D address s =
     (case udpExchange D (address @ '':1434'') [3] s of
        Inl err \<Rightarrow> Inl err
      | Inr resp \<Rightarrow> Inr (parseInstances (uni D) (take (16 * 1024 - 1) resp)))"

section \<open>Connection parameters\<close>

text \<open>Durations are in nanoseconds.\<close>

record connectParams =
  cp_logFlags :: nat
  cp_port :: nat
  cp_host :: string
  cp_instance :: string
  cp_database :: string
  cp_user :: string
  cp_password :: string
  cp_dial_timeout :: int
  cp_conn_timeout :: int
  cp_keepAlive :: int
  cp_encrypt :: bool
  cp_disableEncryption :: bool
  cp_trustServerCertificate :: bool
  cp_certificate :: string
  cp_hostInCertificate :: string
  cp_serverSPN :: string
  cp_workstation :: string
  cp_appname :: string

definition bindE :: "'e + 'a \<Rightarrow> ('a \<Rightarrow> 'e + 'b) \<Rightarrow> 'e + 'b" where
  "bindE m f = (case m of Inl e \<Rightarrow> Inl e | Inr a \<Rightarrow> f a)"

lemma bindE_simps [simp]: "bindE (Inl e) f = Inl e" "bindE (Inr a) f = f a"
  by (simp_all add: bindE_def)

text \<open>The error is reported with a format that names the value and the cause.\<close>

definition with_format :: "string \<Rightarrow> string \<Rightarrow> go_error + 'a \<Rightarrow> go_error + 'a" where
  "with_format f v r =
     (case r of Inl e \<Rightarrow> Inl (OtherError (Sprintf f [AStr v, AStr (error_text e)])) | Inr a \<Rightarrow> Inr a)"

definition param :: "text_map \<Rightarrow> string \<Rightarrow> string" where
  "param params k = (case map_of params k of Some v \<Rightarrow> v | None \<Rightarrow> [])"

text \<open>A parameter in seconds, with its default.\<close>

definition seconds_param :: "unicode \<Rightarrow> text_map \<Rightarrow> string \<Rightarrow> string \<Rightarrow> int \<Rightarrow> go_error + int" where
  "seconds_param u params k f dflt =
     (case map_of params k of
        None \<Rightarrow> Inr dflt
      | Some s \<Rightarrow> bindE (with_format f s (ParseUint u s 0 16)) (\<lambda>timeout. Inr (int timeout * 1000000000)))"

definition tcp_port :: "'w driver_env \<Rightarrow> text_map \<Rightarrow> string \<Rightarrow> string \<Rightarrow> 'w \<Rightarrow> go_error + nat" where
  "tcp_port D params host inst s =
     (if inst \<noteq> [] then
        bindE (with_format ''Unable to get instances from Sql Server Browser on host %v: %v'' host
                (getInstances D host s)) (\<lambda>instances.
          case map_of (case map_of instances inst of Some m \<Rightarrow> m | None \<Rightarrow> []) ''tcp'' of
            None \<Rightarrow> Inl (OtherError (Sprintf
              (''No instance matching '' @ [CHR 0x27] @ ''%v'' @ [CHR 0x27] @ '' returned from host '' @
               [CHR 0x27] @ ''%v'' @ [CHR 0x27]) [AStr inst, AStr host]))
          | Some strport \<Rightarrow>
              with_format (''Invalid tcp port returned from Sql Server Browser '' @ [CHR 0x27] @ ''%v'' @
                [CHR 0x27] @ '': %v'') strport (ParseUint (uni D) strport 0 16))
      else (case map_of params ''port'' of
              None \<Rightarrow> Inr 1433
            | Some strport \<Rightarrow>
                with_format (''Invalid tcp port '' @ [CHR 0x27] @ ''%v'' @ [CHR 0x27] @ '': %v'') strport
                  (ParseUint (uni D) strport 0 16)))"

text \<open>\<open>encrypt\<close>, \<open>disableEncryption\<close> and the default of \<open>trustServerCertificate\<close>.\<close>

definition encrypt_params :: "unicode \<Rightarrow> text_map \<Rightarrow> go_error + bool \<times> bool \<times> bool" where
  "encrypt_params u params =
     (case map_of params ''encrypt'' of
        None \<Rightarrow> Inr (False, False, True)
      | Some encrypt \<Rightarrow>
          if ToUpper u encrypt = ''DISABLE'' then Inr (False, True, False)
          else bindE (with_format (''Invalid encrypt '' @ [CHR 0x27] @ ''%s'' @ [CHR 0x27] @ '': %s'') encrypt
                       (ParseBool u encrypt)) (\<lambda>b. Inr (b, False, False)))"

definition parseConnectParams :: "'w driver_env \<Rightarrow> text_map \<Rightarrow> 'w \<Rightarrow> go_error + connectParams" where
  "parseConnectParams D params s =
     (let u = uni D
      in bindE (case map_of params ''log'' of
                  None \<Rightarrow> Inr 0
                | Some strlog \<Rightarrow>
                    with_format (''Invalid log parameter '' @ [CHR 0x27] @ ''%s'' @ [CHR 0x27] @ '': %s'')
                      strlog (ParseUint u strlog 10 0)) (\<lambda>logFlags.
         let parts = SplitN2 (CHR 0x5C) (param params ''server'');
             host = (if hd parts = ''.'' \<or> ToUpper u (hd parts) = ''(LOCAL)'' \<or> hd parts = []
                     then ''localhost'' else hd parts);
             inst = ToUpper u (if length parts > 1 then parts ! 1 else [])
         in bindE (tcp_port D params host inst s) (\<lambda>port.
            bindE (seconds_param u params ''connection timeout''
              (''Invalid connection timeout '' @ [CHR 0x27] @ ''%v'' @ [CHR 0x27] @ '': %v'') 30000000000) (\<lambda>conn_timeout.
            bindE (seconds_param u params ''dial timeout''
              (''Invalid dial timeout '' @ [CHR 0x27] @ ''%v'' @ [CHR 0x27] @ '': %v'') 5000000000) (\<lambda>dial_timeout.
            bindE (seconds_param u params ''keepalive''
              (''Invalid keepAlive value '' @ [CHR 0x27] @ ''%s'' @ [CHR 0x27] @ '': %s'') 0) (\<lambda>keepAlive.
            bindE (encrypt_params u params) (\<lambda>(encrypt, disableEncryption, trust0).
            bindE (case map_of params ''trustservercertificate'' of
                     None \<Rightarrow> Inr trust0
                   | Some trust \<Rightarrow>
                       with_format (''Invalid trust server certificate '' @ [CHR 0x27] @ ''%s'' @ [CHR 0x27] @ '': %s'')
                         trust (ParseBool u trust)) (\<lambda>trust.
            Inr \<lparr>cp_logFlags = logFlags, cp_port = port, cp_host = host, cp_instance = inst,
                 cp_database = param params ''database'',
                 cp_user = param params ''user id'',
                 cp_password = param params ''password'',
                 cp_dial_timeout = dial_timeout, cp_conn_timeout = conn_timeout, cp_keepAlive = keepAlive,
                 cp_encrypt = encrypt, cp_disableEncryption = disableEncryption,
                 cp_trustServerCertificate = trust,
                 cp_certificate = param params ''certificate'',
                 cp_hostInCertificate =
                   (case map_of params ''hostnameincertificate'' of Some h \<Rightarrow> h | None \<Rightarrow> host),
                 cp_serverSPN =
                   (case map_of params ''ServerSPN'' of
                      Some spn \<Rightarrow> spn
                    | None \<Rightarrow> Sprintf ''MSSQLSvc/%s:%d'' [AStr host, AInt (int port)]),
                 cp_workstation =
                   (case map_of params ''Workstation ID'' of
                      Some ws \<Rightarrow> ws
                    | None \<Rightarrow> (case osHostname D s of Inr h \<Rightarrow> h | Inl _ \<Rightarrow> [])),
                 cp_appname =
                   (case map_of params ''app name'' of Some a \<Rightarrow> a | None \<Rightarrow> ''go-mssqldb'')\<rparr>))))))))"

section \<open>Reading back a connection string\<close>

definition plain_param :: "string \<times> string \<Rightarrow> bool" where
  "plain_param kv \<longleftrightarrow> lower_text (fst kv) \<and> fst kv \<noteq> [] \<and>
     CHR ''='' \<notin> set (fst kv) \<and> CHR '';'' \<notin> set (fst kv @ snd kv)"

lemma connection_part_param:
  "plain_param (k, v) \<Longrightarrow> connection_part u res (k @ CHR ''='' # v) = AList.update k v res"
  by (simp add: connection_part_def plain_param_def ToLower_lower Let_def)

lemma foldl_connection_parts:
  assumes "list_all plain_param ps" and "distinct (map fst (al @ ps))"
  shows "foldl (connection_part u) al (map (\<lambda>(k, v). k @ CHR ''='' # v) ps @ [[]]) = al @ ps"
  using assms
proof (induction ps arbitrary: al)
  case Nil
  then show ?case by (simp add: connection_part_def)
next
  case (Cons kv ps)
  obtain k v where kv: "kv = (k, v)" by fastforce
  from Cons.prems kv have "connection_part u al (k @ CHR ''='' # v) = al @ [(k, v)]"
    by (auto simp: connection_part_param update_new)
  with Cons.IH [of "al @ [(k, v)]"] Cons.prems kv show ?case by simp
qed

section \<open>The names of parameters are in lower case\<close>

definition lower_tables :: "unicode \<Rightarrow> bool" where
  "lower_tables u \<longleftrightarrow> (\<forall>r. 128 \<le> r \<longrightarrow> \<not> (65 \<le> lower_rune u r \<and> lower_rune u r \<le> 90))"

lemma unicode_ToLower_not_upper:
  "lower_tables u \<Longrightarrow> \<not> (65 \<le> unicode_ToLower u r \<and> unicode_ToLower u r \<le> 90)"
  by (auto simp: unicode_ToLower_def lower_tables_def)

lemma EncodeRune_high: "128 \<le> r \<Longrightarrow> c \<in> set (EncodeRune r) \<Longrightarrow> 128 \<le> byte c"
  by (auto simp: EncodeRune_def byte_def split: if_splits)

lemma EncodeRune_bytes: "c \<in> set (EncodeRune r) \<Longrightarrow> byte c = r \<or> 128 \<le> byte c"
  using EncodeRune_high [of r c] by (cases "r < 128") (auto simp: EncodeRune_def)

definition no_upper :: "string \<Rightarrow> bool" where
  "no_upper s \<longleftrightarrow> (\<forall>c \<in> set s. \<not> (65 \<le> byte c \<and> byte c \<le> 90))"

lemma no_upper_runes: "lower_tables u \<Longrightarrow> no_upper (string_of_runes (map (unicode_ToLower u) rs))"
proof (induction rs)
  case (Cons r rs)
  have "\<not> (65 \<le> byte c \<and> byte c \<le> 90)" if "c \<in> set (EncodeRune (unicode_ToLower u r))" for c
    using EncodeRune_bytes [OF that] unicode_ToLower_not_upper [OF Cons.prems, of r] by auto
  with Cons show ?case by (auto simp: no_upper_def)
qed (simp add: no_upper_def)

lemma ToLower_no_upper: "lower_tables u \<Longrightarrow> no_upper (ToLower u s)"
  unfolding ToLower_def
proof (induction "unicode_ToLower u" s rule: strings_Map.induct)
  case (2 c cs)
  show ?case
  proof (cases "DecodeRune (c # cs)")
    case None
    then have "128 \<le> byte c" using DecodeRune_ascii by (metis not_le option.distinct(1))
    with None 2 show ?thesis
      by (auto simp: strings_Map.simps no_upper_runes) (auto simp: no_upper_def)
  next
    case (Some rn)
    obtain r n where rn: "rn = (r, n)" by fastforce
    with Some DecodeRune_shape [of c cs r n] have e: "EncodeRune r = take n (c # cs)" by simp
    have "no_upper (take n (c # cs))" if "unicode_ToLower u r = r"
      using no_upper_runes [OF "2.prems", of "[r]"] that e by simp
    with Some rn 2 show ?thesis
      by (auto simp: strings_Map.simps no_upper_runes) (auto simp: no_upper_def)
  qed
qed (simp add: strings_Map.simps no_upper_def)

lemma update_keys_all:
  "list_all P (map fst al) \<Longrightarrow> P k \<Longrightarrow> list_all P (map fst (AList.update k v al))"
  by (induction al) auto

lemma connection_part_no_upper:
  assumes "lower_tables u" and "list_all no_upper (map fst res)"
  shows "list_all no_upper (map fst (connection_part u res part))"
  using assms(2) ToLower_no_upper [OF assms(1)]
  by (simp add: connection_part_def Let_def update_keys_all)

lemma parseConnectionString_no_upper:
  assumes "lower_tables u"
  shows "list_all no_upper (map fst (parseConnectionString u dsn))"
proof -
  have "list_all no_upper (map fst res) \<Longrightarrow> list_all no_upper (map fst (foldl (connection_part u) res parts))"
    for res parts
    by (induction parts arbitrary: res) (simp_all add: connection_part_no_upper [OF assms])
  then show ?thesis by (simp add: parseConnectionString_def)
qed

lemma upper_name_unset:
  assumes "lower_tables u" and "\<not> no_upper k"
  shows "map_of (parseConnectionString u dsn) k = None"
  using parseConnectionString_no_upper [OF assms(1), of dsn] assms(2)
  by (auto simp: map_of_eq_None_iff list_all_iff)

lemma capital_names: "\<not> no_upper ''ServerSPN''" "\<not> no_upper ''Workstation ID''"
  by (simp_all add: no_upper_def byte_def)

lemma bindE_InrD: "bindE m f = Inr b \<Longrightarrow> \<exists>a. m = Inr a \<and> f a = Inr b"
  by (cases m) auto

lemma parseConnectParams_defaults:
  assumes "parseConnectParams D params s = Inr p"
    and "map_of params ''ServerSPN'' = None" and "map_of params ''Workstation ID'' = None"
  shows "cp_serverSPN p = ''MSSQLSvc/'' @ cp_host p @ '':'' @ Itoa (int (cp_port p)) \<and>
    cp_workstation p = (case osHostname D s of Inr h \<Rightarrow> h | Inl _ \<Rightarrow> [])"
  using assms unfolding parseConnectParams_def Let_def
  by (auto dest!: bindE_InrD simp: Sprintf_eval)

end
