(* ===== verification/Charset.thy ===== *)
theory Charset
  imports CodePages Bytes Json
begin

text \<open>
  The collations of go-mssqldb (\<open>collation.go\<close>) and the conversion of character data to UTF-8
  (\<open>charset.go\<close>).  The tables of the single bytes are those of \<open>CodePages\<close>; the tables of the
  double-byte characters of the pages 932, 936, 949 and 950, which have 60,000 lines, are a
  parameter \<open>dbcs\<close>.
\<close>

section \<open>Collations\<close>

record collation =
  lcidAndFlags :: "32 word"
  sortId :: octet

definition getLcid :: "collation \<Rightarrow> 32 word" where
  "getLcid c = lcidAndFlags c AND 0x000fffff"

definition getFlags :: "collation \<Rightarrow> 32 word" where
  "getFlags c = drop_bit 20 (lcidAndFlags c AND 0x0ff00000)"

definition getVersion :: "collation \<Rightarrow> 32 word" where
  "getVersion c = drop_bit 28 (lcidAndFlags c AND 0xf0000000)"

section \<open>Code pages\<close>

text \<open>A rune of -1 marks the lead byte of a double-byte character.\<close>

record charsetMap =
  sb :: "int list"
  db :: "int \<Rightarrow> int option"

definition cp437 :: charsetMap where
  "cp437 = \<lparr>sb = cp437_low @ cp437_high, db = Map.empty\<rparr>"

definition cp850 :: charsetMap where
  "cp850 = \<lparr>sb = cp850_low @ cp850_high, db = Map.empty\<rparr>"

definition cp874 :: charsetMap where
  "cp874 = \<lparr>sb = cp874_low @ cp874_high, db = Map.empty\<rparr>"

definition cp1250 :: charsetMap where
  "cp1250 = \<lparr>sb = cp1250_low @ cp1250_high, db = Map.empty\<rparr>"

definition cp1251 :: charsetMap where
  "cp1251 = \<lparr>sb = cp1251_low @ cp1251_high, db = Map.empty\<rparr>"

definition cp1252 :: charsetMap where
  "cp1252 = \<lparr>sb = cp1252_low @ cp1252_high, db = Map.empty\<rparr>"

definition cp1253 :: charsetMap where
  "cp1253 = \<lparr>sb = cp1253_low @ cp1253_high, db = Map.empty\<rparr>"

definition cp1254 :: charsetMap where
  "cp1254 = \<lparr>sb = cp1254_low @ cp1254_high, db = Map.empty\<rparr>"

definition cp1255 :: charsetMap where
  "cp1255 = \<lparr>sb = cp1255_low @ cp1255_high, db = Map.empty\<rparr>"

definition cp1256 :: charsetMap where
  "cp1256 = \<lparr>sb = cp1256_low @ cp1256_high, db = Map.empty\<rparr>"

definition cp1257 :: charsetMap where
  "cp1257 = \<lparr>sb = cp1257_low @ cp1257_high, db = Map.empty\<rparr>"

definition cp1258 :: charsetMap where
  "cp1258 = \<lparr>sb = cp1258_low @ cp1258_high, db = Map.empty\<rparr>"

record dbcs_tables =
  db932 :: "int \<Rightarrow> int option"
  db936 :: "int \<Rightarrow> int option"
  db949 :: "int \<Rightarrow> int option"
  db950 :: "int \<Rightarrow> int option"

definition cp932 :: "dbcs_tables \<Rightarrow> charsetMap" where
  "cp932 dbcs = \<lparr>sb = cp932_low @ cp932_high, db = db932 dbcs\<rparr>"

definition cp936 :: "dbcs_tables \<Rightarrow> charsetMap" where
  "cp936 dbcs = \<lparr>sb = cp936_low @ cp936_high, db = db936 dbcs\<rparr>"

definition cp949 :: "dbcs_tables \<Rightarrow> charsetMap" where
  "cp949 dbcs = \<lparr>sb = cp949_low @ cp949_high, db = db949 dbcs\<rparr>"

definition cp950 :: "dbcs_tables \<Rightarrow> charsetMap" where
  "cp950 dbcs = \<lparr>sb = cp950_low @ cp950_high, db = db950 dbcs\<rparr>"

definition collation2charset :: "dbcs_tables \<Rightarrow> collation \<Rightarrow> charsetMap option" where
  "collation2charset dbcs col =
     (let s = unat (sortId col); l = unat (getLcid col)
      in if s \<in> set [30, 31, 32, 33, 34] then Some cp437
      else if s \<in> set [40, 41, 42, 44, 49, 55, 56, 57, 58, 59, 60, 61] then Some cp850
      else if s \<in> set [50, 51, 52, 53, 54, 71, 72, 73, 74, 75] then Some cp1252
      else if s \<in> set [80, 81, 82, 83, 84, 85, 86, 87,
          88, 89, 90, 91, 92, 93, 94, 95, 96] then Some cp1250
      else if s \<in> set [104, 105, 106, 107, 108] then Some cp1251
      else if s \<in> set [112, 113, 114, 121, 124] then Some cp1253
      else if s \<in> set [128, 129, 130] then Some cp1254
      else if s \<in> set [136, 137, 138] then Some cp1255
      else if s \<in> set [144, 145, 146] then Some cp1256
      else if s \<in> set [152, 153, 154, 155, 156, 157, 158, 159, 160] then Some cp1257
      else if s \<in> set [183, 184, 185, 186] then Some cp1252
      else if s \<in> set [192, 193] then Some (cp932 dbcs)
      else if s \<in> set [194, 195] then Some (cp949 dbcs)
      else if s \<in> set [196, 197] then Some (cp950 dbcs)
      else if s \<in> set [198, 199] then Some (cp936 dbcs)
      else if s \<in> set [200] then Some (cp932 dbcs)
      else if s \<in> set [201] then Some (cp949 dbcs)
      else if s \<in> set [202] then Some (cp950 dbcs)
      else if s \<in> set [203] then Some (cp936 dbcs)
      else if s \<in> set [204, 205, 206] then Some cp874
      else if s \<in> set [210, 211, 212, 213, 214, 215, 216, 217] then Some cp1252
      else if l \<in> set [0x001e, 0x041e] then Some cp874
      else if l \<in> set [0x0411, 0x10411] then Some (cp932 dbcs)
      else if l \<in> set [0x0804, 0x1004, 0x20804] then Some (cp936 dbcs)
      else if l \<in> set [0x0012, 0x0412] then Some (cp949 dbcs)
      else if l \<in> set [0x0404, 0x1404, 0x0c04, 0x7c04, 0x30404] then Some (cp950 dbcs)
      else if l \<in> set [0x041c, 0x041a, 0x0405, 0x040e, 0x104e,
          0x0415, 0x0418, 0x041b, 0x0424, 0x1040e] then Some cp1250
      else if l \<in> set [0x0423, 0x0402, 0x042f, 0x0419, 0x081a,
          0x0c1a, 0x0422, 0x043f, 0x0444, 0x082c] then Some cp1251
      else if l \<in> set [0x0408] then Some cp1253
      else if l \<in> set [0x041f, 0x042c, 0x0443] then Some cp1254
      else if l \<in> set [0x040d] then Some cp1255
      else if l \<in> set [0x0401, 0x0801, 0xc01, 0x1001, 0x1401, 0x1801, 0x1c01, 0x2001, 0x2401,
          0x2801, 0x2c01, 0x3001, 0x3401, 0x3801, 0x3c01, 0x4001, 0x0429, 0x0420] then Some cp1256
      else if l \<in> set [0x0425, 0x0426, 0x0427, 0x0827] then Some cp1257
      else if l \<in> set [0x042a] then Some cp1258
      else if l \<in> set [0x0439, 0x045a, 0x0465] then None
      else Some cp1252)"

definition rune_text :: "int \<Rightarrow> string" where
  "rune_text r = EncodeRune (if r < 0 then 0xFFFD else nat r)"

text \<open>The loop of \<open>charset2utf8\<close>: the runes of the remaining bytes.\<close>

fun charset_runes :: "charsetMap \<Rightarrow> octet list \<Rightarrow> int list" where
  "charset_runes cm [] = []"
| "charset_runes cm [b] =
     (let ch = sb cm ! unat b in [if ch = -1 then 0xfffd else ch])"
| "charset_runes cm (b # c # bs) =
     (let ch = sb cm ! unat b
      in if ch = -1
         then (case db cm (int (unat c) + int (unat b) * 256) of
                 Some r \<Rightarrow> r | None \<Rightarrow> 0xfffd) # charset_runes cm bs
         else ch # charset_runes cm (c # bs))"

definition charset2utf8 :: "dbcs_tables \<Rightarrow> collation \<Rightarrow> octet list \<Rightarrow> string" where
  "charset2utf8 dbcs col s =
     (case collation2charset dbcs col of
        None \<Rightarrow> text_of s
      | Some cm \<Rightarrow> concat (map rune_text (charset_runes cm s)))"

end
