(* ===== verification/DriverTheorems.thy ===== *)
theory DriverTheorems
  imports ProvisionerTheorems SqlParams ConnParams Charset
begin

text \<open>
  The properties of the go-mssqldb driver the broker talks to the server through: what it
  makes of the broker's statements and of the connection string, and how it decodes text.
\<close>

section \<open>Statements\<close>

lemma part_ok_name:
  "plain_name n \<Longrightarrow> utf8 n \<Longrightarrow> part_ok (Bracketed n)" "plain_name n \<Longrightarrow> utf8 n \<Longrightarrow> part_ok (Quoted n)"
  by (simp_all add: plain_name_def)

lemma part_ok_password: "plain_password p \<Longrightarrow> utf8 p \<Longrightarrow> part_ok (Quoted p)"
  by (simp add: plain_password_def)

definition plain_ascii :: "string \<Rightarrow> bool" where
  "plain_ascii s \<longleftrightarrow> list_all (\<lambda>c. byte c < 128 \<and> plain_rune (byte c)) s"

lemma runes_all_ascii: "list_all (\<lambda>c. byte c < 128) s \<Longrightarrow> runes s = map byte s"
  by (induction s) simp_all

lemma part_ok_ascii: "plain_ascii s \<Longrightarrow> s \<noteq> [] \<Longrightarrow> hd s \<noteq> CHR '']'' \<Longrightarrow> part_ok (Plain s)"
proof -
  assume "plain_ascii s" and s: "s \<noteq> []" "hd s \<noteq> CHR '']''"
  then have "list_all (\<lambda>c. byte c < 128) s" "list_all plain_rune (map byte s)"
    by (auto simp: plain_ascii_def list_all_iff)
  with s show ?thesis by (simp add: runes_all_ascii utf8_ascii)
qed

lemma parse_statement_parts:
  "q = parts_text ps \<Longrightarrow> list_all part_ok ps \<Longrightarrow> parseParams q = (q, 0)"
  by (simp add: parseParams_parts)

lemma part_ok_words: "part_ok (Bracketed ''master'')" "part_ok (Bracketed ''db_owner'')"
  by (simp_all add: utf8_ascii byte_def)

lemmas part_simps = part_ok_words part_ok_name part_ok_password part_ok_ascii plain_ascii_def plain_rune_def byte_def
  sql_text_defs

lemma parse_database_statements:
  assumes "plain_name d" and "utf8 d"
  shows "parseParams (create_database_sql d) = (create_database_sql d, 0)"
    and "parseParams (single_user_sql d) = (single_user_sql d, 0)"
    and "parseParams (drop_database_sql d) = (drop_database_sql d, 0)"
    and "parseParams (use_sql d) = (use_sql d, 0)"
    and "parseParams (count_databases_sql d) = (count_databases_sql d, 0)"
    and "parseParams ''use master'' = (''use master'', 0)"
proof -
  note part_ok.simps [simp del] and part_simps [simp] and assms [simp]
  show "parseParams (create_database_sql d) = (create_database_sql d, 0)"
    by (rule parse_statement_parts
        [of _ "[Plain ''create database '', Bracketed d, Plain '' containment = partial'']"]) simp_all
  show "parseParams (single_user_sql d) = (single_user_sql d, 0)"
    by (rule parse_statement_parts [of _ "[Plain ''alter database '', Bracketed d,
        Plain '' set single_user with rollback immediate'']"]) simp_all
  show "parseParams (drop_database_sql d) = (drop_database_sql d, 0)"
    by (rule parse_statement_parts [of _ "[Plain ''drop database '', Bracketed d]"]) simp_all
  show "parseParams (use_sql d) = (use_sql d, 0)"
    by (rule parse_statement_parts [of _ "[Plain ''use '', Bracketed d]"]) simp_all
  show "parseParams (count_databases_sql d) = (count_databases_sql d, 0)"
    by (rule parse_statement_parts [of _ "[Plain ''select count(*)  from '', Bracketed ''master'',
        Plain ''.sys.databases  where name = '', Quoted d]"]) (simp_all)
  show "parseParams ''use master'' = (''use master'', 0)"
    by (rule parse_statement_parts [of _ "[Plain ''use master'']"]) simp_all
qed

lemma parse_user_statements:
  assumes "plain_name d" and "utf8 d" and "plain_name u" and "utf8 u" and "plain_password p" and "utf8 p"
  shows "parseParams (create_user_sql u p) = (create_user_sql u p, 0)"
    and "parseParams (add_owner_sql u) = (add_owner_sql u, 0)"
    and "parseParams (drop_user_sql u) = (drop_user_sql u, 0)"
    and "parseParams (count_users_sql d u) = (count_users_sql d u, 0)"
proof -
  note part_ok.simps [simp del] and part_simps [simp] and assms [simp]
  show "parseParams (create_user_sql u p) = (create_user_sql u p, 0)"
    by (rule parse_statement_parts [of _ "[Plain ''create user '', Bracketed u,
        Plain '' with password='', Quoted p]"]) simp_all
  show "parseParams (add_owner_sql u) = (add_owner_sql u, 0)"
    by (rule parse_statement_parts [of _ "[Plain ''alter role '', Bracketed ''db_owner'',
        Plain '' add member '', Bracketed u]"]) (simp_all)
  show "parseParams (drop_user_sql u) = (drop_user_sql u, 0)"
    by (rule parse_statement_parts [of _ "[Plain ''drop user '', Bracketed u]"]) simp_all
  show "parseParams (count_users_sql d u) = (count_users_sql d u, 0)"
    by (rule parse_statement_parts [of _ "[Plain ''select count(*)  from '', Bracketed d,
        Plain ''.sys.database_principals  where name = '', Quoted u]"]) simp_all
qed

text \<open>C26: the driver sends the broker's statements as they are: for plain names and a plain
  password in UTF-8, its search for query parameters leaves every statement of every template
  unchanged and counts no parameter, whatever \<open>?\<close>, \<open>$\<close>, \<open>:\<close>, \<open>-\<close> or \<open>/\<close> the operands contain.\<close>

theorem driver_keeps_statements:
  assumes "plain_name d" and "plain_name u" and "plain_password pw"
    and "utf8 d" and "utf8 u" and "utf8 pw"
  shows "map parseParams
      (map (\<lambda>t. compileTemplate t [d]) (createDatabaseTemplate @ deleteDatabaseTemplate @ [isDatabaseCreatedTemplate])
       @ map (\<lambda>t. compileTemplate t [d, u, pw]) createUserTemplate
       @ map (\<lambda>t. compileTemplate t [d, u]) (deleteUserTemplate @ [isUserCreatedTemplate]))
    = map (\<lambda>q. (q, 0))
      ([create_database_sql d, single_user_sql d, drop_database_sql d, count_databases_sql d]
       @ [use_sql d, create_user_sql u pw, add_owner_sql u, ''use master'']
       @ [use_sql d, drop_user_sql u, ''use master'', count_users_sql d u])"
proof -
  have marker: "no_marker d" "no_marker u" "no_marker pw" using assms by auto
  note statements = parse_database_statements [OF assms(1,4)]
    parse_user_statements [OF assms(1,4,2,5,3,6)]
  have d: "map (\<lambda>t. compileTemplate t [d]) (createDatabaseTemplate @ deleteDatabaseTemplate @ [isDatabaseCreatedTemplate])
      = [create_database_sql d, single_user_sql d, drop_database_sql d, count_databases_sql d]"
    using marker by simp
  have u: "map (\<lambda>t. compileTemplate t [d, u]) (deleteUserTemplate @ [isUserCreatedTemplate])
      = [use_sql d, drop_user_sql u, ''use master'', count_users_sql d u]"
    using marker by simp
  show ?thesis unfolding d u compile_createUser [OF marker] by (simp only: statements list.map append.simps)
qed

theorem driver_keeps_statements_witness:
  "parseParams (create_user_sql ''cf-1'' ''a?$1:2--/*'') = (create_user_sql ''cf-1'' ''a?$1:2--/*'', 0)"
proof -
  have d: "plain_name ''cf-1''" by (rule plain_nameI; simp)
  have pw: "plain_password ''a?$1:2--/*''"
    by (simp add: plain_password_def no_marker_def extra_marker_def sublist_Cons_right)
  have "utf8 ''cf-1''" "utf8 ''a?$1:2--/*''" by (simp_all add: utf8_ascii byte_def)
  from driver_keeps_statements [OF d d pw this(1) this] d pw show ?thesis
    by (simp add: plain_nameD del: map_map)
qed

section \<open>The connection string\<close>

lemma split_buildConnectionString:
  assumes "list_all plain_param ps"
  shows "split_at (CHR '';'') (buildConnectionString ps) = map (\<lambda>(k, v). k @ CHR ''='' # v) ps @ [[]]"
  using assms
proof (induction ps)
  case (Cons kv ps)
  obtain k v where kv: "kv = (k, v)" by fastforce
  with Cons.prems have "CHR '';'' \<notin> set (k @ CHR ''='' # v)" by (simp add: plain_param_def)
  from split_at_free(1) [OF this, of "buildConnectionString ps"] Cons kv show ?case by simp
qed simp

text \<open>C27: the driver reads back the parameters the provisioner put into the connection string:
  for distinct names in lower case without \<open>=\<close>, and no \<open>;\<close> anywhere, each has its value,
  whatever \<open>=\<close> it contains, and there are no others.\<close>

theorem connection_string_read_back:
  assumes "list_all plain_param ps" and "distinct (map fst ps)"
  shows "parseConnectionString u (buildConnectionString ps) = ps"
  using foldl_connection_parts [of ps "[]" u] assms
  by (simp add: parseConnectionString_def split_buildConnectionString)

theorem connection_string_read_back_witness:
  "\<forall>u. parseConnectionString u (buildConnectionString [(''server'', ''h''), (''user id'', ''sa''), (''password'', ''p=q'')])
     = [(''server'', ''h''), (''user id'', ''sa''), (''password'', ''p=q'')]"
  by (rule allI, rule connection_string_read_back)
     (simp_all add: plain_param_def lower_text_def byte_def)

text \<open>The parameters \<open>ServerSPN\<close> and \<open>Workstation ID\<close> are never honoured: the driver puts
  the names into lower case when it reads the connection string, and looks these two up with
  capitals, so the service name is always made from host and port, and the workstation is
  always the host name.\<close>

theorem capital_parameters_ignored:
  assumes "lower_tables (uni D)"
    and "parseConnectParams D (parseConnectionString (uni D) dsn) s = Inr p"
  shows "cp_serverSPN p = ''MSSQLSvc/'' @ cp_host p @ '':'' @ Itoa (int (cp_port p)) \<and>
    cp_workstation p = (case osHostname D s of Inr h \<Rightarrow> h | Inl _ \<Rightarrow> [])"
  by (rule parseConnectParams_defaults [OF assms(2)])
     (simp_all add: upper_name_unset assms(1) capital_names)

definition ascii_tables :: unicode where
  "ascii_tables = \<lparr>lower_rune = id, upper_rune = id, print_rune = (\<lambda>r. False)\<rparr>"

definition example_driver :: "unit driver_env" where
  "example_driver =
     \<lparr>uni = ascii_tables, udpExchange = (\<lambda>a b w. Inl (OtherError ''down'')), osHostname = (\<lambda>w. Inr ''box'')\<rparr>"

theorem capital_parameters_ignored_witness:
  "\<exists>p. parseConnectParams example_driver
      (parseConnectionString ascii_tables ''server=h;Workstation ID=desk'') () = Inr p \<and>
    cp_host p = ''h'' \<and> cp_workstation p = ''box''"
proof -
  have tables: "lower_tables (uni example_driver)"
    by (auto simp: example_driver_def ascii_tables_def lower_tables_def)
  have read: "parseConnectionString ascii_tables ''server=h;Workstation ID=desk''
      = [(''server'', ''h''), (''workstation id'', ''desk'')]"
    by code_simp
  have "(case parseConnectParams example_driver [(''server'', ''h''), (''workstation id'', ''desk'')] () of
      Inr p \<Rightarrow> cp_host p = ''h'' | Inl _ \<Rightarrow> False)"
    by code_simp
  then obtain p where p: "parseConnectParams example_driver
      [(''server'', ''h''), (''workstation id'', ''desk'')] () = Inr p" "cp_host p = ''h''"
    by (auto split: sum.splits)
  then have "parseConnectParams example_driver
      (parseConnectionString (uni example_driver) ''server=h;Workstation ID=desk'') () = Inr p"
    using read by (simp add: example_driver_def)
  from capital_parameters_ignored [OF tables this] p read show ?thesis
    by (simp add: example_driver_def)
qed

section \<open>Text in a code page\<close>

lemma some_ifE:
  "(if c then Some x else y) = Some z \<Longrightarrow> (x = z \<Longrightarrow> P) \<Longrightarrow> (y = Some z \<Longrightarrow> P) \<Longrightarrow> P"
  "(if c then None else y) = Some z \<Longrightarrow> (y = Some z \<Longrightarrow> P) \<Longrightarrow> P"
  by (auto split: if_splits)

definition code_pages :: "dbcs_tables \<Rightarrow> charsetMap list" where
  "code_pages dbcs =
     [cp437, cp850, cp874, cp932 dbcs, cp936 dbcs, cp949 dbcs, cp950 dbcs, cp1250, cp1251, cp1252,
      cp1253, cp1254, cp1255, cp1256, cp1257, cp1258]"

lemma collation2charset_pages: "collation2charset dbcs col = Some cm \<Longrightarrow> cm \<in> set (code_pages dbcs)"
  unfolding collation2charset_def Let_def by (elim some_ifE) (simp_all add: code_pages_def)

lemmas code_page_defs = cp437_def cp850_def cp874_def cp932_def cp936_def cp949_def cp950_def
  cp1250_def cp1251_def cp1252_def cp1253_def cp1254_def cp1255_def cp1256_def cp1257_def cp1258_def

lemma low_halves:
  "cp437_low = map int [0..<128]"
  "cp850_low = map int [0..<128]"
  "cp874_low = map int [0..<128]"
  "cp932_low = map int [0..<128]"
  "cp936_low = map int [0..<128]"
  "cp949_low = map int [0..<128]"
  "cp950_low = map int [0..<128]"
  "cp1250_low = map int [0..<128]"
  "cp1251_low = map int [0..<128]"
  "cp1252_low = map int [0..<128]"
  "cp1253_low = map int [0..<128]"
  "cp1254_low = map int [0..<128]"
  "cp1255_low = map int [0..<128]"
  "cp1256_low = map int [0..<128]"
  "cp1257_low = map int [0..<128]"
  "cp1258_low = map int [0..<128]"
  by code_simp+

lemma code_pages_low: "list_all (\<lambda>cm. take 128 (sb cm) = map int [0..<128]) (code_pages dbcs)"
proof -
  have "length (map int [0..<128]) = 128" by simp
  then have "take 128 (map int [0..<128] @ high) = map int [0..<128]" for high by simp
  then show ?thesis by (simp only: code_pages_def code_page_defs charsetMap.simps low_halves list_all_iff) simp
qed

lemma charset_low:
  assumes "collation2charset dbcs col = Some cm" and "k < 128"
  shows "sb cm ! k = int k"
proof -
  have "take 128 (sb cm) = map int [0..<128]"
    using code_pages_low collation2charset_pages [OF assms(1)] by (auto simp: list_all_iff)
  then have "take 128 (sb cm) ! k = int k" using assms(2) by (simp only:) simp
  with assms(2) show ?thesis by simp
qed

lemma charset_runes_ascii:
  assumes "\<And>k. k < 128 \<Longrightarrow> sb cm ! k = int k"
  shows "list_all (\<lambda>b. b < 128) bs \<Longrightarrow> charset_runes cm bs = map (\<lambda>b. int (unat b)) bs"
  using assms
  by (induction cm bs rule: charset_runes.induct)
     (simp_all add: word_less_nat_alt Let_def del: int_nat_eq of_nat_unat)

lemma rune_text_ascii: "b < 128 \<Longrightarrow> rune_text (int (unat (b :: octet))) = [char_of (unat b)]"
  by (simp add: rune_text_def EncodeRune_def word_less_nat_alt del: of_nat_unat)

text \<open>C29: for every collation and whatever the double-byte tables hold, text of the server is
  turned into valid UTF-8 when the collation has a code page, and bytes below 128 stand for
  themselves in all of them.\<close>

theorem charset_text_valid:
  "(collation2charset dbcs col \<noteq> None \<longrightarrow> utf8 (charset2utf8 dbcs col bs)) \<and>
   (list_all (\<lambda>b. b < 128) bs \<longrightarrow> charset2utf8 dbcs col bs = text_of bs)"
proof (cases "collation2charset dbcs col")
  case (Some cm)
  have "utf8 (concat (map rune_text rs))" for rs
    by (induction rs) (simp_all add: rune_text_def utf8.simps(1) utf8_append)
  moreover have "concat (map rune_text (map (\<lambda>b. int (unat b)) bs)) = text_of bs" if "list_all (\<lambda>b. b < 128) bs"
    using that by (induction bs) (simp_all add: text_of_def rune_text_ascii del: of_nat_unat)
  moreover note charset_runes_ascii [OF charset_low [OF Some]]
  ultimately show ?thesis using Some by (simp add: charset2utf8_def)
qed (simp add: charset2utf8_def)

definition example_tables :: dbcs_tables where
  "example_tables = \<lparr>db932 = Map.empty, db936 = Map.empty, db949 = Map.empty, db950 = Map.empty\<rparr>"

definition latin1 :: collation where
  "latin1 = \<lparr>lcidAndFlags = 0x409, sortId = 52\<rparr>"

theorem charset_text_valid_witness:
  "collation2charset example_tables latin1 = Some cp1252 \<and>
   utf8 (charset2utf8 example_tables latin1 [0x63, 0xE9]) \<and>
   charset2utf8 example_tables latin1 [0x64, 0x62] = ''db''"
proof -
  have c: "collation2charset example_tables latin1 = Some cp1252"
    by (simp add: collation2charset_def latin1_def Let_def)
  have "text_of [0x64, 0x62] = ''db''" by (simp add: text_of_def) code_simp
  with c charset_text_valid [of example_tables latin1 "[0x63, 0xE9]"]
    charset_text_valid [of example_tables latin1 "[0x64, 0x62]"]
  show ?thesis by simp
qed

end
