(* ===== verification/TdsBuffer.thy ===== *)
theory TdsBuffer
  imports Prelude Bytes
begin

text \<open>
  The packet buffer of go-mssqldb (\<open>buf.go\<close>): writes are cut into packets with an 8-byte
  header, reads join the packets of a message.  Code runs over the state of the buffer.

  The transport is given by what happens on it: the bytes that arrive until it ends, the error
  reported then, the results of the writes (those of the first ones, and that of all later ones),
  and the writes that were made.
\<close>

section \<open>The transport\<close>

record transport =
  incoming :: "octet list"
  endError :: go_error
  writeResults :: "go_error option list"
  laterWrites :: "go_error option"
  outgoing :: "octet list list"

text \<open>The error of the \<open>k\<close>-th write, and how many writes there still are before the last change.\<close>

definition writeError :: "transport \<Rightarrow> nat \<Rightarrow> go_error option" where
  "writeError t k = (if k < length (writeResults t) then writeResults t ! k else laterWrites t)"

definition writes_ahead :: "transport \<Rightarrow> nat" where
  "writes_ahead t = length (writeResults t) - length (outgoing t)"

lemma writeError_fields [simp]:
  "writeError (t\<lparr>incoming := x\<rparr>) = writeError t" "writeError (t\<lparr>outgoing := y\<rparr>) = writeError t"
  by (simp_all add: writeError_def fun_eq_iff)

text \<open>\<open>io.EOF\<close> and \<open>io.ErrUnexpectedEOF\<close>, by their texts.\<close>

definition io_EOF :: go_error where
  "io_EOF = OtherError ''EOF''"

definition ErrUnexpectedEOF :: go_error where
  "ErrUnexpectedEOF = OtherError ''unexpected EOF''"

definition transport_Write :: "octet list \<Rightarrow> transport \<Rightarrow> go_error option \<times> transport" where
  "transport_Write p t =
     (writeError t (length (outgoing t)), t\<lparr>outgoing := outgoing t @ [p]\<rparr>)"

definition transport_ReadFull :: "nat \<Rightarrow> transport \<Rightarrow> (go_error + octet list) \<times> transport" where
  "transport_ReadFull n t =
     (if n \<le> length (incoming t)
      then (Inr (take n (incoming t)), t\<lparr>incoming := drop n (incoming t)\<rparr>)
      else (Inl (if incoming t \<noteq> [] \<and> endError t = io_EOF then ErrUnexpectedEOF else endError t),
            t\<lparr>incoming := []\<rparr>))"

section \<open>The buffer\<close>

text \<open>\<open>pos\<close> and \<open>size\<close> are 16-bit numbers; \<open>afterFirst\<close> switches to another transport.\<close>

record tdsBuffer =
  buf :: "octet list"
  pos :: nat
  transport :: transport
  bsize :: nat
  final :: bool
  packet_type :: octet
  afterFirst :: "transport option"

definition wrap16 :: "nat \<Rightarrow> nat" where
  "wrap16 n = n mod 65536"

definition newTdsBuffer :: "nat \<Rightarrow> transport \<Rightarrow> tdsBuffer" where
  "newTdsBuffer bufsize t =
     \<lparr>buf = replicate bufsize 0, pos = 8, transport = t, bsize = 0, final = False,
      packet_type = 0, afterFirst = None\<rparr>"

definition put_at :: "nat \<Rightarrow> octet list \<Rightarrow> octet list \<Rightarrow> octet list" where
  "put_at i bs b = take i b @ bs @ drop (i + length bs) b"

text \<open>Storing bytes in the buffer panics when they do not fit.\<close>

definition store :: "nat \<Rightarrow> octet list \<Rightarrow> (tdsBuffer, unit) go" where
  "store i bs s =
     (if i + length bs \<le> length (buf s) then (Ret (), s\<lparr>buf := put_at i bs (buf s)\<rparr>)
      else (Panicked IndexOutOfRange, s))"

definition modifyG :: "('s \<Rightarrow> 's) \<Rightarrow> ('s, unit) go" where
  "modifyG f s = (Ret (), f s)"

text \<open>The write of the packet so far, and the switch after it.\<close>

definition write_packet :: "(tdsBuffer, go_error option) go" where
  "write_packet s =
     (if pos s \<le> length (buf s)
      then (case transport_Write (take (pos s) (buf s)) (transport s) of
              (err, t) \<Rightarrow> (Ret err, s\<lparr>transport := t\<rparr>))
      else (Panicked IndexOutOfRange, s))"

definition run_afterFirst :: "(tdsBuffer, unit) go" where
  "run_afterFirst =
     modifyG (\<lambda>s. case afterFirst s of None \<Rightarrow> s | Some t \<Rightarrow> s\<lparr>transport := t, afterFirst := None\<rparr>)"

definition flush :: "(tdsBuffer, go_error option) go" where
  "flush =
     seqG (readG (\<lambda>s. store 2 (be_bytes 2 (pos s))))
     (bindG write_packet (\<lambda>err.
        if err \<noteq> None then ret err
        else seqG run_afterFirst
          (seqG (modifyG (\<lambda>s. s\<lparr>pos := 8\<rparr>))
          (seqG (readG (\<lambda>s. store 6 [buf s ! 6 + 1])) (ret None)))))"

text \<open>
  The loop of \<open>Write\<close>.  A buffer of 8 bytes has no room for data: the loop sends empty packets
  until a write fails, and does not end where none does.  The fuel is the number of packets that
  it may flush: one for each byte, and for the writes until the transport fails for ever or
  never again.
\<close>

fun write_loop :: "nat \<Rightarrow> nat \<Rightarrow> octet list \<Rightarrow> (tdsBuffer, nat \<times> go_error option) go" where
  "write_loop 0 nn p s = (Panicked OutOfFuel, s)"
| "write_loop (Suc fuel) nn p s =
     (if pos s > length (buf s) then (Panicked IndexOutOfRange, s)
      else (let copied = min (length (buf s) - pos s) (length p);
                s = s\<lparr>buf := put_at (pos s) (take copied p) (buf s), pos := wrap16 (pos s + copied)\<rparr>
            in if copied = length p then (Ret (nn + copied, None), s)
               else bindG flush (\<lambda>err.
                      if err \<noteq> None then ret (nn + copied, err)
                      else write_loop fuel (nn + copied) (drop copied p)) s))"

definition write_fuel :: "octet list \<Rightarrow> tdsBuffer \<Rightarrow> nat" where
  "write_fuel p s = length p + writes_ahead (transport s) +
     (case afterFirst s of None \<Rightarrow> 0 | Some t \<Rightarrow> writes_ahead t + 1) + 2"

definition Write :: "octet list \<Rightarrow> (tdsBuffer, nat \<times> go_error option) go" where
  "Write p = readG (\<lambda>s. write_loop (write_fuel p s) 0 p)"

text \<open>The bytes are written, the count of them is not looked at.\<close>

definition put :: "octet list \<Rightarrow> (tdsBuffer, go_error option) go" where
  "put p = bindG (Write p) (\<lambda>(n, err). ret err)"

definition WriteByte :: "octet \<Rightarrow> (tdsBuffer, go_error option) go" where
  "WriteByte b =
     bindG (readG (\<lambda>s. if pos s = length (buf s) then flush else ret None)) (\<lambda>err.
       if err \<noteq> None then ret err
       else readG (\<lambda>s. seqG (store (pos s) [b]) (seqG (modifyG (\<lambda>s. s\<lparr>pos := wrap16 (pos s + 1)\<rparr>)) (ret None))))"

definition BeginPacket :: "octet \<Rightarrow> (tdsBuffer, unit) go" where
  "BeginPacket pt =
     seqG (store 0 [pt, 0]) (seqG (store 4 [0, 0, 1, 0]) (modifyG (\<lambda>s. s\<lparr>pos := 8\<rparr>)))"

definition FinishPacket :: "(tdsBuffer, go_error option) go" where
  "FinishPacket =
     seqG (store 1 [1])
     (seqG (readG (\<lambda>s. store 2 (be_bytes 2 (pos s))))
     (bindG write_packet (\<lambda>err. seqG run_afterFirst (ret err))))"

section \<open>Reading\<close>

definition on_transport ::
  "(transport \<Rightarrow> 'a \<times> transport) \<Rightarrow> (tdsBuffer, 'a) go" where
  "on_transport f s = (case f (transport s) of (a, t) \<Rightarrow> (Ret a, s\<lparr>transport := t\<rparr>))"

text \<open>
  The header has the type, the status, the size and four bytes that are not used.  When the
  packet breaks off, its bytes so far are not stored: no one reads them.
\<close>

definition readNextPacket :: "(tdsBuffer, go_error option) go" where
  "readNextPacket =
     bindG (on_transport (transport_ReadFull 8)) (\<lambda>h.
       case h of
         Inl err \<Rightarrow> ret (Some err)
       | Inr hdr \<Rightarrow>
           (let sz = be_value (take 2 (drop 2 hdr))
            in readG (\<lambda>s.
                 if sz < 8 \<or> length (buf s) < sz then go_panic IndexOutOfRange
                 else bindG (on_transport (transport_ReadFull (sz - 8))) (\<lambda>body.
                        case body of
                          Inl err \<Rightarrow> ret (Some err)
                        | Inr bs \<Rightarrow>
                            seqG (store 8 bs)
                            (seqG (modifyG (\<lambda>s. s\<lparr>pos := 8, bsize := sz, final := (hdr ! 1 \<noteq> 0),
                                                packet_type := hdr ! 0\<rparr>)) (ret None))))))"

definition BeginRead :: "(tdsBuffer, go_error + octet) go" where
  "BeginRead =
     bindG readNextPacket (\<lambda>err.
       case err of Some e \<Rightarrow> ret (Inl e) | None \<Rightarrow> readG (\<lambda>s. ret (Inr (packet_type s))))"

text \<open>The next packet of the message when this one is used up, or the end of the message.\<close>

definition more_data :: "(tdsBuffer, go_error option) go" where
  "more_data =
     readG (\<lambda>s. if pos s = bsize s then (if final s then ret (Some io_EOF) else readNextPacket) else ret None)"

definition ReadByte :: "(tdsBuffer, go_error + octet) go" where
  "ReadByte =
     bindG more_data (\<lambda>err.
       case err of
         Some e \<Rightarrow> ret (Inl e)
       | None \<Rightarrow> readG (\<lambda>s.
           if pos s < length (buf s)
           then seqG (modifyG (\<lambda>s. s\<lparr>pos := wrap16 (pos s + 1)\<rparr>)) (ret (Inr (buf s ! pos s)))
           else go_panic IndexOutOfRange))"

text \<open>\<open>Read\<close> into a slice of \<open>n\<close> bytes gives at most that many.\<close>

definition buf_Read :: "nat \<Rightarrow> (tdsBuffer, go_error + octet list) go" where
  "buf_Read n =
     bindG more_data (\<lambda>err.
       case err of
         Some e \<Rightarrow> ret (Inl e)
       | None \<Rightarrow> readG (\<lambda>s.
           if pos s \<le> bsize s \<and> bsize s \<le> length (buf s)
           then (let copied = min n (bsize s - pos s)
                 in seqG (modifyG (\<lambda>s. s\<lparr>pos := wrap16 (pos s + copied)\<rparr>))
                      (ret (Inr (take copied (drop (pos s) (buf s))))))
           else go_panic IndexOutOfRange))"

text \<open>What is left to read: the bytes on the transport, and those of the current packet.\<close>

definition unread :: "tdsBuffer \<Rightarrow> nat" where
  "unread s = length (incoming (transport s)) + (bsize s - pos s)"

lemma transport_ReadFull_incoming:
  "transport_ReadFull n t = (r, t') \<Longrightarrow> length (incoming t') \<le> length (incoming t) \<and>
     (\<forall>bs. r = Inr bs \<longrightarrow> length (incoming t') = length (incoming t) - n \<and> n \<le> length (incoming t) \<and> length bs = n)"
  by (auto simp: transport_ReadFull_def split: if_splits)

lemma on_transport_run:
  "on_transport f s = (Ret (fst (f (transport s))), s\<lparr>transport := snd (f (transport s))\<rparr>)"
  by (simp add: on_transport_def split: prod.split)

lemma modifyG_run [simp]: "modifyG f s = (Ret (), f s)"
  by (simp add: modifyG_def)

lemma transport_ReadFull_le: "length (incoming (snd (transport_ReadFull n t))) \<le> length (incoming t)"
  by (auto simp: transport_ReadFull_def)

lemma transport_ReadFull_Inr:
  "fst (transport_ReadFull n t) = Inr bs \<Longrightarrow>
   length bs = n \<and> n + length (incoming (snd (transport_ReadFull n t))) = length (incoming t)"
  by (auto simp: transport_ReadFull_def split: if_splits)

lemma readNextPacket_incoming:
  assumes "readNextPacket s = (r, t)"
  shows "length (incoming (transport t)) \<le> length (incoming (transport s)) \<and>
    (r = Ret None \<longrightarrow> length (incoming (transport t)) + 8 \<le> length (incoming (transport s)))"
proof (cases "fst (transport_ReadFull 8 (transport s))")
  case (Inl e)
  with assms show ?thesis
    using transport_ReadFull_le [of 8 "transport s"]
    by (simp add: readNextPacket_def bindG_apply on_transport_run) auto
next
  case (Inr h)
  let ?t = "snd (transport_ReadFull 8 (transport s))"
  let ?n = "be_value (take 2 (drop 2 h)) - 8"
  note head = transport_ReadFull_Inr [OF Inr]
  show ?thesis
    using assms Inr head transport_ReadFull_le [of ?n ?t]
    by (simp add: readNextPacket_def bindG_apply seqG_apply on_transport_run store_def Let_def
        split: if_splits sum.splits) auto
qed

lemma buf_Read_less:
  assumes "buf_Read n s = (Ret (Inr bs), t)" and "0 < n"
  shows "n - length bs + length (incoming (transport t)) < n + length (incoming (transport s))"
proof (cases "pos s = bsize s")
  case True
  with assms obtain u where u: "readNextPacket s = (Ret None, u)" "transport t = transport u"
    by (auto simp: buf_Read_def more_data_def bindG_apply seqG_apply Let_def
        split: prod.splits outcome.splits if_splits option.splits)
  then have "length (incoming (transport t)) + 8 \<le> length (incoming (transport s))"
    using readNextPacket_incoming [OF u(1)] by simp
  moreover have "n - length bs \<le> n" by simp
  ultimately show ?thesis by linarith
next
  case False
  with assms show ?thesis
    by (auto simp: buf_Read_def more_data_def bindG_apply seqG_apply Let_def split: if_splits)
qed

text \<open>Reads until there are \<open>n\<close> bytes, as \<open>io.ReadFull\<close> and \<open>io.CopyN\<close> do: what was read, and the
  error that ended it.\<close>

function read_n :: "nat \<Rightarrow> octet list \<Rightarrow> (tdsBuffer, octet list \<times> go_error option) go" where
  "read_n n acc s =
     (if n = 0 then (Ret (acc, None), s)
      else (case buf_Read n s of
              (Panicked v, t) \<Rightarrow> (Panicked v, t)
            | (Ret (Inl e), t) \<Rightarrow> (Ret (acc, Some e), t)
            | (Ret (Inr bs), t) \<Rightarrow> read_n (n - length bs) (acc @ bs) t))"
  by pat_completeness auto
termination
  by (relation "measure (\<lambda>(n, acc, s). n + length (incoming (transport s)))")
     (auto dest!: sym [of _ "buf_Read _ _"] buf_Read_less)

declare read_n.simps [simp del]

definition badStreamPanic :: "go_error \<Rightarrow> ('s, 'a) go" where
  "badStreamPanic err = go_panic (PanicError (Some err))"

text \<open>\<open>io.ReadFull\<close> of the buffer, and the method \<open>ReadFull\<close>, which panics on an error.\<close>

definition io_ReadFull :: "nat \<Rightarrow> (tdsBuffer, go_error + octet list) go" where
  "io_ReadFull n =
     bindG (read_n n []) (\<lambda>(bs, err).
       case err of
         None \<Rightarrow> ret (Inr bs)
       | Some e \<Rightarrow> ret (Inl (if e = io_EOF \<and> bs \<noteq> [] then ErrUnexpectedEOF else e)))"

definition ReadFull :: "nat \<Rightarrow> (tdsBuffer, octet list) go" where
  "ReadFull n = bindG (io_ReadFull n) (\<lambda>r. case r of Inl e \<Rightarrow> badStreamPanic e | Inr bs \<Rightarrow> ret bs)"

definition buf_byte :: "(tdsBuffer, octet) go" where
  "buf_byte = bindG ReadByte (\<lambda>r. case r of Inl e \<Rightarrow> badStreamPanic e | Inr b \<Rightarrow> ret b)"

definition buf_uint64 :: "(tdsBuffer, 64 word) go" where
  "buf_uint64 = bindG (ReadFull 8) (\<lambda>b. ret (of_nat (le_value b)))"

definition buf_uint32 :: "(tdsBuffer, 32 word) go" where
  "buf_uint32 = bindG (ReadFull 4) (\<lambda>b. ret (of_nat (le_value b)))"

text \<open>A signed number is a word that is read with \<open>sint\<close>.\<close>

definition buf_int32 :: "(tdsBuffer, int) go" where
  "buf_int32 = bindG buf_uint32 (\<lambda>w. ret (sint w))"

definition buf_uint16 :: "(tdsBuffer, 16 word) go" where
  "buf_uint16 = bindG (ReadFull 2) (\<lambda>b. ret (of_nat (le_value b)))"

end
