(* ===== verification/PacketFraming.thy ===== *)
theory PacketFraming
  imports TdsBuffer
begin

text \<open>
  What a message looks like on the wire: packets of an 8-byte header and a body, the last one
  marked.  Writing produces a message of the bytes written; reading a message gives its bytes.
\<close>

section \<open>Messages\<close>

definition packet_header :: "octet \<Rightarrow> octet \<Rightarrow> octet \<Rightarrow> nat \<Rightarrow> octet list" where
  "packet_header pt status number len = [pt, status] @ be_bytes 2 len @ [0, 0, number, 0]"

lemma packet_header_simps [simp]:
  "length (packet_header pt st i n) = 8"
  "packet_header pt st i n ! 0 = pt" "packet_header pt st i n ! Suc 0 = st"
  "take 2 (drop 2 (packet_header pt st i n)) = be_bytes 2 n"
  by (simp_all add: packet_header_def)

text \<open>\<open>packets n pt bs data\<close>: \<open>bs\<close> are packets of at most \<open>n\<close> bytes that are not the last, with
  some data each; \<open>message\<close> ends with the last packet.\<close>

inductive packets :: "nat \<Rightarrow> octet \<Rightarrow> octet list \<Rightarrow> octet list \<Rightarrow> bool" for n pt where
  no_packets: "packets n pt [] []"
| next_packet: "packets n pt bs data \<Longrightarrow> body \<noteq> [] \<Longrightarrow> 8 + length body \<le> n \<Longrightarrow>
    packets n pt (bs @ packet_header pt 0 i (8 + length body) @ body) (data @ body)"

inductive message :: "nat \<Rightarrow> octet \<Rightarrow> octet list \<Rightarrow> octet list \<Rightarrow> bool" for n pt where
  last_packet: "8 + length body \<le> n \<Longrightarrow>
    message n pt (packet_header pt 1 i (8 + length body) @ body) body"
| more_packets: "message n pt bs data \<Longrightarrow> body \<noteq> [] \<Longrightarrow> 8 + length body \<le> n \<Longrightarrow>
    message n pt (packet_header pt 0 i (8 + length body) @ body @ bs) (body @ data)"

lemma packets_message:
  "packets n pt bs data \<Longrightarrow> message n pt bs' data' \<Longrightarrow> message n pt (bs @ bs') (data @ data')"
proof (induction arbitrary: bs' data' rule: packets.induct)
  case (next_packet bs data body i)
  then show ?case using message.more_packets [of n pt bs' data' body i] by simp
qed simp

section \<open>Writing a message\<close>

text \<open>The writer after \<open>data\<close>: whole packets are out, the rest is in the buffer.\<close>

definition writing :: "nat \<Rightarrow> octet \<Rightarrow> octet list \<Rightarrow> octet list \<Rightarrow> tdsBuffer \<Rightarrow> bool" where
  "writing n pt before data s \<longleftrightarrow>
     length (buf s) = n \<and> 8 < n \<and> n < 65536 \<and> 8 \<le> pos s \<and> pos s \<le> n \<and> afterFirst s = None \<and>
     (\<forall>k. writeError (transport s) k = None) \<and>
     (\<exists>a b number. take 8 (buf s) = [pt, 0, a, b, 0, 0, number, 0]) \<and>
     (\<exists>out sent. concat (outgoing (transport s)) = before @ out \<and> packets n pt out sent \<and>
        data = sent @ drop 8 (take (pos s) (buf s)))"

lemma wrap16_small [simp]: "k < 65536 \<Longrightarrow> wrap16 k = k"
  by (simp add: wrap16_def)

lemma be_bytes_2: "be_bytes 2 v = [of_nat (v div 256), of_nat v]"
  by (simp add: be_bytes_def numeral_2_eq_2)

lemma writing_cases:
  assumes "writing n pt before data s"
  obtains a b number rest out sent where
    "buf s = [pt, 0, a, b, 0, 0, number, 0] @ rest" "8 + length rest = n" "8 < n" "n < 65536"
    "8 \<le> pos s" "pos s \<le> n" "afterFirst s = None" "\<forall>k. writeError (transport s) k = None"
    "concat (outgoing (transport s)) = before @ out" "packets n pt out sent"
    "data = sent @ take (pos s - 8) rest"
proof -
  from assms obtain a b number where h: "take 8 (buf s) = [pt, 0, a, b, 0, 0, number, 0]"
    by (auto simp: writing_def)
  have b: "buf s = [pt, 0, a, b, 0, 0, number, 0] @ drop 8 (buf s)"
    using h append_take_drop_id [of 8 "buf s"] by (simp only:)
  have "length (drop 8 (buf s)) = n - 8" "8 < n" using assms by (simp_all add: writing_def)
  with assms that [OF b] show ?thesis by (auto simp: writing_def drop_take)
qed

lemma writingI:
  assumes "buf s = [pt, 0, a, b, 0, 0, number, 0] @ rest" and "8 + length rest = n" and "8 < n" and "n < 65536"
    and "8 \<le> pos s" and "pos s \<le> n" and "afterFirst s = None" and "\<forall>k. writeError (transport s) k = None"
    and "concat (outgoing (transport s)) = before @ out" and "packets n pt out sent"
    and "data = sent @ take (pos s - 8) rest"
  shows "writing n pt before data s"
  using assms by (auto simp: writing_def drop_take)

lemma put_at_append: "length h \<le> i \<Longrightarrow> put_at i bs (h @ r) = h @ put_at (i - length h) bs r"
  by (simp add: put_at_def)

lemma length_8:
  assumes "8 \<le> length b"
  obtains h0 h1 h2 h3 h4 h5 h6 h7 rest where "b = [h0, h1, h2, h3, h4, h5, h6, h7] @ rest"
proof -
  have eight: "\<exists>h0 h1 h2 h3 h4 h5 h6 h7. h = [h0, h1, h2, h3, h4, h5, h6, h7]" if "length h = 8"
    for h :: "'a list"
    using that by (simp add: numeral_eq_Suc length_Suc_conv) blast
  from assms eight [of "take 8 b"] obtain h0 h1 h2 h3 h4 h5 h6 h7 where
    "take 8 b = [h0, h1, h2, h3, h4, h5, h6, h7]" by auto
  with that [of h0 h1 h2 h3 h4 h5 h6 h7 "drop 8 b"] show ?thesis by (metis append_take_drop_id)
qed

text \<open>The packet of a buffer that begins with a header.\<close>

lemma packet_text:
  assumes "8 \<le> p" and "p \<le> 8 + length rest"
  shows "take p (put_at 2 (be_bytes 2 p) ([pt, st, a, b, 0, 0, number, 0] @ rest))
    = packet_header pt st number (8 + length (take (p - 8) rest)) @ take (p - 8) rest"
proof -
  have "p = 8 + (p - 8)" using assms by simp
  then obtain k where "p = 8 + k" by blast
  then show ?thesis using assms
    by (simp add: put_at_def packet_header_def be_bytes_2 numeral_eq_Suc)
qed

lemma flush_writing:
  assumes "writing n pt before data s" and "8 < pos s"
  shows "\<exists>s'. flush s = (Ret None, s') \<and> writing n pt before data s' \<and> pos s' = 8"
proof -
  from assms(1) obtain a b number rest out sent where
    s: "buf s = [pt, 0, a, b, 0, 0, number, 0] @ rest" "8 + length rest = n" "8 < n" "n < 65536"
      "8 \<le> pos s" "pos s \<le> n" "afterFirst s = None" "\<forall>k. writeError (transport s) k = None"
      "concat (outgoing (transport s)) = before @ out" "packets n pt out sent"
      "data = sent @ take (pos s - 8) rest"
    by (rule writing_cases)
  define B where "B = put_at 2 (be_bytes 2 (pos s)) (buf s)"
  let ?t = "transport s\<lparr>outgoing := outgoing (transport s) @ [take (pos s) B]\<rparr>"
  let ?s = "s\<lparr>buf := put_at 6 [B ! 6 + 1] B, transport := ?t, pos := 8\<rparr>"
  have len: "length (buf s) = n" "length B = n" using s(1,2) by (simp_all add: B_def put_at_def)
  have B: "B = [pt, 0, of_nat (pos s div 256), of_nat (pos s), 0, 0, number, 0] @ rest"
    using s(1) by (simp add: B_def put_at_def be_bytes_2)
  have "store 2 (be_bytes 2 (pos s)) s = (Ret (), s\<lparr>buf := B\<rparr>)"
    using len s(3) by (simp add: store_def B_def)
  then have "flush s = (Ret None, ?s)"
    using len s(3,6,7,8)
    by (simp add: flush_def bindG_apply seqG_apply write_packet_def transport_Write_def run_afterFirst_def)
       (simp add: store_def)
  moreover have "writing n pt before data ?s"
  proof (rule writingI)
    show "buf ?s = [pt, 0, of_nat (pos s div 256), of_nat (pos s), 0, 0, number + 1, 0] @ rest"
      using B by (simp add: put_at_def)
    show "concat (outgoing (transport ?s)) = before @ (out @ take (pos s) B)"
      using s(9) by simp
    have "packets n pt (out @ packet_header pt 0 number (8 + length (take (pos s - 8) rest)) @
        take (pos s - 8) rest) data"
    proof -
      have "rest \<noteq> []" using s(2,6) assms(2) by auto
      then show ?thesis
        using next_packet [OF s(10), of "take (pos s - 8) rest" number] s(2,5,6,11) assms(2) by simp
    qed
    moreover have "take (pos s) B = packet_header pt 0 number (8 + length (take (pos s - 8) rest)) @
        take (pos s - 8) rest"
      using packet_text [of "pos s" rest pt 0] s(1,2,5,6) by (simp add: B_def)
    ultimately show "packets n pt (out @ take (pos s) B) data" by simp
  qed (use s in simp_all)
  ultimately show ?thesis by auto
qed

lemma write_loop_writing:
  assumes "writing n pt before data s" and "length p + (if pos s = n then 1 else 0) < fuel"
  shows "\<exists>s'. write_loop fuel nn p s = (Ret (nn + length p, None), s') \<and> writing n pt before (data @ p) s'"
  using assms
proof (induction fuel arbitrary: nn p data s)
  case (Suc fuel)
  from Suc.prems(1) obtain a b number rest out sent where
    s: "buf s = [pt, 0, a, b, 0, 0, number, 0] @ rest" "8 + length rest = n" "8 < n" "n < 65536"
      "8 \<le> pos s" "pos s \<le> n" "afterFirst s = None" "\<forall>k. writeError (transport s) k = None"
      "concat (outgoing (transport s)) = before @ out" "packets n pt out sent"
      "data = sent @ take (pos s - 8) rest"
    by (rule writing_cases)
  let ?c = "min (n - pos s) (length p)"
  let ?s = "s\<lparr>buf := put_at (pos s) (take ?c p) (buf s), pos := pos s + ?c\<rparr>"
  have len: "length (buf s) = n" using s by simp
  have put: "put_at (pos s) (take ?c p) (buf s)
      = [pt, 0, a, b, 0, 0, number, 0] @ put_at (pos s - 8) (take ?c p) rest"
    using s(1,5) put_at_append [of "[pt, 0, a, b, 0, 0, number, 0]" "pos s"] by (simp add: numeral_eq_Suc)
  have w: "writing n pt before (data @ take ?c p) ?s"
  proof (rule writingI)
    show "buf ?s = [pt, 0, a, b, 0, 0, number, 0] @ put_at (pos s - 8) (take ?c p) rest"
      using put by simp
    have "length (put_at (pos s - 8) (take ?c p) rest) = length rest"
      using s by (simp add: put_at_def)
    then show "8 + length (put_at (pos s - 8) (take ?c p) rest) = n" using s by simp
    have "take (pos s + ?c - 8) (put_at (pos s - 8) (take ?c p) rest) = take (pos s - 8) rest @ take ?c p"
      using s by (simp add: put_at_def)
    then show "data @ take ?c p = sent @ take (pos ?s - 8) (put_at (pos s - 8) (take ?c p) rest)"
      using s by simp
  qed (use s in simp_all)
  have step: "write_loop (Suc fuel) nn p s = (if ?c = length p then (Ret (nn + ?c, None), ?s)
      else bindG flush (\<lambda>err. if err \<noteq> None then ret (nn + ?c, err)
             else write_loop fuel (nn + ?c) (drop ?c p)) ?s)"
  proof -
    have "pos s + ?c < 65536" using s(4,6) by simp
    then show ?thesis using len s(6) by (simp add: Let_def)
  qed
  show ?case
  proof (cases "?c = length p")
    case True
    with step w show ?thesis by simp
  next
    case False
    then have full: "pos ?s = n" "8 < pos ?s" using s by auto
    from flush_writing [OF w full(2)] obtain s' where
      s': "flush ?s = (Ret None, s')" "writing n pt before (data @ take ?c p) s'" "pos s' = 8" by blast
    have "length (drop ?c p) + (if pos s' = n then 1 else 0) < fuel"
      using Suc.prems(2) False s s'(3) by (auto split: if_splits)
    from Suc.IH [OF s'(2) this, of "nn + ?c"] False step s'(1) show ?thesis
      by (auto simp: bindG_apply)
  qed
qed simp

lemma Write_writing:
  "writing n pt before data s \<Longrightarrow>
   \<exists>s'. Write p s = (Ret (length p, None), s') \<and> writing n pt before (data @ p) s'"
  using write_loop_writing [of n pt before data s p "write_fuel p s" 0] by (simp add: Write_def write_fuel_def)

lemma BeginPacket_writing:
  assumes "length (buf s) = n" and "8 < n" and "n < 65536" and "afterFirst s = None"
    and "\<forall>k. writeError (transport s) k = None" and "concat (outgoing (transport s)) = before"
  shows "\<exists>s'. BeginPacket pt s = (Ret (), s') \<and> writing n pt before [] s'"
proof -
  obtain h0 h1 h2 h3 h4 h5 h6 h7 rest where b: "buf s = [h0, h1, h2, h3, h4, h5, h6, h7] @ rest"
    using assms(1,2) by (auto intro: length_8 [of "buf s"])
  let ?s = "s\<lparr>buf := [pt, 0, h2, h3, 0, 0, 1, 0] @ rest, pos := 8\<rparr>"
  have "BeginPacket pt s = (Ret (), ?s)"
    using b by (simp add: BeginPacket_def seqG_apply store_def put_at_def numeral_eq_Suc)
  moreover have "writing n pt before [] ?s"
    by (rule writingI [where out = "[]" and sent = "[]" and rest = rest]) (use assms b in \<open>auto intro: no_packets\<close>)
  ultimately show ?thesis by blast
qed

lemma FinishPacket_writing:
  assumes "writing n pt before data s"
  shows "\<exists>s' bs. FinishPacket s = (Ret None, s') \<and> concat (outgoing (transport s')) = before @ bs \<and>
    message n pt bs data"
proof -
  from assms obtain a b number rest out sent where
    s: "buf s = [pt, 0, a, b, 0, 0, number, 0] @ rest" "8 + length rest = n" "8 < n" "n < 65536"
      "8 \<le> pos s" "pos s \<le> n" "afterFirst s = None" "\<forall>k. writeError (transport s) k = None"
      "concat (outgoing (transport s)) = before @ out" "packets n pt out sent"
      "data = sent @ take (pos s - 8) rest"
    by (rule writing_cases)
  define B where "B = put_at 2 (be_bytes 2 (pos s)) (put_at 1 [1] (buf s))"
  have len: "length (buf s) = n" "length (put_at 1 [1] (buf s)) = n" "length B = n"
    using s(1,2) by (simp_all add: B_def put_at_def)
  have one: "put_at 1 [1] (buf s) = [pt, 1, a, b, 0, 0, number, 0] @ rest"
    using s(1) by (simp add: put_at_def)
  have "store 1 [1] s = (Ret (), s\<lparr>buf := put_at 1 [1] (buf s)\<rparr>)"
    "store 2 (be_bytes 2 (pos s)) (s\<lparr>buf := put_at 1 [1] (buf s)\<rparr>) = (Ret (), s\<lparr>buf := B\<rparr>)"
    using len s(3) by (simp_all add: store_def B_def)
  then have "\<exists>s'. FinishPacket s = (Ret None, s') \<and>
      outgoing (transport s') = outgoing (transport s) @ [take (pos s) B]"
    using len s(6,7,8) by (simp add: FinishPacket_def bindG_apply seqG_apply write_packet_def
        transport_Write_def run_afterFirst_def)
  moreover have "message n pt (out @ take (pos s) B) data"
  proof -
    have "take (pos s) B = packet_header pt 1 number (8 + length (take (pos s - 8) rest)) @
        take (pos s - 8) rest"
      using packet_text [of "pos s" rest pt 1] one s(2,5,6) by (simp add: B_def)
    moreover have "message n pt (packet_header pt 1 number (8 + length (take (pos s - 8) rest)) @
        take (pos s - 8) rest) (take (pos s - 8) rest)"
      using s(2,5,6) by (intro last_packet) simp
    ultimately show ?thesis using packets_message [OF s(10)] s(11) by simp
  qed
  ultimately show ?thesis using s(9) by auto
qed

section \<open>Reading a message\<close>

text \<open>The reader when the rest of the current message is \<open>data\<close>, with \<open>rest\<close> after it.\<close>

definition reading :: "octet list \<Rightarrow> octet list \<Rightarrow> tdsBuffer \<Rightarrow> bool" where
  "reading data rest s \<longleftrightarrow>
     8 \<le> pos s \<and> pos s \<le> bsize s \<and> bsize s \<le> length (buf s) \<and> length (buf s) < 65536 \<and>
     (if final s then data = drop (pos s) (take (bsize s) (buf s)) \<and> incoming (transport s) = rest
      else \<exists>bs data' pt. message (length (buf s)) pt bs data' \<and> incoming (transport s) = bs @ rest \<and>
             data = drop (pos s) (take (bsize s) (buf s)) @ data')"

lemma readNextPacket_packet:
  assumes "incoming (transport s) = packet_header pt st i (8 + length body) @ body @ rest"
    and "8 + length body \<le> length (buf s)" and "length (buf s) < 65536"
  shows "\<exists>s'. readNextPacket s = (Ret None, s') \<and> packet_type s' = pt \<and> final s' = (st \<noteq> 0) \<and>
    pos s' = 8 \<and> bsize s' = 8 + length body \<and> length (buf s') = length (buf s) \<and>
    drop 8 (take (bsize s') (buf s')) = body \<and> incoming (transport s') = rest"
proof -
  let ?h = "packet_header pt st i (8 + length body)"
  have head: "transport_ReadFull 8 (transport s) = (Inr ?h, transport s\<lparr>incoming := body @ rest\<rparr>)"
    using assms(1) by (simp add: transport_ReadFull_def)
  have sz: "(8 + length body) mod 65536 = 8 + length body"
    using assms(2,3) by simp
  have body: "transport_ReadFull (length body) (transport s\<lparr>incoming := body @ rest\<rparr>)
      = (Inr body, transport s\<lparr>incoming := rest\<rparr>)"
    by (simp add: transport_ReadFull_def)
  show ?thesis
    using assms(2) by (simp add: readNextPacket_def bindG_apply seqG_apply on_transport_run head sz body
        Let_def store_def put_at_def)
qed

lemma readNextPacket_message:
  assumes "message n pt bs data" and "incoming (transport s) = bs @ rest"
    and "n = length (buf s)" and "n < 65536"
  shows "\<exists>s'. readNextPacket s = (Ret None, s') \<and> packet_type s' = pt \<and> reading data rest s' \<and>
    length (buf s') = n \<and> (data \<noteq> [] \<longrightarrow> pos s' < bsize s') \<and> (data = [] \<longrightarrow> final s' \<and> pos s' = bsize s')"
  using assms(1)
proof cases
  case (last_packet i)
  with assms readNextPacket_packet [of s pt 1 i data rest] obtain s' where
    "readNextPacket s = (Ret None, s')" "packet_type s' = pt" "final s'" "pos s' = 8"
    "bsize s' = 8 + length data" "length (buf s') = length (buf s)"
    "drop 8 (take (bsize s') (buf s')) = data" "incoming (transport s') = rest" by auto
  with last_packet(2) assms(3,4) show ?thesis by (auto simp: reading_def)
next
  case (more_packets bs' data' body i)
  with assms readNextPacket_packet [of s pt 0 i body "bs' @ rest"] obtain s' where
    "readNextPacket s = (Ret None, s')" "packet_type s' = pt" "\<not> final s'" "pos s' = 8"
    "bsize s' = 8 + length body" "length (buf s') = length (buf s)"
    "drop 8 (take (bsize s') (buf s')) = body" "incoming (transport s') = bs' @ rest" by auto
  with more_packets assms(3,4) show ?thesis by (auto simp: reading_def)
qed

lemma more_data_reading:
  assumes "reading data rest s" and "data \<noteq> []"
  shows "\<exists>s'. more_data s = (Ret None, s') \<and> reading data rest s' \<and> pos s' < bsize s'"
proof (cases "pos s = bsize s")
  case True
  with assms obtain bs pt where
    m: "\<not> final s" "message (length (buf s)) pt bs data" "incoming (transport s) = bs @ rest"
    by (auto simp: reading_def split: if_splits)
  have "length (buf s) < 65536" using assms(1) by (simp add: reading_def)
  from readNextPacket_message [OF m(2,3) refl this] obtain s' where
    "readNextPacket s = (Ret None, s')" "reading data rest s'" "pos s' < bsize s'"
    using assms(2) by blast
  with True m(1) show ?thesis by (simp add: more_data_def)
next
  case False
  with assms(1) have "pos s < bsize s" by (simp add: reading_def)
  with assms(1) show ?thesis by (simp add: more_data_def)
qed

lemma drop_take_split:
  "p \<le> q \<Longrightarrow> q \<le> length b \<Longrightarrow> c \<le> q - p \<Longrightarrow>
   drop p (take q b) = take c (drop p b) @ drop (p + c) (take q b)"
  by (metis (no_types) append_take_drop_id drop_drop drop_take min.absorb1 take_take add.commute)

lemma buf_Read_reading:
  assumes "reading data rest s" and "data \<noteq> []" and "0 < k"
  shows "\<exists>bs s'. buf_Read k s = (Ret (Inr bs), s') \<and> bs \<noteq> [] \<and> length bs \<le> k \<and> length bs \<le> length data \<and>
    bs = take (length bs) data \<and> reading (drop (length bs) data) rest s'"
proof -
  from more_data_reading [OF assms(1,2)] obtain u where
    u: "more_data s = (Ret None, u)" "reading data rest u" "pos u < bsize u" by blast
  let ?c = "min k (bsize u - pos u)"
  let ?bs = "take ?c (drop (pos u) (buf u))"
  have lens: "pos u \<le> bsize u" "bsize u \<le> length (buf u)" "pos u + ?c < 65536" "length ?bs = ?c" "0 < ?c" "pos u + ?c \<le> bsize u"
    using u(2,3) assms(3) by (auto simp: reading_def)
  have run: "buf_Read k s = (Ret (Inr ?bs), u\<lparr>pos := pos u + ?c\<rparr>)"
    using u(1) lens(1,2,3) by (simp add: buf_Read_def bindG_apply seqG_apply Let_def)
  have split: "drop (pos u) (take (bsize u) (buf u)) = ?bs @ drop (pos u + ?c) (take (bsize u) (buf u))"
    by (rule drop_take_split) (use lens in auto)
  have "\<exists>data'. data = ?bs @ data' \<and> reading data' rest (u\<lparr>pos := pos u + ?c\<rparr>)"
  proof (cases "final u")
    case True
    with u(2) split lens show ?thesis
      by (intro exI [of _ "drop (pos u + ?c) (take (bsize u) (buf u))"]) (simp add: reading_def)
  next
    case False
    with u(2) obtain bs data' pt where "message (length (buf u)) pt bs data'"
      "incoming (transport u) = bs @ rest" "data = drop (pos u) (take (bsize u) (buf u)) @ data'"
      by (auto simp: reading_def)
    with False u(2) split lens show ?thesis
      by (intro exI [of _ "drop (pos u + ?c) (take (bsize u) (buf u)) @ data'"]) (auto simp: reading_def)
  qed
  then obtain data' where d: "data = ?bs @ data'" "reading data' rest (u\<lparr>pos := pos u + ?c\<rparr>)" by blast
  have "?bs \<noteq> []" using lens(4,5) by auto
  with run d lens(4,5) show ?thesis
    by (intro exI [of _ ?bs] exI [of _ "u\<lparr>pos := pos u + ?c\<rparr>"]) (metis append_eq_conv_conj le_add1 length_append min.cobounded1)
qed

lemma read_n_reading:
  assumes "reading data rest s" and "n \<le> length data"
  shows "\<exists>s'. read_n n acc s = (Ret (acc @ take n data, None), s') \<and> reading (drop n data) rest s'"
  using assms
proof (induction n arbitrary: acc data s rule: less_induct)
  case (less n)
  show ?case
  proof (cases "n = 0")
    case False
    with less.prems have "data \<noteq> []" "0 < n" by auto
    from buf_Read_reading [OF less.prems(1) this] obtain bs s' where
      r: "buf_Read n s = (Ret (Inr bs), s')" "bs \<noteq> []" "length bs \<le> n" "length bs \<le> length data"
        "bs = take (length bs) data" "reading (drop (length bs) data) rest s'" by blast
    have "n - length bs < n" "n - length bs \<le> length (drop (length bs) data)"
      using r(2,3) less.prems(2) False by auto
    from less.IH [OF this(1) r(6) this(2), of "acc @ bs"] obtain t where
      t: "read_n (n - length bs) (acc @ bs) s'
          = (Ret ((acc @ bs) @ take (n - length bs) (drop (length bs) data), None), t)"
        "reading (drop (n - length bs) (drop (length bs) data)) rest t" by blast
    have "take n data = bs @ take (n - length bs) (drop (length bs) data)"
      using r(3,5) by (metis add_diff_inverse_nat not_le take_add)
    with r t False show ?thesis by (simp add: read_n.simps [of n])
  qed (use less.prems in \<open>simp add: read_n.simps\<close>)
qed

lemma io_ReadFull_reading:
  "reading data rest s \<Longrightarrow> n \<le> length data \<Longrightarrow>
   \<exists>s'. io_ReadFull n s = (Ret (Inr (take n data)), s') \<and> reading (drop n data) rest s'"
  using read_n_reading [of data rest s n "[]"] by (auto simp: io_ReadFull_def bindG_apply)

lemma BeginRead_message:
  assumes "message n pt bs data" and "incoming (transport s) = bs @ rest"
    and "n = length (buf s)" and "n < 65536"
  shows "\<exists>s'. BeginRead s = (Ret (Inr pt), s') \<and> reading data rest s'"
  using readNextPacket_message [OF assms] by (auto simp: BeginRead_def bindG_apply)

text \<open>A bigger buffer reads what a smaller one wrote.\<close>

lemma message_mono: "message n pt bs data \<Longrightarrow> n \<le> n' \<Longrightarrow> message n' pt bs data"
  by (induction rule: message.induct) (auto intro: message.intros)

text \<open>Several writes.\<close>

fun Writes :: "octet list list \<Rightarrow> (tdsBuffer, unit) go" where
  "Writes [] = ret ()"
| "Writes (p # ps) = bindG (Write p) (\<lambda>_. Writes ps)"

lemma Writes_writing:
  "writing n pt before data s \<Longrightarrow>
   \<exists>s'. Writes ps s = (Ret (), s') \<and> writing n pt before (data @ concat ps) s'"
proof (induction ps arbitrary: data s)
  case (Cons p ps)
  from Write_writing [OF Cons.prems] obtain u where
    "Write p s = (Ret (length p, None), u)" "writing n pt before (data @ p) u" by blast
  with Cons.IH [of "data @ p" u] show ?case by (auto simp: bindG_apply)
qed auto

end
