(* ===== verification/Ucs2.thy ===== *)
theory Ucs2
  imports Utf8 Bytes
begin

text \<open>
  The text encoding of the protocol (\<open>tds.go\<close>): UTF-16 as package \<open>unicode/utf16\<close> makes it,
  in little-endian bytes, and the password that is mangled in it.
\<close>

section \<open>UTF-16\<close>

definition utf16_units :: "nat \<Rightarrow> nat list" where
  "utf16_units r =
     (if r < 0x10000 then [if 0xD800 \<le> r \<and> r < 0xE000 then 0xFFFD else r]
      else if r \<le> 0x10FFFF
      then [0xD800 + (r - 0x10000) div 1024, 0xDC00 + (r - 0x10000) mod 1024]
      else [0xFFFD])"

definition utf16_Encode :: "nat list \<Rightarrow> nat list" where
  "utf16_Encode rs = concat (map utf16_units rs)"

fun utf16_Decode :: "nat list \<Rightarrow> nat list" where
  "utf16_Decode [] = []"
| "utf16_Decode (u # us) =
     (if 0xD800 \<le> u \<and> u < 0xDC00 \<and> us \<noteq> [] \<and> 0xDC00 \<le> hd us \<and> hd us < 0xE000
      then ((u - 0xD800) * 1024 + (hd us - 0xDC00) + 0x10000) # utf16_Decode (tl us)
      else (if 0xD800 \<le> u \<and> u < 0xE000 then 0xFFFD else u) # utf16_Decode us)"

lemma utf16_units_less: "u \<in> set (utf16_units r) \<Longrightarrow> u < 65536"
  by (auto simp: utf16_units_def split: if_splits)

lemma utf16_Encode_less: "u \<in> set (utf16_Encode rs) \<Longrightarrow> u < 65536"
  by (auto simp: utf16_Encode_def utf16_units_less)

lemma utf16_Decode_units: "valid_rune r \<Longrightarrow> utf16_Decode (utf16_units r @ us) = r # utf16_Decode us"
  by (auto simp: utf16_units_def valid_rune_def)

lemma utf16_round_trip: "list_all valid_rune rs \<Longrightarrow> utf16_Decode (utf16_Encode rs) = rs"
  by (induction rs) (simp_all add: utf16_Encode_def utf16_Decode_units)

section \<open>Strings as bytes\<close>

definition str2ucs2 :: "string \<Rightarrow> octet list" where
  "str2ucs2 s = concat (map (le_bytes 2) (utf16_Encode (runes s)))"

fun byte_pairs :: "octet list \<Rightarrow> nat list" where
  "byte_pairs (a # b # bs) = le_value [a, b] # byte_pairs bs"
| "byte_pairs _ = []"

definition ucs22str :: "octet list \<Rightarrow> go_error + string" where
  "ucs22str s =
     (if length s mod 2 \<noteq> 0
      then Inl (OtherError (''Illegal UCS2 string length: '' @ Itoa (int (length s))))
      else Inr (string_of_runes (utf16_Decode (byte_pairs s))))"

definition manglePassword :: "string \<Rightarrow> octet list" where
  "manglePassword password =
     map (\<lambda>ch. ((push_bit 4 ch AND 0xff) OR drop_bit 4 ch) XOR 0xA5) (str2ucs2 password)"

lemma length_pairs: "length (concat (map (le_bytes 2) us)) = 2 * length us"
  by (induction us) simp_all

lemma byte_pairs_le_bytes: "(\<forall>u \<in> set us. u < 65536) \<Longrightarrow> byte_pairs (concat (map (le_bytes 2) us)) = us"
proof (induction us)
  case (Cons u us)
  then have "le_value (le_bytes 2 u) = u" by (simp only: le_value_bytes) simp
  with Cons show ?case by (simp add: numeral_2_eq_2)
qed simp

lemma length_str2ucs2: "length (str2ucs2 s) = 2 * length (utf16_Encode (runes s))"
  by (simp add: str2ucs2_def length_pairs)

lemma ucs2_round_trip: "utf8 s \<Longrightarrow> ucs22str (str2ucs2 s) = Inr s"
  by (simp add: ucs22str_def length_str2ucs2)
     (simp add: str2ucs2_def byte_pairs_le_bytes utf16_Encode_less utf16_round_trip runes_valid
        string_of_runes_runes)

definition unmangle :: "octet \<Rightarrow> octet" where
  "unmangle x = (let ch = x XOR 0xA5 in (push_bit 4 ch AND 0xff) OR drop_bit 4 ch)"

lemma unmangle_all:
  "list_all (\<lambda>k. unmangle (((push_bit 4 (of_nat k) AND 0xff) OR drop_bit 4 (of_nat k)) XOR 0xA5) = of_nat k)
     [0..<256]"
  by code_simp

lemma unmangle_mangled:
  "unmangle (((push_bit 4 ch AND 0xff) OR drop_bit 4 ch) XOR 0xA5) = ch"
proof -
  have "unat ch \<in> set [0..<256]" using unat_octet_less [of ch] by simp
  moreover have "of_nat (unat ch) = ch" by simp
  ultimately show ?thesis using unmangle_all unfolding list_all_iff by metis
qed

lemma unmangle_manglePassword: "map unmangle (manglePassword s) = str2ucs2 s"
  by (induction "str2ucs2 s") (simp_all add: manglePassword_def unmangle_mangled o_def)

lemma length_manglePassword: "length (manglePassword s) = length (str2ucs2 s)"
  by (simp add: manglePassword_def)

end
