(* ===== verification/Tds.thy ===== *)
theory Tds
  imports PacketFraming Ucs2 "HOL-Library.AList"
begin

text \<open>
  The requests of the protocol in go-mssqldb (\<open>tds.go\<close>): the prelogin exchange, the login
  record, the headers of a request and the SQL batch, and the readers of the short strings.
\<close>

section \<open>Writing in sequence\<close>

text \<open>Writes that are given up at the first error.\<close>

fun put_all :: "octet list list \<Rightarrow> (tdsBuffer, go_error option) go" where
  "put_all [] = ret None"
| "put_all (p # ps) = bindG (put p) (\<lambda>err. if err \<noteq> None then ret err else put_all ps)"

section \<open>Prelogin\<close>

text \<open>A map from the types of the records to their values is an association list with distinct
  keys.\<close>

type_synonym prelogin = "(octet \<times> octet list) list"

definition field_of :: "prelogin \<Rightarrow> octet \<Rightarrow> octet list" where
  "field_of m k = (case map_of m k of Some v \<Rightarrow> v | None \<Rightarrow> [])"

fun write_records :: "prelogin \<Rightarrow> octet list \<Rightarrow> nat \<Rightarrow> (tdsBuffer, go_error option) go" where
  "write_records m [] offset = ret None"
| "write_records m (k # ks) offset =
     (let sz = wrap16 (length (field_of m k))
      in bindG (WriteByte k) (\<lambda>err. if err \<noteq> None then ret err
         else bindG (put_all [be_bytes 2 offset, be_bytes 2 sz]) (\<lambda>err. if err \<noteq> None then ret err
         else write_records m ks (wrap16 (offset + sz)))))"

fun write_values :: "octet list list \<Rightarrow> (tdsBuffer, go_error option) go" where
  "write_values [] = ret None"
| "write_values (v # vs) =
     bindG (Write v) (\<lambda>(written, err).
       if err \<noteq> None then ret err
       else if written \<noteq> length v
       then ret (Some (OtherError (''Write method didn'' @ [CHR 0x27] @ ''t write the whole value'')))
       else write_values vs)"

definition writePrelogin :: "prelogin \<Rightarrow> (tdsBuffer, go_error option) go" where
  "writePrelogin m =
     (let keys = sort (map fst m)
      in seqG (BeginPacket 18)
        (bindG (write_records m keys (wrap16 (5 * length m + 1))) (\<lambda>err. if err \<noteq> None then ret err
         else bindG (WriteByte 0xff) (\<lambda>err. if err \<noteq> None then ret err
         else bindG (write_values (map (field_of m) keys)) (\<lambda>err. if err \<noteq> None then ret err
         else FinishPacket)))))"

text \<open>
  \<open>ioutil.ReadAll\<close>: portions of 512 bytes until the message ends.  Each takes at least a byte
  of a packet or a packet from the transport, so what is unread is fuel enough.
\<close>

fun read_all :: "nat \<Rightarrow> octet list \<Rightarrow> (tdsBuffer, go_error + octet list) go" where
  "read_all 0 acc s = (Panicked OutOfFuel, s)"
| "read_all (Suc fuel) acc s =
     bindG (buf_Read 512) (\<lambda>r.
       case r of
         Inl e \<Rightarrow> ret (if e = io_EOF then Inr acc else Inl e)
       | Inr bs \<Rightarrow> read_all fuel (acc @ bs)) s"

definition ReadAll :: "(tdsBuffer, go_error + octet list) go" where
  "ReadAll = readG (\<lambda>s. read_all (unread s + 2) [])"

text \<open>
  The records of the reply.  A slice expression may go up to the capacity of the slice:
  \<open>spare\<close> has the bytes between its length and its capacity.
\<close>

function parse_records ::
  "octet list \<Rightarrow> octet list \<Rightarrow> nat \<Rightarrow> prelogin \<Rightarrow> prelogin outcome" where
  "parse_records spare b offset results =
     (if length b \<le> offset then Panicked IndexOutOfRange
      else if b ! offset = 0xff then Ret results
      else if length b < offset + 5 then Panicked IndexOutOfRange
      else (let rec_offset = be_value (take 2 (drop (offset + 1) b));
                rec_end = wrap16 (rec_offset + be_value (take 2 (drop (offset + 3) b)))
            in if rec_end < rec_offset \<or> length (b @ spare) < rec_end then Panicked IndexOutOfRange
               else parse_records spare b (offset + 5)
                      (AList.update (b ! offset) (drop rec_offset (take rec_end (b @ spare))) results)))"
  by pat_completeness auto
termination
  by (relation "measure (\<lambda>(spare, b, offset, results). length b - offset)") auto

declare parse_records.simps [simp del]

definition readPrelogin :: "octet list \<Rightarrow> (tdsBuffer, go_error + prelogin) go" where
  "readPrelogin spare =
     bindG BeginRead (\<lambda>r. case r of
       Inl err \<Rightarrow> ret (Inl err)
     | Inr ptype \<Rightarrow>
         bindG ReadAll (\<lambda>r. case r of
           Inl err \<Rightarrow> ret (Inl err)
         | Inr struct_buf \<Rightarrow>
             if ptype \<noteq> 4
             then ret (Inl (OtherError ''Invalid respones, expected packet type 4, PRELOGIN RESPONSE''))
             else (\<lambda>s. (map_outcome Inr (parse_records spare struct_buf 0 []), s))))"

section \<open>Login\<close>

record login =
  TDSVersion :: "32 word"
  PacketSize :: "32 word"
  ClientProgVer :: "32 word"
  ClientPID :: "32 word"
  ConnectionID :: "32 word"
  OptionFlags1 :: octet
  OptionFlags2 :: octet
  TypeFlags :: octet
  OptionFlags3 :: octet
  ClientTimeZone :: "32 word"
  ClientLCID :: "32 word"
  HostName :: string
  UserName :: string
  Password :: string
  AppName :: string
  ServerName :: string
  CtlIntName :: string
  Language :: string
  Database :: string
  ClientID :: "octet list"
  SSPI :: "octet list"
  AtchDBFile :: string
  ChangePassword :: string

text \<open>The texts and the block behind the header, in their order.\<close>

definition login_data :: "login \<Rightarrow> octet list list" where
  "login_data l =
     [str2ucs2 (HostName l), str2ucs2 (UserName l), manglePassword (Password l), str2ucs2 (AppName l),
      str2ucs2 (ServerName l), str2ucs2 (CtlIntName l), str2ucs2 (Language l), str2ucs2 (Database l),
      SSPI l, str2ucs2 (AtchDBFile l), str2ucs2 (ChangePassword l)]"

definition rune_count :: "string \<Rightarrow> nat" where
  "rune_count s = length (runes s)"

text \<open>The offset of each, and of the end: 16-bit sums.\<close>

fun data_offsets :: "nat \<Rightarrow> octet list list \<Rightarrow> nat list" where
  "data_offsets offset [] = [offset]"
| "data_offsets offset (d # ds) = offset # data_offsets (wrap16 (offset + wrap16 (length d))) ds"

definition login_offsets :: "login \<Rightarrow> nat list" where
  "login_offsets l = data_offsets 94 (login_data l)"

text \<open>The lengths in the header are numbers of runes.\<close>

definition login_header :: "login \<Rightarrow> octet list" where
  "login_header l =
     (let off = (\<lambda>i. le_bytes 2 (login_offsets l ! i));
          len = (\<lambda>s. le_bytes 2 (rune_count s));
          u32 = (\<lambda>w. le_bytes 4 (unat w))
      in le_bytes 4 (login_offsets l ! 11) @ u32 (TDSVersion l) @ u32 (PacketSize l) @ u32 (ClientProgVer l) @
         u32 (ClientPID l) @ u32 (ConnectionID l) @
         [OptionFlags1 l, OptionFlags2 l, TypeFlags l, OptionFlags3 l] @
         u32 (ClientTimeZone l) @ u32 (ClientLCID l) @
         off 0 @ len (HostName l) @ off 1 @ len (UserName l) @ off 2 @ len (Password l) @
         off 3 @ len (AppName l) @ off 4 @ len (ServerName l) @ le_bytes 2 0 @ le_bytes 2 0 @
         off 5 @ len (CtlIntName l) @ off 6 @ len (Language l) @ off 7 @ len (Database l) @
         ClientID l @ off 8 @ le_bytes 2 (length (SSPI l)) @
         off 9 @ len (AtchDBFile l) @ off 10 @ len (ChangePassword l) @ le_bytes 4 0)"

definition sendLogin :: "login \<Rightarrow> (tdsBuffer, go_error option) go" where
  "sendLogin l =
     seqG (BeginPacket 16)
       (bindG (put_all (login_header l # login_data l)) (\<lambda>err. if err \<noteq> None then ret err else FinishPacket))"

section \<open>Short strings\<close>

definition readUcs2 :: "nat \<Rightarrow> (tdsBuffer, go_error + string) go" where
  "readUcs2 numchars =
     bindG (io_ReadFull (numchars * 2)) (\<lambda>r. ret (case r of Inl e \<Rightarrow> Inl e | Inr b \<Rightarrow> ucs22str b))"

definition buf_readUcs2 :: "nat \<Rightarrow> (tdsBuffer, string) go" where
  "buf_readUcs2 numchars =
     bindG (ReadFull (numchars * 2)) (\<lambda>b.
       case ucs22str b of Inl e \<Rightarrow> badStreamPanic e | Inr s \<Rightarrow> ret s)"

definition BVarChar :: "(tdsBuffer, string) go" where
  "BVarChar = bindG buf_byte (\<lambda>l. buf_readUcs2 (unat l))"

definition UsVarChar :: "(tdsBuffer, string) go" where
  "UsVarChar = bindG buf_uint16 (\<lambda>l. buf_readUcs2 (unat l))"

definition writeUsVarChar :: "string \<Rightarrow> (tdsBuffer, go_error option) go" where
  "writeUsVarChar s =
     (let b = str2ucs2 s; numchars = length b div 2
      in if 0xffff < numchars then go_panic (PanicString ''invalid size for US_VARCHAR'')
         else put_all [le_bytes 2 numchars, b])"

definition writeBVarChar :: "string \<Rightarrow> (tdsBuffer, go_error option) go" where
  "writeBVarChar s =
     (let b = str2ucs2 s; numchars = length b div 2
      in if 0xff < numchars then go_panic (PanicString ''invalid size for B_VARCHAR'')
         else put_all [le_bytes 1 numchars, b])"

section \<open>Requests\<close>

record headerStruct =
  hdrtype :: nat
  hdrdata :: "octet list"

text \<open>The transaction descriptor and the number of outstanding requests.\<close>

definition transDescrHdr_pack :: "64 word \<Rightarrow> 32 word \<Rightarrow> octet list" where
  "transDescrHdr_pack transDescr outstandingReqCnt =
     le_bytes 8 (unat transDescr) @ le_bytes 4 (unat outstandingReqCnt)"

definition writeAllHeaders :: "headerStruct list \<Rightarrow> (tdsBuffer, go_error option) go" where
  "writeAllHeaders headers =
     put_all (le_bytes 4 (foldl (\<lambda>totallen hdr. totallen + (4 + 2 + length (hdrdata hdr))) 4 headers) #
       concat (map (\<lambda>hdr. [le_bytes 4 (4 + 2 + length (hdrdata hdr)), le_bytes 2 (hdrtype hdr), hdrdata hdr]) headers))"

text \<open>The error of the headers is not looked at.\<close>

definition sendSqlBatch72 :: "string \<Rightarrow> headerStruct list \<Rightarrow> (tdsBuffer, go_error option) go" where
  "sendSqlBatch72 sqltext headers =
     seqG (BeginPacket 1)
       (bindG (writeAllHeaders headers) (\<lambda>_.
        bindG (put (str2ucs2 sqltext)) (\<lambda>err. if err \<noteq> None then ret err else FinishPacket)))"

end
