(* ===== verification/Requests.thy ===== *)
theory Requests
  imports Tds "HOL-Library.Multiset"
begin

text \<open>
  What the requests put on the wire: the bytes that each of them writes, and that the readers
  get them back.
\<close>

section \<open>Sequences of writes\<close>

lemma put_writing:
  "writing n pt before data s \<Longrightarrow> \<exists>s'. put p s = (Ret None, s') \<and> writing n pt before (data @ p) s'"
  using Write_writing [of n pt before data s p] by (auto simp: put_def bindG_apply)

lemma put_all_writing:
  "writing n pt before data s \<Longrightarrow> \<exists>s'. put_all ps s = (Ret None, s') \<and> writing n pt before (data @ concat ps) s'"
proof (induction ps arbitrary: data s)
  case (Cons p ps)
  from put_writing [OF Cons.prems] obtain u where
    "put p s = (Ret None, u)" "writing n pt before (data @ p) u" by blast
  with Cons.IH [of "data @ p" u] show ?case by (auto simp: bindG_apply)
qed auto

lemma WriteByte_writing:
  assumes "writing n pt before data s"
  shows "\<exists>s'. WriteByte b s = (Ret None, s') \<and> writing n pt before (data @ [b]) s'"
proof -
  have "\<exists>u. (if pos s = length (buf s) then flush else ret None) s = (Ret None, u) \<and>
      writing n pt before data u \<and> pos u < n"
    using flush_writing [OF assms] assms by (auto simp: writing_def)
  then obtain u where u: "(if pos s = length (buf s) then flush else ret None) s = (Ret None, u)"
    "writing n pt before data u" "pos u < n" by blast
  have lens: "length (buf u) = n" "n < 65536" using u(2) by (auto simp: writing_def)
  then have "WriteByte b s = (Ret None, u\<lparr>buf := put_at (pos u) [b] (buf u), pos := pos u + 1\<rparr>)"
    using u by (simp add: WriteByte_def bindG_apply seqG_apply store_def)
  moreover have "write_loop 1 0 [b] u = (Ret (1, None), u\<lparr>buf := put_at (pos u) [b] (buf u), pos := pos u + 1\<rparr>)"
    using u(3) lens by simp
  ultimately show ?thesis
    using write_loop_writing [OF u(2), of "[b]" 2 0] u(3) lens by (auto simp: numeral_2_eq_2)
qed

section \<open>Reading to the end\<close>

lemma message_length: "message n pt bs data \<Longrightarrow> length data + 8 \<le> length bs"
  by (induction rule: message.induct) auto

lemma reading_unread: "reading data rest s \<Longrightarrow> length data \<le> unread s"
  by (auto simp: reading_def unread_def split: if_splits dest!: message_length)

lemma read_all_empty:
  assumes "reading [] rest s"
  shows "\<exists>s'. read_all (Suc (Suc fuel)) acc s = (Ret (Inr acc), s')"
proof (cases "final s")
  case True
  with assms have "pos s = bsize s" by (auto simp: reading_def)
  with True show ?thesis by (simp add: bindG_apply buf_Read_def more_data_def)
next
  case False
  with assms obtain bs pt where m: "message (length (buf s)) pt bs []" "incoming (transport s) = bs @ rest"
    "pos s = bsize s" "length (buf s) < 65536" by (auto simp: reading_def)
  from readNextPacket_message [OF m(1,2) refl m(4)] obtain u where
    "readNextPacket s = (Ret None, u)" "final u" "pos u = bsize u" "reading [] rest u" by auto
  with False m(3) have "buf_Read 512 s = (Ret (Inr []), u\<lparr>pos := wrap16 (bsize u)\<rparr>)" "bsize u < 65536"
    by (auto simp: buf_Read_def bindG_apply seqG_apply more_data_def reading_def)
  with \<open>final u\<close> show ?thesis by (simp add: bindG_apply) (simp add: buf_Read_def bindG_apply more_data_def)
qed

lemma read_all_reading:
  "reading data rest s \<Longrightarrow> length data + 2 \<le> fuel \<Longrightarrow> \<exists>s'. read_all fuel acc s = (Ret (Inr (acc @ data)), s')"
proof (induction fuel arbitrary: data s acc)
  case (Suc fuel)
  show ?case
  proof (cases "data = []")
    case True
    with Suc.prems obtain k where "fuel = Suc k" by (cases fuel) auto
    with read_all_empty [of rest s k acc] Suc.prems(1) True show ?thesis by simp
  next
    case False
    from buf_Read_reading [OF Suc.prems(1) False, of 512] obtain bs u where
      u: "buf_Read 512 s = (Ret (Inr bs), u)" "bs \<noteq> []" "length bs \<le> length data"
        "bs = take (length bs) data" "reading (drop (length bs) data) rest u" by auto
    have "length (drop (length bs) data) + 2 \<le> fuel" using u(2,3) Suc.prems(2) by (cases bs) auto
    from Suc.IH [OF u(5) this, of "acc @ bs"] obtain t where
      "read_all fuel (acc @ bs) u = (Ret (Inr ((acc @ bs) @ drop (length bs) data)), t)" by blast
    moreover have "bs @ drop (length bs) data = data" using u(4) by (metis append_take_drop_id)
    ultimately show ?thesis using u(1) by (simp add: bindG_apply)
  qed
qed simp

lemma ReadAll_reading: "reading data rest s \<Longrightarrow> \<exists>s'. ReadAll s = (Ret (Inr data), s')"
  using read_all_reading [of data rest s "unread s + 2" "[]"] reading_unread [of data rest s]
  by (simp add: ReadAll_def)

section \<open>The prelogin record\<close>

fun record_bytes :: "prelogin \<Rightarrow> octet list \<Rightarrow> nat \<Rightarrow> octet list" where
  "record_bytes m [] offset = []"
| "record_bytes m (k # ks) offset =
     k # be_bytes 2 offset @ be_bytes 2 (wrap16 (length (field_of m k)))
       @ record_bytes m ks (wrap16 (offset + wrap16 (length (field_of m k))))"

definition prelogin_bytes :: "prelogin \<Rightarrow> octet list" where
  "prelogin_bytes m =
     record_bytes m (sort (map fst m)) (wrap16 (5 * length m + 1)) @ [0xff]
       @ concat (map (field_of m) (sort (map fst m)))"

lemma write_records_writing:
  "writing n pt before data s \<Longrightarrow>
   \<exists>s'. write_records m ks offset s = (Ret None, s') \<and> writing n pt before (data @ record_bytes m ks offset) s'"
proof (induction ks arbitrary: offset data s)
  case (Cons k ks)
  let ?sz = "wrap16 (length (field_of m k))"
  from WriteByte_writing [OF Cons.prems, of k] obtain u where
    u: "WriteByte k s = (Ret None, u)" "writing n pt before (data @ [k]) u" by blast
  from put_all_writing [OF u(2), of "[be_bytes 2 offset, be_bytes 2 ?sz]"] obtain v where
    v: "put_all [be_bytes 2 offset, be_bytes 2 ?sz] u = (Ret None, v)"
      "writing n pt before (data @ k # be_bytes 2 offset @ be_bytes 2 ?sz) v" by auto
  from Cons.IH [OF v(2), of "wrap16 (offset + ?sz)"] u(1) v(1) show ?case
    by (simp add: bindG_apply Let_def del: put_all.simps)
qed auto

lemma write_values_writing:
  "writing n pt before data s \<Longrightarrow>
   \<exists>s'. write_values vs s = (Ret None, s') \<and> writing n pt before (data @ concat vs) s'"
proof (induction vs arbitrary: data s)
  case (Cons v vs)
  from Write_writing [OF Cons.prems, of v] obtain u where
    "Write v s = (Ret (length v, None), u)" "writing n pt before (data @ v) u" by blast
  with Cons.IH [of "data @ v" u] show ?case by (auto simp: bindG_apply)
qed auto

text \<open>A buffer that is ready for a message, as \<open>newTdsBuffer\<close> makes it.\<close>

definition ready :: "nat \<Rightarrow> octet list \<Rightarrow> tdsBuffer \<Rightarrow> bool" where
  "ready n before s \<longleftrightarrow> length (buf s) = n \<and> 8 < n \<and> n < 65536 \<and> afterFirst s = None \<and>
     (\<forall>k. writeError (transport s) k = None) \<and> concat (outgoing (transport s)) = before"

lemma ready_BeginPacket: "ready n before s \<Longrightarrow> \<exists>s'. BeginPacket pt s = (Ret (), s') \<and> writing n pt before [] s'"
  by (rule BeginPacket_writing) (auto simp: ready_def)

lemma writePrelogin_message:
  assumes "ready n before s"
  shows "\<exists>s' bs. writePrelogin m s = (Ret None, s') \<and> concat (outgoing (transport s')) = before @ bs \<and>
    message n 18 bs (prelogin_bytes m)"
proof -
  let ?ks = "sort (map fst m)"
  from ready_BeginPacket [OF assms, of 18] obtain s1 where
    s1: "BeginPacket 18 s = (Ret (), s1)" "writing n 18 before [] s1" by blast
  from write_records_writing [OF s1(2), of m ?ks "wrap16 (5 * length m + 1)"] obtain s2 where
    s2: "write_records m ?ks (wrap16 (5 * length m + 1)) s1 = (Ret None, s2)"
      "writing n 18 before (record_bytes m ?ks (wrap16 (5 * length m + 1))) s2" by auto
  from WriteByte_writing [OF s2(2), of "0xff"] obtain s3 where
    s3: "WriteByte 0xff s2 = (Ret None, s3)"
      "writing n 18 before (record_bytes m ?ks (wrap16 (5 * length m + 1)) @ [0xff]) s3" by blast
  from write_values_writing [OF s3(2), of "map (field_of m) ?ks"] obtain s4 where
    s4: "write_values (map (field_of m) ?ks) s3 = (Ret None, s4)"
      "writing n 18 before (prelogin_bytes m) s4" by (auto simp: prelogin_bytes_def)
  have "writePrelogin m s = FinishPacket s4"
    using s1(1) s2(1) s3(1) s4(1) by (simp add: writePrelogin_def Let_def seqG_apply bindG_apply)
  with FinishPacket_writing [OF s4(2)] show ?thesis by simp
qed

lemma length_record_bytes: "length (record_bytes m ks offset) = 5 * length ks"
  by (induction ks arbitrary: offset) simp_all

lemma parse_records_next:
  assumes "\<not> length b \<le> i" and "b ! i = k" and "k \<noteq> 0xff" and "\<not> length b < i + 5"
    and "be_value (take 2 (drop (i + 1) b)) = off" and "be_value (take 2 (drop (i + 3) b)) = l"
    and "wrap16 (off + l) = off + l" and "\<not> length (b @ spare) < off + l"
    and "drop off (take (off + l) (b @ spare)) = v"
  shows "parse_records spare b i res = parse_records spare b (i + 5) (AList.update k v res)"
  by (subst parse_records.simps) (use assms in \<open>simp add: Let_def\<close>)

text \<open>The records that are left to parse, behind those that are done.\<close>

lemma parse_records_bytes:
  assumes "offset = length bs + 5 * length ks + 1 + length vals"
    and "length bs + 5 * length ks + 1 + length vals + length (concat (map (field_of m) ks)) < 65536"
    and "0xff \<notin> set ks"
  shows "parse_records spare
      (bs @ record_bytes m ks offset @ [0xff] @ vals @ concat (map (field_of m) ks)) (length bs) res
    = Ret (foldl (\<lambda>res k. AList.update k (field_of m k) res) res ks)"
  using assms
proof (induction ks arbitrary: bs offset vals res)
  case Nil
  then show ?case by (simp add: parse_records.simps)
next
  case (Cons k ks)
  let ?v = "field_of m k" and ?rest = "concat (map (field_of m) ks)"
  let ?head = "bs @ k # be_bytes 2 offset @ be_bytes 2 (length ?v)"
  let ?tail = "record_bytes m ks (offset + length ?v) @ [0xff] @ vals @ ?v @ ?rest"
  let ?b = "bs @ record_bytes m (k # ks) offset @ [0xff] @ vals @ concat (map (field_of m) (k # ks))"
  have small: "offset < 65536" "length ?v < 65536" "offset + length ?v < 65536"
    using Cons.prems(1,2) by simp_all
  then have b: "?b = ?head @ ?tail" by simp
  have lens: "length ?b = offset + length ?v + length ?rest"
    using Cons.prems(1) by (simp add: length_record_bytes)
  have off: "be_value (take 2 (drop (length bs + 1) ?b)) = offset"
    "be_value (take 2 (drop (length bs + 3) ?b)) = length ?v"
    unfolding b using small by (simp_all add: numeral_3_eq_3)
  have val: "drop offset (take (offset + length ?v) (?b @ spare)) = ?v"
  proof -
    have cut: "drop i (take (i + length v) ((xs @ v @ ys) @ zs)) = v" if "length xs = i"
      for i and v xs ys zs :: "octet list" using that by auto
    have "?b = (bs @ record_bytes m (k # ks) offset @ [0xff] @ vals) @ ?v @ ?rest" by simp
    moreover have "length (bs @ record_bytes m (k # ks) offset @ [0xff] @ vals) = offset"
      using Cons.prems(1) by (simp add: length_record_bytes)
    ultimately show ?thesis by (simp only: cut)
  qed
  have "parse_records spare ?b (length bs) res
      = parse_records spare ?b (length bs + 5) (AList.update k ?v res)"
  proof (rule parse_records_next [OF _ _ _ _ off _ _ val])
    show "?b ! length bs = k" "k \<noteq> 0xff" "\<not> length ?b \<le> length bs" "\<not> length ?b < length bs + 5"
      using Cons.prems(1,3) lens by (auto simp: nth_append)
    show "wrap16 (offset + length ?v) = offset + length ?v" "\<not> length (?b @ spare) < offset + length ?v"
      using small lens by simp_all
  qed
  also have "\<dots> = parse_records spare (?head @ ?tail) (length ?head) (AList.update k ?v res)"
    by (simp only: b) simp
  also have "?head @ ?tail
      = ?head @ record_bytes m ks (offset + length ?v) @ [0xff] @ (vals @ ?v) @ concat (map (field_of m) ks)"
    by simp
  also have "parse_records spare \<dots> (length ?head) (AList.update k ?v res)
      = Ret (foldl (\<lambda>res k. AList.update k (field_of m k) res) (AList.update k ?v res) ks)"
    by (rule Cons.IH) (use Cons.prems in auto)
  finally show ?case by simp
qed

lemma map_of_keys: "map_of (map (\<lambda>k. (k, f k)) ks) k = (if k \<in> set ks then Some (f k) else None)"
  by (induction ks) auto

lemma foldl_update_new:
  "distinct (map fst res @ ks) \<Longrightarrow>
   foldl (\<lambda>res k. AList.update k (f k) res) res ks = res @ map (\<lambda>k. (k, f k)) ks"
proof (induction ks arbitrary: res)
  case (Cons k ks)
  have "AList.update k (f k) res = res @ [(k, f k)]"
    using Cons.prems by (induction res) auto
  with Cons.IH [of "res @ [(k, f k)]"] Cons.prems show ?case by simp
qed simp

lemma sum_list_sort: "sum_list (map g (sort xs)) = (sum_list (map g xs) :: nat)"
proof -
  have "mset (map g (sort xs)) = mset (map g xs)" by simp
  then show ?thesis by (metis sum_mset_sum_list)
qed

definition prelogin_ok :: "prelogin \<Rightarrow> bool" where
  "prelogin_ok m \<longleftrightarrow> distinct (map fst m) \<and> 0xff \<notin> set (map fst m) \<and>
     5 * length m + 1 + length (concat (map snd m)) < 65536"

lemma parse_prelogin_bytes:
  assumes "prelogin_ok m"
  shows "\<exists>fs. parse_records spare (prelogin_bytes m) 0 [] = Ret fs \<and> map_of fs = map_of m"
proof -
  let ?ks = "sort (map fst m)"
  have field: "(k, v) \<in> set m \<Longrightarrow> field_of m k = v" for k v
    using assms by (auto simp: field_of_def prelogin_ok_def split: option.splits)
  have "map (\<lambda>k. length (field_of m k)) (map fst m) = map length (map snd m)" using field by auto
  then have total: "length (concat (map (field_of m) ?ks)) = length (concat (map snd m))"
    using sum_list_sort [of "\<lambda>k. length (field_of m k)" "map fst m"] by (simp add: length_concat o_def cong: map_cong)
  have "parse_records spare ([] @ record_bytes m ?ks (5 * length m + 1) @ [0xff] @ [] @ concat (map (field_of m) ?ks))
      (length []) [] = Ret (foldl (\<lambda>res k. AList.update k (field_of m k) res) [] ?ks)"
    using parse_records_bytes [of "5 * length m + 1" "[]" ?ks "[]" m spare "[]"] assms total
    by (simp add: prelogin_ok_def)
  moreover have "wrap16 (5 * length m + 1) = 5 * length m + 1" using assms by (simp add: prelogin_ok_def)
  ultimately have "parse_records spare (prelogin_bytes m) 0 [] = Ret (map (\<lambda>k. (k, field_of m k)) ?ks)"
    using assms by (simp add: prelogin_bytes_def foldl_update_new prelogin_ok_def)
  moreover have "map_of (map (\<lambda>k. (k, field_of m k)) ?ks) = map_of m"
  proof
    fix k
    show "map_of (map (\<lambda>k. (k, field_of m k)) ?ks) k = map_of m k"
      unfolding map_of_keys using map_of_eq_None_iff [of m k]
      by (cases "map_of m k") (simp_all add: field_of_def)
  qed
  ultimately show ?thesis by blast
qed

lemma readPrelogin_message:
  assumes "prelogin_ok m" and "message n 4 bs (prelogin_bytes m)" and "incoming (transport s) = bs @ rest"
    and "n = length (buf s)" and "n < 65536"
  shows "\<exists>fs s'. readPrelogin spare s = (Ret (Inr fs), s') \<and> map_of fs = map_of m"
proof -
  from BeginRead_message [OF assms(2-5)] obtain u where
    u: "BeginRead s = (Ret (Inr 4), u)" "reading (prelogin_bytes m) rest u" by blast
  from ReadAll_reading [OF u(2)] obtain v where v: "ReadAll u = (Ret (Inr (prelogin_bytes m)), v)" by blast
  from parse_prelogin_bytes [OF assms(1), of spare] obtain fs where
    "parse_records spare (prelogin_bytes m) 0 [] = Ret fs" "map_of fs = map_of m" by blast
  with u(1) v show ?thesis by (simp add: readPrelogin_def bindG_apply)
qed

section \<open>The login record\<close>

lemma wrap16_le: "wrap16 k \<le> k"
  by (simp add: wrap16_def)

lemma data_offsets_nth:
  "offset + length (concat ds) < 65536 \<Longrightarrow> i \<le> length ds \<Longrightarrow>
   data_offsets offset ds ! i = offset + length (concat (take i ds))"
proof (induction ds arbitrary: offset i)
  case (Cons d ds)
  then show ?case by (cases i) simp_all
qed simp

lemma data_offsets_less: "offset < 65536 \<Longrightarrow> i \<le> length ds \<Longrightarrow> data_offsets offset ds ! i < 65536"
proof (induction ds arbitrary: offset i)
  case (Cons d ds)
  then show ?case by (cases i) (simp_all add: wrap16_def)
qed simp

lemma concat_part: "i < length ds \<Longrightarrow> take (length (ds ! i)) (drop (length (concat (take i ds))) (concat ds)) = ds ! i"
proof (induction ds arbitrary: i)
  case (Cons d ds)
  then show ?case by (cases i) simp_all
qed simp

lemma length_login_header: "length (ClientID l) = 6 \<Longrightarrow> length (login_header l) = 94"
  by (simp add: login_header_def Let_def)

lemma length_login_data: "length (login_data l) = 11"
  by (simp add: login_data_def)

definition login_bytes :: "login \<Rightarrow> octet list" where
  "login_bytes l = login_header l @ concat (login_data l)"

lemma sendLogin_message:
  assumes "ready n before s"
  shows "\<exists>s' bs. sendLogin l s = (Ret None, s') \<and> concat (outgoing (transport s')) = before @ bs \<and>
    message n 16 bs (login_bytes l)"
proof -
  from ready_BeginPacket [OF assms, of 16] obtain s1 where
    s1: "BeginPacket 16 s = (Ret (), s1)" "writing n 16 before [] s1" by blast
  from put_all_writing [OF s1(2), of "login_header l # login_data l"] obtain s2 where
    s2: "put_all (login_header l # login_data l) s1 = (Ret None, s2)" "writing n 16 before (login_bytes l) s2"
    by (auto simp: login_bytes_def)
  have "sendLogin l s = FinishPacket s2"
    using s1(1) s2(1) by (simp add: sendLogin_def seqG_apply bindG_apply del: put_all.simps)
  with FinishPacket_writing [OF s2(2)] show ?thesis by simp
qed

text \<open>Where the header has the offset of each block of the data; its length is behind it.\<close>

definition header_places :: "nat list" where
  "header_places = [36, 40, 44, 48, 52, 60, 64, 68, 78, 82, 86]"

definition u16_at :: "nat \<Rightarrow> octet list \<Rightarrow> nat" where
  "u16_at p bs = le_value (take 2 (drop p bs))"

lemma u16_here: "length x = 2 \<Longrightarrow> u16_at 0 (x @ r) = le_value x"
  by (simp add: u16_at_def)

lemma u16_skip: "length x \<le> p \<Longrightarrow> u16_at p (x @ r) = u16_at (p - length x) r"
  by (simp add: u16_at_def)

lemma u16_skip_flags: "4 \<le> p \<Longrightarrow> u16_at p (a # b # c # d # r) = u16_at (p - 4) r"
  using u16_skip [of "[a, b, c, d]" p r] by (simp add: numeral_eq_Suc)

definition length_places :: "nat list" where
  "length_places = [38, 42, 46, 50, 54, 62, 66, 70, 84, 88]"

definition login_texts :: "login \<Rightarrow> string list" where
  "login_texts l =
     [HostName l, UserName l, Password l, AppName l, ServerName l, CtlIntName l, Language l, Database l,
      AtchDBFile l, ChangePassword l]"

lemma header_words:
  assumes "length (ClientID l) = 6"
  shows "map (\<lambda>p. u16_at p (login_bytes l)) header_places = map (\<lambda>i. login_offsets l ! i mod 65536) [0..<11]"
    and "map (\<lambda>p. u16_at p (login_bytes l)) length_places = map (\<lambda>s. rune_count s mod 65536) (login_texts l)"
    and "u16_at 80 (login_bytes l) = length (SSPI l) mod 65536"
proof -
  have upt: "[0..<11] = [0, 1, 2, 3, 4, 5, 6, 7, 8, 9, 10]" by (simp add: upt_rec)
  have walk: "u16_at p (login_bytes l) = u16_at (p - 36)
     (le_bytes 2 (login_offsets l ! 0) @ le_bytes 2 (rune_count (HostName l)) @
      le_bytes 2 (login_offsets l ! 1) @ le_bytes 2 (rune_count (UserName l)) @
      le_bytes 2 (login_offsets l ! 2) @ le_bytes 2 (rune_count (Password l)) @
      le_bytes 2 (login_offsets l ! 3) @ le_bytes 2 (rune_count (AppName l)) @
      le_bytes 2 (login_offsets l ! 4) @ le_bytes 2 (rune_count (ServerName l)) @ le_bytes 2 0 @ le_bytes 2 0 @
      le_bytes 2 (login_offsets l ! 5) @ le_bytes 2 (rune_count (CtlIntName l)) @
      le_bytes 2 (login_offsets l ! 6) @ le_bytes 2 (rune_count (Language l)) @
      le_bytes 2 (login_offsets l ! 7) @ le_bytes 2 (rune_count (Database l)) @
      ClientID l @ le_bytes 2 (login_offsets l ! 8) @ le_bytes 2 (length (SSPI l)) @
      le_bytes 2 (login_offsets l ! 9) @ le_bytes 2 (rune_count (AtchDBFile l)) @
      le_bytes 2 (login_offsets l ! 10) @ le_bytes 2 (rune_count (ChangePassword l)) @ le_bytes 4 0 @
      concat (login_data l))" if "36 \<le> p" for p
    using that unfolding login_bytes_def login_header_def Let_def append_assoc append_Cons append_Nil
    by (simp add: u16_skip u16_skip_flags)
  show "map (\<lambda>p. u16_at p (login_bytes l)) header_places = map (\<lambda>i. login_offsets l ! i mod 65536) [0..<11]"
    unfolding header_places_def upt by (simp add: walk u16_skip u16_here assms del: One_nat_def)
  show "map (\<lambda>p. u16_at p (login_bytes l)) length_places = map (\<lambda>s. rune_count s mod 65536) (login_texts l)"
    unfolding length_places_def login_texts_def by (simp add: walk u16_skip u16_here assms)
  show "u16_at 80 (login_bytes l) = length (SSPI l) mod 65536"
    by (simp add: walk u16_skip u16_here assms)
qed

end
