(* ===== verification/TdsTheorems.thy ===== *)
theory TdsTheorems
  imports PacketFraming
begin

text \<open>
  The properties of the packet layer of go-mssqldb: messages come back as they were written,
  and when a write ends.
\<close>

section \<open>Round trip\<close>

text \<open>C30: what is written between BeginPacket and FinishPacket, in any portions, is what a reader
  of these bytes gets, with the type of the packet: the writer cuts it into packets of at most
  its buffer's size, the reader with a buffer as big or bigger joins them.\<close>

theorem packets_round_trip:
  assumes "8 < n" and "n \<le> m" and "m < 65536"
    and "\<forall>k. writeError t k = None" and "outgoing t = []"
    and "seqG (BeginPacket pt) (seqG (Writes ps) FinishPacket) (newTdsBuffer n t) = (r, s)"
    and "incoming t' = concat (outgoing (transport s)) @ rest"
  shows "r = Ret None \<and>
    (\<exists>u. bindG BeginRead (\<lambda>p. bindG (io_ReadFull (length (concat ps))) (\<lambda>d. ret (p, d))) (newTdsBuffer m t')
       = (Ret (Inr pt, Inr (concat ps)), u))"
proof -
  have buf: "length (buf (newTdsBuffer n t)) = n" "afterFirst (newTdsBuffer n t) = None"
    "transport (newTdsBuffer n t) = t" by (simp_all add: newTdsBuffer_def)
  have "n < 65536" using assms(2,3) by simp
  from BeginPacket_writing [of "newTdsBuffer n t" n "[]" pt] buf assms(1,4,5) this obtain s1 where
    s1: "BeginPacket pt (newTdsBuffer n t) = (Ret (), s1)" "writing n pt [] [] s1" by auto
  from Writes_writing [OF s1(2), of ps] obtain s2 where
    s2: "Writes ps s1 = (Ret (), s2)" "writing n pt [] (concat ps) s2" by auto
  from FinishPacket_writing [OF s2(2)] obtain s3 bs where
    s3: "FinishPacket s2 = (Ret None, s3)" "concat (outgoing (transport s3)) = bs"
      "message n pt bs (concat ps)" by auto
  have rs: "r = Ret None" "s = s3" using s1(1) s2(1) s3(1) assms(6) by (simp_all add: seqG_apply)
  let ?r = "newTdsBuffer m t'"
  have "incoming (transport ?r) = bs @ rest" "m = length (buf ?r)"
    using assms(7) rs s3(2) by (simp_all add: newTdsBuffer_def)
  from BeginRead_message [OF message_mono [OF s3(3) assms(2)] this assms(3)] obtain u where
    u: "BeginRead ?r = (Ret (Inr pt), u)" "reading (concat ps) rest u" by blast
  from io_ReadFull_reading [OF u(2) order_refl] obtain v where
    "io_ReadFull (length (concat ps)) u = (Ret (Inr (concat ps)), v)" by auto
  with u(1) rs show ?thesis by (simp add: bindG_apply)
qed

definition quiet :: "octet list \<Rightarrow> transport" where
  "quiet bs = \<lparr>incoming = bs, endError = io_EOF, writeResults = [], laterWrites = None, outgoing = []\<rparr>"

lemma quiet_writes [simp]: "writeError (quiet bs) k = None"
  by (simp add: quiet_def writeError_def)

lemma quiet_outgoing [simp]: "outgoing (quiet bs) = []"
  by (simp add: quiet_def)

theorem packets_round_trip_witness:
  "\<exists>s u. seqG (BeginPacket 1) (seqG (Writes [[1, 2, 3], [4]]) FinishPacket) (newTdsBuffer 10 (quiet [])) = (Ret None, s) \<and>
     bindG BeginRead (\<lambda>p. bindG (io_ReadFull (length (concat [[1, 2, 3], [4::octet]]))) (\<lambda>d. ret (p, d)))
       (newTdsBuffer 512 (quiet (concat (outgoing (transport s))))) = (Ret (Inr 1, Inr [1, 2, 3, 4]), u)"
proof -
  obtain r s where run: "seqG (BeginPacket 1) (seqG (Writes [[1, 2, 3], [4]]) FinishPacket)
      (newTdsBuffer 10 (quiet [])) = (r, s)" by fastforce
  have "incoming (quiet (concat (outgoing (transport s)))) = concat (outgoing (transport s)) @ []"
    by (simp add: quiet_def)
  from packets_round_trip [OF _ _ _ _ _ run this, of 512] run show ?thesis
    by (simp del: Writes.simps)
qed

section \<open>When a write ends\<close>

text \<open>A step of the loop with room: the rest gets shorter.\<close>

lemma flush_outcomes:
  assumes "8 \<le> pos s" and "pos s \<le> length (buf s)" and "length (buf s) < 65536" and "afterFirst s = None"
  shows "(\<exists>e s'. writeError (transport s) (length (outgoing (transport s))) = Some e \<and>
        flush s = (Ret (Some e), s')) \<or>
    (\<exists>s'. writeError (transport s) (length (outgoing (transport s))) = None \<and> flush s = (Ret None, s') \<and>
        pos s' = 8 \<and> length (buf s') = length (buf s) \<and> afterFirst s' = None \<and>
        writeError (transport s') = writeError (transport s) \<and>
        length (outgoing (transport s')) = Suc (length (outgoing (transport s))))"
  using assms by (simp add: flush_def bindG_apply seqG_apply store_def write_packet_def transport_Write_def
      run_afterFirst_def put_at_def) auto

lemma write_loop_step:
  assumes "8 \<le> pos s" and "pos s \<le> length (buf s)" and "length (buf s) < 65536"
    and c: "c = min (length (buf s) - pos s) (length p)"
  shows "\<exists>u. write_loop (Suc fuel) nn p s = (if c = length p then (Ret (nn + c, None), u)
      else bindG flush (\<lambda>err. if err \<noteq> None then ret (nn + c, err)
             else write_loop fuel (nn + c) (drop c p)) u) \<and>
    pos u = pos s + c \<and> length (buf u) = length (buf s) \<and> transport u = transport s \<and> afterFirst u = afterFirst s"
proof -
  have "pos s + c < 65536" "pos s + c \<le> length (buf s)" "c \<le> length p" using assms by simp_all
  then show ?thesis
    using assms(2) by (intro exI [of _ "s\<lparr>buf := put_at (pos s) (take c p) (buf s), pos := pos s + c\<rparr>"])
      (simp add: Let_def put_at_def flip: c)
qed

lemma write_loop_roomy:
  assumes "8 < length (buf s)" and "8 \<le> pos s" and "pos s \<le> length (buf s)" and "length (buf s) < 65536"
    and "afterFirst s = None" and "length p + (if pos s = length (buf s) then 1 else 0) < fuel"
  shows "\<exists>x t. write_loop fuel nn p s = (Ret x, t)"
  using assms
proof (induction fuel arbitrary: nn p s)
  case (Suc fuel)
  let ?c = "min (length (buf s) - pos s) (length p)"
  from write_loop_step [OF Suc.prems(2,3,4) refl, of fuel nn p] obtain u where
    u: "write_loop (Suc fuel) nn p s = (if ?c = length p then (Ret (nn + ?c, None), u)
      else bindG flush (\<lambda>err. if err \<noteq> None then ret (nn + ?c, err)
             else write_loop fuel (nn + ?c) (drop ?c p)) u)"
    "pos u = pos s + ?c" "length (buf u) = length (buf s)" "afterFirst u = None"
    using Suc.prems(5) by auto
  show ?case
  proof (cases "?c = length p")
    case False
    have "8 \<le> pos u" "pos u \<le> length (buf u)" "length (buf u) < 65536" using u Suc.prems by auto
    from flush_outcomes [OF this u(4)] show ?thesis
    proof (elim disjE exE conjE)
      fix s' assume s': "flush u = (Ret None, s')" "pos s' = 8" "length (buf s') = length (buf u)" "afterFirst s' = None"
      have "\<exists>x t. write_loop fuel (nn + ?c) (drop ?c p) s' = (Ret x, t)"
        by (rule Suc.IH) (use s' u Suc.prems False in \<open>auto split: if_splits\<close>)
      then show ?thesis using u(1) s'(1) False by (simp add: bindG_apply)
    qed (use u(1) False in \<open>simp add: bindG_apply\<close>)
  qed (use u(1) in auto)
qed simp

text \<open>Without room nothing is copied, and every step is a flush.\<close>

lemma write_loop_cramped:
  assumes "length (buf s) = 8" and "pos s = 8" and "afterFirst s = None" and "p \<noteq> []"
  shows "(\<exists>x t. write_loop fuel nn p s = (Ret x, t)) \<longleftrightarrow>
      (\<exists>k<fuel. writeError (transport s) (length (outgoing (transport s)) + k) \<noteq> None)"
  using assms
proof (induction fuel arbitrary: s)
    case (Suc fuel)
    from write_loop_step [of s 0 p fuel nn] Suc.prems obtain u where
      u: "write_loop (Suc fuel) nn p s = bindG flush (\<lambda>err. if err \<noteq> None then ret (nn + 0, err)
             else write_loop fuel (nn + 0) (drop 0 p)) u"
      "pos u = 8" "length (buf u) = 8" "afterFirst u = None" "transport u = transport s"
      by auto
    have ex_less: "(\<exists>k<Suc fuel. P k) \<longleftrightarrow> P 0 \<or> (\<exists>k<fuel. P (Suc k))" for P
      by (metis less_Suc_eq_0_disj)
    from flush_outcomes [of u] u(2-5) consider
      e s' where "writeError (transport s) (length (outgoing (transport s))) = Some e" "flush u = (Ret (Some e), s')"
      | s' where "writeError (transport s) (length (outgoing (transport s))) = None" "flush u = (Ret None, s')"
        "pos s' = 8" "length (buf s') = 8" "afterFirst s' = None" "writeError (transport s') = writeError (transport s)"
        "length (outgoing (transport s')) = Suc (length (outgoing (transport s)))"
      by auto
    then show ?case
    proof cases
      case 1
      with u(1) show ?thesis by (auto simp: bindG_apply)
    next
      case 2
      have "write_loop (Suc fuel) nn p s = write_loop fuel nn p s'"
        using u(1) 2(2) by (simp add: bindG_apply del: write_loop.simps)
      with Suc.IH [of s'] Suc.prems(4) 2 show ?thesis by (simp add: ex_less del: write_loop.simps)
    qed
qed simp

text \<open>More fuel does not change what a loop returns that ends.\<close>

lemma write_loop_more:
  "write_loop fuel nn p s = (Ret x, t) \<Longrightarrow> fuel \<le> fuel' \<Longrightarrow> write_loop fuel' nn p s = (Ret x, t)"
proof (induction fuel arbitrary: fuel' nn p s)
  case (Suc fuel)
  obtain k where k: "fuel' = Suc k" "fuel \<le> k" using Suc.prems(2) by (cases fuel') auto
  show ?case
    using Suc.prems(1) Suc.IH k
    by (auto simp: Let_def bindG_apply split: if_splits prod.splits outcome.splits)
qed simp

text \<open>If some write fails, then one of those that the fuel reaches does.\<close>

lemma writeError_ahead:
  assumes "writeError t (length (outgoing t) + k) \<noteq> None"
  shows "\<exists>j\<le>writes_ahead t. writeError t (length (outgoing t) + j) \<noteq> None"
proof (cases "length (outgoing t) + k < length (writeResults t)")
  case True
  then have "k \<le> writes_ahead t" by (simp add: writes_ahead_def)
  with assms show ?thesis by blast
next
  case False
  with assms have "laterWrites t \<noteq> None" by (simp add: writeError_def)
  moreover have "\<not> length (outgoing t) + writes_ahead t < length (writeResults t)"
    unfolding writes_ahead_def by arith
  ultimately show ?thesis by (intro exI [of _ "writes_ahead t"]) (simp add: writeError_def)
qed

lemma write_loop_empty:
  assumes "pos s \<le> length (buf s)"
  shows "\<exists>x t. write_loop (Suc fuel) nn [] s = (Ret x, t)"
  using assms by (simp add: Let_def)

text \<open>When the loop ends with some fuel, it ends with that of \<open>Write\<close>.\<close>

lemma write_fuel_enough:
  assumes "8 \<le> pos s" and "pos s \<le> length (buf s)" and "length (buf s) < 65536" and "afterFirst s = None"
    and "write_loop fuel nn p s = (Ret x, t)"
  shows "\<exists>x' t'. write_loop (write_fuel p s) nn p s = (Ret x', t')"
proof -
  have fuel: "write_fuel p s = Suc (length p + writes_ahead (transport s) + 1)"
    using assms(4) by (simp add: write_fuel_def)
  show ?thesis
  proof (cases "8 < length (buf s)")
    case True
    show ?thesis by (rule write_loop_roomy [OF True assms(1-4)]) (simp add: fuel)
  next
    case False
    with assms(1,2) have eight: "length (buf s) = 8" "pos s = 8" by simp_all
    show ?thesis
    proof (cases "p = []")
      case True
      with write_loop_empty [OF assms(2)] fuel show ?thesis by metis
    next
      case False
      note ends = write_loop_cramped [OF eight assms(4) False, of _ nn]
      from assms(5) have "\<exists>x t. write_loop fuel nn p s = (Ret x, t)" by blast
      then obtain k where "writeError (transport s) (length (outgoing (transport s)) + k) \<noteq> None"
        unfolding ends by blast
      from writeError_ahead [OF this] obtain j where "j \<le> writes_ahead (transport s)"
        "writeError (transport s) (length (outgoing (transport s)) + j) \<noteq> None" by blast
      then have "\<exists>k<write_fuel p s. writeError (transport s) (length (outgoing (transport s)) + k) \<noteq> None"
        by (intro exI [of _ j]) (simp add: fuel)
      then show ?thesis by (rule ends [THEN iffD2])
    qed
  qed
qed

text \<open>C31: on a buffer that writes behind the header and to one transport, the loop of Write ends
  exactly when the buffer has room behind the header, there is nothing to write, or some write to
  the transport fails: with a buffer of 8 bytes it sends empty packets until then, and for ever if
  none fails.  And the fuel that Write gives the loop is enough: whatever the loop returns with any
  fuel, also after a write that fails late, is what Write returns.\<close>

theorem write_ends:
  assumes "8 \<le> pos s" and "pos s \<le> length (buf s)" and "length (buf s) < 65536" and "afterFirst s = None"
  shows "((\<exists>fuel x t. write_loop fuel nn p s = (Ret x, t)) \<longleftrightarrow>
      8 < length (buf s) \<or> p = [] \<or>
      (\<exists>k. writeError (transport s) (length (outgoing (transport s)) + k) \<noteq> None)) \<and>
    (\<forall>fuel x t. write_loop fuel 0 p s = (Ret x, t) \<longrightarrow> Write p s = (Ret x, t))"
proof -
  have "(\<exists>fuel x t. write_loop fuel nn p s = (Ret x, t)) \<longleftrightarrow> 8 < length (buf s) \<or> p = [] \<or>
      (\<exists>k. writeError (transport s) (length (outgoing (transport s)) + k) \<noteq> None)"
  proof (cases "8 < length (buf s)")
    case True
    have "\<exists>x t. write_loop (length p + 2) nn p s = (Ret x, t)"
      by (rule write_loop_roomy [OF True assms]) simp
    with True show ?thesis by blast
  next
    case False
    with assms have eight: "length (buf s) = 8" "pos s = 8" by simp_all
    show ?thesis
    proof (cases "p = []")
      case True
      with write_loop_empty [OF assms(2)] show ?thesis by blast
    next
      case False
      with write_loop_cramped [OF eight assms(4) False] eight show ?thesis
        by (simp del: write_loop.simps) (metis less_Suc_eq)
    qed
  qed
  moreover have "Write p s = (Ret x, t)" if "write_loop fuel 0 p s = (Ret x, t)" for fuel x t
  proof -
    from write_fuel_enough [OF assms that] obtain x' t' where
      w: "write_loop (write_fuel p s) 0 p s = (Ret x', t')" by blast
    from write_loop_more [OF w, of "max fuel (write_fuel p s)"] write_loop_more [OF that, of "max fuel (write_fuel p s)"]
    have "(x', t') = (x, t)" by simp
    with w show ?thesis by (simp add: Write_def)
  qed
  ultimately show ?thesis by blast
qed

text \<open>A transport on which the fifth write fails.\<close>

definition breaking :: transport where
  "breaking = \<lparr>incoming = [], endError = io_EOF,
     writeResults = [None, None, None, None, Some (OtherError ''broken pipe'')], laterWrites = None, outgoing = []\<rparr>"

theorem write_ends_witness:
  "(\<forall>fuel x t. write_loop fuel 0 [1] (newTdsBuffer 8 (quiet [])) \<noteq> (Ret x, t)) \<and>
   (\<exists>x t. Write [1] (newTdsBuffer 8 breaking) = (Ret x, t))"
proof -
  have never: "\<forall>fuel x t. write_loop fuel 0 [1] (newTdsBuffer 8 (quiet [])) \<noteq> (Ret x, t)"
    using write_ends [of "newTdsBuffer 8 (quiet [])" 0 "[1]"]
    by (simp add: newTdsBuffer_def quiet_def writeError_def del: write_loop.simps)
  have "writeError breaking 4 \<noteq> None" by (simp add: breaking_def writeError_def)
  then have "\<exists>k. writeError (transport (newTdsBuffer 8 breaking)) (length (outgoing (transport (newTdsBuffer 8 breaking))) + k) \<noteq> None"
    by (intro exI [of _ 4]) (simp add: newTdsBuffer_def breaking_def)
  moreover have "8 \<le> pos (newTdsBuffer 8 breaking)" "pos (newTdsBuffer 8 breaking) \<le> length (buf (newTdsBuffer 8 breaking))"
    "length (buf (newTdsBuffer 8 breaking)) < 65536" "afterFirst (newTdsBuffer 8 breaking) = None"
    by (simp_all add: newTdsBuffer_def)
  ultimately have "\<exists>x t. Write [1] (newTdsBuffer 8 breaking) = (Ret x, t)"
    using write_ends [of "newTdsBuffer 8 breaking" 0 "[1]"] by blast
  with never show ?thesis by blast
qed

end
