(* ===== verification/RequestTheorems.thy ===== *)
theory RequestTheorems
  imports Requests TdsTheorems
begin

text \<open>
  The properties of the requests of go-mssqldb: the prelogin records come back as they were
  given, and the login record points at its texts.
\<close>

text \<open>C32: the prelogin records are written with their offsets and lengths, ordered by type, and a
  reader of the same bytes in a reply gets each of them back, whatever order they were given in,
  as long as the record fits into the 16-bit offsets and no type is the terminator.\<close>

theorem prelogin_round_trip:
  assumes "prelogin_ok m" and "8 < n" and "n < 65536"
    and "\<forall>k. writeError t k = None" and "outgoing t = []"
    and "message n 4 bs (prelogin_bytes m)" and "incoming t' = bs @ rest"
  shows "(\<exists>s. writePrelogin m (newTdsBuffer n t) = (Ret None, s) \<and>
      message n 18 (concat (outgoing (transport s))) (prelogin_bytes m)) \<and>
    (\<exists>fs s. readPrelogin spare (newTdsBuffer n t') = (Ret (Inr fs), s) \<and> map_of fs = map_of m)"
proof -
  have "ready n [] (newTdsBuffer n t)" using assms(2-5) by (simp add: ready_def newTdsBuffer_def)
  from writePrelogin_message [OF this] obtain s where
    "writePrelogin m (newTdsBuffer n t) = (Ret None, s)"
    "message n 18 (concat (outgoing (transport s))) (prelogin_bytes m)" by (metis append_Nil)
  moreover have "\<exists>fs s. readPrelogin spare (newTdsBuffer n t') = (Ret (Inr fs), s) \<and> map_of fs = map_of m"
    by (rule readPrelogin_message [OF assms(1,6), of _ rest]) (use assms(3,7) in \<open>simp_all add: newTdsBuffer_def\<close>)
  ultimately show ?thesis by blast
qed

definition offered :: prelogin where
  "offered = [(1, [2]), (0, [0, 0, 0, 0, 0, 0]), (4, [0])]"

theorem prelogin_round_trip_witness:
  "\<exists>fs s. readPrelogin [] (newTdsBuffer 512
      (quiet (packet_header 4 1 1 (8 + length (prelogin_bytes offered)) @ prelogin_bytes offered)))
    = (Ret (Inr fs), s) \<and> map_of fs = map_of offered"
proof -
  have ok: "prelogin_ok offered" by (simp add: prelogin_ok_def offered_def)
  have "length (prelogin_bytes offered) = 24"
    by (simp add: prelogin_bytes_def offered_def length_record_bytes field_of_def)
  then have m: "message 512 4 (packet_header 4 1 1 (8 + length (prelogin_bytes offered)) @ prelogin_bytes offered)
      (prelogin_bytes offered)" by (intro last_packet) simp
  show ?thesis
    using prelogin_round_trip [OF ok _ _ _ _ m, of "quiet []"
        "quiet (packet_header 4 1 1 (8 + length (prelogin_bytes offered)) @ prelogin_bytes offered)" "[]" "[]"]
    by (simp add: quiet_def writeError_def)
qed

section \<open>The login record\<close>

text \<open>The length of a text in 16-bit units, and in runes.\<close>

lemma utf16_units_count: "length (utf16_units r) = (if r < 0x10000 \<or> 0x10FFFF < r then 1 else 2)"
  by (simp add: utf16_units_def)

lemma utf16_length:
  "length rs \<le> length (utf16_Encode rs) \<and>
   (list_all valid_rune rs \<longrightarrow> (length (utf16_Encode rs) = length rs \<longleftrightarrow> list_all (\<lambda>r. r < 0x10000) rs))"
proof (induction rs)
  case (Cons r rs)
  have "valid_rune r \<Longrightarrow> r \<le> 0x10FFFF" by (simp add: valid_rune_def)
  with Cons show ?case by (auto simp: utf16_Encode_def utf16_units_count split: if_splits)
qed (simp add: utf16_Encode_def)

definition basic_text :: "string \<Rightarrow> bool" where
  "basic_text s \<longleftrightarrow> list_all (\<lambda>r. r < 0x10000) (runes s)"

lemma ucs2_length_runes: "2 * rune_count s = length (str2ucs2 s) \<longleftrightarrow> basic_text s"
  using utf16_length [of "runes s"] runes_valid [of s]
  by (auto simp: length_str2ucs2 rune_count_def basic_text_def)

lemma length_concat_ge: "d \<in> set ds \<Longrightarrow> length d \<le> length (concat ds)"
  by (induction ds) auto

lemma list_lengths: "length header_places = 11" "length length_places = 10" "length (login_texts l) = 10"
  by (simp_all add: header_places_def length_places_def login_texts_def)

definition login_fits :: "login \<Rightarrow> bool" where
  "login_fits l \<longleftrightarrow> length (ClientID l) = 6 \<and> length (login_bytes l) < 65536"

lemma login_total: "login_fits l \<Longrightarrow> 94 + length (concat (login_data l)) = length (login_bytes l)"
  by (simp add: login_fits_def login_bytes_def length_login_header)

lemma login_offset:
  assumes "login_fits l" and "i \<le> 11"
  shows "login_offsets l ! i = 94 + length (concat (take i (login_data l)))"
  unfolding login_offsets_def using assms login_total [OF assms(1)]
  by (intro data_offsets_nth) (simp_all add: login_fits_def length_login_data)

lemma login_own_length:
  assumes "login_fits l"
  shows "le_value (take 4 (login_bytes l)) = length (login_bytes l)"
proof -
  have "take 4 (login_bytes l) = le_bytes 4 (login_offsets l ! 11)"
    by (simp add: login_bytes_def login_header_def Let_def)
  moreover have "login_offsets l ! 11 = length (login_bytes l)"
    using login_offset [OF assms, of 11] login_total [OF assms] length_login_data [of l] by simp
  moreover have "length (login_bytes l) < 256 ^ 4" using assms by (simp add: login_fits_def)
  ultimately show ?thesis by (simp only: le_value_bytes) simp
qed

lemma login_place:
  assumes "login_fits l" and "i < 11"
  shows "take (length (login_data l ! i)) (drop (u16_at (header_places ! i) (login_bytes l)) (login_bytes l)) = login_data l ! i"
proof -
  let ?D = "login_bytes l" and ?ds = "login_data l"
  have id: "length (ClientID l) = 6" using assms(1) by (simp add: login_fits_def)
  have "map (\<lambda>p. u16_at p ?D) header_places ! i = map (\<lambda>i. login_offsets l ! i mod 65536) [0..<11] ! i"
    by (simp only: header_words [OF id])
  then have "u16_at (header_places ! i) ?D = login_offsets l ! i mod 65536"
    using assms(2) by (simp add: list_lengths)
  moreover have "length (concat (take i ?ds)) \<le> length (concat ?ds)"
    by (metis append_take_drop_id concat_append le_add1 length_append)
  ultimately have "u16_at (header_places ! i) ?D = 94 + length (concat (take i ?ds))"
    using login_offset [OF assms(1), of i] login_total [OF assms(1)] assms by (simp add: login_fits_def)
  then show ?thesis
    using concat_part [of i ?ds] assms(2) by (simp add: login_bytes_def length_login_header id length_login_data)
qed

lemma login_text_length:
  assumes "login_fits l" and "(p, t) \<in> set (zip length_places (login_texts l))"
  shows "2 * u16_at p (login_bytes l) = length (str2ucs2 t) \<longleftrightarrow> basic_text t"
proof -
  let ?D = "login_bytes l" and ?ds = "login_data l"
  have "\<exists>d \<in> set ?ds. length d = length (str2ucs2 t)"
    using set_zip_rightD [OF assms(2)] by (auto simp: login_texts_def login_data_def length_manglePassword)
  then have "length (str2ucs2 t) \<le> length (concat ?ds)" using length_concat_ge by metis
  then have "rune_count t < 65536"
    using login_total [OF assms(1)] assms(1) utf16_length [of "runes t"]
    by (simp add: login_fits_def length_str2ucs2 rune_count_def)
  moreover have "u16_at p ?D = rune_count t mod 65536"
  proof -
    from assms(2) obtain i where i: "i < 10" "p = length_places ! i" "t = login_texts l ! i"
      by (auto simp: in_set_zip list_lengths)
    have "map (\<lambda>p. u16_at p ?D) length_places ! i = map (\<lambda>s. rune_count s mod 65536) (login_texts l) ! i"
      using assms(1) by (simp only: login_fits_def header_words)
    with i show ?thesis by (simp add: list_lengths)
  qed
  ultimately show ?thesis using ucs2_length_runes [of t] by simp
qed

lemma login_text_lengths:
  assumes "login_fits l"
  shows "map (\<lambda>(p, t). 2 * u16_at p (login_bytes l) = length (str2ucs2 t)) (zip length_places (login_texts l))
      = map basic_text (login_texts l)"
proof -
  have "map (\<lambda>(p, t). 2 * u16_at p (login_bytes l) = length (str2ucs2 t)) (zip length_places (login_texts l))
      = map (\<lambda>(p, t). basic_text t) (zip length_places (login_texts l))"
    using login_text_length [OF assms] by auto
  also have "\<dots> = map basic_text (login_texts l)"
    by (simp add: length_places_def login_texts_def)
  finally show ?thesis .
qed

text \<open>C33: sendLogin writes one login message whose record, if it fits into 16 bits, states its own
  length and, for each of its texts and the security block, the place where exactly these bytes
  are; the password is found there mangled.  The lengths of the texts count runes: one is right
  exactly when the text has no rune beyond the basic plane.\<close>

theorem login_record_layout:
  assumes "ready n before s" and "length (ClientID l) = 6" and "length (login_bytes l) < 65536"
  shows "\<exists>s' bs. sendLogin l s = (Ret None, s') \<and> concat (outgoing (transport s')) = before @ bs \<and>
      message n 16 bs (login_bytes l) \<and>
    le_value (take 4 (login_bytes l)) = length (login_bytes l) \<and>
    map (\<lambda>(p, d). take (length d) (drop (u16_at p (login_bytes l)) (login_bytes l))) (zip header_places (login_data l))
      = login_data l \<and>
    map unmangle (login_data l ! 2) = str2ucs2 (Password l) \<and>
    map (\<lambda>(p, t). 2 * u16_at p (login_bytes l) = length (str2ucs2 t)) (zip length_places (login_texts l))
      = map basic_text (login_texts l)"
proof -
  have fits: "login_fits l" using assms by (simp add: login_fits_def)
  have "map (\<lambda>(p, d). take (length d) (drop (u16_at p (login_bytes l)) (login_bytes l))) (zip header_places (login_data l))
      = login_data l"
    by (rule nth_equalityI) (simp_all add: login_place [OF fits] list_lengths length_login_data)
  moreover have "map unmangle (login_data l ! 2) = str2ucs2 (Password l)"
    by (simp add: login_data_def unmangle_manglePassword)
  ultimately show ?thesis
    using login_own_length [OF fits] login_text_lengths [OF fits] sendLogin_message [OF assms(1), of l] by blast
qed

definition example_login :: login where
  "example_login =
     \<lparr>TDSVersion = 0x74000004, PacketSize = 4096, ClientProgVer = 0, ClientPID = 0, ConnectionID = 0,
      OptionFlags1 = 0, OptionFlags2 = 2, TypeFlags = 0, OptionFlags3 = 0, ClientTimeZone = 0, ClientLCID = 0,
      HostName = ''box'', UserName = ''sa'', Password = ''secret'', AppName = ''go-mssqldb'', ServerName = ''h'',
      CtlIntName = [], Language = [], Database = ''master'', ClientID = [0, 0, 0, 0, 0, 0], SSPI = [],
      AtchDBFile = [], ChangePassword = []\<rparr>"

theorem login_record_layout_witness:
  "\<exists>s bs. sendLogin example_login (newTdsBuffer 4096 (quiet [])) = (Ret None, s) \<and>
     concat (outgoing (transport s)) = bs \<and> message 4096 16 bs (login_bytes example_login) \<and>
     le_value (take 4 (login_bytes example_login)) = length (login_bytes example_login)"
proof -
  have r: "ready 4096 [] (newTdsBuffer 4096 (quiet []))" by (simp add: ready_def newTdsBuffer_def quiet_def writeError_def)
  have c: "length (ClientID example_login) = 6" by (simp add: example_login_def)
  have "length (concat (login_data example_login)) = 56"
    by (simp add: login_data_def example_login_def length_manglePassword length_str2ucs2 byte_def
        utf16_Encode_def utf16_units_def)
  then have l: "length (login_bytes example_login) < 65536"
    by (simp add: login_bytes_def length_login_header c)
  from login_record_layout [OF r c l] show ?thesis by auto
qed

end
