(* ===== verification/WinService.thy ===== *)
theory WinService
  imports Main "HOL-Library.Word"
begin

unbundle bit_operations_syntax

text \<open>
  The Windows service (\<open>main_windows.go\<close>) and the loop that runs it (\<open>service.go\<close> of package
  svc).  Three parties exchange messages over unbuffered channels: the handler \<open>Execute\<close>, the
  loop of \<open>service.run\<close>, and the callback that the service control manager calls with its
  controls, one at a time.  A step of the relation is one exchange, or the end of the loop.
\<close>

section \<open>Messages\<close>

datatype svc_state =
    Stopped
  | StartPending
  | StopPending
  | Running
  | ContinuePending
  | PausePending
  | Paused

datatype Cmd = Stop | Pause | Continue | Interrogate | Shutdown | OtherCmd nat

text \<open>The commands a service accepts are flags.\<close>

definition AcceptStop :: "32 word" where "AcceptStop = 1"
definition AcceptPauseAndContinue :: "32 word" where "AcceptPauseAndContinue = 2"
definition AcceptShutdown :: "32 word" where "AcceptShutdown = 4"

record Status =
  State :: svc_state
  Accepts :: "32 word"
  CheckPoint :: nat
  WaitHint :: nat

definition status :: "svc_state \<Rightarrow> 32 word \<Rightarrow> Status" where
  "status st accepts = \<lparr>State = st, Accepts = accepts, CheckPoint = 0, WaitHint = 0\<rparr>"

definition accept_all :: "32 word" where
  "accept_all = AcceptStop OR AcceptShutdown OR AcceptPauseAndContinue"

record ChangeRequest =
  req_Cmd :: Cmd
  CurrentStatus :: Status

record exitCode =
  isSvcSpecific :: bool
  errno :: nat

record ctlEvent =
  ctl_cmd :: Cmd
  ctl_errno :: nat

section \<open>The handler\<close>

text \<open>Where \<open>Execute\<close> is: it is about to send its first status, waits for a request, is about to
  send an answer, is about to send the last status, or has returned.\<close>

datatype exec_loc =
    ExecStart
  | ExecLoop
  | ExecAnswer Status
  | ExecStopping
  | ExecReturned
  | ExecGone

text \<open>The status it is about to send, and where it goes on after that.\<close>

fun exec_sends :: "exec_loc \<Rightarrow> (Status \<times> exec_loc) option" where
  "exec_sends ExecStart = Some (status Running accept_all, ExecLoop)"
| "exec_sends (ExecAnswer st) = Some (st, ExecLoop)"
| "exec_sends ExecStopping = Some (status StopPending 0, ExecReturned)"
| "exec_sends _ = None"

text \<open>What a request makes of the loop.\<close>

definition exec_change :: "ChangeRequest \<Rightarrow> exec_loc" where
  "exec_change change =
     (case req_Cmd change of
        Interrogate \<Rightarrow> ExecAnswer (CurrentStatus change)
      | Stop \<Rightarrow> ExecStopping
      | Shutdown \<Rightarrow> ExecStopping
      | Pause \<Rightarrow> ExecAnswer (status Paused accept_all)
      | Continue \<Rightarrow> ExecAnswer (status Running accept_all)
      | OtherCmd n \<Rightarrow> ExecStopping)"

section \<open>The loop of the service\<close>

datatype run_phase = RunLoop | RunEnding | RunDone

text \<open>What is reported to the manager; the state is kept by its name.\<close>

record SERVICE_STATUS =
  ServiceType :: nat
  CurrentState :: svc_state
  ControlsAccepted :: "32 word"
  Win32ExitCode :: nat
  ServiceSpecificExitCode :: nat
  rep_CheckPoint :: nat
  rep_WaitHint :: nat

definition service_status :: "Status \<Rightarrow> exitCode \<Rightarrow> SERVICE_STATUS" where
  "service_status st e =
     \<lparr>ServiceType = 16, CurrentState = State st,
      ControlsAccepted =
        (if Accepts st AND AcceptStop \<noteq> 0 then 1 else 0) OR
        (if Accepts st AND AcceptShutdown \<noteq> 0 then 4 else 0) OR
        (if Accepts st AND AcceptPauseAndContinue \<noteq> 0 then 2 else 0),
      Win32ExitCode = (if errno e = 0 then 0 else if isSvcSpecific e then 1066 else errno e),
      ServiceSpecificExitCode = (if errno e \<noteq> 0 \<and> isSvcSpecific e then errno e else 0),
      rep_CheckPoint = CheckPoint st, rep_WaitHint = WaitHint st\<rparr>"

text \<open>
  \<open>pending\<close> is the event the callback has not got rid of, \<open>inch\<close> tells whether the loop reads
  such events, \<open>outch\<close> is the command it has for the handler, and \<open>broker\<close> whether the handler
  has started \<open>runMain\<close>: it does so right after its first report is taken, and the step that
  takes a report sets it.  \<open>reports\<close> are the calls of \<open>SetServiceStatus\<close>.
\<close>

record svc =
  exec :: exec_loc
  broker :: bool
  phase :: run_phase
  inch :: bool
  outch :: "Cmd option"
  cur_status :: Status
  ec :: exitCode
  reports :: "SERVICE_STATUS list"
  pending :: "ctlEvent option"

definition sysErrNewThreadInCallback :: nat where
  "sysErrNewThreadInCallback = 0x20000001"

definition svc_init :: svc where
  "svc_init =
     \<lparr>exec = ExecStart, broker = False, phase = RunLoop, inch = True, outch = None,
      cur_status = status Stopped 0, ec = \<lparr>isSvcSpecific = True, errno = 0\<rparr>, reports = [], pending = None\<rparr>"

text \<open>The result of the \<open>n\<close>-th call of \<open>SetServiceStatus\<close> is given by the system: no error, or
  its number, which is not zero.  The check for a missing status handle is left out: \<open>run\<close> sets
  the handle from the registration, which the entry point of the service has checked before it
  lets \<open>run\<close> go on.\<close>

definition updateStatus :: "(nat \<Rightarrow> nat option) \<Rightarrow> Status \<Rightarrow> svc \<Rightarrow> nat option \<times> svc" where
  "updateStatus sys st s =
     (sys (length (reports s)), s\<lparr>reports := reports s @ [service_status st (ec s)]\<rparr>)"

text \<open>The exchanges of the loop with the callback and the handler, and its end.\<close>

inductive svc_step :: "(nat \<Rightarrow> nat option) \<Rightarrow> svc \<Rightarrow> svc \<Rightarrow> bool" for sys where
  receive_control: "phase s = RunLoop \<Longrightarrow> inch s \<Longrightarrow> pending s = Some r \<Longrightarrow> ctl_errno r = 0 \<Longrightarrow>
    svc_step sys s (s\<lparr>pending := None, inch := False, outch := Some (ctl_cmd r)\<rparr>)"
| receive_error: "phase s = RunLoop \<Longrightarrow> inch s \<Longrightarrow> pending s = Some r \<Longrightarrow> ctl_errno r \<noteq> 0 \<Longrightarrow>
    svc_step sys s (s\<lparr>pending := None, ec := (ec s)\<lparr>errno := ctl_errno r\<rparr>, phase := RunEnding\<rparr>)"
| send_request: "phase s = RunLoop \<Longrightarrow> outch s = Some c \<Longrightarrow> exec s = ExecLoop \<Longrightarrow>
    svc_step sys s (s\<lparr>exec := exec_change \<lparr>req_Cmd = c, CurrentStatus = cur_status s\<rparr>,
      inch := True, outch := None\<rparr>)"
| receive_change: "phase s = RunLoop \<Longrightarrow> exec_sends (exec s) = Some (st, e) \<Longrightarrow>
    updateStatus sys st s = (None, t) \<Longrightarrow>
    svc_step sys s (t\<lparr>exec := e, broker := True, cur_status := st\<rparr>)"
| change_fails: "phase s = RunLoop \<Longrightarrow> exec_sends (exec s) = Some (st, e) \<Longrightarrow>
    updateStatus sys st s = (Some err, t) \<Longrightarrow>
    svc_step sys s (t\<lparr>exec := e, broker := True, ec := (ec t)\<lparr>errno := err\<rparr>, phase := RunEnding\<rparr>)"
| receive_exit: "phase s = RunLoop \<Longrightarrow> exec s = ExecReturned \<Longrightarrow>
    svc_step sys s (s\<lparr>exec := ExecGone, ec := \<lparr>isSvcSpecific = False, errno = 0\<rparr>, phase := RunEnding\<rparr>)"
| run_ends: "phase s = RunEnding \<Longrightarrow> updateStatus sys (status Stopped 0) s = (err, t) \<Longrightarrow>
    svc_step sys s (t\<lparr>phase := RunDone\<rparr>)"

text \<open>The manager calls the callback when the last call has returned; \<open>e\<close> tells whether the
  call comes on another thread.\<close>

inductive svc_control :: "svc \<Rightarrow> svc \<Rightarrow> bool" where
  control: "pending s = None \<Longrightarrow> e = 0 \<or> e = sysErrNewThreadInCallback \<Longrightarrow>
    svc_control s (s\<lparr>pending := Some \<lparr>ctl_cmd = c, ctl_errno = e\<rparr>\<rparr>)"

inductive svc_reachable :: "(nat \<Rightarrow> nat option) \<Rightarrow> svc \<Rightarrow> bool" for sys where
  reachable_init: "svc_reachable sys svc_init"
| reachable_step: "svc_reachable sys s \<Longrightarrow> svc_step sys s t \<Longrightarrow> svc_reachable sys t"
| reachable_control: "svc_reachable sys s \<Longrightarrow> svc_control s t \<Longrightarrow> svc_reachable sys t"

inductive_cases svc_stepE: "svc_step sys s t"
inductive_cases svc_controlE: "svc_control s t"

section \<open>What is reported\<close>

definition reported :: "svc \<Rightarrow> svc_state list" where
  "reported s = map CurrentState (reports s)"

definition up_states :: "svc_state list \<Rightarrow> bool" where
  "up_states L \<longleftrightarrow> set L \<subseteq> {Running, Paused} \<and> L \<noteq> [] \<and> hd L = Running"

text \<open>The reports at each place of the handler while the loop runs.\<close>

fun loop_reports :: "exec_loc \<Rightarrow> svc_state list \<Rightarrow> bool" where
  "loop_reports ExecStart L = (L = [])"
| "loop_reports ExecLoop L = up_states L"
| "loop_reports (ExecAnswer st) L = (up_states L \<and> State st \<in> {Running, Paused})"
| "loop_reports ExecStopping L = up_states L"
| "loop_reports ExecReturned L = (\<exists>M. L = M @ [StopPending] \<and> up_states M)"
| "loop_reports ExecGone L = False"

definition ended_reports :: "bool \<Rightarrow> svc_state list \<Rightarrow> bool" where
  "ended_reports up L \<longleftrightarrow>
     (if up then up_states L \<or> (\<exists>M. L = M @ [StopPending] \<and> up_states M) else L = [])"

definition svc_inv :: "svc \<Rightarrow> bool" where
  "svc_inv s \<longleftrightarrow>
     (inch s \<longleftrightarrow> outch s = None) \<and>
     (broker s \<longleftrightarrow> exec s \<noteq> ExecStart) \<and>
     (phase s = RunLoop \<longrightarrow> loop_reports (exec s) (reported s)) \<and>
     (phase s = RunLoop \<and> exec s \<noteq> ExecStart \<longrightarrow> State (cur_status s) = last (reported s)) \<and>
     (phase s = RunEnding \<longrightarrow> ended_reports (broker s) (reported s)) \<and>
     (phase s = RunDone \<longrightarrow> (\<exists>M. reported s = M @ [Stopped] \<and> ended_reports (broker s) M))"

lemma up_states_snoc: "up_states L \<Longrightarrow> x \<in> {Running, Paused} \<Longrightarrow> up_states (L @ [x])"
  by (auto simp: up_states_def)

lemma up_states_last: "up_states L \<Longrightarrow> last L \<in> {Running, Paused}"
  unfolding up_states_def by (metis last_in_set subsetD)

lemma loop_ended: "loop_reports e L \<Longrightarrow> ended_reports (e \<noteq> ExecStart) L"
  by (cases e) (auto simp: ended_reports_def)

lemma svc_inv_init: "svc_inv svc_init"
  by (simp add: svc_inv_def svc_init_def reported_def)

lemma reported_simps [simp]:
  "reported (s\<lparr>exec := a\<rparr>) = reported s" "reported (s\<lparr>broker := b\<rparr>) = reported s"
  "reported (s\<lparr>phase := c\<rparr>) = reported s" "reported (s\<lparr>inch := d\<rparr>) = reported s"
  "reported (s\<lparr>outch := f\<rparr>) = reported s" "reported (s\<lparr>cur_status := g\<rparr>) = reported s"
  "reported (s\<lparr>ec := h\<rparr>) = reported s" "reported (s\<lparr>pending := i\<rparr>) = reported s"
  "reported (s\<lparr>reports := R\<rparr>) = map CurrentState R"
  by (simp_all add: reported_def)

lemma CurrentState_status [simp]: "CurrentState (service_status st e) = State st"
  by (simp add: service_status_def)

lemma exec_sends_reports:
  "exec_sends e = Some (st, e') \<Longrightarrow> loop_reports e L \<Longrightarrow> loop_reports e' (L @ [State st]) \<and> e' \<noteq> ExecStart"
  by (cases e) (auto simp: status_def up_states_def)

lemma exec_change_reports:
  "up_states L \<Longrightarrow> State st = last L \<Longrightarrow> loop_reports (exec_change \<lparr>req_Cmd = c, CurrentStatus = st\<rparr>) L"
  using up_states_last [of L] by (auto simp: exec_change_def status_def split: Cmd.splits)

lemma exec_change_started: "exec_change r \<noteq> ExecStart"
  by (simp add: exec_change_def split: Cmd.splits)

lemma updateStatus_simps:
  "updateStatus sys st s = (r, t) \<longleftrightarrow>
     r = sys (length (reports s)) \<and> t = s\<lparr>reports := reports s @ [service_status st (ec s)]\<rparr>"
  by (auto simp: updateStatus_def)

lemma svc_step_inv:
  assumes "svc_step sys s t" and "svc_inv s"
  shows "svc_inv t"
  using assms
proof (cases rule: svc_step.cases)
  case (receive_change st e u)
  then have "loop_reports (exec s) (reported s)" using assms(2) by (simp add: svc_inv_def)
  from exec_sends_reports [OF receive_change(3) this] receive_change assms(2) show ?thesis
    by (auto simp: svc_inv_def updateStatus_simps reported_def)
next
  case (change_fails st e err u)
  then have "loop_reports (exec s) (reported s)" using assms(2) by (simp add: svc_inv_def)
  from exec_sends_reports [OF change_fails(3) this] have r: "loop_reports e (reported s @ [State st])" "e \<noteq> ExecStart"
    by auto
  with loop_ended [OF r(1)] change_fails assms(2) show ?thesis
    by (auto simp: svc_inv_def updateStatus_simps reported_def)
next
  case (send_request c)
  then have "up_states (reported s)" "State (cur_status s) = last (reported s)" using assms(2) by (auto simp: svc_inv_def)
  from exec_change_reports [OF this] send_request assms(2) show ?thesis
    by (auto simp: svc_inv_def exec_change_started)
next
  case (receive_error r)
  then have "ended_reports (broker s) (reported s)"
    using assms(2) loop_ended [of "exec s" "reported s"] by (simp add: svc_inv_def)
  with receive_error assms(2) show ?thesis by (simp add: svc_inv_def)
next
  case receive_exit
  then have "ended_reports True (reported s)"
    using assms(2) loop_ended [of "exec s" "reported s"] by (simp add: svc_inv_def)
  with receive_exit assms(2) show ?thesis by (simp add: svc_inv_def)
next
  case (run_ends err u)
  with assms(2) show ?thesis by (auto simp: svc_inv_def updateStatus_simps reported_def status_def)
qed (auto simp: svc_inv_def)

lemma svc_inv_pending: "svc_inv (s\<lparr>pending := p\<rparr>) = svc_inv s"
  by (simp add: svc_inv_def)

lemma svc_control_inv: "svc_control s t \<Longrightarrow> svc_inv s \<Longrightarrow> svc_inv t"
  by (erule svc_controlE) (simp add: svc_inv_pending)

lemma svc_reachable_inv: "svc_reachable sys s \<Longrightarrow> svc_inv s"
  by (induction rule: svc_reachable.induct) (auto intro: svc_inv_init svc_step_inv svc_control_inv)

section \<open>Stopping\<close>

text \<open>Every step of the loop gets it nearer to the end of what it can do by itself.\<close>

fun exec_weight :: "exec_loc \<Rightarrow> nat" where
  "exec_weight ExecStart = 3"
| "exec_weight ExecLoop = 2"
| "exec_weight (ExecAnswer st) = 3"
| "exec_weight ExecStopping = 2"
| "exec_weight ExecReturned = 1"
| "exec_weight ExecGone = 0"

fun phase_weight :: "run_phase \<Rightarrow> nat" where
  "phase_weight RunLoop = 2"
| "phase_weight RunEnding = 1"
| "phase_weight RunDone = 0"

definition svc_weight :: "svc \<Rightarrow> nat" where
  "svc_weight s =
     (if pending s = None then 0 else 3) + (if outch s = None then 0 else 2) + exec_weight (exec s)
       + phase_weight (phase s)"

lemma exec_change_weight: "exec_weight (exec_change r) \<le> 3"
  by (simp add: exec_change_def split: Cmd.splits)

lemma exec_sends_weight: "exec_sends e = Some (st, e') \<Longrightarrow> exec_weight e' < exec_weight e"
  by (cases e) auto

lemma svc_step_weight: "svc_step sys s t \<Longrightarrow> svc_weight t < svc_weight s"
  by (erule svc_stepE)
     (auto simp: svc_weight_def updateStatus_simps dest: exec_sends_weight
       intro: le_less_trans [OF exec_change_weight] order.strict_trans1 [OF exec_change_weight])

text \<open>A stop is on its way, and nothing of the system fails.\<close>

definition stops :: "Cmd \<Rightarrow> bool" where
  "stops c \<longleftrightarrow> c \<notin> {Interrogate, Pause, Continue}"

definition stopping :: "svc \<Rightarrow> bool" where
  "stopping s \<longleftrightarrow>
     phase s \<noteq> RunLoop \<or> exec s \<in> {ExecStopping, ExecReturned, ExecGone} \<or>
     (\<exists>c. outch s = Some c \<and> stops c) \<or> (\<exists>r. pending s = Some r \<and> (stops (ctl_cmd r) \<or> ctl_errno r \<noteq> 0))"

lemma exec_change_stops: "stops c \<Longrightarrow> exec_change \<lparr>req_Cmd = c, CurrentStatus = st\<rparr> = ExecStopping"
  by (simp add: exec_change_def stops_def split: Cmd.splits)

lemma svc_step_stopping:
  assumes "svc_step sys s t" and "svc_inv s" and "stopping s"
  shows "stopping t"
  using assms
  by (cases rule: svc_step.cases)
     (auto simp: stopping_def updateStatus_simps exec_change_stops svc_inv_def elim: exec_sends.elims)

lemma svc_control_stopping: "svc_control s t \<Longrightarrow> stopping s \<Longrightarrow> stopping t"
  by (erule svc_controlE) (auto simp: stopping_def)

lemma stopping_progress:
  assumes "svc_inv s" and "stopping s" and "phase s \<noteq> RunDone"
  shows "\<exists>t. svc_step sys s t"
proof (cases "phase s")
  case RunEnding
  then show ?thesis using svc_step.run_ends [of s sys] by (metis surj_pair)
next
  case RunLoop
  show ?thesis
  proof (cases "exec_sends (exec s)")
    case (Some se)
    obtain st e where se: "se = (st, e)" by fastforce
    obtain r t where u: "updateStatus sys st s = (r, t)" by fastforce
    show ?thesis
    proof (cases r)
      case None
      with svc_step.receive_change RunLoop Some se u show ?thesis by blast
    next
      case (Some err)
      with svc_step.change_fails RunLoop \<open>exec_sends (exec s) = Some se\<close> se u show ?thesis by blast
    qed
  next
    case None
    with assms(1) RunLoop consider "exec s = ExecLoop" | "exec s = ExecReturned"
      by (cases "exec s") (auto simp: svc_inv_def)
    then show ?thesis
    proof cases
      case 1
      show ?thesis
      proof (cases "outch s")
        case None
        with assms(1,2) RunLoop 1 obtain r where r: "inch s" "pending s = Some r"
          by (auto simp: stopping_def svc_inv_def)
        with RunLoop svc_step.receive_control svc_step.receive_error show ?thesis by blast
      next
        case (Some c)
        with RunLoop 1 svc_step.send_request show ?thesis by blast
      qed
    next
      case 2
      with RunLoop svc_step.receive_exit show ?thesis by blast
    qed
  qed
qed (use assms(3) in simp)

lemma svc_steps_stopping:
  "(svc_step sys)\<^sup>*\<^sup>* s t \<Longrightarrow> svc_inv s \<Longrightarrow> stopping s \<Longrightarrow> svc_inv t \<and> stopping t"
  by (induction rule: rtranclp_induct) (auto intro: svc_step_inv svc_step_stopping)

lemma steps_bounded: "(\<And>i. i < n \<Longrightarrow> svc_step sys (f i) (f (Suc i))) \<Longrightarrow> n \<le> svc_weight (f 0)"
proof -
  assume steps: "\<And>i. i < n \<Longrightarrow> svc_step sys (f i) (f (Suc i))"
  have "k \<le> n \<Longrightarrow> svc_weight (f k) + k \<le> svc_weight (f 0)" for k
  proof (induction k)
    case (Suc k)
    then show ?case using svc_step_weight [OF steps [of k]] by simp
  qed simp
  from this [of n] show ?thesis by simp
qed

lemma steps_end: "\<exists>t. (svc_step sys)\<^sup>*\<^sup>* s t \<and> (\<nexists>u. svc_step sys t u)"
proof (induction "svc_weight s" arbitrary: s rule: less_induct)
  case less
  show ?case
  proof (cases "\<exists>u. svc_step sys s u")
    case True
    then obtain u where u: "svc_step sys s u" by blast
    from less [OF svc_step_weight [OF u]] u show ?thesis by (meson converse_rtranclp_into_rtranclp)
  qed blast
qed

lemma done_forever:
  "(\<lambda>s t. svc_step sys s t \<or> svc_control s t)\<^sup>*\<^sup>* s t \<Longrightarrow> phase s = RunDone \<Longrightarrow> pending s = Some r \<Longrightarrow>
   t = s"
  by (induction rule: rtranclp_induct) (auto elim: svc_stepE svc_controlE)

end
