(* ===== verification/WinMain.thy ===== *)
theory WinMain
  imports WinService MainProg
begin

text \<open>
  The entry points: \<open>main\<close> of \<open>main_windows.go\<close> with the log file of the service, its writer
  (\<open>winfilewriter.go\<close>), and \<open>main\<close> of \<open>main_nonwindows.go\<close>.
\<close>

section \<open>Paths\<close>

text \<open>\<open>path.Clean\<close> and \<open>path.Join\<close> of two elements.\<close>

definition clean_element :: "bool \<Rightarrow> string list \<Rightarrow> string \<Rightarrow> string list" where
  "clean_element rooted acc seg =
     (if seg = [] \<or> seg = ''.'' then acc
      else if seg = ''..''
      then (if acc \<noteq> [] \<and> last acc \<noteq> ''..'' then butlast acc else if rooted then acc else acc @ [''..''])
      else acc @ [seg])"

fun join_slash :: "string list \<Rightarrow> string" where
  "join_slash [] = []"
| "join_slash [s] = s"
| "join_slash (s # t # ts) = s @ ''/'' @ join_slash (t # ts)"

definition any_path_Clean :: "string \<Rightarrow> string" where
  "any_path_Clean p =
     (let rooted = (take 1 p = ''/'');
          body = join_slash (foldl (clean_element rooted) [] (split_at (CHR ''/'') p))
      in if rooted then ''/'' @ body else if body = [] then ''.'' else body)"

definition path_Join :: "string \<Rightarrow> string \<Rightarrow> string" where
  "path_Join a b =
     (if a = [] then (if b = [] then [] else any_path_Clean b)
      else any_path_Clean (if b = [] then a else a @ ''/'' @ b))"

section \<open>The writer of the log file\<close>

text \<open>The file is synchronised after every write, and the outcome of that is not looked at.\<close>

definition winFileWriter_Write ::
  "('w \<Rightarrow> string \<Rightarrow> (nat \<times> go_error option) \<times> 'w) \<Rightarrow> ('w \<Rightarrow> go_error option \<times> 'w)
    \<Rightarrow> string \<Rightarrow> 'w \<Rightarrow> (nat \<times> go_error option) \<times> 'w" where
  "winFileWriter_Write fileWrite fileSync p w =
     (let (r, w') = fileWrite w p; (e, w'') = fileSync w' in (r, w''))"

section \<open>Entry points\<close>

text \<open>What the system answers: the session, the working directory, whether a directory is
  missing, making it, opening the log file, and the end of the service.\<close>

record win_system =
  IsAnInteractiveSession :: "go_error + bool"
  Getwd :: "go_error + string"
  isMissing :: "string \<Rightarrow> bool"
  Mkdir :: "string \<Rightarrow> go_error option"
  OpenFile :: "string \<Rightarrow> go_error option"
  svcRun :: "string \<Rightarrow> string \<Rightarrow> go_error option"

text \<open>The broker runs in the session with standard output, or the service of a name has run
  with a log file.\<close>

datatype win_run = RunInteractive | ServiceRan string string

definition panic_text :: "go_error \<Rightarrow> 'a outcome" where
  "panic_text e = Panicked (PanicString (error_text e))"

definition log_directory :: "win_system \<Rightarrow> string \<Rightarrow> string outcome" where
  "log_directory W logDir =
     (if logDir \<noteq> [] then Ret logDir
      else (case Getwd W of Inl e \<Rightarrow> panic_text e | Inr dir \<Rightarrow> Ret (path_Join dir ''logs'')))"

definition windows_main :: "win_system \<Rightarrow> string \<Rightarrow> string \<Rightarrow> win_run outcome" where
  "windows_main W serviceName logDir =
     (case IsAnInteractiveSession W of
        Inl e \<Rightarrow> panic_text e
      | Inr True \<Rightarrow> Ret RunInteractive
      | Inr False \<Rightarrow>
          (case log_directory W logDir of
             Panicked v \<Rightarrow> Panicked v
           | Ret dir \<Rightarrow>
               (case (if isMissing W dir then Mkdir W dir else None) of
                  Some e \<Rightarrow> panic_text e
                | None \<Rightarrow>
                    (let logFilePath = path_Join dir ''mssql_broker.log''
                     in case OpenFile W logFilePath of
                          Some e \<Rightarrow> panic_text e
                        | None \<Rightarrow>
                            (case svcRun W serviceName logFilePath of
                               Some e \<Rightarrow> panic_text e
                             | None \<Rightarrow> Ret (ServiceRan serviceName logFilePath))))))"

definition nonwindows_main :: "'w env \<Rightarrow> string \<Rightarrow> string \<Rightarrow> ('w proc, running) go" where
  "nonwindows_main E goos configFile = runMain E goos configFile"

end
