(* ===== verification/WinTheorems.thy ===== *)
theory WinTheorems
  imports WinMain
begin

text \<open>The properties of the Windows service: what it reports, and that it stops.\<close>

text \<open>C34: in every reachable state of the service the states reported to the manager are Running
  first and then Running and Paused only, after them perhaps StopPending, and then Stopped, which
  is reported exactly once, when the loop has ended.  The broker has been started exactly when a
  state other than Stopped has been reported, and it is not stopped again: it still runs while
  Paused or StopPending is what the manager was told last.\<close>

theorem service_reports:
  assumes "svc_reachable sys s"
  shows "\<exists>M E. reported s = M @ E \<and> set M \<subseteq> {Running, Paused} \<and> (M = [] \<or> hd M = Running) \<and>
    E \<in> {[], [StopPending], [Stopped], [StopPending, Stopped]} \<and>
    (Stopped \<in> set E \<longleftrightarrow> phase s = RunDone) \<and> (broker s \<longleftrightarrow> M \<noteq> []) \<and> (M = [] \<longrightarrow> StopPending \<notin> set E)"
proof -
  have inv: "svc_inv s" using assms by (rule svc_reachable_inv)
  have ended: "\<exists>M E. L = M @ E \<and> set M \<subseteq> {Running, Paused} \<and> (M = [] \<or> hd M = Running) \<and>
      E \<in> {[], [StopPending]} \<and> (up \<longleftrightarrow> M \<noteq> []) \<and> (M = [] \<longrightarrow> E = [])" if "ended_reports up L" for L up
    using that by (auto simp: ended_reports_def up_states_def split: if_splits)
  show ?thesis
  proof (cases "phase s")
    case RunDone
    then obtain L where L: "reported s = L @ [Stopped]" "ended_reports (broker s) L"
      using inv by (auto simp: svc_inv_def)
    from ended [OF L(2)] obtain M E where "L = M @ E" "set M \<subseteq> {Running, Paused}" "M = [] \<or> hd M = Running"
      "E \<in> {[], [StopPending]}" "broker s \<longleftrightarrow> M \<noteq> []" "M = [] \<longrightarrow> E = []" by blast
    with L(1) RunDone show ?thesis by (intro exI [of _ M] exI [of _ "E @ [Stopped]"]) auto
  next
    case RunEnding
    then have "ended_reports (broker s) (reported s)" using inv unfolding svc_inv_def by blast
    from ended [OF this] obtain M E where "reported s = M @ E" "set M \<subseteq> {Running, Paused}" "M = [] \<or> hd M = Running"
      "E \<in> {[], [StopPending]}" "broker s \<longleftrightarrow> M \<noteq> []" "M = [] \<longrightarrow> E = []" by blast
    with RunEnding show ?thesis by (intro exI [of _ M] exI [of _ E]) auto
  next
    case RunLoop
    then have "ended_reports (broker s) (reported s)"
      using inv loop_ended [of "exec s" "reported s"] by (simp add: svc_inv_def)
    from ended [OF this] obtain M E where "reported s = M @ E" "set M \<subseteq> {Running, Paused}" "M = [] \<or> hd M = Running"
      "E \<in> {[], [StopPending]}" "broker s \<longleftrightarrow> M \<noteq> []" "M = [] \<longrightarrow> E = []" by blast
    with RunLoop show ?thesis by (intro exI [of _ M] exI [of _ E]) auto
  qed
qed

text \<open>A run: the service starts, is told to pause, and pauses.\<close>

definition started :: svc where
  "started = svc_init\<lparr>reports := [service_status (status Running accept_all) (ec svc_init)],
     exec := ExecLoop, broker := True, cur_status := status Running accept_all\<rparr>"

lemma started_reachable: "svc_reachable (\<lambda>n. None) started"
proof (rule reachable_step [OF reachable_init])
  show "svc_step (\<lambda>n. None) svc_init started"
    unfolding started_def by (rule receive_change) (simp_all add: svc_init_def updateStatus_def)
qed

definition told :: "Cmd \<Rightarrow> svc" where
  "told c = started\<lparr>pending := Some \<lparr>ctl_cmd = c, ctl_errno = 0\<rparr>\<rparr>"

lemma told_reachable: "svc_reachable (\<lambda>n. None) (told c)"
  unfolding told_def
  by (rule reachable_control [OF started_reachable], rule control) (simp_all add: started_def svc_init_def)

theorem service_reports_witness:
  "\<exists>M E. reported (told Pause) = M @ E \<and> M = [Running] \<and> E = [] \<and> broker (told Pause)"
proof -
  have "reported (told Pause) = [Running]" "broker (told Pause)" "phase (told Pause) = RunLoop"
    by (simp_all add: told_def started_def svc_init_def status_def reported_def)
  with service_reports [OF told_reachable, of Pause] show ?thesis by (auto simp: Cons_eq_append_conv)
qed

text \<open>C35: once a stop, a shutdown or a command the handler does not know is on its way, the service
  ends.  Every sequence of its own steps is bounded, whatever it does next leads to the end, and
  then it has reported Stopped, whether or not reports fail; further commands that arrive do not
  keep it from that.  But a command that arrives when the loop has ended is never taken: the
  callback, and the manager that calls it, wait for ever.\<close>

theorem service_stops:
  assumes "svc_reachable sys s"
  shows "(stopping s \<longrightarrow>
      (\<forall>f n. f 0 = s \<and> (\<forall>i<n. svc_step sys (f i) (f (Suc i))) \<longrightarrow> n \<le> svc_weight s) \<and>
      (\<forall>t. (svc_step sys)\<^sup>*\<^sup>* s t \<and> (\<nexists>u. svc_step sys t u) \<longrightarrow>
         phase t = RunDone \<and> last (reported t) = Stopped) \<and>
      (\<forall>t. svc_control s t \<longrightarrow> stopping t)) \<and>
    (phase s = RunDone \<and> pending s \<noteq> None \<longrightarrow>
      (\<forall>t. (\<lambda>s t. svc_step sys s t \<or> svc_control s t)\<^sup>*\<^sup>* s t \<longrightarrow> t = s))"
proof -
  have inv: "svc_inv s" using assms by (rule svc_reachable_inv)
  have "n \<le> svc_weight s" if "f 0 = s" "\<forall>i<n. svc_step sys (f i) (f (Suc i))" for f n
    using steps_bounded [of n sys f] that by simp
  moreover have "phase t = RunDone \<and> last (reported t) = Stopped"
    if "stopping s" "(svc_step sys)\<^sup>*\<^sup>* s t" "\<nexists>u. svc_step sys t u" for t
  proof -
    from svc_steps_stopping [OF that(2) inv that(1)] have t: "svc_inv t" "stopping t" by auto
    with stopping_progress [OF t] that(3) have "phase t = RunDone" by blast
    with t(1) show ?thesis by (auto simp: svc_inv_def)
  qed
  moreover have "stopping t" if "stopping s" "svc_control s t" for t
    using svc_control_stopping that by blast
  moreover have "t = s" if "phase s = RunDone" "pending s \<noteq> None"
    "(\<lambda>s t. svc_step sys s t \<or> svc_control s t)\<^sup>*\<^sup>* s t" for t
    using done_forever [OF that(3) that(1)] that(2) by blast
  ultimately show ?thesis by blast
qed

theorem service_stops_witness:
  "stopping (told Stop) \<and>
   (\<exists>t. (svc_step (\<lambda>n. None))\<^sup>*\<^sup>* (told Stop) t \<and> phase t = RunDone \<and> last (reported t) = Stopped)"
proof -
  have s: "stopping (told Stop)" by (simp add: stopping_def told_def stops_def)
  from service_stops [OF told_reachable, of Stop] s steps_end [of "\<lambda>n. None" "told Stop"] show ?thesis by blast
qed

end
