(* ===== verification/Md4.thy ===== *)
theory Md4
  imports Prelude Bytes
begin

text \<open>
  Package md4 of golang.org/x/crypto (\<open>md4.go\<close>, \<open>md4block.go\<close>), the hash of the NTLM login:
  the digest with its partial block, the block step, and a reference after RFC 1320.
\<close>

section \<open>The block step\<close>

type_synonym md4_state = "32 word \<times> 32 word \<times> 32 word \<times> 32 word"

definition shift1 :: "nat list" where "shift1 = [3, 7, 11, 19]"
definition shift2 :: "nat list" where "shift2 = [3, 5, 9, 13]"
definition shift3 :: "nat list" where "shift3 = [3, 9, 11, 15]"

definition xIndex2 :: "nat list" where
  "xIndex2 = [0, 4, 8, 12, 1, 5, 9, 13, 2, 6, 10, 14, 3, 7, 11, 15]"

definition xIndex3 :: "nat list" where
  "xIndex3 = [0, 8, 4, 12, 2, 10, 6, 14, 1, 9, 5, 13, 3, 11, 7, 15]"

definition md4_rotate :: "nat \<Rightarrow> 32 word \<Rightarrow> 32 word" where
  "md4_rotate s a = push_bit s a OR drop_bit (32 - s) a"

text \<open>The sixteen words of a block, little-endian.\<close>

definition md4_word :: "octet list \<Rightarrow> nat \<Rightarrow> 32 word" where
  "md4_word p i =
     (let j = 4 * i
      in ucast (p ! j) OR push_bit 8 (ucast (p ! (j + 1))) OR push_bit 16 (ucast (p ! (j + 2)))
           OR push_bit 24 (ucast (p ! (j + 3))))"

definition md4_words :: "octet list \<Rightarrow> 32 word list" where
  "md4_words p = map (md4_word p) [0..<16]"

text \<open>The body of each round's loop; \<open>a, b, c, d = d, a, b, c\<close> at its end.\<close>

fun md4_step1 :: "32 word list \<Rightarrow> md4_state \<Rightarrow> nat \<Rightarrow> md4_state" where
  "md4_step1 X (a, b, c, d) i =
     (let f = ((c XOR d) AND b) XOR d
      in (d, md4_rotate (shift1 ! (i mod 4)) (a + (f + X ! i)), b, c))"

fun md4_step2 :: "32 word list \<Rightarrow> md4_state \<Rightarrow> nat \<Rightarrow> md4_state" where
  "md4_step2 X (a, b, c, d) i =
     (let g = (b AND c) OR (b AND d) OR (c AND d)
      in (d, md4_rotate (shift2 ! (i mod 4)) (a + (g + X ! (xIndex2 ! i) + 0x5a827999)), b, c))"

fun md4_step3 :: "32 word list \<Rightarrow> md4_state \<Rightarrow> nat \<Rightarrow> md4_state" where
  "md4_step3 X (a, b, c, d) i =
     (let h = b XOR c XOR d
      in (d, md4_rotate (shift3 ! (i mod 4)) (a + (h + X ! (xIndex3 ! i) + 0x6ed9eba1)), b, c))"

definition md4_compress :: "md4_state \<Rightarrow> octet list \<Rightarrow> md4_state" where
  "md4_compress st p =
     (let X = md4_words p;
          (aa, bb, cc, dd) = st;
          (a, b, c, d) = foldl (md4_step3 X) (foldl (md4_step2 X) (foldl (md4_step1 X) st [0..<16]) [0..<16]) [0..<16]
      in (a + aa, b + bb, c + cc, d + dd))"

text \<open>\<open>_Block\<close>: the state after the whole blocks of \<open>p\<close>, and how many bytes they were.\<close>

function md4_blocks :: "md4_state \<Rightarrow> octet list \<Rightarrow> nat \<Rightarrow> md4_state \<times> nat" where
  "md4_blocks st p n =
     (if 64 \<le> length p then md4_blocks (md4_compress st (take 64 p)) (drop 64 p) (n + 64) else (st, n))"
  by pat_completeness auto
termination
  by (relation "measure (\<lambda>(st, p, n). length p)") auto

declare md4_blocks.simps [simp del]

section \<open>The digest\<close>

record digest =
  md_s :: md4_state
  md_x :: "octet list"
  md_nx :: nat
  md_len :: "64 word"

definition md4_New :: digest where
  "md4_New = \<lparr>md_s = (0x67452301, 0xEFCDAB89, 0x98BADCFE, 0x10325476), md_x = replicate 64 0, md_nx = 0, md_len = 0\<rparr>"

definition md4_Block :: "digest \<Rightarrow> octet list \<Rightarrow> nat \<times> digest" where
  "md4_Block d p = (case md4_blocks (md_s d) p 0 of (st, n) \<Rightarrow> (n, d\<lparr>md_s := st\<rparr>))"

text \<open>\<open>copy\<close> into the partial block.\<close>

definition md4_fill :: "nat \<Rightarrow> octet list \<Rightarrow> digest \<Rightarrow> digest" where
  "md4_fill i p d = d\<lparr>md_x := take i (md_x d) @ p @ drop (i + length p) (md_x d)\<rparr>"

text \<open>The first part of \<open>Write\<close>, which completes the partial block: the rest of the bytes.\<close>

definition md4_complete :: "digest \<Rightarrow> octet list \<Rightarrow> octet list \<times> digest" where
  "md4_complete d p =
     (if md_nx d > 0
      then (let n = min (length p) (64 - md_nx d);
                d = (md4_fill (md_nx d) (take n p) d)\<lparr>md_nx := md_nx d + n\<rparr>;
                d = (if md_nx d = 64 then (snd (md4_Block d (md_x d)))\<lparr>md_nx := 0\<rparr> else d)
            in (drop n p, d))
      else (p, d))"

definition md4_Write :: "octet list \<Rightarrow> digest \<Rightarrow> digest" where
  "md4_Write p d =
     (let d = d\<lparr>md_len := md_len d + of_nat (length p)\<rparr>;
          (p, d) = md4_complete d p;
          (n, d) = md4_Block d p;
          p = drop n p
      in if p = [] then d else (md4_fill 0 (take 64 p) d)\<lparr>md_nx := min 64 (length p)\<rparr>)"

definition md4_bytes :: "32 word \<Rightarrow> octet list" where
  "md4_bytes s = [ucast s, ucast (drop_bit 8 s), ucast (drop_bit 16 s), ucast (drop_bit 24 s)]"

definition md4_Sum :: "digest \<Rightarrow> octet list \<Rightarrow> octet list outcome" where
  "md4_Sum d0 inn =
     (let len = md_len d0;
          tmp = 0x80 # replicate 63 0;
          k = unat (len mod 64);
          d = md4_Write (if k < 56 then take (56 - k) tmp else take (64 + 56 - k) tmp) d0;
          bits = push_bit 3 len;
          d = md4_Write (map (\<lambda>i. ucast (drop_bit (8 * i) bits)) [0..<8]) d
      in if md_nx d \<noteq> 0 then Panicked (PanicString ''d.nx != 0'')
         else (case md_s d of (a, b, c, e) \<Rightarrow>
                 Ret (inn @ md4_bytes a @ md4_bytes b @ md4_bytes c @ md4_bytes e)))"

section \<open>The reference\<close>

text \<open>
  RFC 1320.  The registers keep their names; operation \<open>i\<close> of a round writes register
  \<open>A, D, C, B\<close> in turn from the three others, with the functions \<open>F\<close>, \<open>G\<close> and \<open>H\<close> of the RFC.
\<close>

definition rfc_F :: "32 word \<Rightarrow> 32 word \<Rightarrow> 32 word \<Rightarrow> 32 word" where
  "rfc_F x y z = (x AND y) OR (NOT x AND z)"

definition rfc_G :: "32 word \<Rightarrow> 32 word \<Rightarrow> 32 word \<Rightarrow> 32 word" where
  "rfc_G x y z = (x AND y) OR (x AND z) OR (y AND z)"

definition rfc_H :: "32 word \<Rightarrow> 32 word \<Rightarrow> 32 word \<Rightarrow> 32 word" where
  "rfc_H x y z = x XOR y XOR z"

definition rfc_op ::
  "(32 word \<Rightarrow> 32 word \<Rightarrow> 32 word \<Rightarrow> 32 word) \<Rightarrow> 32 word \<Rightarrow> nat list \<Rightarrow> nat list \<Rightarrow> 32 word list
    \<Rightarrow> (nat \<Rightarrow> 32 word) \<Rightarrow> nat \<Rightarrow> (nat \<Rightarrow> 32 word)" where
  "rfc_op f k shifts order X R i =
     (let j = (4 - i mod 4) mod 4
      in R(j := word_rotl (shifts ! (i mod 4))
             (R j + f (R ((j + 1) mod 4)) (R ((j + 2) mod 4)) (R ((j + 3) mod 4)) + X ! (order ! i) + k)))"

definition rfc_compress :: "md4_state \<Rightarrow> octet list \<Rightarrow> md4_state" where
  "rfc_compress st block =
     (let X = map (\<lambda>i. of_nat (le_value (take 4 (drop (4 * i) block)))) [0..<16];
          (A, B, C, D) = st;
          R0 = (\<lambda>i. [A, B, C, D] ! i);
          R1 = foldl (rfc_op rfc_F 0 [3, 7, 11, 19] [0..<16] X) R0 [0..<16];
          R2 = foldl (rfc_op rfc_G 0x5A827999 [3, 5, 9, 13] [0, 4, 8, 12, 1, 5, 9, 13, 2, 6, 10, 14, 3, 7, 11, 15] X) R1 [0..<16];
          R3 = foldl (rfc_op rfc_H 0x6ED9EBA1 [3, 9, 11, 15] [0, 8, 4, 12, 2, 10, 6, 14, 1, 9, 5, 13, 3, 11, 7, 15] X) R2 [0..<16]
      in (A + R3 0, B + R3 1, C + R3 2, D + R3 3))"

fun in_blocks :: "nat \<Rightarrow> octet list \<Rightarrow> octet list list" where
  "in_blocks 0 p = []"
| "in_blocks (Suc n) p = take 64 p # in_blocks n (drop 64 p)"

text \<open>The message with its padding: a bit, zeros up to 8 bytes before the end of a block, and the
  low 64 bits of its length in bits.\<close>

definition rfc_padded :: "octet list \<Rightarrow> octet list" where
  "rfc_padded msg =
     msg @ [0x80] @ replicate ((119 - length msg mod 64) mod 64) 0 @ le_bytes 8 (8 * length msg)"

definition rfc_md4 :: "octet list \<Rightarrow> octet list" where
  "rfc_md4 msg =
     (let p = rfc_padded msg
      in case foldl rfc_compress (0x67452301, 0xEFCDAB89, 0x98BADCFE, 0x10325476) (in_blocks (length p div 64) p) of
           (A, B, C, D) \<Rightarrow> concat (map (\<lambda>r. le_bytes 4 (unat r)) [A, B, C, D]))"

end
