(* ===== verification/Md4Proof.thy ===== *)
theory Md4Proof
  imports Md4
begin

text \<open>
  The code of package md4 computes the reference: the steps of a block with rotated registers
  are the operations of the RFC, and portions may be written in any sizes.
\<close>

section \<open>The block step\<close>

lemma md4_rotate_rotl:
  assumes "0 < s" and "s < 32"
  shows "md4_rotate s a = word_rotl s a"
proof (rule bit_word_eqI)
  fix n assume n: "n < LENGTH(32)"
  show "bit (md4_rotate s a) n \<longleftrightarrow> bit (word_rotl s a) n"
  proof (cases "s \<le> n")
    case True
    then have "(n + (32 - s)) mod 32 = n - s" using n assms by (simp add: mod_if)
    then show ?thesis using True n assms
      by (auto simp: md4_rotate_def bit_simps bit_word_rotl_iff dest: bit_imp_le_length)
  next
    case False
    then have "(n + (32 - s)) mod 32 = n + (32 - s)" using n assms by simp
    then have "bit (word_rotl s a) n \<longleftrightarrow> bit a (n + (32 - s))" using n assms by (simp add: bit_word_rotl_iff)
    moreover have "bit (md4_rotate s a) n \<longleftrightarrow> bit a (32 - s + n)"
      using False n by (simp add: md4_rotate_def bit_or_iff bit_push_bit_iff bit_drop_bit_eq)
    ultimately show ?thesis by (metis add.commute)
  qed
qed

lemma md4_f: "((c XOR d) AND b) XOR d = rfc_F b c d"
  by (rule bit_word_eqI) (auto simp: rfc_F_def bit_simps)

text \<open>The registers of the code after \<open>i\<close> operations are those of the RFC, rotated.\<close>

definition rotated :: "nat \<Rightarrow> (nat \<Rightarrow> 32 word) \<Rightarrow> md4_state \<Rightarrow> bool" where
  "rotated i R st \<longleftrightarrow>
     (let j = (4 - i mod 4) mod 4
      in st = (R j, R ((j + 1) mod 4), R ((j + 2) mod 4), R ((j + 3) mod 4)))"

lemma mod4_cases: "(i::nat) mod 4 = 0 \<or> i mod 4 = 1 \<or> i mod 4 = 2 \<or> i mod 4 = 3"
  by linarith

lemma rotated_op:
  assumes "rotated i R (a, b, c, d)" and "r = word_rotl (shifts ! (i mod 4)) (a + f b c d + X ! (order ! i) + k)"
  shows "rotated (Suc i) (rfc_op f k shifts order X R i) (d, r, b, c)"
proof -
  consider "i mod 4 = 0" | "i mod 4 = 1" | "i mod 4 = 2" | "i mod 4 = 3" by linarith
  then show ?thesis
    by cases (use assms in \<open>simp_all add: rotated_def rfc_op_def Let_def mod_Suc numeral_2_eq_2 numeral_3_eq_3\<close>)
qed

lemma rotated_fold:
  assumes "\<And>i st R. i < n \<Longrightarrow> rotated i R st \<Longrightarrow> rotated (Suc i) (op R i) (stp st i)" and "rotated 0 R st"
  shows "rotated n (foldl op R [0..<n]) (foldl stp st [0..<n])"
  using assms by (induction n) simp_all

lemma shift_bounds: "0 < shift1 ! (i mod 4) \<and> shift1 ! (i mod 4) < 32"
  "0 < shift2 ! (i mod 4) \<and> shift2 ! (i mod 4) < 32"
  "0 < shift3 ! (i mod 4) \<and> shift3 ! (i mod 4) < 32"
  using mod4_cases [of i] by (auto simp: shift1_def shift2_def shift3_def)

lemma md4_rounds:
  shows "i < 16 \<Longrightarrow> rotated i R st \<Longrightarrow>
      rotated (Suc i) (rfc_op rfc_F 0 [3, 7, 11, 19] [0..<16] X R i) (md4_step1 X st i)"
    and "i < 16 \<Longrightarrow> rotated i R st \<Longrightarrow>
      rotated (Suc i) (rfc_op rfc_G 0x5A827999 [3, 5, 9, 13] xIndex2 X R i) (md4_step2 X st i)"
    and "i < 16 \<Longrightarrow> rotated i R st \<Longrightarrow>
      rotated (Suc i) (rfc_op rfc_H 0x6ED9EBA1 [3, 9, 11, 15] xIndex3 X R i) (md4_step3 X st i)"
proof -
  obtain a b c d where st: "st = (a, b, c, d)" by (cases st) auto
  note rot = md4_rotate_rotl [OF conjunct1 conjunct2]
  show "i < 16 \<Longrightarrow> rotated i R st \<Longrightarrow>
      rotated (Suc i) (rfc_op rfc_F 0 [3, 7, 11, 19] [0..<16] X R i) (md4_step1 X st i)"
    using rot [OF shift_bounds(1) shift_bounds(1), of i]
    by (auto simp: st Let_def md4_f shift1_def algebra_simps intro!: rotated_op)
  show "i < 16 \<Longrightarrow> rotated i R st \<Longrightarrow>
      rotated (Suc i) (rfc_op rfc_G 0x5A827999 [3, 5, 9, 13] xIndex2 X R i) (md4_step2 X st i)"
    using rot [OF shift_bounds(2) shift_bounds(2), of i]
    by (auto simp: st Let_def rfc_G_def shift2_def algebra_simps intro!: rotated_op)
  show "i < 16 \<Longrightarrow> rotated i R st \<Longrightarrow>
      rotated (Suc i) (rfc_op rfc_H 0x6ED9EBA1 [3, 9, 11, 15] xIndex3 X R i) (md4_step3 X st i)"
    using rot [OF shift_bounds(3) shift_bounds(3), of i]
    by (auto simp: st Let_def rfc_H_def shift3_def algebra_simps intro!: rotated_op)
qed

lemma rotated_16: "rotated 16 R st \<longleftrightarrow> rotated 0 R st"
  by (simp add: rotated_def)

lemma rotated_16D: "rotated 16 R st \<Longrightarrow> st = (R 0, R 1, R 2, R 3)"
  by (simp add: rotated_def flip: numeral_2_eq_2 numeral_3_eq_3)

lemma rotated_0I: "st = (R 0, R 1, R 2, R 3) \<Longrightarrow> rotated 0 R st"
  by (simp add: rotated_def flip: numeral_2_eq_2 numeral_3_eq_3)

lemma octets_word:
  fixes a b c d :: octet
  shows "(ucast a OR push_bit 8 (ucast b) OR push_bit 16 (ucast c) OR push_bit 24 (ucast d) :: 32 word)
    = of_nat (le_value [a, b, c, d])"
proof -
  have "(ucast a OR push_bit 8 (ucast b) OR push_bit 16 (ucast c) OR push_bit 24 (ucast d) :: 32 word)
      = ucast a + (push_bit 8 (ucast b) + (push_bit 16 (ucast c) + push_bit 24 (ucast d)))"
    by (subst disjunctive_add, auto simp: bit_simps dest: bit_imp_le_length)+
  also have "\<dots> = of_nat (le_value [a, b, c, d])"
    by (simp add: push_bit_eq_mult algebra_simps)
  finally show ?thesis .
qed

lemma md4_words_le:
  assumes "length p = 64"
  shows "md4_words p = map (\<lambda>i. of_nat (le_value (take 4 (drop (4 * i) p)))) [0..<16]"
  unfolding md4_words_def
proof (rule map_cong [OF refl])
  fix i :: nat assume "i \<in> set [0..<16]"
  then have "4 * i + 3 < length p" using assms by simp
  then have "take 4 (drop (4 * i) p) = [p ! (4 * i), p ! (4 * i + 1), p ! (4 * i + 2), p ! (4 * i + 3)]"
    by (intro nth_equalityI) (auto simp: less_Suc_eq numeral_eq_Suc)
  then show "md4_word p i = of_nat (le_value (take 4 (drop (4 * i) p)))"
    by (simp only: md4_word_def Let_def octets_word)
qed

lemma md4_compress_rfc:
  assumes "length p = 64"
  shows "md4_compress st p = rfc_compress st p"
proof -
  obtain A B C D where st: "st = (A, B, C, D)" by (cases st) auto
  define X where "X = md4_words p"
  define R0 where "R0 = (\<lambda>i. [A, B, C, D] ! i)"
  define R1 where "R1 = foldl (rfc_op rfc_F 0 [3, 7, 11, 19] [0..<16] X) R0 [0..<16]"
  define R2 where "R2 = foldl (rfc_op rfc_G 0x5A827999 [3, 5, 9, 13] xIndex2 X) R1 [0..<16]"
  define R3 where "R3 = foldl (rfc_op rfc_H 0x6ED9EBA1 [3, 9, 11, 15] xIndex3 X) R2 [0..<16]"
  have "rotated 0 R0 st" by (rule rotated_0I) (simp add: R0_def st)
  from rotated_fold [where n = 16, OF md4_rounds(1) [where X = X] this] have
    r1: "rotated 16 R1 (foldl (md4_step1 X) st [0..<16])" unfolding R1_def .
  from rotated_fold [where n = 16, OF md4_rounds(2) [where X = X] rotated_16 [THEN iffD1, OF r1]] have
    r2: "rotated 16 R2 (foldl (md4_step2 X) (foldl (md4_step1 X) st [0..<16]) [0..<16])" unfolding R2_def .
  from rotated_fold [where n = 16, OF md4_rounds(3) [where X = X] rotated_16 [THEN iffD1, OF r2]] have
    "rotated 16 R3 (foldl (md4_step3 X) (foldl (md4_step2 X) (foldl (md4_step1 X) st [0..<16]) [0..<16]) [0..<16])"
    unfolding R3_def .
  note registers = rotated_16D [OF this]
  have code: "md4_compress st p =
      (case foldl (md4_step3 X) (foldl (md4_step2 X) (foldl (md4_step1 X) st [0..<16]) [0..<16]) [0..<16] of
         (a, b, c, d) \<Rightarrow> (a + A, b + B, c + C, d + D))"
    by (simp only: md4_compress_def X_def st Let_def prod.case)
  have rfc: "rfc_compress st p = (A + R3 0, B + R3 1, C + R3 2, D + R3 3)"
    by (simp only: rfc_compress_def st Let_def prod.case R3_def R2_def R1_def R0_def X_def
        md4_words_le [OF assms] xIndex2_def xIndex3_def)
  show ?thesis by (simp only: code registers prod.case rfc add.commute)
qed

section \<open>Blocks\<close>

lemma length_in_blocks [simp]: "length (in_blocks n p) = n"
  by (induction n arbitrary: p) simp_all

lemma in_blocks_append: "length p = 64 * m \<Longrightarrow> in_blocks (m + k) (p @ q) = in_blocks m p @ in_blocks k q"
  by (induction m arbitrary: p) simp_all

lemma in_blocks_prefix: "64 * n \<le> length p \<Longrightarrow> in_blocks n (p @ q) = in_blocks n p"
  by (induction n arbitrary: p) simp_all

lemma in_blocks_snoc: "length p = 64 * m \<Longrightarrow> length x = 64 \<Longrightarrow> in_blocks (m + 1) (p @ x) = in_blocks m p @ [x]"
  using in_blocks_append [of p m 1 x] by simp

lemma md4_blocks_run:
  "md4_blocks st p n = (foldl rfc_compress st (in_blocks (length p div 64) p), n + 64 * (length p div 64))"
proof (induction st p n rule: md4_blocks.induct)
  case (1 st p n)
  show ?case
  proof (cases "64 \<le> length p")
    case True
    then have "length p div 64 = Suc ((length p - 64) div 64)" by (simp add: le_div_geq)
    with 1 [OF True] True show ?thesis
      by (subst md4_blocks.simps) (simp add: md4_compress_rfc)
  next
    case False
    then show ?thesis by (subst md4_blocks.simps) simp
  qed
qed

lemma md4_Block_one: "length x = 64 \<Longrightarrow> snd (md4_Block d x) = d\<lparr>md_s := rfc_compress (md_s d) x\<rparr>"
  by (simp add: md4_Block_def md4_blocks_run)

section \<open>The digest\<close>

abbreviation md4_start :: md4_state where
  "md4_start \<equiv> (0x67452301, 0xEFCDAB89, 0x98BADCFE, 0x10325476)"

text \<open>The digest after a message: the state of its whole blocks, and the rest of it.\<close>

definition digesting :: "octet list \<Rightarrow> digest \<Rightarrow> bool" where
  "digesting msg d \<longleftrightarrow>
     md_s d = foldl rfc_compress md4_start (in_blocks (length msg div 64) msg) \<and>
     length (md_x d) = 64 \<and> md_nx d = length msg mod 64 \<and>
     take (md_nx d) (md_x d) = drop (64 * (length msg div 64)) msg \<and>
     md_len d = of_nat (length msg)"

lemma digesting_New: "digesting [] md4_New"
  by (simp add: digesting_def md4_New_def)

lemma div_mod_drop: "length (drop (64 * (length msg div 64)) msg) = length msg mod 64"
  by (simp add: minus_mult_div_eq_mod)

lemma digesting_state:
  "digesting msg d \<Longrightarrow> 64 * m \<le> length msg \<Longrightarrow> length msg < 64 * Suc m \<Longrightarrow>
   md_s d = foldl rfc_compress md4_start (in_blocks m msg)"
proof -
  assume d: "digesting msg d" and m: "64 * m \<le> length msg" "length msg < 64 * Suc m"
  have "length msg div 64 = m" using m by (intro div_nat_eqI) (simp_all add: mult.commute)
  with d show ?thesis by (simp add: digesting_def)
qed

text \<open>The second part of \<open>Write\<close>: whole blocks, and the rest is kept.\<close>

definition md4_tail :: "octet list \<Rightarrow> digest \<Rightarrow> digest" where
  "md4_tail p d =
     (let (n, d) = md4_Block d p; p = drop n p
      in if p = [] then d else (md4_fill 0 (take 64 p) d)\<lparr>md_nx := min 64 (length p)\<rparr>)"

lemma md4_Write_parts:
  "md4_Write p d = (case md4_complete (d\<lparr>md_len := md_len d + of_nat (length p)\<rparr>) p of (q, d') \<Rightarrow> md4_tail q d')"
  by (simp add: md4_Write_def md4_tail_def Let_def)

lemma md4_tail_Nil [simp]: "md4_tail [] d = d"
  by (simp add: md4_tail_def md4_Block_def md4_blocks.simps)

lemma md4_tail_aligned:
  assumes st: "md_s d = foldl rfc_compress md4_start (in_blocks m msg)" and msg: "length msg = 64 * m"
    and x: "length (md_x d) = 64" and nx: "md_nx d = 0" and len: "md_len d = of_nat (length (msg @ p))"
  shows "digesting (msg @ p) (md4_tail p d)"
proof -
  let ?k = "length p div 64"
  let ?rest = "drop (64 * ?k) p"
  have rest_len: "length ?rest = length p mod 64" by (rule div_mod_drop)
  have short: "length ?rest < 64" unfolding rest_len by simp
  have filled: "length ?rest + length (drop (length ?rest) (md_x d)) = 64"
    using short x by (simp del: length_drop add: length_drop [of _ "md_x d"])
  have dm: "length (msg @ p) div 64 = m + ?k" "length (msg @ p) mod 64 = length p mod 64"
    using msg by simp_all
  have blocks: "in_blocks (m + ?k) (msg @ p) = in_blocks m msg @ in_blocks ?k p"
    using msg by (rule in_blocks_append)
  have run: "md4_Block d p = (64 * ?k, d\<lparr>md_s := foldl rfc_compress (md_s d) (in_blocks ?k p)\<rparr>)"
    by (simp add: md4_Block_def md4_blocks_run)
  have rest: "drop (64 * (m + ?k)) (msg @ p) = ?rest" using msg by (simp add: distrib_left)
  show ?thesis
  proof (cases "?rest = []")
    case True
    then have "length p mod 64 = 0" using rest_len by simp
    then show ?thesis
      unfolding digesting_def dm blocks rest using True st x nx len by (simp add: md4_tail_def run)
  next
    case False
    have "md4_tail p d = (md4_fill 0 ?rest (d\<lparr>md_s := foldl rfc_compress (md_s d) (in_blocks ?k p)\<rparr>))\<lparr>md_nx := length ?rest\<rparr>"
      using False short by (simp add: md4_tail_def Let_def run del: length_drop)
    then show ?thesis
      unfolding digesting_def dm blocks rest rest_len [symmetric]
      using filled st x len by (simp add: md4_fill_def del: length_drop)
  qed
qed

lemma block_partial: "(a::nat) mod 64 + b < 64 \<Longrightarrow> (a + b) div 64 = a div 64 \<and> (a + b) mod 64 = a mod 64 + b"
proof -
  assume b: "a mod 64 + b < 64"
  define q r where "q = a div 64" and "r = a mod 64"
  have "r + b < 64" using b by (simp add: r_def)
  then have "(r + b + 64 * q) div 64 = q \<and> (r + b + 64 * q) mod 64 = r + b" by simp
  moreover have "r + b + 64 * q = a + b" by (simp add: q_def r_def)
  ultimately show ?thesis by (simp add: q_def r_def)
qed

text \<open>The partial block is completed, or takes all there is.\<close>

lemma digesting_Write_partial:
  assumes "digesting msg d" and short: "length msg mod 64 + length p < 64" and some: "0 < length msg mod 64"
  shows "digesting (msg @ p) (md4_Write p d)"
proof -
  let ?d = "d\<lparr>md_len := md_len d + of_nat (length p)\<rparr>"
  let ?nx = "length msg mod 64" and ?m = "length msg div 64"
  let ?x = "take ?nx (md_x d) @ p @ drop (?nx + length p) (md_x d)"
  have d: "md_s d = foldl rfc_compress md4_start (in_blocks ?m msg)" "length (md_x d) = 64" "md_nx d = ?nx"
    "take ?nx (md_x d) = drop (64 * ?m) msg" "md_len d = of_nat (length msg)"
    using assms(1) by (auto simp: digesting_def)
  have n: "min (length p) (64 - ?nx) = length p" using short by simp
  have "md4_complete ?d p = ([], ?d\<lparr>md_x := ?x, md_nx := ?nx + length p\<rparr>)"
    using some short by (simp add: md4_complete_def md4_fill_def Let_def d(3) n)
  then have run: "md4_Write p d = ?d\<lparr>md_x := ?x, md_nx := ?nx + length p\<rparr>"
    by (simp add: md4_Write_parts)
  have dm: "length (msg @ p) div 64 = ?m" "length (msg @ p) mod 64 = ?nx + length p"
    using block_partial [OF short] by simp_all
  have blocks: "in_blocks ?m (msg @ p) = in_blocks ?m msg"
    by (rule in_blocks_prefix) simp
  have x: "length ?x = 64" using d(2) short by simp
  have "take (?nx + length p) ?x = take ?nx (md_x d) @ p" using d(2) by simp
  also have "\<dots> = drop (64 * ?m) (msg @ p)" by (simp add: d(4))
  finally show ?thesis
    unfolding digesting_def run dm using x by (simp add: d blocks)
qed

lemma digesting_Write_full:
  assumes "digesting msg d" and long: "64 \<le> length msg mod 64 + length p" and some: "0 < length msg mod 64"
  shows "digesting (msg @ p) (md4_Write p d)"
proof -
  let ?d = "d\<lparr>md_len := md_len d + of_nat (length p)\<rparr>"
  let ?nx = "length msg mod 64" and ?m = "length msg div 64"
  let ?n = "64 - ?nx"
  let ?x = "take ?nx (md_x d) @ take ?n p @ drop 64 (md_x d)"
  let ?msg = "msg @ take ?n p"
  have d: "md_s d = foldl rfc_compress md4_start (in_blocks ?m msg)" "length (md_x d) = 64" "md_nx d = ?nx"
    "take ?nx (md_x d) = drop (64 * ?m) msg" "md_len d = of_nat (length msg)"
    using assms(1) by (auto simp: digesting_def)
  have nx: "?nx < 64" by simp
  have n: "min (length p) ?n = ?n" "?nx + ?n = 64" using long nx by simp_all
  have x: "?x = drop (64 * ?m) ?msg" using d(2) by (simp add: d(4))
  have len: "length ?msg = 64 * (?m + 1)"
  proof -
    have "length ?msg = length msg + ?n" using long by simp
    also have "\<dots> = 64 * ?m + ?nx + ?n" by simp
    also have "\<dots> = 64 * ?m + 64" by (simp only: add.assoc n(2))
    also have "\<dots> = 64 * (?m + 1)" by simp
    finally show ?thesis .
  qed
  have lx: "length ?x = 64" unfolding x using len by simp
  have "in_blocks (?m + 1) ?msg = in_blocks (?m + 1) (take (64 * ?m) msg @ ?x)"
    unfolding x by (simp only: drop_append append.assoc [symmetric] append_take_drop_id) simp
  also have "\<dots> = in_blocks ?m (take (64 * ?m) msg) @ [?x]"
    by (rule in_blocks_snoc [OF _ lx]) simp
  also have "in_blocks ?m (take (64 * ?m) msg) = in_blocks ?m (take (64 * ?m) msg @ drop (64 * ?m) msg)"
    by (rule in_blocks_prefix [symmetric]) simp
  finally have blocks: "in_blocks (?m + 1) ?msg = in_blocks ?m msg @ [?x]" by simp
  let ?d' = "?d\<lparr>md_x := ?x, md_nx := 0, md_s := rfc_compress (md_s d) ?x\<rparr>"
  have "md4_complete ?d p = (drop ?n p, ?d')"
    using some n by (simp add: md4_complete_def md4_fill_def Let_def d(3) md4_Block_one [OF lx])
  then have run: "md4_Write p d = md4_tail (drop ?n p) ?d'" by (simp add: md4_Write_parts)
  have "digesting (?msg @ drop ?n p) (md4_tail (drop ?n p) ?d')"
    using len lx by (intro md4_tail_aligned [where m = "?m + 1"]) (simp_all only: blocks, simp_all add: d)
  then show ?thesis by (simp add: run)
qed

lemma digesting_Write: "digesting msg d \<Longrightarrow> digesting (msg @ p) (md4_Write p d)"
proof -
  assume d: "digesting msg d"
  consider "length msg mod 64 = 0" | "0 < length msg mod 64" "length msg mod 64 + length p < 64"
    | "0 < length msg mod 64" "64 \<le> length msg mod 64 + length p" by linarith
  then show ?thesis
  proof cases
    case 1
    then have "length msg = 64 * (length msg div 64)" by auto
    with d 1 show ?thesis
      unfolding md4_Write_parts
      by (subst md4_complete_def)
        (simp add: digesting_def [of msg] md4_tail_aligned [where m = "length msg div 64"])
  qed (use d digesting_Write_partial digesting_Write_full in blast)+
qed

lemma digesting_Writes: "digesting msg d \<Longrightarrow> digesting (msg @ concat ps) (foldl (\<lambda>d p. md4_Write p d) d ps)"
proof (induction ps arbitrary: msg d)
  case (Cons p ps)
  from Cons.IH [OF digesting_Write [OF Cons.prems]] show ?case by simp
qed simp

end
