(* ===== verification/Md4Theorems.thy ===== *)
theory Md4Theorems
  imports Md4Proof
begin

text \<open>
  The MD4 of the driver's package is the MD4 of RFC 1320: however a message is cut into calls of
  \<open>Write\<close>, \<open>Sum\<close> appends the digest of the whole message, and its \<open>panic\<close> is never reached.
\<close>

section \<open>Bytes of words\<close>

lemma le_bytes_map: "le_bytes n v = map (\<lambda>i. of_nat (v div 256 ^ i)) [0..<n]"
proof (induction n arbitrary: v)
  case (Suc n)
  have "map (\<lambda>i. of_nat (v div 256 ^ i)) [0..<Suc n] = (of_nat v :: octet) # map (\<lambda>i. of_nat (v div 256 ^ Suc i)) [0..<n]"
    by (simp only: map_upt_Suc power_0 div_by_1)
  then show ?case by (simp only: le_bytes.simps Suc power_Suc div_mult2_eq)
qed simp

lemma ucast_drop_bit: "(ucast (drop_bit (8 * i) (w :: 'a::len word)) :: octet) = of_nat (unat w div 256 ^ i)"
proof -
  have "unat (drop_bit (8 * i) w) = unat w div 256 ^ i"
    by (simp only: unat_drop_bit_eq) (simp add: drop_bit_eq_div power_mult)
  moreover have "(ucast (drop_bit (8 * i) w) :: octet) = of_nat (unat (drop_bit (8 * i) w))" by simp
  ultimately show ?thesis by simp
qed

lemma word_le_bytes: "map (\<lambda>i. ucast (drop_bit (8 * i) (w :: 'a::len word))) [0..<n] = le_bytes n (unat w)"
  unfolding ucast_drop_bit le_bytes_map ..

lemma md4_bytes_le: "md4_bytes s = le_bytes 4 (unat s)"
  unfolding word_le_bytes [symmetric] md4_bytes_def by (simp add: upt_rec)

lemma le_bytes_mod: "le_bytes n (v mod 256 ^ n) = le_bytes n v"
proof -
  have "le_bytes n (le_value (le_bytes n v)) = le_bytes (length (le_bytes n v)) (le_value (le_bytes n v))" by simp
  also have "\<dots> = le_bytes n v" by (rule le_bytes_value)
  finally show ?thesis by simp
qed

lemma length_in_bits:
  "map (\<lambda>i. ucast (drop_bit (8 * i) (push_bit 3 (of_nat n :: 64 word)))) [0..<8] = le_bytes 8 (8 * n)"
proof -
  have "push_bit 3 (of_nat n :: 64 word) = of_nat (8 * n)" by (simp add: push_bit_eq_mult)
  then have "unat (push_bit 3 (of_nat n :: 64 word)) = (8 * n) mod 256 ^ 8" by (simp only: unat_of_nat) simp
  then show ?thesis unfolding word_le_bytes by (simp only: le_bytes_mod)
qed

lemma length_in_block: "unat ((of_nat n :: 64 word) mod 64) = n mod 64"
proof -
  have "unat ((of_nat n :: 64 word) mod 64) = (n mod 2 ^ 64) mod 64" by (simp add: unat_mod unat_of_nat)
  also have "\<dots> = n mod 64" by (rule mod_mod_cancel) simp
  finally show ?thesis .
qed

section \<open>Padding\<close>

lemma md4_padding:
  fixes k :: nat
  assumes "k < 64"
  shows "(if k < 56 then take (56 - k) (0x80 # replicate 63 0) else take (64 + 56 - k) (0x80 # replicate 63 0))
    = (0x80 :: octet) # replicate ((119 - k) mod 64) 0"
proof (cases "k < 56")
  case True
  then have "119 - k = (55 - k) + 64" by linarith
  then have "(119 - k) mod 64 = (55 - k) mod 64" by (simp only: mod_add_self2)
  also have "\<dots> = 55 - k" by (rule mod_less) linarith
  finally have "(119 - k) mod 64 = 55 - k" .
  moreover have "56 - k = Suc (55 - k)" "min (55 - k) 63 = 55 - k" using True by simp_all
  ultimately show ?thesis using True by (simp only: if_True take_Suc_Cons take_replicate)
next
  case False
  then have "119 - k < 64" by linarith
  then have "(119 - k) mod 64 = 119 - k" by (rule mod_less)
  moreover have "64 + 56 - k = Suc (119 - k)" "min (119 - k) 63 = 119 - k" using assms False by linarith+
  ultimately show ?thesis using False by (simp only: if_False take_Suc_Cons take_replicate)
qed

lemma rfc_padded_blocks: "length (rfc_padded msg) mod 64 = 0"
proof -
  define k where "k = length msg mod 64"
  have k: "k < 64" by (simp add: k_def)
  have "length (rfc_padded msg) = length msg + (9 + (119 - k) mod 64)" by (simp add: rfc_padded_def k_def)
  then have "length (rfc_padded msg) mod 64 = (k + (9 + (119 - k) mod 64)) mod 64" by (simp only: k_def mod_add_left_eq)
  also have "\<dots> = (k + 9 + (119 - k)) mod 64" by (simp only: add.assoc [symmetric] mod_add_right_eq)
  also have "k + 9 + (119 - k) = 64 * 2" using k by simp
  finally show ?thesis by simp
qed

text \<open>\<open>Sum\<close> leaves the digest as it is, so only what it returns is to be stated.\<close>

lemma md4_Sum_digest:
  assumes "digesting msg d"
  shows "md4_Sum d inn = Ret (inn @ rfc_md4 msg)"
proof -
  let ?pad = "(0x80 :: octet) # replicate ((119 - length msg mod 64) mod 64) 0"
  let ?d = "md4_Write (le_bytes 8 (8 * length msg)) (md4_Write ?pad d)"
  have len: "md_len d = of_nat (length msg)" using assms by (simp add: digesting_def)
  have "digesting ((msg @ ?pad) @ le_bytes 8 (8 * length msg)) ?d"
    by (intro digesting_Write assms)
  then have d: "digesting (rfc_padded msg) ?d" by (simp add: rfc_padded_def)
  have k: "length msg mod 64 < 64" by simp
  have nx: "md_nx ?d = 0"
    and st: "md_s ?d = foldl rfc_compress md4_start (in_blocks (length (rfc_padded msg) div 64) (rfc_padded msg))"
    using d rfc_padded_blocks by (auto simp: digesting_def)
  have "md4_Sum d inn = (if md_nx ?d \<noteq> 0 then Panicked (PanicString ''d.nx != 0'')
     else (case md_s ?d of (a, b, c, e) \<Rightarrow> Ret (inn @ md4_bytes a @ md4_bytes b @ md4_bytes c @ md4_bytes e)))"
    unfolding md4_Sum_def Let_def len length_in_block length_in_bits md4_padding [OF k] ..
  also have "\<dots> = Ret (inn @ rfc_md4 msg)"
    using nx st by (simp add: rfc_md4_def Let_def md4_bytes_le split: prod.split)
  finally show ?thesis .
qed

text \<open>C36: The MD4 hash computes RFC 1320.  For every message, cut into any sequence of chunks that
  are given to \<open>Write\<close> one after the other on a new digest, \<open>Sum\<close> returns its argument followed by
  the sixteen bytes of the RFC's MD4 of the whole message.  In particular the \<open>panic\<close> at the end
  of \<open>Sum\<close> is never reached, the buffering of partial blocks loses and repeats nothing, and the
  64-bit length counter wraps as the RFC asks.  The reference is written from the RFC and shares
  no step with the code: it pads the whole message, cuts it into blocks of sixteen words, and
  works on named registers with rotations.
\<close>

theorem md4_is_rfc1320:
  "md4_Sum (foldl (\<lambda>d p. md4_Write p d) md4_New chunks) inn = Ret (inn @ rfc_md4 (concat chunks))"
  using digesting_Writes [OF digesting_New, of chunks] by (simp add: md4_Sum_digest)

end
