(* ===== verification/Contexts.thy ===== *)
theory Contexts
  imports Prelude "HOL-Library.AList"
begin

text \<open>
  The request contexts of gorilla/context (context.go), in which gorilla/mux keeps the route
  variables of a request while it is served.  Two package variables hold them: \<open>data\<close>, from a
  request to its values by key, and \<open>datat\<close>, from a request to the Unix time of its first \<open>Set\<close>.
  Every operation holds the mutex from its first access to its last, so that an operation is one
  step on the pair.  Go's maps are association lists here, which \<open>Purge\<close> walks in their order.  A
  value is an \<open>interface\<close>, and \<open>None\<close> is the nil interface.
\<close>

section \<open>The operations\<close>

record ('r, 'k, 'v) contexts =
  ctx_data :: "('r \<times> ('k \<times> 'v option) list) list"
  ctx_datat :: "('r \<times> int) list"

definition no_contexts :: "('r, 'k, 'v) contexts" where
  "no_contexts = \<lparr>ctx_data = [], ctx_datat = []\<rparr>"

text \<open>The time is the clock's at the call.\<close>

definition ctx_Set :: "int \<Rightarrow> 'r \<Rightarrow> 'k \<Rightarrow> 'v option \<Rightarrow> ('r, 'k, 'v) contexts \<Rightarrow> ('r, 'k, 'v) contexts" where
  "ctx_Set now r k v c =
     (let c = (case map_of (ctx_data c) r of
                 None \<Rightarrow> c\<lparr>ctx_data := AList.update r [] (ctx_data c), ctx_datat := AList.update r now (ctx_datat c)\<rparr>
               | Some _ \<Rightarrow> c)
      in (case map_of (ctx_data c) r of
            None \<Rightarrow> c
          | Some ctx \<Rightarrow> c\<lparr>ctx_data := AList.update r (AList.update k v ctx) (ctx_data c)\<rparr>))"

definition ctx_Get :: "'r \<Rightarrow> 'k \<Rightarrow> ('r, 'k, 'v) contexts \<Rightarrow> 'v option" where
  "ctx_Get r k c =
     (case map_of (ctx_data c) r of
        Some ctx \<Rightarrow> (case map_of ctx k of Some v \<Rightarrow> v | None \<Rightarrow> None)
      | None \<Rightarrow> None)"

definition ctx_GetOk :: "'r \<Rightarrow> 'k \<Rightarrow> ('r, 'k, 'v) contexts \<Rightarrow> 'v option \<times> bool" where
  "ctx_GetOk r k c =
     (case map_of (ctx_data c) r of
        Some ctx \<Rightarrow> (case map_of ctx k of Some v \<Rightarrow> (v, True) | None \<Rightarrow> (None, False))
      | None \<Rightarrow> (None, False))"

text \<open>\<open>GetAll\<close> copies the values, or returns the nil map (\<open>None\<close>).\<close>

definition ctx_GetAll :: "'r \<Rightarrow> ('r, 'k, 'v) contexts \<Rightarrow> ('k \<times> 'v option) list option" where
  "ctx_GetAll r c =
     (case map_of (ctx_data c) r of
        Some ctx \<Rightarrow> Some (foldl (\<lambda>result (k, v). AList.update k v result) [] ctx)
      | None \<Rightarrow> None)"

definition ctx_GetAllOk :: "'r \<Rightarrow> ('r, 'k, 'v) contexts \<Rightarrow> ('k \<times> 'v option) list \<times> bool" where
  "ctx_GetAllOk r c =
     (case map_of (ctx_data c) r of
        Some ctx \<Rightarrow> (foldl (\<lambda>result (k, v). AList.update k v result) [] ctx, True)
      | None \<Rightarrow> ([], False))"

definition ctx_Delete :: "'r \<Rightarrow> 'k \<Rightarrow> ('r, 'k, 'v) contexts \<Rightarrow> ('r, 'k, 'v) contexts" where
  "ctx_Delete r k c =
     (case map_of (ctx_data c) r of
        Some ctx \<Rightarrow> c\<lparr>ctx_data := AList.update r (AList.delete k ctx) (ctx_data c)\<rparr>
      | None \<Rightarrow> c)"

definition ctx_clear :: "'r \<Rightarrow> ('r, 'k, 'v) contexts \<Rightarrow> ('r, 'k, 'v) contexts" where
  "ctx_clear r c = c\<lparr>ctx_data := AList.delete r (ctx_data c), ctx_datat := AList.delete r (ctx_datat c)\<rparr>"

definition ctx_Clear :: "'r \<Rightarrow> ('r, 'k, 'v) contexts \<Rightarrow> ('r, 'k, 'v) contexts" where
  "ctx_Clear r c = ctx_clear r c"

text \<open>\<open>datat[r]\<close> is 0 for a request without a time.\<close>

definition born :: "'r \<Rightarrow> ('r, 'k, 'v) contexts \<Rightarrow> int" where
  "born r c = (case map_of (ctx_datat c) r of Some t \<Rightarrow> t | None \<Rightarrow> 0)"

text \<open>\<open>maxAge\<close> is positive where it is subtracted from the clock, so the subtraction of the
  64-bit values does not wrap and is that of the integers.\<close>

definition ctx_Purge :: "int \<Rightarrow> int \<Rightarrow> ('r, 'k, 'v) contexts \<Rightarrow> nat \<times> ('r, 'k, 'v) contexts" where
  "ctx_Purge now maxAge c =
     (if maxAge \<le> 0 then (length (ctx_data c), no_contexts)
      else (let least = now - maxAge
            in foldl (\<lambda>(count, c) r. if born r c < least then (count + 1, ctx_clear r c) else (count, c))
                 (0, c) (map fst (ctx_data c))))"

text \<open>\<open>ClearHandler\<close>: the deferred \<open>Clear\<close> runs when the handler returns and when it panics.\<close>

definition ClearHandler ::
  "('r \<Rightarrow> (('r, 'k, 'v) contexts, unit) go) \<Rightarrow> 'r \<Rightarrow> (('r, 'k, 'v) contexts, unit) go" where
  "ClearHandler h r = (\<lambda>c. case h r c of (res, c) \<Rightarrow> (res, ctx_Clear r c))"

section \<open>The abstract store\<close>

text \<open>
  What the package promises: a request has no context, or one that is born at some time and maps
  keys to values.
\<close>

type_synonym ('r, 'k, 'v) store = "'r \<Rightarrow> (int \<times> ('k \<Rightarrow> 'v option option)) option"

definition store_of :: "('r, 'k, 'v) contexts \<Rightarrow> ('r, 'k, 'v) store" where
  "store_of c r = (case map_of (ctx_data c) r of Some ctx \<Rightarrow> Some (born r c, map_of ctx) | None \<Rightarrow> None)"

definition store_Set :: "int \<Rightarrow> 'r \<Rightarrow> 'k \<Rightarrow> 'v option \<Rightarrow> ('r, 'k, 'v) store \<Rightarrow> ('r, 'k, 'v) store" where
  "store_Set now r k v s =
     s(r \<mapsto> (case s r of Some (t, m) \<Rightarrow> (t, m(k \<mapsto> v)) | None \<Rightarrow> (now, [k \<mapsto> v])))"

definition store_Delete :: "'r \<Rightarrow> 'k \<Rightarrow> ('r, 'k, 'v) store \<Rightarrow> ('r, 'k, 'v) store" where
  "store_Delete r k s = s(r := map_option (\<lambda>(t, m). (t, m(k := None))) (s r))"

definition store_Clear :: "'r \<Rightarrow> ('r, 'k, 'v) store \<Rightarrow> ('r, 'k, 'v) store" where
  "store_Clear r s = s(r := None)"

definition expired :: "int \<Rightarrow> int \<Rightarrow> ('r, 'k, 'v) store \<Rightarrow> 'r \<Rightarrow> bool" where
  "expired now maxAge s r = (case s r of Some (t, _) \<Rightarrow> maxAge \<le> 0 \<or> t < now - maxAge | None \<Rightarrow> False)"

definition store_Purge :: "int \<Rightarrow> int \<Rightarrow> ('r, 'k, 'v) store \<Rightarrow> ('r, 'k, 'v) store" where
  "store_Purge now maxAge s = (\<lambda>r. if expired now maxAge s r then None else s r)"

section \<open>The invariant\<close>

text \<open>The two maps have the same requests, each once, and a request has a key once.\<close>

definition contexts_ok :: "('r, 'k, 'v) contexts \<Rightarrow> bool" where
  "contexts_ok c \<longleftrightarrow>
     distinct (map fst (ctx_data c)) \<and> distinct (map fst (ctx_datat c)) \<and>
     fst ` set (ctx_datat c) = fst ` set (ctx_data c) \<and>
     (\<forall>(r, ctx) \<in> set (ctx_data c). distinct (map fst ctx))"

lemma contexts_ok_none [simp]: "contexts_ok no_contexts"
  by (simp add: contexts_ok_def no_contexts_def)

lemma store_of_none [simp]: "store_of no_contexts = Map.empty"
  by (simp add: store_of_def no_contexts_def fun_eq_iff)

lemma in_fst_set_iff: "r \<in> fst ` set al \<longleftrightarrow> map_of al r \<noteq> None"
  by (simp add: map_of_eq_None_iff)

declare AList.distinct_update [simp] AList.distinct_delete [simp]

lemma in_set_update: "p \<in> set (AList.update k v al) \<Longrightarrow> p = (k, v) \<or> p \<in> set al"
  by (induction al) (auto split: if_splits)

lemma contexts_ok_data:
  assumes "contexts_ok c" and "map_of (ctx_data c) r \<noteq> None" and "distinct (map fst ctx)"
  shows "contexts_ok (c\<lparr>ctx_data := AList.update r ctx (ctx_data c)\<rparr>)"
  using assms by (auto simp: contexts_ok_def dom_update in_fst_set_iff insert_absorb dest!: in_set_update)

lemma contexts_ok_values: "contexts_ok c \<Longrightarrow> map_of (ctx_data c) r = Some ctx \<Longrightarrow> distinct (map fst ctx)"
  by (auto simp: contexts_ok_def dest!: map_of_SomeD)

lemma contexts_ok_new:
  "contexts_ok c \<Longrightarrow> distinct (map fst ctx) \<Longrightarrow>
   contexts_ok (c\<lparr>ctx_datat := AList.update r now (ctx_datat c), ctx_data := AList.update r ctx (ctx_data c)\<rparr>)"
  by (auto simp: contexts_ok_def dom_update dest!: in_set_update)

lemma contexts_ok_Set [simp]: "contexts_ok c \<Longrightarrow> contexts_ok (ctx_Set now r k v c)"
  by (cases "map_of (ctx_data c) r")
    (auto simp: ctx_Set_def Let_def update_conv contexts_ok_values intro!: contexts_ok_data contexts_ok_new split: option.split)

lemma contexts_ok_Delete [simp]: "contexts_ok c \<Longrightarrow> contexts_ok (ctx_Delete r k c)"
  by (auto simp: ctx_Delete_def contexts_ok_values intro!: contexts_ok_data split: option.split)

lemma fst_set_delete [simp]: "fst ` set (AList.delete k al) = fst ` set al - {k}"
  by (force simp: AList.delete_eq)

lemma in_set_delete: "p \<in> set (AList.delete k al) \<longleftrightarrow> p \<in> set al \<and> fst p \<noteq> k"
  by (auto simp: AList.delete_eq)

lemma contexts_ok_clear [simp]: "contexts_ok c \<Longrightarrow> contexts_ok (ctx_clear r c)"
  by (auto simp: contexts_ok_def ctx_clear_def in_set_delete)

lemma contexts_ok_Clear [simp]: "contexts_ok c \<Longrightarrow> contexts_ok (ctx_Clear r c)"
  by (simp add: ctx_Clear_def)

section \<open>Each operation is the store's\<close>

lemma born_iff: "contexts_ok c \<Longrightarrow> map_of (ctx_datat c) r = None \<longleftrightarrow> map_of (ctx_data c) r = None"
  by (simp add: contexts_ok_def map_of_eq_None_iff)

lemma store_Set_of [simp]: "store_of (ctx_Set now r k v c) = store_Set now r k v (store_of c)"
  by (cases "map_of (ctx_data c) r")
    (auto simp: ctx_Set_def store_Set_def store_of_def born_def update_conv fun_eq_iff split: option.split)

lemma store_Delete_of [simp]: "contexts_ok c \<Longrightarrow> store_of (ctx_Delete r k c) = store_Delete r k (store_of c)"
  by (cases "map_of (ctx_data c) r")
    (auto simp: ctx_Delete_def store_Delete_def store_of_def born_def update_conv delete_conv fun_eq_iff split: option.split)

lemma store_clear_of [simp]: "store_of (ctx_clear r c) = store_Clear r (store_of c)"
  by (auto simp: ctx_clear_def store_Clear_def store_of_def born_def delete_conv fun_eq_iff split: option.split)

lemma store_Clear_of [simp]: "store_of (ctx_Clear r c) = store_Clear r (store_of c)"
  by (simp add: ctx_Clear_def)

lemma ctx_Get_store: "ctx_Get r k c = (case store_of c r of Some (_, m) \<Rightarrow> (case m k of Some v \<Rightarrow> v | None \<Rightarrow> None) | None \<Rightarrow> None)"
  by (simp add: ctx_Get_def store_of_def split: option.split)

lemma ctx_GetOk_store:
  "ctx_GetOk r k c = (case store_of c r of Some (_, m) \<Rightarrow> (case m k of Some v \<Rightarrow> (v, True) | None \<Rightarrow> (None, False)) | None \<Rightarrow> (None, False))"
  by (simp add: ctx_GetOk_def store_of_def split: option.split)

lemma map_of_copy:
  "map_of (foldl (\<lambda>result (k, v). AList.update k v result) acc ctx) = map_of acc ++ map_of (rev ctx)"
  by (induction ctx arbitrary: acc) (auto simp: update_conv map_add_def fun_eq_iff split: option.split)

lemma map_of_copy_of:
  assumes "distinct (map fst ctx)"
  shows "map_of (foldl (\<lambda>result (k, v). AList.update k v result) [] ctx) = map_of ctx"
proof -
  have "map_of (rev ctx) = map_of ctx"
    using assms by (subst map_of_inject_set) (simp_all flip: rev_map)
  then show ?thesis by (simp add: map_of_copy)
qed

lemma ctx_GetAll_store:
  "contexts_ok c \<Longrightarrow> map_option map_of (ctx_GetAll r c) = map_option snd (store_of c r)"
  by (auto simp: ctx_GetAll_def store_of_def contexts_ok_values map_of_copy_of split: option.split)

lemma ctx_GetAllOk_store:
  "contexts_ok c \<Longrightarrow>
   (case ctx_GetAllOk r c of (m, found) \<Rightarrow> (map_of m, found)) =
   (case store_of c r of Some (_, m) \<Rightarrow> (m, True) | None \<Rightarrow> (Map.empty, False))"
  by (auto simp: ctx_GetAllOk_def store_of_def contexts_ok_values map_of_copy_of split: option.split)

subsection \<open>\<open>Purge\<close>\<close>

text \<open>The loop over the requests \<open>rs\<close> removes those among them that are too old.\<close>

lemma purge_loop:
  fixes c :: "('r, 'k, 'v) contexts"
  assumes "contexts_ok c" and "distinct rs" and "set rs \<subseteq> dom (store_of c)"
  shows "case foldl (\<lambda>(count, c) r. if born r c < least then (count + 1, ctx_clear r c) else (count, c)) (n, c) rs of
    (count, c') \<Rightarrow> contexts_ok c' \<and> count = n + length (filter (\<lambda>r. born r c < least) rs) \<and>
      store_of c' = (\<lambda>r. if r \<in> set rs \<and> born r c < least then None else store_of c r)"
  using assms
proof (induction rs arbitrary: c n)
  case Nil
  then show ?case by simp
next
  case (Cons r rs)
  show ?case
  proof (cases "born r c < least")
    case True
    have other: "q \<noteq> r \<Longrightarrow> born q (ctx_clear r c) = born q c" for q
      by (simp add: born_def ctx_clear_def delete_conv)
    have others: "q \<in> set rs \<Longrightarrow> born q (ctx_clear r c) = born q c" for q
      using Cons.prems(2) other [of q] by (cases "q = r") simp_all
    have same: "filter (\<lambda>q. born q (ctx_clear r c) < least) rs = filter (\<lambda>q. born q c < least) rs"
      using Cons.prems(2) by (intro filter_cong) (auto simp: others)
    have dom: "set rs \<subseteq> dom (store_of (ctx_clear r c))"
      using Cons.prems by (auto simp: store_Clear_def)
    have "contexts_ok (ctx_clear r c)" "distinct rs" using Cons.prems by simp_all
    note Cons.IH [OF this dom, of "n + 1"]
    with True same show ?thesis
      by (auto simp: fun_eq_iff others store_Clear_def split: prod.splits)
  next
    case False
    with Cons.IH [of c n] Cons.prems show ?thesis by (auto simp: fun_eq_iff split: prod.splits)
  qed
qed

lemma store_dom: "dom (store_of c) = fst ` set (ctx_data c)"
proof -
  have "r \<in> dom (store_of c) \<longleftrightarrow> r \<in> fst ` set (ctx_data c)" for r
    by (simp add: store_of_def in_fst_set_iff domIff split: option.split)
  then show ?thesis by blast
qed

lemma expired_born: "0 < maxAge \<Longrightarrow> expired now maxAge (store_of c) r \<longleftrightarrow> r \<in> dom (store_of c) \<and> born r c < now - maxAge"
  by (auto simp: expired_def store_of_def split: option.split)

lemma ctx_Purge_store:
  assumes "contexts_ok c" and "ctx_Purge now maxAge c = (count, c')"
  shows "contexts_ok c'" and "store_of c' = store_Purge now maxAge (store_of c)"
    and "count = card {r. expired now maxAge (store_of c) r}"
proof -
  have "contexts_ok c' \<and> store_of c' = store_Purge now maxAge (store_of c) \<and>
    count = card {r. expired now maxAge (store_of c) r}"
  proof (cases "maxAge \<le> 0")
    case True
    then have "{r. expired now maxAge (store_of c) r} = fst ` set (ctx_data c)"
      by (auto simp: expired_def store_dom [symmetric] split: option.split)
    moreover have "card (fst ` set (ctx_data c)) = length (ctx_data c)"
      using assms(1) distinct_card [of "map fst (ctx_data c)"] by (simp add: contexts_ok_def)
    ultimately show ?thesis
      using True assms(2) by (auto simp: ctx_Purge_def store_Purge_def expired_def fun_eq_iff split: option.split)
  next
    case False
    let ?rs = "map fst (ctx_data c)"
    have rs: "distinct ?rs" "set ?rs = dom (store_of c)"
      using assms(1) by (simp_all add: contexts_ok_def store_dom)
    have old: "expired now maxAge (store_of c) r \<longleftrightarrow> r \<in> set ?rs \<and> born r c < now - maxAge" for r
      using False rs(2) by (simp add: expired_born)
    have "{r. expired now maxAge (store_of c) r} = set (filter (\<lambda>r. born r c < now - maxAge) ?rs)"
      unfolding old by auto
    moreover have "card \<dots> = length (filter (\<lambda>r. born r c < now - maxAge) ?rs)"
      using rs(1) by (intro distinct_card distinct_filter)
    ultimately show ?thesis
      using purge_loop [OF assms(1) rs(1), where least = "now - maxAge" and n = 0] rs(2) False assms(2)
      by (simp add: ctx_Purge_def store_Purge_def old)
  qed
  then show "contexts_ok c'" "store_of c' = store_Purge now maxAge (store_of c)"
    "count = card {r. expired now maxAge (store_of c) r}" by simp_all
qed

section \<open>The interface the router relies on\<close>

text \<open>
  What gorilla/mux needs of the package: a value set for a request and a key is the one got for them,
  whatever is set, deleted or cleared for others, and a cleared request has none.
\<close>

datatype ('r, 'k, 'v) ctx_op = SetOp int 'r 'k "'v option" | DeleteOp 'r 'k | ClearOp 'r

fun op_request :: "('r, 'k, 'v) ctx_op \<Rightarrow> 'r" where
  "op_request (SetOp _ r _ _) = r"
| "op_request (DeleteOp r _) = r"
| "op_request (ClearOp r) = r"

locale request_store =
  fixes ok :: "'c \<Rightarrow> bool"
    and get :: "'r \<Rightarrow> 'k \<Rightarrow> 'c \<Rightarrow> 'v option"
    and known :: "'r \<Rightarrow> 'c \<Rightarrow> bool"
    and put :: "int \<Rightarrow> 'r \<Rightarrow> 'k \<Rightarrow> 'v option \<Rightarrow> 'c \<Rightarrow> 'c"
    and del :: "'r \<Rightarrow> 'k \<Rightarrow> 'c \<Rightarrow> 'c"
    and clr :: "'r \<Rightarrow> 'c \<Rightarrow> 'c"
  assumes put_ok: "ok c \<Longrightarrow> ok (put now r k v c)"
    and del_ok: "ok c \<Longrightarrow> ok (del r k c)"
    and clr_ok: "ok c \<Longrightarrow> ok (clr r c)"
    and get_put: "ok c \<Longrightarrow> get q k (put now r l v c) = (if q = r \<and> k = l then v else get q k c)"
    and get_del: "ok c \<Longrightarrow> get q k (del r l c) = (if q = r \<and> k = l then None else get q k c)"
    and get_clr: "ok c \<Longrightarrow> get q k (clr r c) = (if q = r then None else get q k c)"
    and known_put: "ok c \<Longrightarrow> known q (put now r k v c) \<longleftrightarrow> q = r \<or> known q c"
    and known_del: "ok c \<Longrightarrow> known q (del r k c) \<longleftrightarrow> known q c"
    and known_clr: "ok c \<Longrightarrow> known q (clr r c) \<longleftrightarrow> q \<noteq> r \<and> known q c"
begin

fun run_op :: "('r, 'k, 'v) ctx_op \<Rightarrow> 'c \<Rightarrow> 'c" where
  "run_op (SetOp now r k v) c = put now r k v c"
| "run_op (DeleteOp r k) c = del r k c"
| "run_op (ClearOp r) c = clr r c"

lemma run_op_ok: "ok c \<Longrightarrow> ok (run_op a c)"
  by (cases a) (simp_all add: put_ok del_ok clr_ok)

lemma run_op_other:
  "ok c \<Longrightarrow> op_request a \<noteq> q \<Longrightarrow> get q k (run_op a c) = get q k c \<and> known q (run_op a c) = known q c"
  by (cases a) (auto simp: get_put get_del get_clr known_put known_del known_clr)

text \<open>Any sequence of operations on other requests leaves a request as it is.\<close>

lemma run_ops_other:
  "ok c \<Longrightarrow> \<forall>a\<in>set ops. op_request a \<noteq> q \<Longrightarrow>
   get q k (fold run_op ops c) = get q k c \<and> known q (fold run_op ops c) = known q c"
  by (induction ops arbitrary: c) (simp_all add: run_op_ok run_op_other)

lemma run_ops_ok: "ok c \<Longrightarrow> ok (fold run_op ops c)"
  by (induction ops arbitrary: c) (simp_all add: run_op_ok)

text \<open>A request that is cleared last of all its operations is not known.\<close>

lemma cleared:
  assumes "ok c" and "\<forall>a\<in>set ops. op_request a \<noteq> q"
  shows "\<not> known q (fold run_op ops (clr q c))"
  using run_ops_other [OF clr_ok [OF assms(1)] assms(2)] assms(1) by (simp add: known_clr)

end

definition ctx_known :: "'r \<Rightarrow> ('r, 'k, 'v) contexts \<Rightarrow> bool" where
  "ctx_known r c = (case map_of (ctx_data c) r of Some _ \<Rightarrow> True | None \<Rightarrow> False)"

lemma ctx_known_store: "ctx_known r c \<longleftrightarrow> store_of c r \<noteq> None"
  by (simp add: ctx_known_def store_of_def split: option.split)

interpretation rc: request_store contexts_ok ctx_Get ctx_known ctx_Set ctx_Delete ctx_Clear
  by unfold_locales
    (auto simp: ctx_Get_store ctx_known_store store_Set_def store_Delete_def store_Clear_def split: option.splits)

end
