(* ===== verification/MuxServing.thy ===== *)
theory MuxServing
  imports Mux Contexts
begin

text \<open>
  How gorilla/mux serves a request with its context (mux.go): the matched route and its variables
  are stored under the request, the handler reads them with \<open>Vars\<close>, and the context is cleared
  when the handler is left.  The requests of a server are served in goroutines of their own, so
  that the steps of one interleave with those of the others.
\<close>

section \<open>Keys and values\<close>

text \<open>The keys of mux have a type of their own; no other key equals them.\<close>

datatype ctx_key = varsKey | routeKey | UserKey string

datatype 'h ctx_value = VarsValue "(string \<times> string) list" | RouteValue "'h route" | UserValue string

type_synonym ('r, 'h) mux_contexts = "('r, ctx_key, 'h ctx_value) contexts"

definition setVars :: "int \<Rightarrow> 'r \<Rightarrow> (string \<times> string) list \<Rightarrow> ('r, 'h) mux_contexts \<Rightarrow> ('r, 'h) mux_contexts" where
  "setVars now r vars = ctx_Set now r varsKey (Some (VarsValue vars))"

definition setCurrentRoute :: "int \<Rightarrow> 'r \<Rightarrow> 'h route \<Rightarrow> ('r, 'h) mux_contexts \<Rightarrow> ('r, 'h) mux_contexts" where
  "setCurrentRoute now r route = ctx_Set now r routeKey (Some (RouteValue route))"

text \<open>A nil map reads like the empty one.  The type assertions panic for a value of another type.\<close>

abbreviation bad_assertion :: panic_value where
  "bad_assertion \<equiv> PanicError (Some (OtherError ''interface conversion''))"

definition Vars :: "'r \<Rightarrow> ('r, 'h) mux_contexts \<Rightarrow> (string \<times> string) list outcome" where
  "Vars r c =
     (case ctx_Get r varsKey c of
        None \<Rightarrow> Ret []
      | Some (VarsValue vars) \<Rightarrow> Ret vars
      | Some _ \<Rightarrow> Panicked bad_assertion)"

definition CurrentRoute :: "'r \<Rightarrow> ('r, 'h) mux_contexts \<Rightarrow> 'h route option outcome" where
  "CurrentRoute r c =
     (case ctx_Get r routeKey c of
        None \<Rightarrow> Ret None
      | Some (RouteValue route) \<Rightarrow> Ret (Some route)
      | Some _ \<Rightarrow> Panicked bad_assertion)"

section \<open>Serving one request\<close>

text \<open>\<open>Match\<close> with the route it finds.\<close>

fun find_route :: "'h route list \<Rightarrow> string \<Rightarrow> string \<Rightarrow> ('h route \<times> (string \<times> string) list) option" where
  "find_route [] meth path = None"
| "find_route (r # rs) meth path =
     (case route_Match r meth path of Some (_, vars) \<Rightarrow> Some (r, vars) | None \<Rightarrow> find_route rs meth path)"

lemma find_route_Match:
  "router_Match rs meth path = map_option (\<lambda>(r, vars). (route_handler r, vars)) (find_route rs meth path)"
  by (induction rs) (auto simp: route_Match_def split: option.split)

text \<open>
  \<open>ServeHTTP\<close> for the path of a request: what it does to the contexts, and whether the handler
  returned.  \<open>run\<close> is what the handler of a route does, \<open>missing\<close> the handler for no route.
\<close>

definition mux_ServeHTTP ::
  "int \<Rightarrow> bool \<Rightarrow> 'h route list \<Rightarrow> ('h \<Rightarrow> (('r, 'h) mux_contexts, unit) go) \<Rightarrow> (('r, 'h) mux_contexts, unit) go \<Rightarrow>
    'r \<Rightarrow> string \<Rightarrow> string \<Rightarrow> (('r, 'h) mux_contexts, unit) go" where
  "mux_ServeHTTP now keepContext rs run missing r meth path c =
     (if cleanPath path \<noteq> path then (Ret (), c)
      else (let (handler, c) =
                  (case find_route rs meth path of
                     Some (route, vars) \<Rightarrow> (run (route_handler route), setCurrentRoute now r route (setVars now r vars c))
                   | None \<Rightarrow> (missing, c));
                (res, c) = handler c
            in (res, if keepContext then c else ctx_Clear r c)))"

section \<open>Serving many requests\<close>

text \<open>
  Where the goroutine of a request is: not started, between the two stores, in the handler of
  a route, in the handler for no route, or done.  A handler may set and delete values of its
  own request under keys of its own.
\<close>

datatype 'h phase =
    Waiting
  | Storing "'h route" "(string \<times> string) list"
  | Serving "'h route" "(string \<times> string) list"
  | Missing
  | Served

record ('r, 'h) server =
  srv_contexts :: "('r, 'h) mux_contexts"
  srv_phase :: "'r \<Rightarrow> 'h phase"

definition server_start :: "('r, 'h) server" where
  "server_start = \<lparr>srv_contexts = no_contexts, srv_phase = (\<lambda>_. Waiting)\<rparr>"

definition go_on :: "'r \<Rightarrow> 'h phase \<Rightarrow> ('r, 'h) mux_contexts \<Rightarrow> ('r, 'h) server \<Rightarrow> ('r, 'h) server" where
  "go_on r p c s = s\<lparr>srv_contexts := c, srv_phase := (srv_phase s)(r := p)\<rparr>"

inductive serve_step ::
  "'h route list \<Rightarrow> ('r \<Rightarrow> string \<times> string) \<Rightarrow> ('r, 'h) server \<Rightarrow> ('r, 'h) server \<Rightarrow> bool"
  for rs :: "'h route list" and req :: "'r \<Rightarrow> string \<times> string" where
  redirect: "srv_phase s r = Waiting \<Longrightarrow> req r = (meth, path) \<Longrightarrow> cleanPath path \<noteq> path \<Longrightarrow>
    serve_step rs req s (go_on r Served (srv_contexts s) s)"
| store_vars: "srv_phase s r = Waiting \<Longrightarrow> req r = (meth, path) \<Longrightarrow> cleanPath path = path \<Longrightarrow>
    find_route rs meth path = Some (route, vars) \<Longrightarrow>
    serve_step rs req s (go_on r (Storing route vars) (setVars now r vars (srv_contexts s)) s)"
| store_route: "srv_phase s r = Storing route vars \<Longrightarrow>
    serve_step rs req s (go_on r (Serving route vars) (setCurrentRoute now r route (srv_contexts s)) s)"
| no_route: "srv_phase s r = Waiting \<Longrightarrow> req r = (meth, path) \<Longrightarrow> cleanPath path = path \<Longrightarrow>
    find_route rs meth path = None \<Longrightarrow>
    serve_step rs req s (go_on r Missing (srv_contexts s) s)"
| handler_sets: "srv_phase s r = Serving route vars \<Longrightarrow>
    serve_step rs req s (go_on r (Serving route vars) (ctx_Set now r (UserKey k) v (srv_contexts s)) s)"
| handler_deletes: "srv_phase s r = Serving route vars \<Longrightarrow>
    serve_step rs req s (go_on r (Serving route vars) (ctx_Delete r (UserKey k) (srv_contexts s)) s)"
| leave: "srv_phase s r = Serving route vars \<or> srv_phase s r = Missing \<Longrightarrow>
    serve_step rs req s (go_on r Served (ctx_Clear r (srv_contexts s)) s)"

inductive serves :: "'h route list \<Rightarrow> ('r \<Rightarrow> string \<times> string) \<Rightarrow> ('r, 'h) server \<Rightarrow> bool"
  for rs :: "'h route list" and req :: "'r \<Rightarrow> string \<times> string" where
  start: "serves rs req server_start"
| step: "serves rs req s \<Longrightarrow> serve_step rs req s t \<Longrightarrow> serves rs req t"

inductive_cases serve_stepE: "serve_step rs req s t"

section \<open>The invariant\<close>

text \<open>What the contexts hold for a request in a phase.\<close>

definition stored :: "'h route list \<Rightarrow> string \<times> string \<Rightarrow> 'h phase \<Rightarrow> 'r \<Rightarrow> ('r, 'h) mux_contexts \<Rightarrow> bool" where
  "stored rs target p r c =
     (case p of
        Waiting \<Rightarrow> \<not> ctx_known r c
      | Storing route vars \<Rightarrow>
          find_route rs (fst target) (snd target) = Some (route, vars) \<and>
          ctx_known r c \<and> ctx_Get r varsKey c = Some (VarsValue vars)
      | Serving route vars \<Rightarrow>
          find_route rs (fst target) (snd target) = Some (route, vars) \<and>
          ctx_known r c \<and> ctx_Get r varsKey c = Some (VarsValue vars) \<and> ctx_Get r routeKey c = Some (RouteValue route)
      | Missing \<Rightarrow> \<not> ctx_known r c
      | Served \<Rightarrow> \<not> ctx_known r c)"

definition server_ok :: "'h route list \<Rightarrow> ('r \<Rightarrow> string \<times> string) \<Rightarrow> ('r, 'h) server \<Rightarrow> bool" where
  "server_ok rs req s \<longleftrightarrow>
     contexts_ok (srv_contexts s) \<and> (\<forall>r. stored rs (req r) (srv_phase s r) r (srv_contexts s))"

text \<open>A step of one request is an operation on it: it keeps what is stored for the others.\<close>

lemma stored_other:
  "contexts_ok c \<Longrightarrow> op_request a \<noteq> q \<Longrightarrow> stored rs t p q (rc.run_op a c) = stored rs t p q c"
  using rc.run_op_other [of c a q] by (simp add: stored_def split: phase.split)

lemma server_ok_go_on:
  assumes "server_ok rs req s" and "op_request a = r"
    and "stored rs (req r) p r (rc.run_op a (srv_contexts s))"
  shows "server_ok rs req (go_on r p (rc.run_op a (srv_contexts s)) s)"
  using assms rc.run_op_ok [of "srv_contexts s" a]
  by (auto simp: server_ok_def go_on_def stored_other)

lemma server_ok_stay:
  "server_ok rs req s \<Longrightarrow> stored rs (req r) p r (srv_contexts s) \<Longrightarrow>
   server_ok rs req (go_on r p (srv_contexts s) s)"
  by (simp add: server_ok_def go_on_def)

lemmas rc_laws = rc.get_put rc.get_del rc.get_clr rc.known_put rc.known_del rc.known_clr

lemma server_ok_step:
  assumes "server_ok rs req s" and "serve_step rs req s t"
  shows "server_ok rs req t"
proof -
  have c: "contexts_ok (srv_contexts s)" and st: "stored rs (req r) (srv_phase s r) r (srv_contexts s)" for r
    using assms(1) by (simp_all add: server_ok_def)
  note act = server_ok_go_on [OF assms(1)]
  from assms(2) show ?thesis
  proof (cases rule: serve_step.cases)
    case (redirect r meth path)
    then show ?thesis using st [of r] by (simp add: server_ok_stay [OF assms(1)] stored_def)
  next
    case (store_vars r meth path route vars now)
    with act [of "SetOp now r varsKey (Some (VarsValue vars))" r] c show ?thesis
      by (simp add: stored_def setVars_def rc_laws)
  next
    case (store_route r route vars now)
    with act [of "SetOp now r routeKey (Some (RouteValue route))" r] c st [of r] show ?thesis
      by (simp add: stored_def setCurrentRoute_def rc_laws)
  next
    case (no_route r meth path)
    then show ?thesis using st [of r] by (simp add: server_ok_stay [OF assms(1)] stored_def)
  next
    case (handler_sets r route vars now k v)
    with act [of "SetOp now r (UserKey k) v" r] c st [of r] show ?thesis
      by (simp add: stored_def rc_laws)
  next
    case (handler_deletes r route vars k)
    with act [of "DeleteOp r (UserKey k)" r] c st [of r] show ?thesis
      by (simp add: stored_def rc_laws)
  next
    case (leave r route vars)
    with act [of "ClearOp r" r] c show ?thesis by (simp add: stored_def rc_laws)
  qed
qed

lemma server_ok_serves: "serves rs req s \<Longrightarrow> server_ok rs req s"
proof (induction rule: serves.induct)
  case start
  show ?case by (simp add: server_ok_def server_start_def stored_def ctx_known_store)
qed (rule server_ok_step)

end
