(* ===== verification/ContextTheorems.thy ===== *)
theory ContextTheorems
  imports MuxServing
begin

text \<open>
  The request contexts of gorilla/context as an abstract store, and what a handler behind
  gorilla/mux finds in them.
\<close>

section \<open>Sequences of calls\<close>

datatype ('r, 'k, 'v) ctx_call = Call "('r, 'k, 'v) ctx_op" | PurgeCall int int

text \<open>The contexts after a call, and the count of a \<open>Purge\<close>.\<close>

fun call_contexts :: "('r, 'k, 'v) ctx_call \<Rightarrow> nat list \<times> ('r, 'k, 'v) contexts \<Rightarrow> nat list \<times> ('r, 'k, 'v) contexts" where
  "call_contexts (Call (SetOp now r k v)) (ns, c) = (ns, ctx_Set now r k v c)"
| "call_contexts (Call (DeleteOp r k)) (ns, c) = (ns, ctx_Delete r k c)"
| "call_contexts (Call (ClearOp r)) (ns, c) = (ns, ctx_Clear r c)"
| "call_contexts (PurgeCall now maxAge) (ns, c) = (case ctx_Purge now maxAge c of (n, c) \<Rightarrow> (ns @ [n], c))"

fun call_store :: "('r, 'k, 'v) ctx_call \<Rightarrow> nat list \<times> ('r, 'k, 'v) store \<Rightarrow> nat list \<times> ('r, 'k, 'v) store" where
  "call_store (Call (SetOp now r k v)) (ns, s) = (ns, store_Set now r k v s)"
| "call_store (Call (DeleteOp r k)) (ns, s) = (ns, store_Delete r k s)"
| "call_store (Call (ClearOp r)) (ns, s) = (ns, store_Clear r s)"
| "call_store (PurgeCall now maxAge) (ns, s) =
     (ns @ [card {r. expired now maxAge s r}], store_Purge now maxAge s)"

lemma call_refines:
  assumes "contexts_ok c"
  shows "contexts_ok (snd (call_contexts a (ns, c)))"
    and "map_prod id store_of (call_contexts a (ns, c)) = call_store a (ns, store_of c)"
proof -
  have "contexts_ok (snd (call_contexts a (ns, c))) \<and>
    map_prod id store_of (call_contexts a (ns, c)) = call_store a (ns, store_of c)"
  proof (cases a)
    case (Call op)
    with assms show ?thesis by (cases op) simp_all
  next
    case (PurgeCall now maxAge)
    with ctx_Purge_store [OF assms] show ?thesis by (auto split: prod.split)
  qed
  then show "contexts_ok (snd (call_contexts a (ns, c)))"
    and "map_prod id store_of (call_contexts a (ns, c)) = call_store a (ns, store_of c)" by simp_all
qed

lemma calls_refine:
  "contexts_ok c \<Longrightarrow>
   contexts_ok (snd (fold call_contexts calls (ns, c))) \<and>
   map_prod id store_of (fold call_contexts calls (ns, c)) = fold call_store calls (ns, store_of c)"
proof (induction calls arbitrary: ns c)
  case (Cons a calls)
  obtain ms d where d: "call_contexts a (ns, c) = (ms, d)" by fastforce
  with call_refines [OF Cons.prems, of a ns] have "contexts_ok d" "call_store a (ns, store_of c) = (ms, store_of d)"
    by simp_all
  with Cons.IH [of d ms] d show ?case by simp
qed simp

text \<open>C37: The request contexts are a store of contexts.  Through every sequence of calls of \<open>Set\<close>,
  \<open>Delete\<close>, \<open>Clear\<close> and \<open>Purge\<close>, with any requests, keys, values (nil ones too), clocks and ages,
  the two maps of the package together are one abstract map from a request to the time of its
  first \<open>Set\<close> and its values: each call changes that map as its abstract operation does, each
  \<open>Purge\<close> returns the number of the requests it removes, which are those older than the age (all
  of them for an age of 0 or less), \<open>Get\<close>, \<open>GetOk\<close>, \<open>GetAll\<close> and \<open>GetAllOk\<close> read the map, and the
  two maps always have the same requests, each once.
\<close>

theorem contexts_refine_store:
  "case fold call_contexts calls ([], no_contexts) of (counts, c) \<Rightarrow>
   case fold call_store calls ([], Map.empty) of (counts', s) \<Rightarrow>
     contexts_ok c \<and> counts = counts' \<and> store_of c = s \<and>
     ctx_Get r k c = (case s r of Some (_, m) \<Rightarrow> (case m k of Some v \<Rightarrow> v | None \<Rightarrow> None) | None \<Rightarrow> None) \<and>
     ctx_GetOk r k c = (case s r of Some (_, m) \<Rightarrow> (case m k of Some v \<Rightarrow> (v, True) | None \<Rightarrow> (None, False))
                        | None \<Rightarrow> (None, False)) \<and>
     map_option map_of (ctx_GetAll r c) = map_option snd (s r) \<and>
     (case ctx_GetAllOk r c of (m, found) \<Rightarrow> (map_of m, found)) =
       (case s r of Some (_, m) \<Rightarrow> (m, True) | None \<Rightarrow> (Map.empty, False))"
proof -
  obtain counts c where c: "fold call_contexts calls ([], no_contexts) = (counts, c)" by fastforce
  have "contexts_ok (snd (counts, c)) \<and> map_prod id store_of (counts, c) = fold call_store calls ([], store_of no_contexts)"
    unfolding c [symmetric] by (rule calls_refine) simp
  then have "contexts_ok c" "fold call_store calls ([], Map.empty) = (counts, store_of c)"
    by (simp_all only: store_of_none) simp_all
  with c show ?thesis
    by (simp only: prod.case) (simp add: ctx_Get_store ctx_GetOk_store ctx_GetAll_store ctx_GetAllOk_store)
qed

section \<open>Handlers behind the router\<close>

text \<open>C38: A handler sees its own request, and a server keeps nothing.  In every state that any
  number of concurrently served requests can reach, whatever the order of their steps, and
  whatever values their handlers store and delete under other keys: in the handler of a matched
  route, \<open>Vars\<close> and \<open>CurrentRoute\<close> return the route and the variables matched for this very
  request; a request that is not being served, or is served by the handler for no route, has no
  entry in the package's maps.
\<close>

theorem handler_sees_own_request:
  assumes "serves rs req s"
  shows "(\<forall>route vars. srv_phase s r = Serving route vars \<longrightarrow>
            find_route rs (fst (req r)) (snd (req r)) = Some (route, vars) \<and>
            Vars r (srv_contexts s) = Ret vars \<and> CurrentRoute r (srv_contexts s) = Ret (Some route)) \<and>
         (srv_phase s r \<in> {Waiting, Missing, Served} \<longrightarrow>
            r \<notin> fst ` set (ctx_data (srv_contexts s)) \<and> r \<notin> fst ` set (ctx_datat (srv_contexts s)))"
proof -
  have ok: "contexts_ok (srv_contexts s)" and st: "stored rs (req r) (srv_phase s r) r (srv_contexts s)"
    using server_ok_serves [OF assms] by (simp_all add: server_ok_def)
  have "\<not> ctx_known r (srv_contexts s) \<Longrightarrow>
      r \<notin> fst ` set (ctx_data (srv_contexts s)) \<and> r \<notin> fst ` set (ctx_datat (srv_contexts s))"
    using ok by (simp add: contexts_ok_def ctx_known_store flip: store_dom) (simp add: domIff)
  with st show ?thesis
    by (cases "srv_phase s r") (simp_all add: stored_def Vars_def CurrentRoute_def)
qed

text \<open>Two requests, each between the two stores and its end.\<close>

definition two_routes :: "string route list" where
  "two_routes = router_Get ''/b/{b}'' ''bind'' (router_Get ''/a/{a}'' ''show'' [])"

definition two_requests :: "nat \<Rightarrow> string \<times> string" where
  "two_requests r = (''GET'', if r = 0 then ''/a/x'' else ''/b/y'')"

theorem handler_sees_own_request_witness:
  "\<exists>s route. serves two_routes two_requests s \<and> srv_phase s 0 = Serving route [(''a'', ''x'')] \<and>
     srv_phase s 1 = Storing (two_routes ! 1) [(''b'', ''y'')] \<and>
     Vars 0 (srv_contexts s) = Ret [(''a'', ''x'')]"
proof -
  let ?r0 = "two_routes ! 0" and ?r1 = "two_routes ! 1"
  have find: "find_route two_routes ''GET'' ''/a/x'' = Some (?r0, [(''a'', ''x'')])"
    "find_route two_routes ''GET'' ''/b/y'' = Some (?r1, [(''b'', ''y'')])" by code_simp+
  have clean: "cleanPath ''/a/x'' = ''/a/x''" "cleanPath ''/b/y'' = ''/b/y''" by code_simp+
  let ?s1 = "go_on 0 (Storing ?r0 [(''a'', ''x'')]) (setVars 1 0 [(''a'', ''x'')] no_contexts) server_start"
  let ?s2 = "go_on 1 (Storing ?r1 [(''b'', ''y'')]) (setVars 1 1 [(''b'', ''y'')] (srv_contexts ?s1)) ?s1"
  let ?s3 = "go_on 0 (Serving ?r0 [(''a'', ''x'')]) (setCurrentRoute 2 0 ?r0 (srv_contexts ?s2)) ?s2"
  have "serve_step two_routes two_requests server_start ?s1"
    using serve_step.store_vars [of server_start 0 two_requests "''GET''" "''/a/x''" two_routes ?r0 "[(''a'', ''x'')]" 1]
    by (simp add: server_start_def two_requests_def find clean)
  moreover have "serve_step two_routes two_requests ?s1 ?s2"
    using find(2) clean(2) by (intro serve_step.store_vars) (simp_all add: server_start_def two_requests_def go_on_def)
  moreover have "serve_step two_routes two_requests ?s2 ?s3"
    by (intro serve_step.store_route) (simp add: go_on_def)
  ultimately have "serves two_routes two_requests ?s3"
    using serves.start serves.step by metis
  with handler_sees_own_request [OF this, of 0] show ?thesis
    by (intro exI [of _ ?s3] exI [of _ ?r0]) (simp add: go_on_def)
qed

text \<open>C39: The router hands a request over with its variables.  For a path that is not canonical the
  contexts stay as they are; for any other the handler that \<open>router_dispatch\<close> names runs, exactly
  once, in contexts where \<open>Vars\<close> returns the variables it names and those of all other requests
  are untouched; and when \<open>ServeHTTP\<close> is left, by a return or by a panic of the handler, the
  request has no entry left, unless the router keeps contexts.
\<close>

theorem router_serves_dispatch:
  assumes "contexts_ok c"
  shows "case router_dispatch rs meth path of
      RedirectTo p \<Rightarrow> p = cleanPath path \<and> mux_ServeHTTP now keep rs run missing r meth path c = (Ret (), c)
    | NotFound \<Rightarrow> mux_ServeHTTP now keep rs run missing r meth path c =
        (fst (missing c), if keep then snd (missing c) else ctx_Clear r (snd (missing c)))
    | Dispatch h vars \<Rightarrow> (\<exists>d.
        mux_ServeHTTP now keep rs run missing r meth path c =
          (fst (run h d), if keep then snd (run h d) else ctx_Clear r (snd (run h d))) \<and>
        contexts_ok d \<and> Vars r d = Ret vars \<and> (\<forall>q k. q \<noteq> r \<longrightarrow> ctx_Get q k d = ctx_Get q k c) \<and>
        (keep \<or> \<not> ctx_known r (ctx_Clear r (snd (run h d)))))"
proof (cases "cleanPath path = path \<and> find_route rs meth path \<noteq> None")
  case True
  then obtain route vars where found: "find_route rs meth path = Some (route, vars)" by auto
  let ?d = "setCurrentRoute now r route (setVars now r vars c)"
  have ok: "contexts_ok (setVars now r vars c)" "contexts_ok ?d"
    using assms by (simp_all add: setVars_def setCurrentRoute_def)
  have "Vars r ?d = Ret vars" "\<forall>q k. q \<noteq> r \<longrightarrow> ctx_Get q k ?d = ctx_Get q k c"
    using assms by (simp_all add: Vars_def setVars_def setCurrentRoute_def rc.get_put)
  with True found ok show ?thesis
    by (auto simp: router_dispatch_def mux_ServeHTTP_def find_route_Match Let_def ctx_known_store store_Clear_def
      split: prod.split intro!: exI [of _ ?d])
next
  case False
  then have "cleanPath path \<noteq> path \<or> find_route rs meth path = None" by blast
  then show ?thesis
    by (auto simp: router_dispatch_def mux_ServeHTTP_def find_route_Match split: prod.split)
qed

theorem router_serves_dispatch_witness:
  "\<not> ctx_known (7::nat) (snd (mux_ServeHTTP 5 False two_routes (\<lambda>h. go_panic (PanicString h)) (ret ()) 7 ''GET'' ''/a/x'' no_contexts)) \<and>
   fst (mux_ServeHTTP 5 False two_routes (\<lambda>h. go_panic (PanicString h)) (ret ()) (7::nat) ''GET'' ''/a/x'' no_contexts)
     = Panicked (PanicString ''show'')"
proof -
  have d: "router_dispatch two_routes ''GET'' ''/a/x'' = Dispatch ''show'' [(''a'', ''x'')]" by code_simp
  show ?thesis
    using router_serves_dispatch [where c = no_contexts and rs = two_routes and meth = "''GET''" and path = "''/a/x''"
      and now = 5 and keep = False and run = "\<lambda>h. go_panic (PanicString h)" and missing = "ret ()" and r = "7::nat"] d
    by auto
qed

end
