(* ===== verification/Decimal.thy ===== *)
theory Decimal
  imports GoFmt Bytes
begin

text \<open>
  Exact numbers in go-mssqldb (\<open>decimal.go\<close>): a magnitude of 128 bits, a sign and a scale, and
  the text the driver makes of them.  The conversions from and to \<open>float64\<close> are not called by
  the driver and are left out.
\<close>

section \<open>The code\<close>

record Decimal =
  integer :: "32 word list"
  positive :: bool
  prec :: octet
  scale :: octet

text \<open>
  \<open>scaleBytes\<close> puts the point into the digits of an integer.  The text is given with its bytes
  as characters.
\<close>

definition scaleBytes :: "string \<Rightarrow> octet \<Rightarrow> string outcome" where
  "scaleBytes s sc =
     (case s of
        [] \<Rightarrow> Panicked IndexOutOfRange
      | c # cs \<Rightarrow>
          (let z = (if c = CHR ''-'' \<or> c = CHR ''+'' then [c] else []);
               s = (if c = CHR ''-'' \<or> c = CHR ''+'' then cs else s);
               pos = int (length s) - int (unat sc);
               z = z @ (if pos \<le> 0 then ''0'' else take (nat pos) s)
           in Ret (if 0 < unat sc
                   then z @ ''.'' @ replicate (nat (- pos)) (CHR ''0'') @ drop (nat pos) s
                   else z)))"

text \<open>The four words, the least significant first, as a number.\<close>

fun words_value :: "32 word list \<Rightarrow> nat" where
  "words_value [] = 0"
| "words_value (w # ws) = unat w + 2 ^ 32 * words_value ws"

definition Decimal_Bytes :: "Decimal \<Rightarrow> string outcome" where
  "Decimal_Bytes d =
     (let bytes = concat (map (\<lambda>w. be_bytes 4 (unat w)) (rev (integer d)));
          x = int (be_value bytes);
          x = (if positive d then x else - x)
      in scaleBytes (Itoa x) (scale d))"

definition Decimal_String :: "Decimal \<Rightarrow> string outcome" where
  "Decimal_String d = Decimal_Bytes d"

text \<open>\<open>decodeDecimal\<close> of \<open>types.go\<close>: a sign and up to four little-endian words.\<close>

fun le_words :: "octet list \<Rightarrow> 32 word list" where
  "le_words (a # b # c # d # bs) = of_nat (le_value [a, b, c, d]) # le_words bs"
| "le_words _ = []"

definition decodeDecimal :: "octet \<Rightarrow> octet \<Rightarrow> octet list \<Rightarrow> string outcome" where
  "decodeDecimal pr sc buf =
     (case buf of
        [] \<Rightarrow> Panicked IndexOutOfRange
      | sign # buf \<Rightarrow>
          if 4 < length buf div 4 then Panicked IndexOutOfRange
          else Decimal_Bytes
                 \<lparr>integer = le_words buf @ replicate (4 - length buf div 4) 0,
                  positive = (sign \<noteq> 0), prec = pr, scale = sc\<rparr>)"

section \<open>What the text means\<close>

text \<open>
  The text of a number \<open>v\<close> with \<open>n\<close> digits after the point: a sign for a negative number, the
  digits, of which there is one before the point at least and no zero in front of others, and
  the point, if any follow.
\<close>

definition denotes :: "string \<Rightarrow> int \<Rightarrow> nat \<Rightarrow> bool" where
  "denotes t v n \<longleftrightarrow>
     (\<exists>whole fraction.
        t = (if v < 0 then ''-'' else []) @ whole @ (if n = 0 then [] else CHR ''.'' # fraction) \<and>
        length fraction = n \<and> list_all is_digit (whole @ fraction) \<and>
        whole \<noteq> [] \<and> (hd whole = CHR ''0'' \<longrightarrow> whole = ''0'') \<and>
        int (read_decimal (whole @ fraction)) = \<bar>v\<bar>)"

lemma read_decimal_append: "read_decimal (s @ t) = read_decimal s * 10 ^ length t + read_decimal t"
proof (induction t rule: rev_induct)
  case (snoc c t)
  then show ?case by (simp add: read_decimal_def algebra_simps)
qed (simp add: read_decimal_def)

lemma read_decimal_zeros: "read_decimal (replicate k (CHR ''0'') @ s) = read_decimal s"
proof -
  have "read_decimal (replicate k (CHR ''0'')) = 0"
    by (induction k) (simp_all add: read_decimal_def digit_val_def)
  then show ?thesis by (simp add: read_decimal_append)
qed

lemma digit_zero: "d < 10 \<Longrightarrow> digit d = CHR ''0'' \<longleftrightarrow> d = 0"
proof -
  assume d: "d < 10"
  have zero: "CHR ''0'' = digit 0" by code_simp
  show ?thesis unfolding zero using digit_val_digit [OF d] digit_val_digit [of 0] by (metis zero_less_numeral)
qed

lemma decimal_first: "0 < n \<Longrightarrow> hd (decimal n) \<noteq> CHR ''0''"
proof (induction n rule: decimal.induct)
  case (1 n)
  show ?case
  proof (cases "n < 10")
    case True
    with 1 show ?thesis by (subst decimal.simps) (simp add: digit_zero)
  next
    case False
    then have "0 < n div 10" by (simp add: div_greater_zero_iff)
    with 1 False decimal_nonempty [of "n div 10"] show ?thesis by (subst decimal.simps) simp
  qed
qed

lemma decimal_first_zero: "hd (decimal n) = CHR ''0'' \<Longrightarrow> decimal n = ''0''"
  by (cases "n = 0") (auto simp: decimal_first decimal.simps [of 0] digit_def)

lemma Itoa_parts: "Itoa v = (if v < 0 then ''-'' else []) @ decimal (nat \<bar>v\<bar>)"
  by (simp add: Itoa_def)

text \<open>The digits of a magnitude, of which the last \<open>n\<close> go behind the point.\<close>

lemma split_digits:
  fixes k n :: nat
  defines "s \<equiv> decimal k"
  defines "whole \<equiv> (if length s \<le> n then ''0'' else take (length s - n) s)"
  defines "fraction \<equiv> replicate (n - length s) (CHR ''0'') @ drop (length s - n) s"
  shows "length fraction = n \<and> list_all is_digit (whole @ fraction) \<and> whole \<noteq> [] \<and>
    (hd whole = CHR ''0'' \<longrightarrow> whole = ''0'') \<and> read_decimal (whole @ fraction) = k"
proof -
  have digits: "list_all is_digit s" and nonempty: "s \<noteq> []" and val: "read_decimal s = k"
    by (simp_all add: s_def decimal_digits list_all_iff)
  have zero: "is_digit (CHR ''0'')" by (simp add: is_digit_def)
  show ?thesis
  proof (cases "length s \<le> n")
    case True
    have "read_decimal (whole @ fraction) = read_decimal (replicate (Suc (n - length s)) (CHR ''0'') @ s)"
      using True by (simp add: whole_def fraction_def)
    then have "read_decimal (whole @ fraction) = k" by (simp only: read_decimal_zeros val)
    moreover have "list_all is_digit (whole @ fraction)"
      using True digits zero by (auto simp: whole_def fraction_def list_all_iff)
    ultimately show ?thesis using True by (simp add: whole_def fraction_def)
  next
    case False
    then have parts: "whole = take (length s - n) s" "fraction = drop (length s - n) s"
      by (simp_all add: whole_def fraction_def)
    have "hd whole = hd s" using False nonempty by (simp add: parts hd_take)
    then have "hd whole = CHR ''0'' \<longrightarrow> whole = ''0''"
      using False decimal_first_zero [of k] by (auto simp: s_def parts)
    moreover have "whole @ fraction = s" by (simp add: parts)
    ultimately show ?thesis using False digits val by (auto simp: parts)
  qed
qed

lemma scaleBytes_denotes: "\<exists>t. scaleBytes (Itoa v) sc = Ret t \<and> denotes t v (unat sc)"
proof -
  let ?s = "decimal (nat \<bar>v\<bar>)" and ?n = "unat sc"
  have pos: "int a - int ?n \<le> 0 \<longleftrightarrow> a \<le> ?n" "nat (int a - int ?n) = a - ?n" "nat (- (int a - int ?n)) = ?n - a" for a
    by linarith+
  let ?whole = "if length ?s \<le> ?n then ''0'' else take (length ?s - ?n) ?s"
  let ?fraction = "replicate (?n - length ?s) (CHR ''0'') @ drop (length ?s - ?n) ?s"
  let ?t = "(if v < 0 then ''-'' else []) @ ?whole @ (if ?n = 0 then [] else CHR ''.'' # ?fraction)"
  obtain c cs where cs: "?s = c # cs" by (cases ?s) simp_all
  then have sign: "c \<noteq> CHR ''-'' \<and> c \<noteq> CHR ''+''"
    using decimal_digits [of "nat \<bar>v\<bar>"] by (auto simp: is_digit_def)
  have "scaleBytes (Itoa v) sc =
    (let pos = int (length ?s) - int ?n; z = (if v < 0 then ''-'' else []) @ (if pos \<le> 0 then ''0'' else take (nat pos) ?s)
     in Ret (if 0 < ?n then z @ ''.'' @ replicate (nat (- pos)) (CHR ''0'') @ drop (nat pos) ?s else z))"
    using sign unfolding Itoa_parts cs by (cases "sc = 0") (simp_all add: scaleBytes_def Let_def unat_gt_0 word_neq_0_conv)
  also have "\<dots> = Ret ?t" unfolding Let_def pos by (simp add: Suc_le_eq)
  finally have "scaleBytes (Itoa v) sc = Ret ?t" .
  moreover have "denotes ?t v ?n"
    unfolding denotes_def
  proof (rule exI [of _ ?whole], rule exI [of _ ?fraction], intro conjI)
    note parts = split_digits [where k = "nat \<bar>v\<bar>" and n = ?n]
    show "length ?fraction = ?n" "list_all is_digit (?whole @ ?fraction)" "?whole \<noteq> []"
      "hd ?whole = CHR ''0'' \<longrightarrow> ?whole = ''0''" using parts by blast+
    have "read_decimal (?whole @ ?fraction) = nat \<bar>v\<bar>" using parts by blast
    then show "int (read_decimal (?whole @ ?fraction)) = \<bar>v\<bar>" by (simp only: int_nat_eq abs_ge_zero if_True)
  qed (rule refl)
  ultimately show ?thesis by blast
qed

section \<open>Numbers of the protocol\<close>

lemma octet_words: "length bs mod 4 = 0 \<Longrightarrow> concat (map (\<lambda>w. le_bytes 4 (unat w)) (le_words bs)) = bs"
proof (induction bs rule: le_words.induct)
  case (1 a b c d bs)
  have "le_bytes 4 (unat (of_nat (le_value [a, b, c, d]) :: 32 word)) = [a, b, c, d]"
  proof -
    have "le_value [a, b, c, d] < 256 ^ length [a, b, c, d]" by (rule le_value_less)
    then have "unat (of_nat (le_value [a, b, c, d]) :: 32 word) = le_value [a, b, c, d]"
      by (simp only: unat_of_nat) simp
    moreover have "le_bytes (length [a, b, c, d]) (le_value [a, b, c, d]) = [a, b, c, d]" by (rule le_bytes_value)
    moreover have "length [a, b, c, d] = 4" by simp
    ultimately show ?thesis by (simp only:)
  qed
  with 1 show ?case by (simp del: le_bytes.simps le_value.simps)
qed (auto simp: length_Suc_conv)

lemma le_value_zeros: "le_value (bs @ replicate k 0) = le_value bs"
  by (induction bs) (induction k, simp_all)

lemma length_le_words: "length (le_words bs) = length bs div 4"
  by (induction bs rule: le_words.induct) simp_all

lemma be_value_words: "be_value (concat (map (\<lambda>w :: 32 word. be_bytes 4 (unat w)) (rev ws))) = le_value (concat (map (\<lambda>w. le_bytes 4 (unat w)) ws))"
proof -
  have "rev (concat (map (\<lambda>w :: 32 word. be_bytes 4 (unat w)) (rev ws))) = concat (map (\<lambda>w. le_bytes 4 (unat w)) ws)"
    by (induction ws) (simp_all add: be_bytes_def)
  then show ?thesis by (simp add: be_value_def)
qed

lemma decodeDecimal_denotes:
  assumes "length bs mod 4 = 0" and "length bs \<le> 16"
  shows "\<exists>t. decodeDecimal pr sc (sign # bs) = Ret t \<and>
    denotes t (if sign \<noteq> 0 then int (le_value bs) else - int (le_value bs)) (unat sc)"
proof -
  let ?ws = "le_words bs @ replicate (4 - length bs div 4) 0"
  have zeros: "concat (map (\<lambda>w. le_bytes 4 (unat w)) (replicate k (0 :: 32 word))) = replicate (4 * k) 0" for k
  proof (induction k)
    case (Suc k)
    have "le_bytes 4 0 = replicate 4 0" by code_simp
    moreover have "replicate (4 * Suc k) (0 :: octet) = replicate 4 0 @ replicate (4 * k) 0"
      by (simp only: mult_Suc_right replicate_add)
    ultimately show ?case using Suc by simp
  qed simp
  have v: "be_value (concat (map (\<lambda>w. be_bytes 4 (unat w)) (rev ?ws))) = le_value bs"
    unfolding be_value_words map_append concat_append octet_words [OF assms(1)] zeros by (rule le_value_zeros)
  have "\<not> 4 < length bs div 4" using assms(2) by linarith
  then have "decodeDecimal pr sc (sign # bs) =
      scaleBytes (Itoa (if sign \<noteq> 0 then int (le_value bs) else - int (le_value bs))) sc"
    by (simp add: decodeDecimal_def Decimal_Bytes_def Let_def v [simplified])
  with scaleBytes_denotes show ?thesis by simp
qed

end
