(* ===== verification/GoTime.thy ===== *)
theory GoTime
  imports Bytes Prelude
begin

text \<open>
  Points in time, as package \<open>time\<close> keeps them, and the date formats of the protocol
  (\<open>types.go\<close>).
\<close>

section \<open>Package time\<close>

text \<open>
  A time: seconds since the start of year 1 in UTC, nanoseconds in the second, and the offset of
  its zone from UTC in seconds.
\<close>

record gotime =
  t_sec :: int
  t_nsec :: int
  t_zone :: int

text \<open>
  \<open>time.Date(year, 1, 1 + days, 0, 0, sec, ns, zone)\<close> for the two years the driver uses: \<open>base\<close> is
  the number of days in front of the year.  Overflowing nanoseconds go into the seconds.
\<close>

definition year_1 :: int where "year_1 = 0"
definition year_1900 :: int where "year_1900 = 693595"
definition year_1970 :: int where "year_1970 = 719162"

definition time_Date :: "int \<Rightarrow> int \<Rightarrow> int \<Rightarrow> int \<Rightarrow> int \<Rightarrow> gotime" where
  "time_Date base days sec ns zone =
     \<lparr>t_sec = (base + days) * 86400 + sec + ns div 1000000000 - zone, t_nsec = ns mod 1000000000, t_zone = zone\<rparr>"

definition time_Unix :: "gotime \<Rightarrow> int" where
  "time_Unix t = t_sec t - year_1970 * 86400"

text \<open>\<open>t.Sub(u)\<close> in nanoseconds, saturated.\<close>

definition time_Sub :: "gotime \<Rightarrow> gotime \<Rightarrow> int" where
  "time_Sub t u =
     max (- (2 ^ 63)) (min (2 ^ 63 - 1) ((t_sec t - t_sec u) * 1000000000 + (t_nsec t - t_nsec u)))"

text \<open>A time as the package makes them, with whole seconds of the zone.\<close>

definition time_ok :: "gotime \<Rightarrow> bool" where
  "time_ok t \<longleftrightarrow> 0 \<le> t_nsec t \<and> t_nsec t < 1000000000"

section \<open>Division\<close>

text \<open>Go's division of integers goes towards zero.\<close>

definition go_div :: "int \<Rightarrow> int \<Rightarrow> int" where
  "go_div x y = sgn x * sgn y * (\<bar>x\<bar> div \<bar>y\<bar>)"

definition go_mod :: "int \<Rightarrow> int \<Rightarrow> int" where
  "go_mod x y = x - y * go_div x y"

definition divFloor :: "int \<Rightarrow> int \<Rightarrow> int" where
  "divFloor x y =
     (let q = go_div x y; r = go_mod x y
      in if r \<noteq> 0 \<and> ((r < 0) \<noteq> (y < 0)) then q - 1 else q)"

lemma go_div_pos: "0 \<le> x \<Longrightarrow> 0 < y \<Longrightarrow> go_div x y = x div y"
  by (cases "x = 0") (simp_all add: go_div_def)

lemma divFloor_div: "0 < y \<Longrightarrow> divFloor x y = x div y"
proof -
  assume y: "0 < y"
  show ?thesis
  proof (cases "0 \<le> x")
    case True
    with y have "0 \<le> go_mod x y" by (simp add: go_mod_def go_div_pos minus_mult_div_eq_mod)
    with True y show ?thesis by (simp add: divFloor_def go_div_pos)
  next
    case False
    then obtain z where x: "x = - z" and z: "0 < z" by (metis minus_minus neg_0_less_iff_less not_le)
    have d: "go_div (- z) y = - (z div y)" using y z by (simp add: go_div_def)
    then have m: "go_mod (- z) y = - (z mod y)" by (simp add: go_mod_def minus_mult_div_eq_mod [symmetric])
    have "0 \<le> z mod y" using y by simp
    then consider "z mod y = 0" | "0 < z mod y" by linarith
    then show ?thesis
      by cases (use y z in \<open>simp_all add: divFloor_def d m x Let_def zdiv_zminus1_eq_if\<close>)
  qed
qed

text \<open>\<open>dateTime2\<close>: the days since the start of year 1, in 32 bits, and the nanoseconds in the day.\<close>

definition dateTime2 :: "gotime \<Rightarrow> 32 word \<times> int" where
  "dateTime2 t =
     (let days64 = divFloor (time_Unix t) (24 * 60 * 60);
          days = of_int days64 + (1969 * 365 + 1969 div 4 - 1969 div 100 + 1969 div 400);
          secs = time_Unix t - days64 * 24 * 60 * 60
      in (days, secs * 1000000000 + t_nsec t))"

section \<open>Decoding\<close>

text \<open>Slices that are too short make the index expressions panic.\<close>

definition le_at :: "nat \<Rightarrow> nat \<Rightarrow> octet list \<Rightarrow> nat outcome" where
  "le_at i n b = (if i + n \<le> length b then Ret (le_value (take n (drop i b))) else Panicked IndexOutOfRange)"

definition bindO :: "'a outcome \<Rightarrow> ('a \<Rightarrow> 'b outcome) \<Rightarrow> 'b outcome" where
  "bindO m f = (case m of Ret a \<Rightarrow> f a | Panicked v \<Rightarrow> Panicked v)"

lemma bindO_simps [simp]: "bindO (Ret a) f = f a" "bindO (Panicked v) f = Panicked v"
  by (simp_all add: bindO_def)

definition decodeDateTim4 :: "octet list \<Rightarrow> gotime outcome" where
  "decodeDateTim4 b =
     bindO (le_at 0 2 b) (\<lambda>days. bindO (le_at 2 2 b) (\<lambda>mins.
       Ret (time_Date year_1900 (int days) (60 * int mins) 0 0)))"

text \<open>
  The fraction of a second is in units of 1/300 s, and is rounded to milliseconds:
  \<open>math.Trunc(float64(tm%300)/0.3 + 0.5)\<close>.  The quotient is at least 1/6 away from every number
  at which the result changes, far more than the rounding of the floating-point operations, so
  that it is the floor of the exact one.
\<close>

definition decodeDateTime :: "octet list \<Rightarrow> gotime outcome" where
  "decodeDateTime b =
     bindO (le_at 0 4 b) (\<lambda>d. bindO (le_at 4 4 b) (\<lambda>tm.
       (let days = sint (of_nat d :: 32 word);
            ns = int ((20 * (tm mod 300) + 3) div 6) * 1000000
        in Ret (time_Date year_1900 days (int (tm div 300)) ns 0))))"

definition decodeDateInt :: "octet list \<Rightarrow> nat outcome" where
  "decodeDateInt b = le_at 0 3 b"

definition decodeDate :: "octet list \<Rightarrow> gotime outcome" where
  "decodeDate b = bindO (decodeDateInt b) (\<lambda>days. Ret (time_Date year_1 (int days) 0 0 0))"

text \<open>The bytes from the last to the first, and factors of ten for the missing digits; 64 bits.\<close>

definition decodeTimeInt :: "octet \<Rightarrow> octet list \<Rightarrow> int \<times> int" where
  "decodeTimeInt sc b =
     (let acc = foldl (\<lambda>acc x. push_bit 8 acc OR ucast x) (0 :: 64 word) (rev b);
          acc = foldl (\<lambda>acc i. acc * 10) acc [0..<7 - unat sc];
          nsbig = acc * 100
      in (uint (nsbig div 1000000000), uint (nsbig mod 1000000000)))"

definition decodeTime :: "octet \<Rightarrow> octet list \<Rightarrow> gotime outcome" where
  "decodeTime sc b = (case decodeTimeInt sc b of (sec, ns) \<Rightarrow> Ret (time_Date year_1 0 sec ns 0))"

definition decodeDateTime2 :: "octet \<Rightarrow> octet list \<Rightarrow> gotime outcome" where
  "decodeDateTime2 sc b =
     (if length b < 3 then Panicked IndexOutOfRange
      else (let timesize = length b - 3
            in (case decodeTimeInt sc (take timesize b) of (sec, ns) \<Rightarrow>
                 bindO (decodeDateInt (drop timesize b)) (\<lambda>days. Ret (time_Date year_1 (int days) sec ns 0)))))"

definition decodeDateTimeOffset :: "octet \<Rightarrow> octet list \<Rightarrow> gotime outcome" where
  "decodeDateTimeOffset sc b =
     (if length b < 5 then Panicked IndexOutOfRange
      else (let timesize = length b - 3 - 2
            in (case decodeTimeInt sc (take timesize b) of (sec, ns) \<Rightarrow>
                 bindO (decodeDateInt (take 3 (drop timesize b))) (\<lambda>days.
                 bindO (le_at 0 2 (drop 3 (drop timesize b))) (\<lambda>o16.
                   (let offset = sint (of_nat o16 :: 16 word)
                    in Ret (time_Date year_1 (int days) (sec + offset * 60) ns (offset * 60))))))))"

end
