(* ===== verification/Types.thy ===== *)
theory Types
  imports Tds Charset Decimal GoTime
begin

text \<open>
  The types of the protocol and their values (\<open>types.go\<close>): the information on a type that
  describes a column or a parameter, the readers that decode a value, and the writers.
\<close>

section \<open>The session\<close>

record loginAckStruct =
  Interface :: octet
  ackTDSVersion :: "32 word"
  ProgName :: string
  ProgVer :: "32 word"

text \<open>
  A session with its packet buffer.  \<open>arrays\<close> has the arrays that the \<open>Buffer\<close> slices of type
  informations point to: a slice is the index of its array here.  \<open>logged\<close> has what goes to the
  standard logger.  The field \<open>columns\<close> of the source is never used.
\<close>

record tdsSession =
  sess_buf :: tdsBuffer
  loginAck :: loginAckStruct
  database :: string
  tranid :: "64 word"
  logFlags :: "64 word"
  arrays :: "octet list list"
  logged :: "string list"

definition on_buf :: "(tdsBuffer, 'a) go \<Rightarrow> (tdsSession, 'a) go" where
  "on_buf m s = (case m (sess_buf s) of (r, b) \<Rightarrow> (r, s\<lparr>sess_buf := b\<rparr>))"

definition liftO :: "'a outcome \<Rightarrow> ('s, 'a) go" where
  "liftO r s = (r, s)"

definition make_array :: "nat \<Rightarrow> (tdsSession, nat) go" where
  "make_array n s = (Ret (length (arrays s)), s\<lparr>arrays := arrays s @ [replicate n 0]\<rparr>)"

text \<open>\<open>badStreamPanicf\<close>.\<close>

definition bad_stream :: "string \<Rightarrow> go_error" where
  "bad_stream t = OtherError (''Invalid TDS stream: '' @ t)"

definition badStreamPanicf :: "string \<Rightarrow> ('s, 'a) go" where
  "badStreamPanicf t = badStreamPanic (bad_stream t)"

definition badStreamO :: "string \<Rightarrow> 'a outcome" where
  "badStreamO t = Panicked (PanicError (Some (bad_stream t)))"

section \<open>Type identifiers\<close>

abbreviation typeNull :: octet where "typeNull \<equiv> 0x1f"
abbreviation typeInt1 :: octet where "typeInt1 \<equiv> 0x30"
abbreviation typeBit :: octet where "typeBit \<equiv> 0x32"
abbreviation typeInt2 :: octet where "typeInt2 \<equiv> 0x34"
abbreviation typeInt4 :: octet where "typeInt4 \<equiv> 0x38"
abbreviation typeDateTim4 :: octet where "typeDateTim4 \<equiv> 0x3a"
abbreviation typeFlt4 :: octet where "typeFlt4 \<equiv> 0x3b"
abbreviation typeMoney :: octet where "typeMoney \<equiv> 0x3c"
abbreviation typeDateTime :: octet where "typeDateTime \<equiv> 0x3d"
abbreviation typeFlt8 :: octet where "typeFlt8 \<equiv> 0x3e"
abbreviation typeMoney4 :: octet where "typeMoney4 \<equiv> 0x7a"
abbreviation typeInt8 :: octet where "typeInt8 \<equiv> 0x7f"

abbreviation typeGuid :: octet where "typeGuid \<equiv> 0x24"
abbreviation typeIntN :: octet where "typeIntN \<equiv> 0x26"
abbreviation typeDecimal :: octet where "typeDecimal \<equiv> 0x37"
abbreviation typeNumeric :: octet where "typeNumeric \<equiv> 0x3f"
abbreviation typeBitN :: octet where "typeBitN \<equiv> 0x68"
abbreviation typeDecimalN :: octet where "typeDecimalN \<equiv> 0x6a"
abbreviation typeNumericN :: octet where "typeNumericN \<equiv> 0x6c"
abbreviation typeFltN :: octet where "typeFltN \<equiv> 0x6d"
abbreviation typeMoneyN :: octet where "typeMoneyN \<equiv> 0x6e"
abbreviation typeDateTimeN :: octet where "typeDateTimeN \<equiv> 0x6f"
abbreviation typeDateN :: octet where "typeDateN \<equiv> 0x28"
abbreviation typeTimeN :: octet where "typeTimeN \<equiv> 0x29"
abbreviation typeDateTime2N :: octet where "typeDateTime2N \<equiv> 0x2a"
abbreviation typeDateTimeOffsetN :: octet where "typeDateTimeOffsetN \<equiv> 0x2b"
abbreviation typeChar :: octet where "typeChar \<equiv> 0x2f"
abbreviation typeVarChar :: octet where "typeVarChar \<equiv> 0x27"
abbreviation typeBinary :: octet where "typeBinary \<equiv> 0x2d"
abbreviation typeVarBinary :: octet where "typeVarBinary \<equiv> 0x25"

abbreviation typeBigVarBin :: octet where "typeBigVarBin \<equiv> 0xa5"
abbreviation typeBigVarChar :: octet where "typeBigVarChar \<equiv> 0xa7"
abbreviation typeBigBinary :: octet where "typeBigBinary \<equiv> 0xad"
abbreviation typeBigChar :: octet where "typeBigChar \<equiv> 0xaf"
abbreviation typeNVarChar :: octet where "typeNVarChar \<equiv> 0xe7"
abbreviation typeNChar :: octet where "typeNChar \<equiv> 0xef"
abbreviation typeXml :: octet where "typeXml \<equiv> 0xf1"
abbreviation typeUdt :: octet where "typeUdt \<equiv> 0xf0"

abbreviation typeText :: octet where "typeText \<equiv> 0x23"
abbreviation typeImage :: octet where "typeImage \<equiv> 0x22"
abbreviation typeNText :: octet where "typeNText \<equiv> 0x63"
abbreviation typeVariant :: octet where "typeVariant \<equiv> 0x62"

definition fixed_types :: "octet list" where
  "fixed_types = [typeNull, typeInt1, typeBit, typeInt2, typeInt4, typeDateTim4, typeFlt4, typeMoney,
     typeDateTime, typeFlt8, typeMoney4, typeInt8]"

definition time_types :: "octet list" where
  "time_types = [typeTimeN, typeDateTime2N, typeDateTimeOffsetN]"

definition decimal_types :: "octet list" where
  "decimal_types = [typeDecimal, typeNumeric, typeDecimalN, typeNumericN]"

definition byte_len_types :: "octet list" where
  "byte_len_types = [typeGuid, typeIntN, typeDecimal, typeNumeric, typeBitN, typeDecimalN, typeNumericN,
     typeFltN, typeMoneyN, typeDateTimeN, typeChar, typeVarChar, typeBinary, typeVarBinary]"

definition short_char_types :: "octet list" where
  "short_char_types = [typeBigVarChar, typeBigChar, typeNVarChar, typeNChar]"

definition short_len_types :: "octet list" where
  "short_len_types = [typeBigVarBin, typeBigVarChar, typeBigBinary, typeBigChar, typeNVarChar, typeNChar, typeUdt]"

definition long_len_types :: "octet list" where
  "long_len_types = [typeText, typeImage, typeNText, typeVariant]"

lemmas type_lists = fixed_types_def time_types_def decimal_types_def byte_len_types_def
  short_char_types_def short_len_types_def long_len_types_def

section \<open>Values\<close>

text \<open>
  What a reader returns (an \<open>interface{}\<close>).  A float is known by its bits; \<open>VWide\<close> is a 32-bit one
  that was converted to 64 bits.  \<open>VSlice a n\<close> are the first \<open>n\<close> bytes of the array \<open>a\<close>, which the
  session still writes to; \<open>VBytes\<close> is a slice of its own.
\<close>

datatype govalue =
    VNil
  | VInt "64 word"
  | VBool bool
  | VFloat32 "32 word"
  | VFloat64 "64 word"
  | VWide "32 word"
  | VBytes "octet list"
  | VSlice nat nat
  | VString string
  | VTime gotime

datatype reader = RFixed | RByteLen | RShortLen | RLongLen | RVariant | RPLP
datatype writer = WByteLen | WShortLen | WPLP

record typeInfo =
  TypeId :: octet
  Size :: int
  Scale :: octet
  Prec :: octet
  Buffer :: "nat option"
  Collation :: collation
  Reader :: "reader option"
  Writer :: "writer option"

definition zero_typeInfo :: typeInfo where
  "zero_typeInfo = \<lparr>TypeId = 0, Size = 0, Scale = 0, Prec = 0, Buffer = None,
     Collation = \<lparr>lcidAndFlags = 0, sortId = 0\<rparr>, Reader = None, Writer = None\<rparr>"

section \<open>Reading the information on a type\<close>

definition readCollation :: "(tdsSession, collation) go" where
  "readCollation =
     bindG (on_buf buf_uint32) (\<lambda>l. bindG (on_buf buf_byte) (\<lambda>s. ret \<lparr>lcidAndFlags = l, sortId = s\<rparr>))"

definition fixed_size :: "octet \<Rightarrow> nat" where
  "fixed_size t =
     (if t = typeNull then 0
      else if t \<in> set [typeInt1, typeBit] then 1
      else if t = typeInt2 then 2
      else if t \<in> set [typeInt4, typeDateTim4, typeFlt4, typeMoney4] then 4
      else if t \<in> set [typeMoney, typeDateTime, typeFlt8, typeInt8] then 8
      else 0)"

definition time_size :: "octet \<Rightarrow> nat option" where
  "time_size sc =
     (if sc \<in> set [0, 1, 2] then Some 3 else if sc \<in> set [3, 4] then Some 4
      else if sc \<in> set [5, 6, 7] then Some 5 else None)"

text \<open>The names of tables are read and ignored.\<close>

fun skip_names :: "nat \<Rightarrow> (tdsSession, unit) go" where
  "skip_names 0 = ret ()"
| "skip_names (Suc n) = bindG (on_buf UsVarChar) (\<lambda>_. skip_names n)"

definition readVarLen :: "typeInfo \<Rightarrow> (tdsSession, typeInfo) go" where
  "readVarLen ti =
     (let t = TypeId ti in
      if t = typeDateN then
        bindG (make_array 3) (\<lambda>a. ret (ti\<lparr>Size := 3, Reader := Some RByteLen, Buffer := Some a\<rparr>))
      else if t \<in> set time_types then
        bindG (on_buf buf_byte) (\<lambda>sc.
          case time_size sc of
            None \<Rightarrow> badStreamPanicf ''Invalid scale for TIME/DATETIME2/DATETIMEOFFSET type''
          | Some n \<Rightarrow>
              (let n = n + (if t = typeDateTime2N then 3 else if t = typeDateTimeOffsetN then 5 else 0)
               in bindG (make_array n) (\<lambda>a.
                    ret (ti\<lparr>Scale := sc, Size := int n, Reader := Some RByteLen, Buffer := Some a\<rparr>))))
      else if t \<in> set byte_len_types then
        bindG (on_buf buf_byte) (\<lambda>n.
        bindG (make_array (unat n)) (\<lambda>a.
          (let ti = ti\<lparr>Size := uint n, Buffer := Some a, Reader := Some RByteLen\<rparr>
           in if t \<in> set decimal_types
              then bindG (on_buf buf_byte) (\<lambda>p. bindG (on_buf buf_byte) (\<lambda>sc. ret (ti\<lparr>Prec := p, Scale := sc\<rparr>)))
              else ret ti)))
      else if t = typeXml then
        bindG (on_buf buf_byte) (\<lambda>schemapresent.
          seqG (if schemapresent \<noteq> 0
                then bindG (on_buf BVarChar) (\<lambda>_. bindG (on_buf BVarChar) (\<lambda>_. bindG (on_buf UsVarChar) (\<lambda>_. ret ())))
                else ret ())
          (ret (ti\<lparr>Reader := Some RPLP\<rparr>)))
      else if t \<in> set short_len_types then
        bindG (on_buf buf_uint16) (\<lambda>n.
        bindG (if t \<in> set short_char_types then readCollation else ret (Collation ti)) (\<lambda>col.
          (let ti = ti\<lparr>Size := uint n, Collation := col\<rparr>
           in if n = 0xffff then ret (ti\<lparr>Reader := Some RPLP\<rparr>)
              else bindG (make_array (unat n)) (\<lambda>a. ret (ti\<lparr>Buffer := Some a, Reader := Some RShortLen\<rparr>)))))
      else if t \<in> set long_len_types then
        bindG (on_buf buf_int32) (\<lambda>n.
          (let ti = ti\<lparr>Size := n\<rparr>
           in if t \<in> set [typeText, typeNText] then
                bindG readCollation (\<lambda>col.
                bindG (on_buf buf_byte) (\<lambda>numparts.
                  seqG (skip_names (unat numparts)) (ret (ti\<lparr>Collation := col, Reader := Some RLongLen\<rparr>))))
              else if t = typeImage then
                bindG (on_buf buf_byte) (\<lambda>numparts.
                  seqG (skip_names (unat numparts)) (ret (ti\<lparr>Reader := Some RLongLen\<rparr>)))
              else ret (ti\<lparr>Reader := Some RVariant\<rparr>)))
      else badStreamPanicf (''Invalid type '' @ Itoa (uint t)))"

definition readTypeInfo :: "(tdsSession, typeInfo) go" where
  "readTypeInfo =
     bindG (on_buf buf_byte) (\<lambda>t.
       if t \<in> set fixed_types
       then bindG (make_array (fixed_size t)) (\<lambda>a.
              ret (zero_typeInfo\<lparr>TypeId := t, Size := int (fixed_size t), Reader := Some RFixed, Buffer := Some a\<rparr>))
       else readVarLen (zero_typeInfo\<lparr>TypeId := t\<rparr>))"

end
