(* ===== verification/TypeReaders.thy ===== *)
theory TypeReaders
  imports Types
begin

text \<open>
  The readers of values (\<open>types.go\<close>).  A value of a fixed or a short length is read into the array
  of its column; binary values are returned as slices of that array, all others are decoded.
\<close>

section \<open>Decoding\<close>

definition decodeMoney :: "octet list \<Rightarrow> string outcome" where
  "decodeMoney b =
     (if length b < 8 then Panicked IndexOutOfRange
      else (let money = of_nat (le_value (take 4 (drop 4 b))) OR push_bit 32 (of_nat (le_value (take 4 b))) :: 64 word
            in scaleBytes (Itoa (sint money)) 4))"

definition decodeMoney4 :: "octet list \<Rightarrow> string outcome" where
  "decodeMoney4 b =
     bindO (le_at 0 4 b) (\<lambda>m. scaleBytes (Itoa (sint (of_nat m :: 32 word))) 4)"

definition decodeGuid :: "octet list \<Rightarrow> octet list" where
  "decodeGuid b = take 16 b @ replicate (16 - length b) 0"

definition decodeUcs2 :: "octet list \<Rightarrow> string outcome" where
  "decodeUcs2 b =
     (case ucs22str b of
        Inl e \<Rightarrow> badStreamO (''Invalid UCS2 encoding: '' @ error_text e)
      | Inr s \<Rightarrow> Ret s)"

definition decodeNChar :: "octet list \<Rightarrow> string outcome" where
  "decodeNChar b = decodeUcs2 b"

definition decodeXml :: "octet list \<Rightarrow> string outcome" where
  "decodeXml b = decodeUcs2 b"

definition decodeUdt :: "octet list \<Rightarrow> govalue outcome" where
  "decodeUdt b = Panicked (PanicString ''Not implemented'')"

definition decodeChar :: "dbcs_tables \<Rightarrow> collation \<Rightarrow> octet list \<Rightarrow> string" where
  "decodeChar dbcs col b = charset2utf8 dbcs col b"

text \<open>Texts, decimals and times as values.\<close>

abbreviation as_bytes :: "string outcome \<Rightarrow> govalue outcome" where
  "as_bytes r \<equiv> map_outcome (\<lambda>t. VBytes (octets t)) r"

abbreviation as_string :: "string outcome \<Rightarrow> govalue outcome" where
  "as_string r \<equiv> map_outcome VString r"

abbreviation as_time :: "gotime outcome \<Rightarrow> govalue outcome" where
  "as_time r \<equiv> map_outcome VTime r"

abbreviation shouldnt :: "'a outcome" where
  "shouldnt \<equiv> Panicked (PanicString (''shoulnd'' @ [CHR 0x27] @ ''t get here''))"

definition int_of_le :: "octet list \<Rightarrow> 64 word" where
  "int_of_le b = of_nat (le_value b)"

definition int2_of_le :: "octet list \<Rightarrow> 64 word" where
  "int2_of_le b = scast (of_nat (le_value b) :: 16 word)"

definition int4_of_le :: "octet list \<Rightarrow> 64 word" where
  "int4_of_le b = scast (of_nat (le_value b) :: 32 word)"

section \<open>Reading into the array of a column\<close>

text \<open>
  \<open>r.ReadFull(ti.Buffer[:n])\<close>: the slice expression panics where the array is shorter; the bytes
  that arrive are in the array also when the stream breaks off.
\<close>

definition read_into :: "nat option \<Rightarrow> nat \<Rightarrow> (tdsSession, octet list) go" where
  "read_into a n s =
     (let room = (case a of None \<Rightarrow> 0 | Some i \<Rightarrow> length (arrays s ! i))
      in if room < n then (Panicked IndexOutOfRange, s)
         else (case on_buf (read_n n []) s of
                 (Panicked v, t) \<Rightarrow> (Panicked v, t)
               | (Ret (bs, err), t) \<Rightarrow>
                   (let t = (case a of
                               None \<Rightarrow> t
                             | Some i \<Rightarrow> t\<lparr>arrays := (arrays t)[i := put_at 0 bs (arrays t ! i)]\<rparr>)
                    in case err of
                         None \<Rightarrow> (Ret bs, t)
                       | Some e \<Rightarrow> badStreamPanic (if e = io_EOF \<and> bs \<noteq> [] then ErrUnexpectedEOF else e) t)))"

abbreviation slice_of :: "typeInfo \<Rightarrow> nat \<Rightarrow> govalue" where
  "slice_of ti n \<equiv> (case Buffer ti of Some a \<Rightarrow> VSlice a n | None \<Rightarrow> VBytes [])"

section \<open>The readers\<close>

definition fixed_value :: "octet \<Rightarrow> octet list \<Rightarrow> govalue outcome" where
  "fixed_value t b =
     (if t = typeNull then Ret VNil
      else if t = typeInt1 then Ret (VInt (ucast (hd b)))
      else if t = typeBit then Ret (VBool (hd b \<noteq> 0))
      else if t = typeInt2 then Ret (VInt (int2_of_le b))
      else if t = typeInt4 then Ret (VInt (int4_of_le b))
      else if t = typeDateTim4 then as_time (decodeDateTim4 b)
      else if t = typeFlt4 then Ret (VFloat32 (of_nat (le_value b)))
      else if t = typeMoney4 then as_bytes (decodeMoney4 b)
      else if t = typeMoney then as_bytes (decodeMoney b)
      else if t = typeDateTime then as_time (decodeDateTime b)
      else if t = typeFlt8 then Ret (VFloat64 (of_nat (le_value b)))
      else if t = typeInt8 then Ret (VInt (int_of_le b))
      else badStreamO ''Invalid typeid'')"

definition readFixedType :: "typeInfo \<Rightarrow> (tdsSession, govalue) go" where
  "readFixedType ti =
     bindG (read_into (Buffer ti) (nat (Size ti))) (\<lambda>b. liftO (fixed_value (TypeId ti) b))"

definition byte_len_value :: "dbcs_tables \<Rightarrow> typeInfo \<Rightarrow> octet list \<Rightarrow> govalue outcome" where
  "byte_len_value dbcs ti b =
     (let t = TypeId ti; n = length b in
      if t = typeDateN then (if n \<noteq> 3 then badStreamO ''Invalid size for DATENTYPE'' else as_time (decodeDate b))
      else if t = typeTimeN then as_time (decodeTime (Scale ti) b)
      else if t = typeDateTime2N then as_time (decodeDateTime2 (Scale ti) b)
      else if t = typeDateTimeOffsetN then as_time (decodeDateTimeOffset (Scale ti) b)
      else if t = typeGuid then Ret (VBytes (decodeGuid b))
      else if t = typeIntN then
        (if n = 1 then Ret (VInt (ucast (hd b))) else if n = 2 then Ret (VInt (int2_of_le b))
         else if n = 4 then Ret (VInt (int4_of_le b)) else if n = 8 then Ret (VInt (int_of_le b))
         else badStreamO ''Invalid size for INTNTYPE'')
      else if t \<in> set decimal_types then as_bytes (decodeDecimal (Prec ti) (Scale ti) b)
      else if t = typeBitN then
        (if n \<noteq> 1 then badStreamO ''Invalid size for BITNTYPE'' else Ret (VBool (hd b \<noteq> 0)))
      else if t = typeFltN then
        (if n = 4 then Ret (VWide (of_nat (le_value b))) else if n = 8 then Ret (VFloat64 (of_nat (le_value b)))
         else badStreamO ''Invalid size for FLTNTYPE'')
      else if t = typeMoneyN then
        (if n = 4 then as_bytes (decodeMoney4 b) else if n = 8 then as_bytes (decodeMoney b)
         else badStreamO ''Invalid size for MONEYNTYPE'')
      else if t = typeDateTimeN then
        (if n = 4 then as_time (decodeDateTim4 b) else if n = 8 then as_time (decodeDateTime b)
         else badStreamO ''Invalid size for DATETIMENTYPE'')
      else if t \<in> set [typeChar, typeVarChar] then Ret (VString (decodeChar dbcs (Collation ti) b))
      else if t \<in> set [typeBinary, typeVarBinary] then Ret (slice_of ti n)
      else badStreamO ''Invalid typeid'')"

definition readByteLenType :: "dbcs_tables \<Rightarrow> typeInfo \<Rightarrow> (tdsSession, govalue) go" where
  "readByteLenType dbcs ti =
     bindG (on_buf buf_byte) (\<lambda>size.
       if size = 0 then ret VNil
       else bindG (read_into (Buffer ti) (unat size)) (\<lambda>b. liftO (byte_len_value dbcs ti b)))"

definition short_len_value :: "dbcs_tables \<Rightarrow> typeInfo \<Rightarrow> octet list \<Rightarrow> govalue outcome" where
  "short_len_value dbcs ti b =
     (let t = TypeId ti in
      if t \<in> set [typeBigVarChar, typeBigChar] then Ret (VString (decodeChar dbcs (Collation ti) b))
      else if t \<in> set [typeBigVarBin, typeBigBinary] then Ret (slice_of ti (length b))
      else if t \<in> set [typeNVarChar, typeNChar] then as_string (decodeNChar b)
      else if t = typeUdt then decodeUdt b
      else badStreamO ''Invalid typeid'')"

definition readShortLenType :: "dbcs_tables \<Rightarrow> typeInfo \<Rightarrow> (tdsSession, govalue) go" where
  "readShortLenType dbcs ti =
     bindG (on_buf buf_uint16) (\<lambda>size.
       if size = 0xffff then ret VNil
       else bindG (read_into (Buffer ti) (unat size)) (\<lambda>b. liftO (short_len_value dbcs ti b)))"

text \<open>\<open>make([]byte, n)\<close> and \<open>ReadFull\<close> of it.\<close>

definition read_new :: "int \<Rightarrow> (tdsSession, octet list) go" where
  "read_new n = (if n < 0 then go_panic MakeLenOutOfRange else on_buf (ReadFull (nat n)))"

definition readLongLenType :: "dbcs_tables \<Rightarrow> typeInfo \<Rightarrow> (tdsSession, govalue) go" where
  "readLongLenType dbcs ti =
     bindG (on_buf buf_byte) (\<lambda>textptrsize.
       if textptrsize = 0 then ret VNil
       else bindG (on_buf (ReadFull (unat textptrsize))) (\<lambda>_.
            bindG (on_buf buf_uint64) (\<lambda>_.
            bindG (on_buf buf_int32) (\<lambda>size.
              if size = -1 then ret VNil
              else bindG (read_new size) (\<lambda>b. liftO
                (if TypeId ti = typeText then Ret (VString (decodeChar dbcs (Collation ti) b))
                 else if TypeId ti = typeImage then Ret (VBytes b)
                 else if TypeId ti = typeNText then as_string (decodeNChar b)
                 else badStreamO ''Invalid typeid''))))))"

text \<open>The length of the data of a variant is a difference of 32-bit numbers.\<close>

definition variant_length :: "int \<Rightarrow> octet \<Rightarrow> int" where
  "variant_length sz propbytes = sint (of_int (sz - 2 - uint propbytes) :: 32 word)"

definition readVariantType :: "dbcs_tables \<Rightarrow> typeInfo \<Rightarrow> (tdsSession, govalue) go" where
  "readVariantType dbcs ti =
     bindG (on_buf buf_int32) (\<lambda>size.
       if size = 0 then ret VNil
       else bindG (on_buf buf_byte) (\<lambda>t. bindG (on_buf buf_byte) (\<lambda>propbytes.
         let rest = (\<lambda>f. bindG (read_new (variant_length size propbytes)) (\<lambda>b. liftO (f b))) in
         if t = typeGuid then rest (\<lambda>b. Ret (VBytes b))
         else if t = typeBit then bindG (on_buf buf_byte) (\<lambda>b. ret (VBool (b \<noteq> 0)))
         else if t = typeInt1 then bindG (on_buf buf_byte) (\<lambda>b. ret (VInt (ucast b)))
         else if t = typeInt2 then bindG (on_buf buf_uint16) (\<lambda>w. ret (VInt (scast w)))
         else if t = typeInt4 then bindG (on_buf buf_uint32) (\<lambda>w. ret (VInt (scast w)))
         else if t = typeInt8 then bindG (on_buf buf_uint64) (\<lambda>w. ret (VInt w))
         else if t = typeDateTime then rest (\<lambda>b. as_time (decodeDateTime b))
         else if t = typeDateTim4 then rest (\<lambda>b. as_time (decodeDateTim4 b))
         else if t = typeFlt4 then bindG (on_buf buf_uint32) (\<lambda>w. ret (VWide w))
         else if t = typeFlt8 then bindG (on_buf buf_uint64) (\<lambda>w. ret (VFloat64 w))
         else if t = typeMoney4 then rest (\<lambda>b. as_bytes (decodeMoney4 b))
         else if t = typeMoney then rest (\<lambda>b. as_bytes (decodeMoney b))
         else if t = typeDateN then rest (\<lambda>b. as_time (decodeDate b))
         else if t = typeTimeN then bindG (on_buf buf_byte) (\<lambda>sc. rest (\<lambda>b. as_time (decodeTime sc b)))
         else if t = typeDateTime2N then bindG (on_buf buf_byte) (\<lambda>sc. rest (\<lambda>b. as_time (decodeDateTime2 sc b)))
         else if t = typeDateTimeOffsetN then
           bindG (on_buf buf_byte) (\<lambda>sc. rest (\<lambda>b. as_time (decodeDateTimeOffset sc b)))
         else if t \<in> set [typeBigVarBin, typeBigBinary] then
           bindG (on_buf buf_uint16) (\<lambda>_. rest (\<lambda>b. Ret (VBytes b)))
         else if t \<in> set [typeDecimalN, typeNumericN] then
           bindG (on_buf buf_byte) (\<lambda>p. bindG (on_buf buf_byte) (\<lambda>sc. rest (\<lambda>b. as_bytes (decodeDecimal p sc b))))
         else if t \<in> set [typeBigVarChar, typeBigChar] then
           bindG readCollation (\<lambda>col. bindG (on_buf buf_uint16) (\<lambda>_. rest (\<lambda>b. Ret (VString (decodeChar dbcs col b)))))
         else if t \<in> set [typeNVarChar, typeNChar] then
           bindG readCollation (\<lambda>_. bindG (on_buf buf_uint16) (\<lambda>_. rest (\<lambda>b. as_string (decodeNChar b))))
         else badStreamPanicf ''Invalid variant typeid'')))"

text \<open>
  The chunks of a partially length prefixed value, until an empty one.  Each takes four bytes of
  its length at least, so that what is unread is fuel enough.
\<close>

fun read_chunks :: "nat \<Rightarrow> octet list \<Rightarrow> (tdsSession, octet list) go" where
  "read_chunks 0 acc = go_panic OutOfFuel"
| "read_chunks (Suc fuel) acc =
     bindG (on_buf buf_uint32) (\<lambda>chunksize.
       if chunksize = 0 then ret acc
       else bindG (on_buf (read_n (unat chunksize) [])) (\<lambda>(bs, err).
              case err of
                Some e \<Rightarrow> badStreamPanicf (''Reading PLP type failed: '' @ error_text e)
              | None \<Rightarrow> read_chunks fuel (acc @ bs)))"

text \<open>A length that is no \<open>int\<close> makes \<open>make\<close> panic; for others there is taken to be memory.\<close>

definition readPLPType :: "dbcs_tables \<Rightarrow> typeInfo \<Rightarrow> (tdsSession, govalue) go" where
  "readPLPType dbcs ti =
     bindG (on_buf buf_uint64) (\<lambda>size.
       if size = 0xffffffffffffffff then ret VNil
       else if size \<noteq> 0xfffffffffffffffe \<and> 2 ^ 63 \<le> unat size then go_panic MakeLenOutOfRange
       else bindG (readG (\<lambda>s. read_chunks (unread (sess_buf s) + 1) [])) (\<lambda>b. liftO
         (let t = TypeId ti in
          if t = typeXml then as_string (decodeXml b)
          else if t \<in> set [typeBigVarChar, typeBigChar, typeText] then Ret (VString (decodeChar dbcs (Collation ti) b))
          else if t \<in> set [typeBigVarBin, typeBigBinary, typeImage] then Ret (VBytes b)
          else if t \<in> set [typeNVarChar, typeNChar, typeNText] then as_string (decodeNChar b)
          else if t = typeUdt then decodeUdt b
          else shouldnt)))"

text \<open>\<open>ti.Reader(ti, r)\<close>; a nil function panics.\<close>

definition run_reader :: "dbcs_tables \<Rightarrow> typeInfo \<Rightarrow> (tdsSession, govalue) go" where
  "run_reader dbcs ti =
     (case Reader ti of
        None \<Rightarrow> go_panic NilPointerDereference
      | Some RFixed \<Rightarrow> readFixedType ti
      | Some RByteLen \<Rightarrow> readByteLenType dbcs ti
      | Some RShortLen \<Rightarrow> readShortLenType dbcs ti
      | Some RLongLen \<Rightarrow> readLongLenType dbcs ti
      | Some RVariant \<Rightarrow> readVariantType dbcs ti
      | Some RPLP \<Rightarrow> readPLPType dbcs ti)"

text \<open>The bytes of a value that is a slice are those that the array has when they are looked at.\<close>

fun value_now :: "octet list list \<Rightarrow> govalue \<Rightarrow> govalue" where
  "value_now arrs (VSlice a n) = VBytes (take n (arrs ! a))"
| "value_now arrs v = v"

end
