(* ===== verification/Tokens.thy ===== *)
theory Tokens
  imports TypeReaders ConnParams
begin

text \<open>
  The token stream of a response (\<open>token.go\<close>, \<open>error.go\<close>): each token is parsed from the packet
  buffer and sent to the channel of the caller, until the response ends or the stream is bad.
\<close>

section \<open>Tables and numbers\<close>

text \<open>The tables of the double-byte code pages and of package unicode.\<close>

record tables =
  dbcs_of :: dbcs_tables
  uni_of :: unicode

text \<open>\<open>strconv.Atoi\<close>, which is \<open>ParseInt(s, 10, 0)\<close>.\<close>

definition strconv_Atoi :: "unicode \<Rightarrow> string \<Rightarrow> go_error + int" where
  "strconv_Atoi u s =
     (let neg = (take 1 s = ''-'');
          digits = (if neg \<or> take 1 s = ''+'' then drop 1 s else s);
          err = (\<lambda>t. Inl (NumError u ''ParseInt'' s t))
      in if digits = [] then err ''invalid syntax''
         else (case scan_uint 10 (2 ^ 64 - 1) 0 digits of
                 Inl t \<Rightarrow> err t
               | Inr n \<Rightarrow>
                   if (if neg then 2 ^ 63 < n else 2 ^ 63 \<le> n) then err ''value out of range''
                   else Inr (if neg then - int n else int n)))"

text \<open>The verb \<open>%x\<close> for an unsigned number.\<close>

fun hex_text :: "nat \<Rightarrow> string" where
  "hex_text n = (if n < 16 then [hex_digit n] else hex_text (n div 16) @ [hex_digit (n mod 16)])"

declare hex_text.simps [simp del]

definition log_if :: "nat \<Rightarrow> bool \<Rightarrow> string \<Rightarrow> (tdsSession, unit) go" where
  "log_if flag cond t =
     modifyG (\<lambda>s. if logFlags s AND of_nat flag \<noteq> 0 \<and> cond then s\<lparr>logged := logged s @ [t]\<rparr> else s)"

section \<open>Reading at most so many bytes\<close>

text \<open>\<open>io.LimitedReader\<close> over the packet buffer: the state has the number of bytes that are left.\<close>

type_synonym limited = "tdsSession \<times> nat"

definition lim_Read :: "nat \<Rightarrow> (limited, go_error + octet list) go" where
  "lim_Read n = (\<lambda>(s, left).
     if left = 0 then (Ret (Inl io_EOF), (s, left))
     else (case on_buf (buf_Read (min n left)) s of
             (Ret (Inr bs), t) \<Rightarrow> (Ret (Inr bs), (t, left - length bs))
           | (r, t) \<Rightarrow> (r, (t, left))))"

lemma lim_Read_less:
  assumes "lim_Read n (s, l) = (Ret (Inr bs), (t, l'))" and "0 < n"
  shows "n - length bs + length (incoming (transport (sess_buf t))) < n + length (incoming (transport (sess_buf s)))"
proof -
  from assms obtain u where u: "buf_Read (min n l) (sess_buf s) = (Ret (Inr bs), u)" "t = s\<lparr>sess_buf := u\<rparr>" "0 < l"
    by (auto simp: lim_Read_def on_buf_def split: if_splits prod.splits outcome.splits sum.splits)
  with buf_Read_less [OF u(1)] assms(2) show ?thesis by simp
qed

function lim_read_n :: "nat \<Rightarrow> octet list \<Rightarrow> (limited, octet list \<times> go_error option) go" where
  "lim_read_n n acc x =
     (if n = 0 then (Ret (acc, None), x)
      else (case lim_Read n x of
              (Panicked v, y) \<Rightarrow> (Panicked v, y)
            | (Ret (Inl e), y) \<Rightarrow> (Ret (acc, Some e), y)
            | (Ret (Inr bs), y) \<Rightarrow> lim_read_n (n - length bs) (acc @ bs) y))"
  by pat_completeness auto
termination
  by (relation "measure (\<lambda>(n, acc, x). n + length (incoming (transport (sess_buf (fst x)))))")
     (auto dest!: sym [of _ "lim_Read _ _"] lim_Read_less)

declare lim_read_n.simps [simp del]

text \<open>\<open>io.ReadFull\<close>: what was read, and the error if it is not all.\<close>

definition lim_ReadFull :: "nat \<Rightarrow> (limited, octet list \<times> go_error option) go" where
  "lim_ReadFull n =
     bindG (lim_read_n n []) (\<lambda>(bs, err).
       ret (bs, case err of
                  None \<Rightarrow> None
                | Some e \<Rightarrow> Some (if e = io_EOF \<and> bs \<noteq> [] then ErrUnexpectedEOF else e)))"

text \<open>\<open>readBVarChar\<close> and \<open>readBVarByte\<close> (\<open>tds.go\<close>); a slice that is not filled ends with zeros.\<close>

definition readBVarChar :: "(limited, string \<times> go_error option) go" where
  "readBVarChar =
     bindG (lim_ReadFull 1) (\<lambda>(l, err).
       if err \<noteq> None then ret ([], err)
       else bindG (lim_ReadFull (unat (hd l) * 2)) (\<lambda>(bs, err).
              if err \<noteq> None then ret ([], err)
              else ret (case ucs22str bs of Inl e \<Rightarrow> ([], Some e) | Inr s \<Rightarrow> (s, None))))"

definition readBVarByte :: "(limited, octet list \<times> go_error option) go" where
  "readBVarByte =
     bindG (lim_ReadFull 1) (\<lambda>(l, err).
       if err \<noteq> None then ret ([], err)
       else bindG (lim_ReadFull (unat (hd l))) (\<lambda>(bs, err).
              ret (bs @ replicate (unat (hd l) - length bs) 0, err)))"

text \<open>A result, or \<open>badStreamPanic\<close> with its error.\<close>

definition need :: "('s, 'a \<times> go_error option) go \<Rightarrow> ('a \<Rightarrow> ('s, 'b) go) \<Rightarrow> ('s, 'b) go" where
  "need m f = bindG m (\<lambda>(x, err). case err of Some e \<Rightarrow> badStreamPanic e | None \<Rightarrow> f x)"

section \<open>Changes of the environment\<close>

definition on_sess :: "(tdsSession, 'a) go \<Rightarrow> (limited, 'a) go" where
  "on_sess m = (\<lambda>(s, left). case m s of (r, t) \<Rightarrow> (r, (t, left)))"

text \<open>The packet buffer gets the size the server says; what fits of its bytes is kept.  For a size
  that is not negative there is taken to be memory.\<close>

definition set_packet_size :: "int \<Rightarrow> (tdsSession, unit) go" where
  "set_packet_size n =
     readG (\<lambda>s.
       (let b = buf (sess_buf s)
        in if int (length b) = n then ret ()
           else if n < 0 then go_panic MakeLenOutOfRange
           else modifyG (\<lambda>s. s\<lparr>sess_buf := (sess_buf s)\<lparr>buf := take (nat n) b @ replicate (nat n - length b) 0\<rparr>\<rparr>)))"

definition env_change :: "tables \<Rightarrow> octet \<Rightarrow> (limited, unit) go" where
  "env_change T envtype =
     (if envtype = 1 then
        bindG readBVarChar (\<lambda>(db, err).
          seqG (on_sess (modifyG (\<lambda>s. s\<lparr>database := db\<rparr>)))
            (case err of Some e \<Rightarrow> badStreamPanic e | None \<Rightarrow> need readBVarChar (\<lambda>_. ret ())))
      else if envtype = 4 then
        need readBVarChar (\<lambda>packetsize. need readBVarChar (\<lambda>_.
          case strconv_Atoi (uni_of T) packetsize of
            Inl e \<Rightarrow> badStreamPanicf (''Invalid Packet size value returned from server ('' @ packetsize @ ''): '' @ error_text e)
          | Inr n \<Rightarrow> on_sess (set_packet_size n)))
      else if envtype = 8 then
        bindG readBVarByte (\<lambda>(id, err).
          if length id \<noteq> 8
          then badStreamPanicf (''invalid size of transaction identifier: '' @ Itoa (int (length id)))
          else seqG (on_sess (modifyG (\<lambda>s. s\<lparr>tranid := of_nat (le_value id)\<rparr>)))
            (case err of
               Some e \<Rightarrow> badStreamPanic e
             | None \<Rightarrow>
                 seqG (on_sess (readG (\<lambda>s. log_if 32 True (''BEGIN TRANSACTION '' @ hex_text (unat (tranid s)) @ [CHR 0x0A]))))
                 (need readBVarByte (\<lambda>_. ret ()))))
      else if envtype \<in> set [9, 10] then
        need readBVarByte (\<lambda>_. need readBVarByte (\<lambda>_.
          seqG (on_sess (readG (\<lambda>s. log_if 32 True
              ((if envtype = 9 then ''COMMIT'' else ''ROLLBACK'') @ '' TRANSACTION '' @ hex_text (unat (tranid s)) @ [CHR 0x0A]))))
          (on_sess (modifyG (\<lambda>s. s\<lparr>tranid := 0\<rparr>)))))
      else if envtype = 13 then need readBVarChar (\<lambda>_. need readBVarChar (\<lambda>_. ret ()))
      else need readBVarByte (\<lambda>_. need readBVarByte (\<lambda>_. ret ())))"

text \<open>The changes of one token; each takes a byte at least of those that are left.\<close>

fun env_loop :: "tables \<Rightarrow> nat \<Rightarrow> (limited, unit) go" where
  "env_loop T 0 = go_panic OutOfFuel"
| "env_loop T (Suc fuel) =
     bindG (lim_ReadFull 1) (\<lambda>(envtype, err).
       case err of
         Some e \<Rightarrow> if e = io_EOF then ret () else badStreamPanic e
       | None \<Rightarrow> seqG (env_change T (hd envtype)) (env_loop T fuel))"

definition processEnvChg :: "tables \<Rightarrow> (tdsSession, unit) go" where
  "processEnvChg T =
     bindG (on_buf buf_uint16) (\<lambda>n.
       (\<lambda>s. case env_loop T (unat n + 1) (s, unat n) of (r, (t, left)) \<Rightarrow> (r, t)))"

section \<open>Tokens without state\<close>

definition parseReturnStatus :: "(tdsBuffer, int) go" where
  "parseReturnStatus = buf_int32"

fun read_uint16s :: "nat \<Rightarrow> (tdsBuffer, 16 word list) go" where
  "read_uint16s 0 = ret []"
| "read_uint16s (Suc n) = bindG buf_uint16 (\<lambda>x. bindG (read_uint16s n) (\<lambda>xs. ret (x # xs)))"

definition parseOrder :: "(tdsBuffer, 16 word list) go" where
  "parseOrder = bindG buf_uint16 (\<lambda>len. read_uint16s (unat len div 2))"

record doneStruct =
  Status :: "16 word"
  CurCmd :: "16 word"
  RowCount :: "64 word"

definition parseDone :: "(tdsBuffer, doneStruct) go" where
  "parseDone =
     bindG buf_uint16 (\<lambda>st. bindG buf_uint16 (\<lambda>cmd. bindG buf_uint64 (\<lambda>n.
       ret \<lparr>Status = st, CurCmd = cmd, RowCount = n\<rparr>)))"

definition parseDoneInProc :: "(tdsBuffer, doneStruct) go" where
  "parseDoneInProc =
     bindG buf_uint16 (\<lambda>st. bindG buf_uint16 (\<lambda>cmd. bindG buf_uint64 (\<lambda>n.
       ret \<lparr>Status = st, CurCmd = cmd, RowCount = n\<rparr>)))"

definition parseSSPIMsg :: "(tdsBuffer, octet list) go" where
  "parseSSPIMsg = bindG buf_uint16 (\<lambda>n. ReadFull (unat n))"

text \<open>The end of the name is computed in a byte.\<close>

definition ack_of_bytes :: "octet list \<Rightarrow> loginAckStruct outcome" where
  "ack_of_bytes b =
     (if length b < 6 then Panicked IndexOutOfRange
      else (let stop = unat (6 + b ! 5 * 2)
            in if stop < 6 \<or> length b < stop then Panicked IndexOutOfRange
               else (case ucs22str (drop 6 (take stop b)) of
                       Inl e \<Rightarrow> Panicked (PanicError (Some e))
                     | Inr name \<Rightarrow>
                         Ret \<lparr>Interface = b ! 0, ackTDSVersion = of_nat (be_value (take 4 (drop 1 b))),
                              ProgName = name, ProgVer = of_nat (be_value (drop (length b - 4) b))\<rparr>)))"

definition parseLoginAck :: "(tdsBuffer, loginAckStruct) go" where
  "parseLoginAck = bindG buf_uint16 (\<lambda>n. bindG (ReadFull (unat n)) (\<lambda>b s. (ack_of_bytes b, s)))"

section \<open>Rows\<close>

record columnStruct =
  UserType :: "32 word"
  Flags :: "16 word"
  ColName :: string
  ti :: typeInfo

definition parseColumn :: "(tdsSession, columnStruct) go" where
  "parseColumn =
     bindG (on_buf buf_uint32) (\<lambda>ut. bindG (on_buf buf_uint16) (\<lambda>fl.
       bindG readTypeInfo (\<lambda>t. bindG (on_buf BVarChar) (\<lambda>name.
         ret \<lparr>UserType = ut, Flags = fl, ColName = name, ti = t\<rparr>))))"

fun parseColumns :: "nat \<Rightarrow> (tdsSession, columnStruct list) go" where
  "parseColumns 0 = ret []"
| "parseColumns (Suc n) = bindG parseColumn (\<lambda>c. bindG (parseColumns n) (\<lambda>cs. ret (c # cs)))"

definition parseColMetadata72 :: "(tdsSession, columnStruct list) go" where
  "parseColMetadata72 =
     bindG (on_buf buf_uint16) (\<lambda>count. if count = 0xffff then ret [] else parseColumns (unat count))"

fun parseRow :: "dbcs_tables \<Rightarrow> columnStruct list \<Rightarrow> (tdsSession, govalue list) go" where
  "parseRow dbcs [] = ret []"
| "parseRow dbcs (c # cs) =
     bindG (run_reader dbcs (ti c)) (\<lambda>v. bindG (parseRow dbcs cs) (\<lambda>vs. ret (v # vs)))"

text \<open>The columns from the \<open>i\<close>-th on; the bits of \<open>pres\<close> mark those that are null.\<close>

fun nbc_values ::
  "dbcs_tables \<Rightarrow> octet list \<Rightarrow> nat \<Rightarrow> columnStruct list \<Rightarrow> (tdsSession, govalue list) go" where
  "nbc_values dbcs pres i [] = ret []"
| "nbc_values dbcs pres i (c # cs) =
     bindG (if pres ! (i div 8) AND push_bit (i mod 8) 1 \<noteq> 0 then ret VNil else run_reader dbcs (ti c)) (\<lambda>v.
     bindG (nbc_values dbcs pres (i + 1) cs) (\<lambda>vs. ret (v # vs)))"

definition parseNbcRow :: "dbcs_tables \<Rightarrow> columnStruct list \<Rightarrow> (tdsSession, govalue list) go" where
  "parseNbcRow dbcs cols =
     bindG (on_buf (ReadFull ((length cols + 7) div 8))) (\<lambda>pres. nbc_values dbcs pres 0 cols)"

section \<open>Errors of the server\<close>

record server_error =
  Number :: int
  State :: octet
  Class :: octet
  Message :: string
  ErrServerName :: string
  ProcName :: string
  LineNo :: int

definition zero_Error :: server_error where
  "zero_Error = \<lparr>Number = 0, State = 0, Class = 0, Message = [], ErrServerName = [], ProcName = [], LineNo = 0\<rparr>"

text \<open>The method \<open>Error\<close>.\<close>

definition Error_text :: "server_error \<Rightarrow> string" where
  "Error_text e = ''mssql: '' @ Message e"

definition parseError72 :: "(tdsBuffer, server_error) go" where
  "parseError72 =
     bindG buf_uint16 (\<lambda>_. bindG buf_int32 (\<lambda>n. bindG buf_byte (\<lambda>st. bindG buf_byte (\<lambda>cl.
     bindG UsVarChar (\<lambda>msg. bindG BVarChar (\<lambda>server. bindG BVarChar (\<lambda>proc. bindG buf_int32 (\<lambda>line.
       ret \<lparr>Number = n, State = st, Class = cl, Message = msg, ErrServerName = server, ProcName = proc,
            LineNo = line\<rparr>))))))))"

definition parseInfo :: "(tdsBuffer, server_error) go" where
  "parseInfo =
     bindG buf_uint16 (\<lambda>_. bindG buf_int32 (\<lambda>n. bindG buf_byte (\<lambda>st. bindG buf_byte (\<lambda>cl.
     bindG UsVarChar (\<lambda>msg. bindG BVarChar (\<lambda>server. bindG BVarChar (\<lambda>proc. bindG buf_int32 (\<lambda>line.
       ret \<lparr>Number = n, State = st, Class = cl, Message = msg, ErrServerName = server, ProcName = proc,
            LineNo = line\<rparr>))))))))"

end
