(* ===== verification/Response.thy ===== *)
theory Response
  imports Tokens
begin

text \<open>
  A response (\<open>processResponse\<close> of \<open>token.go\<close>): the tokens that are sent to the channel until it
  is closed.  The goroutine waits where the channel is full, so what it sends does not depend on
  who reads from it; here the list of all that it sends.
\<close>

section \<open>Tokens\<close>

text \<open>
  An \<open>error\<close> among the tokens is an \<open>Error\<close> of the server, an error of the stream or of the
  transport, or a run-time error that was recovered.  A panic with a text is sent as that text,
  which is no \<open>error\<close>.
\<close>

datatype token =
    TokSSPI "octet list"
  | TokReturnStatus int
  | TokLoginAck loginAckStruct
  | TokOrder "16 word list"
  | TokDoneInProc doneStruct
  | TokDone doneStruct
  | TokColumns "columnStruct list"
  | TokRow "govalue list"
  | TokError server_error
  | TokFail go_error
  | TokRuntime panic_value
  | TokText string

fun is_error :: "token \<Rightarrow> bool" where
  "is_error (TokError e) = True"
| "is_error (TokFail e) = True"
| "is_error (TokRuntime v) = True"
| "is_error _ = False"

text \<open>What the deferred function sends after a panic; \<open>recover\<close> gives nil for \<open>panic(nil)\<close>.\<close>

fun recovered :: "panic_value \<Rightarrow> token list" where
  "recovered (PanicError (Some e)) = [TokFail e]"
| "recovered (PanicError None) = []"
| "recovered (PanicString t) = [TokText t]"
| "recovered v = [TokRuntime v]"

section \<open>The loop\<close>

record response =
  columns :: "columnStruct list"
  lastError :: server_error
  failed :: bool

definition start_response :: response where
  "start_response = \<lparr>columns = [], lastError = zero_Error, failed = False\<rparr>"

text \<open>A token is sent, and the loop goes on or returns.\<close>

type_synonym step_result = "token list \<times> response option"

definition doneMore :: "16 word" where "doneMore = 1"
definition doneError :: "16 word" where "doneError = 2"
definition doneCount :: "16 word" where "doneCount = 0x10"
definition doneSrvError :: "16 word" where "doneSrvError = 0x100"

lemmas done_flags = doneMore_def doneError_def doneCount_def doneSrvError_def

definition log_done :: "doneStruct \<Rightarrow> (tdsSession, unit) go" where
  "log_done d =
     log_if 4 (Status d AND doneCount \<noteq> 0)
       (''('' @ Itoa (uint (RowCount d)) @ '' row(s) affected)'' @ [CHR 0x0A])"

definition done_result :: "response \<Rightarrow> doneStruct \<Rightarrow> step_result" where
  "done_result st d =
     (if Status d AND doneError \<noteq> 0 \<or> failed st then ([TokError (lastError st)], None)
      else if Status d AND doneSrvError \<noteq> 0
      then ([TokError (lastError st\<lparr>Message := ''Server Error''\<rparr>)], None)
      else ([TokDone d], if Status d AND doneMore = 0 then None else Some st))"

definition token_step :: "tables \<Rightarrow> response \<Rightarrow> (tdsSession, step_result) go" where
  "token_step T st =
     bindG (on_buf buf_byte) (\<lambda>tok.
       if tok = 237 then bindG (on_buf parseSSPIMsg) (\<lambda>m. ret ([TokSSPI m], None))
       else if tok = 121 then bindG (on_buf parseReturnStatus) (\<lambda>n. ret ([TokReturnStatus n], Some st))
       else if tok = 173 then bindG (on_buf parseLoginAck) (\<lambda>a. ret ([TokLoginAck a], Some st))
       else if tok = 169 then bindG (on_buf parseOrder) (\<lambda>ids. ret ([TokOrder ids], Some st))
       else if tok = 255 then
         bindG (on_buf parseDoneInProc) (\<lambda>d. seqG (log_done d) (ret ([TokDoneInProc d], Some st)))
       else if tok = 253 \<or> tok = 254 then
         bindG (on_buf parseDone) (\<lambda>d. seqG (log_done d) (ret (done_result st d)))
       else if tok = 129 then
         bindG parseColMetadata72 (\<lambda>cs. ret ([TokColumns cs], Some (st\<lparr>columns := cs\<rparr>)))
       else if tok = 209 then
         bindG (parseRow (dbcs_of T) (columns st)) (\<lambda>r. ret ([TokRow r], Some st))
       else if tok = 210 then
         bindG (parseNbcRow (dbcs_of T) (columns st)) (\<lambda>r. ret ([TokRow r], Some st))
       else if tok = 227 then seqG (processEnvChg T) (ret ([], Some st))
       else if tok = 170 then
         bindG (on_buf parseError72) (\<lambda>e.
           seqG (log_if 1 True (Message e @ [CHR 0x0A])) (ret ([], Some (st\<lparr>lastError := e, failed := True\<rparr>))))
       else if tok = 171 then
         bindG (on_buf parseInfo) (\<lambda>e. seqG (log_if 2 True (Message e @ [CHR 0x0A])) (ret ([], Some st)))
       else badStreamPanicf (''Unknown token type: '' @ Itoa (uint tok)))"

fun response_loop :: "tables \<Rightarrow> nat \<Rightarrow> response \<Rightarrow> tdsSession \<Rightarrow> token list \<times> tdsSession" where
  "response_loop T 0 st s = ([TokRuntime OutOfFuel], s)"
| "response_loop T (Suc fuel) st s =
     (case token_step T st s of
        (Panicked v, t) \<Rightarrow> (recovered v, t)
      | (Ret (toks, None), t) \<Rightarrow> (toks, t)
      | (Ret (toks, Some st'), t) \<Rightarrow> (case response_loop T fuel st' t of (rest, u) \<Rightarrow> (toks @ rest, u)))"

text \<open>
  Each token takes a byte at least, of the transport or of the buffer.  The position in the
  buffer is a 16-bit number: after a packet without data it runs once around.
\<close>

definition response_fuel :: "tdsBuffer \<Rightarrow> nat" where
  "response_fuel b = 65536 * length (incoming (transport b)) + 65537"

definition processResponse :: "tables \<Rightarrow> tdsSession \<Rightarrow> token list \<times> tdsSession" where
  "processResponse T s =
     (case on_buf BeginRead s of
        (Panicked v, t) \<Rightarrow> (recovered v, t)
      | (Ret (Inl e), t) \<Rightarrow> ([TokFail e], t)
      | (Ret (Inr ptype), t) \<Rightarrow>
          if ptype \<noteq> 4
          then ([TokFail (bad_stream (''invalid response packet type, expected REPLY, actual: '' @ Itoa (uint ptype)))], t)
          else response_loop T (response_fuel (sess_buf t)) start_response t)"

section \<open>What a response is like\<close>

lemma done_result_errors:
  "done_result st d = (toks, Some st') \<Longrightarrow> \<not> (\<exists>k\<in>set toks. is_error k)"
  by (auto simp: done_result_def split: if_splits)

lemma token_step_errors:
  assumes "token_step T st s = (Ret (toks, Some st'), t)"
  shows "\<not> (\<exists>k\<in>set toks. is_error k)"
proof -
  from assms obtain b u where "on_buf buf_byte s = (Ret b, u)"
    by (auto simp: token_step_def elim: bindG_RetD)
  with assms show ?thesis
    by (auto simp: token_step_def bindG_apply seqG_apply badStreamPanicf_def badStreamPanic_def
        dest: done_result_errors split: if_splits prod.splits outcome.splits)
qed

lemma recovered_one: "recovered v = xs @ k # ys \<Longrightarrow> xs = [] \<and> ys = []"
  by (cases v rule: recovered.cases) (auto simp: Cons_eq_append_conv)

lemma token_step_one:
  assumes "token_step T st s = (Ret (toks, None), t)"
  shows "length toks = 1"
proof -
  from assms obtain b u where "on_buf buf_byte s = (Ret b, u)"
    by (auto simp: token_step_def elim: bindG_RetD)
  with assms show ?thesis
    by (auto simp: token_step_def bindG_apply seqG_apply badStreamPanicf_def badStreamPanic_def done_result_def
        split: if_splits prod.splits outcome.splits)
qed

text \<open>An error is the last token.\<close>

lemma response_loop_error_last:
  "response_loop T fuel st s = (xs @ k # ys, t) \<Longrightarrow> is_error k \<Longrightarrow> ys = []"
proof (induction fuel arbitrary: st s xs)
  case (Suc fuel)
  show ?case
  proof (cases "token_step T st s")
    case (Pair r u)
    show ?thesis
    proof (cases r)
      case (Panicked v)
      with Pair Suc.prems show ?thesis by (auto dest: recovered_one)
    next
      case (Ret p)
      obtain toks cont where p: "p = (toks, cont)" by fastforce
      show ?thesis
      proof (cases cont)
        case None
        with Pair Ret p have "length toks = 1" using token_step_one by blast
        with Pair Ret p None Suc.prems show ?thesis by (auto simp: length_Suc_conv Cons_eq_append_conv)
      next
        case (Some st')
        with Pair Ret p have ok: "\<not> (\<exists>k\<in>set toks. is_error k)" using token_step_errors by blast
        obtain rest w where rest: "response_loop T fuel st' u = (rest, w)" by fastforce
        with rest Pair Ret p Some Suc.prems have "toks @ rest = xs @ k # ys" "w = t" by auto
        then obtain xs' where "rest = xs' @ k # ys"
          using ok Suc.prems(2) by (auto simp: append_eq_append_conv2 append_eq_Cons_conv)
        with Suc.IH [of st' u  xs'] rest \<open>w = t\<close> Suc.prems(2) show ?thesis by simp
      qed
    qed
  qed
qed (auto simp: Cons_eq_append_conv)

lemma processResponse_error_last:
  assumes "processResponse T s = (xs @ k # ys, t)" and "is_error k"
  shows "ys = []"
proof -
  obtain r u where "on_buf BeginRead s = (r, u)" by fastforce
  with assms show ?thesis
    by (auto simp: processResponse_def Cons_eq_append_conv dest: recovered_one response_loop_error_last
        split: outcome.splits sum.splits if_splits)
qed

end
