(* ===== verification/TypeWriters.thy ===== *)
theory TypeWriters
  imports Types
begin

text \<open>
  The writers of type informations and values (\<open>types.go\<close>), the parameters of a statement and
  their declarations (\<open>mssql.go\<close>, \<open>types.go\<close>), and the call of a procedure (\<open>rpc.go\<close>).
\<close>

section \<open>Type informations\<close>

text \<open>A write that is given up at an error, and the type information so far.\<close>

definition put_or ::
  "octet list \<Rightarrow> 'a \<Rightarrow> (tdsBuffer, go_error option \<times> 'a) go \<Rightarrow> (tdsBuffer, go_error option \<times> 'a) go" where
  "put_or bs a k = bindG (put bs) (\<lambda>err. if err \<noteq> None then ret (err, a) else k)"

definition writeCollation :: "collation \<Rightarrow> (tdsBuffer, go_error option) go" where
  "writeCollation col = put_all [le_bytes 4 (unat (lcidAndFlags col)), [sortId col]]"

definition writeVarLen :: "typeInfo \<Rightarrow> (tdsBuffer, go_error option \<times> typeInfo) go" where
  "writeVarLen ti =
     (let t = TypeId ti in
      if t = typeDateN then ret (None, ti)
      else if t \<in> set time_types then
        put_or [Scale ti] ti (ret (None, ti\<lparr>Writer := Some WByteLen\<rparr>))
      else if t \<in> set byte_len_types then
        (if 0xff < Size ti then go_panic (PanicString ''Invalid size for BYLELEN_TYPE'')
         else put_or [of_int (Size ti)] ti
           (let rest = ret (None, ti\<lparr>Writer := Some WByteLen\<rparr>)
            in if t \<in> set decimal_types then put_or [Prec ti] ti (put_or [Scale ti] ti rest) else rest))
      else if t \<in> set (typeXml # short_len_types) then
        (let max = (8000 < Size ti \<or> Size ti = 0);
             ti' = ti\<lparr>Writer := Some (if max then WPLP else WShortLen)\<rparr>
         in put_or (if max then le_bytes 2 0xffff else le_bytes 2 (nat (Size ti mod 65536))) ti
           (if t \<in> set short_char_types then bindG (writeCollation (Collation ti)) (\<lambda>err. ret (err, ti'))
            else if t = typeXml then put_or [0] ti' (ret (None, ti'))
            else ret (None, ti')))
      else if t \<in> set long_len_types then go_panic (PanicString ''LONGLEN_TYPE not implemented'')
      else go_panic (PanicString ''Invalid type''))"

definition writeTypeInfo :: "typeInfo \<Rightarrow> (tdsBuffer, go_error option \<times> typeInfo) go" where
  "writeTypeInfo ti =
     put_or [TypeId ti] ti (if TypeId ti \<in> set fixed_types then ret (None, ti) else writeVarLen ti)"

section \<open>Values\<close>

text \<open>The bytes of a value are a slice, which may be nil.\<close>

definition slice_bytes :: "octet list option \<Rightarrow> octet list" where
  "slice_bytes b = (case b of None \<Rightarrow> [] | Some bs \<Rightarrow> bs)"

definition writeByteLenType :: "typeInfo \<Rightarrow> octet list option \<Rightarrow> (tdsBuffer, go_error option) go" where
  "writeByteLenType ti b =
     (if 0xff < Size ti then go_panic (PanicString ''Invalid size for BYTELEN_TYPE'')
      else put_all [[of_int (Size ti)], slice_bytes b])"

definition writeShortLenType :: "typeInfo \<Rightarrow> octet list option \<Rightarrow> (tdsBuffer, go_error option) go" where
  "writeShortLenType ti b =
     (case b of
        None \<Rightarrow> put_all [le_bytes 2 0xffff]
      | Some bs \<Rightarrow>
          if 0xfffe < Size ti then go_panic (PanicString ''Invalid size for USHORTLEN_TYPE'')
          else put_all [le_bytes 2 (nat (Size ti mod 65536)), bs])"

text \<open>The length of a chunk has 32 bits.\<close>

function plp_chunks :: "octet list \<Rightarrow> octet list list" where
  "plp_chunks bs =
     (let chunksize = length bs mod 2 ^ 32
      in le_bytes 4 chunksize #
           (if chunksize = 0 then [] else take chunksize bs # plp_chunks (drop chunksize bs)))"
  by pat_completeness auto
termination
  by (relation "measure length") (auto simp: Let_def intro: diff_less gr0I)

declare plp_chunks.simps [simp del]

definition writePLPType :: "typeInfo \<Rightarrow> octet list option \<Rightarrow> (tdsBuffer, go_error option) go" where
  "writePLPType ti b = put_all (le_bytes 8 (length (slice_bytes b)) # plp_chunks (slice_bytes b))"

definition run_writer :: "typeInfo \<Rightarrow> octet list option \<Rightarrow> (tdsBuffer, go_error option) go" where
  "run_writer ti b =
     (case Writer ti of
        None \<Rightarrow> go_panic NilPointerDereference
      | Some WByteLen \<Rightarrow> writeByteLenType ti b
      | Some WShortLen \<Rightarrow> writeShortLenType ti b
      | Some WPLP \<Rightarrow> writePLPType ti b)"

section \<open>Parameters\<close>

text \<open>The values that \<open>database/sql\<close> passes to a driver; any other has the name of its type.\<close>

datatype driver_value =
    DNil
  | DInt "64 word"
  | DFloat "64 word"
  | DBytes "octet list"
  | DString string
  | DBool bool
  | DTime gotime
  | DOther string

record Param =
  pName :: string
  pFlags :: octet
  p_ti :: typeInfo
  p_buffer :: "octet list option"

definition zero_Param :: Param where
  "zero_Param = \<lparr>pName = [], pFlags = 0, p_ti = zero_typeInfo, p_buffer = None\<rparr>"

definition verTDS73 :: "32 word" where
  "verTDS73 = 0x730A0003"

definition offset_time_bytes :: "gotime \<Rightarrow> octet list" where
  "offset_time_bytes t =
     (case dateTime2 t of (days, ns) \<Rightarrow>
        (let ns = go_div ns 100; offset = go_div (t_zone t) 60
         in le_bytes 5 (nat (ns mod 2 ^ 64)) @ le_bytes 3 (unat days) @ le_bytes 2 (nat (offset mod 2 ^ 64))))"

definition old_time_bytes :: "gotime \<Rightarrow> octet list" where
  "old_time_bytes t =
     (let dur = time_Sub t (time_Date year_1900 0 0 0 0);
          day = 24 * 3600 * 1000000000;
          days = go_div dur day;
          tm = go_div (300 * go_mod dur day) 1000000000
      in le_bytes 4 (nat (days mod 2 ^ 32)) @ le_bytes 4 (nat (tm mod 2 ^ 32)))"

definition makeParam :: "32 word \<Rightarrow> driver_value \<Rightarrow> go_error + Param" where
  "makeParam tdsVersion v =
     (let param = (\<lambda>t n b. Inr (zero_Param\<lparr>p_ti := zero_typeInfo\<lparr>TypeId := t, Size := n\<rparr>, p_buffer := b\<rparr>))
      in case v of
           DNil \<Rightarrow> param typeNVarChar 2 None
         | DInt i \<Rightarrow> param typeIntN 8 (Some (le_bytes 8 (unat i)))
         | DFloat f \<Rightarrow> param typeFltN 8 (Some (le_bytes 8 (unat f)))
         | DBytes b \<Rightarrow> param typeBigVarBin (int (length b)) (Some b)
         | DString s \<Rightarrow> param typeNVarChar (int (length (str2ucs2 s))) (Some (str2ucs2 s))
         | DBool b \<Rightarrow> param typeBitN 1 (Some [if b then 1 else 0])
         | DTime t \<Rightarrow>
             if verTDS73 \<le> tdsVersion
             then Inr (zero_Param\<lparr>p_ti := zero_typeInfo\<lparr>TypeId := typeDateTimeOffsetN, Scale := 7, Size := 10\<rparr>,
                    p_buffer := Some (offset_time_bytes t)\<rparr>)
             else param typeDateTimeN 8 (Some (old_time_bytes t))
         | DOther ty \<Rightarrow> Inl (OtherError (''mssql: unknown type for '' @ ty)))"

definition makeDecl :: "typeInfo \<Rightarrow> string outcome" where
  "makeDecl ti =
     (let t = TypeId ti; sz = Size ti in
      if t = typeInt8 then Ret ''bigint''
      else if t = typeFlt4 then Ret ''real''
      else if t = typeIntN then
        (if sz = 1 then Ret ''tinyint'' else if sz = 2 then Ret ''smallint'' else if sz = 4 then Ret ''int''
         else if sz = 8 then Ret ''bigint'' else Panicked (PanicString ''invalid size of INTNTYPE''))
      else if t = typeFlt8 then Ret ''float''
      else if t = typeFltN then
        (if sz = 4 then Ret ''real'' else if sz = 8 then Ret ''float''
         else Panicked (PanicString ''invalid size of FLNNTYPE''))
      else if t = typeBigVarBin then
        (if 8000 < sz \<or> sz = 0 then Ret ''varbinary(max)'' else Ret (''varbinary('' @ Itoa sz @ '')''))
      else if t = typeNVarChar then
        (if 8000 < sz \<or> sz = 0 then Ret ''nvarchar(max)'' else Ret (''nvarchar('' @ Itoa (go_div sz 2) @ '')''))
      else if t \<in> set [typeBit, typeBitN] then Ret ''bit''
      else if t = typeDateTimeN then Ret ''datetime''
      else if t = typeDateTimeOffsetN then Ret (''datetimeoffset('' @ Itoa (uint (Scale ti)) @ '')'')
      else Panicked (PanicString (''not implemented makeDecl for type '' @ Itoa (uint t))))"

section \<open>Calls of procedures\<close>

record ProcId =
  proc_id :: nat
  proc_name :: string

definition Sp_ExecuteSql :: ProcId where
  "Sp_ExecuteSql = \<lparr>proc_id = 10, proc_name = []\<rparr>"

definition MakeProcId :: "string \<Rightarrow> ProcId outcome" where
  "MakeProcId name =
     (if name = [] then Panicked (PanicString (''Proc name shouln'' @ [CHR 0x27] @ ''t be empty''))
      else if 0xffff \<le> length name
      then Panicked (PanicString ''Invalid length of procedure name, should be less than 0xffff'')
      else Ret \<lparr>proc_id = 0, proc_name = name\<rparr>)"

text \<open>The writes of \<open>sendRpc\<close>, each given up at an error.\<close>

definition andthen ::
  "(tdsBuffer, go_error option) go \<Rightarrow> (tdsBuffer, go_error option) go \<Rightarrow> (tdsBuffer, go_error option) go" where
  "andthen m k = bindG m (\<lambda>err. if err \<noteq> None then ret err else k)"

definition sendParam :: "Param \<Rightarrow> (tdsBuffer, go_error option) go" where
  "sendParam p =
     andthen (writeBVarChar (pName p))
     (andthen (put [pFlags p])
     (bindG (writeTypeInfo (p_ti p)) (\<lambda>(err, ti). if err \<noteq> None then ret err else run_writer ti (p_buffer p))))"

fun sendParams :: "Param list \<Rightarrow> (tdsBuffer, go_error option) go" where
  "sendParams [] = ret None"
| "sendParams (p # ps) = andthen (sendParam p) (sendParams ps)"

definition sendRpc ::
  "headerStruct list \<Rightarrow> ProcId \<Rightarrow> nat \<Rightarrow> Param list \<Rightarrow> (tdsBuffer, go_error option) go" where
  "sendRpc headers proc flags params =
     seqG (BeginPacket 3)
     (bindG (writeAllHeaders headers) (\<lambda>_.
       andthen (if proc_name proc = [] then put_all [le_bytes 2 0xffff, le_bytes 2 (proc_id proc)]
                else writeUsVarChar (proc_name proc))
       (andthen (put (le_bytes 2 flags))
       (andthen (sendParams params) FinishPacket))))"

end
