(* ===== verification/Statements.thy ===== *)
theory Statements
  imports Response TypeWriters SqlParams
begin

text \<open>
  Statements, transactions and rows (\<open>mssql.go\<close>) and the transaction manager requests
  (\<open>tran.go\<close>).  A request is written, and the tokens of its response are looked at one after
  another.
\<close>

section \<open>Transaction manager requests\<close>

definition sendBeginXact :: "headerStruct list \<Rightarrow> octet \<Rightarrow> string \<Rightarrow> (tdsBuffer, go_error option) go" where
  "sendBeginXact headers isolation name =
     seqG (BeginPacket 14)
     (bindG (writeAllHeaders headers) (\<lambda>_.
       andthen (put (le_bytes 2 5)) (andthen (put [isolation]) (andthen (writeBVarChar name) FinishPacket))))"

definition sendCommitXact ::
  "headerStruct list \<Rightarrow> string \<Rightarrow> octet \<Rightarrow> octet \<Rightarrow> string \<Rightarrow> (tdsBuffer, go_error option) go" where
  "sendCommitXact headers name flags isolation newname =
     seqG (BeginPacket 14)
     (bindG (writeAllHeaders headers) (\<lambda>_.
       andthen (put (le_bytes 2 7)) (andthen (writeBVarChar name) (andthen (put [flags])
         (andthen (if flags AND 1 \<noteq> 0 then andthen (put [isolation]) (writeBVarChar name) else ret None)
           FinishPacket)))))"

definition sendRollbackXact ::
  "headerStruct list \<Rightarrow> string \<Rightarrow> octet \<Rightarrow> octet \<Rightarrow> string \<Rightarrow> (tdsBuffer, go_error option) go" where
  "sendRollbackXact headers name flags isolation newname =
     seqG (BeginPacket 14)
     (bindG (writeAllHeaders headers) (\<lambda>_.
       andthen (put (le_bytes 2 8)) (andthen (writeBVarChar name) (andthen (put [flags])
         (andthen (if flags AND 1 \<noteq> 0 then andthen (put [isolation]) (writeBVarChar name) else ret None)
           FinishPacket)))))"

section \<open>Errors\<close>

text \<open>
  An \<open>error\<close> that a caller of the driver gets.  What package net and the run-time library say of
  errors is a parameter: which are a \<open>net.Error\<close>, with \<open>Timeout()\<close> and \<open>Temporary()\<close>, and
  the texts of run-time errors and of values printed with the verb \<open>%v\<close>.
\<close>

datatype driver_error =
    GoErr go_error
  | ServerErr server_error
  | RuntimeErr panic_value

record library =
  tabs :: tables
  netError :: "go_error \<Rightarrow> (bool \<times> bool) option"
  runtimeText :: "panic_value \<Rightarrow> string"
  valueText :: "driver_value \<Rightarrow> string"

fun token_error :: "token \<Rightarrow> driver_error option" where
  "token_error (TokError e) = Some (ServerErr e)"
| "token_error (TokFail e) = Some (GoErr e)"
| "token_error (TokRuntime v) = Some (RuntimeErr v)"
| "token_error _ = None"

fun driver_error_text :: "library \<Rightarrow> driver_error \<Rightarrow> string" where
  "driver_error_text L (GoErr e) = error_text e"
| "driver_error_text L (ServerErr e) = Error_text e"
| "driver_error_text L (RuntimeErr v) = runtimeText L v"

definition ErrBadConn :: go_error where
  "ErrBadConn = OtherError ''driver: bad connection''"

fun CheckBadConn :: "library \<Rightarrow> driver_error \<Rightarrow> driver_error" where
  "CheckBadConn L (GoErr e) =
     (if e = io_EOF then GoErr ErrBadConn
      else (case netError L e of
              None \<Rightarrow> GoErr e
            | Some (timeout, temporary) \<Rightarrow> if \<not> timeout \<and> temporary then GoErr e else GoErr ErrBadConn))"
| "CheckBadConn L e = e"

text \<open>Within a transaction an error is passed on as it is.\<close>

definition checked :: "library \<Rightarrow> tdsSession \<Rightarrow> driver_error \<Rightarrow> driver_error" where
  "checked L s e = (if tranid s \<noteq> 0 then e else CheckBadConn L e)"

text \<open>The first error among the tokens of a response.\<close>

fun first_error :: "token list \<Rightarrow> driver_error option" where
  "first_error [] = None"
| "first_error (k # ks) = (case token_error k of Some e \<Rightarrow> Some e | None \<Rightarrow> first_error ks)"

definition responseG :: "library \<Rightarrow> (tdsSession, token list) go" where
  "responseG L s = (case processResponse (tabs L) s of (toks, t) \<Rightarrow> (Ret toks, t))"

section \<open>Transactions\<close>

definition tran_headers :: "64 word \<Rightarrow> headerStruct list" where
  "tran_headers tran = [\<lparr>hdrtype = 2, hdrdata = transDescrHdr_pack tran 1\<rparr>]"

definition Commit :: "library \<Rightarrow> (tdsSession, driver_error option) go" where
  "Commit L =
     bindG (readG (\<lambda>s. on_buf (sendCommitXact (tran_headers (tranid s)) [] 0 0 []))) (\<lambda>err.
       case err of
         Some e \<Rightarrow> ret (Some (GoErr e))
       | None \<Rightarrow> bindG (responseG L) (\<lambda>toks. ret (first_error toks)))"

definition Rollback :: "library \<Rightarrow> (tdsSession, driver_error option) go" where
  "Rollback L =
     bindG (readG (\<lambda>s. on_buf (sendRollbackXact (tran_headers (tranid s)) [] 0 0 []))) (\<lambda>err.
       case err of
         Some e \<Rightarrow> ret (Some (GoErr e))
       | None \<Rightarrow> bindG (responseG L) (\<lambda>toks. ret (first_error toks)))"

definition Begin :: "library \<Rightarrow> (tdsSession, driver_error option) go" where
  "Begin L =
     bindG (on_buf (sendBeginXact (tran_headers 0) 0 [])) (\<lambda>err.
       case err of
         Some e \<Rightarrow> ret (Some (CheckBadConn L (GoErr e)))
       | None \<Rightarrow> bindG (responseG L) (\<lambda>toks. readG (\<lambda>s. ret (map_option (checked L s) (first_error toks)))))"

section \<open>Statements\<close>

record MssqlStmt =
  stmt_query :: string
  stmt_paramCount :: int

definition Prepare :: "string \<Rightarrow> MssqlStmt" where
  "Prepare q = (case parseParams q of (text, n) \<Rightarrow> \<lparr>stmt_query = text, stmt_paramCount = n\<rparr>)"

fun strings_Join :: "string \<Rightarrow> string list \<Rightarrow> string" where
  "strings_Join sep [] = []"
| "strings_Join sep [a] = a"
| "strings_Join sep (a # b # as) = a @ sep @ strings_Join sep (b # as)"

definition param_name :: "nat \<Rightarrow> string" where
  "param_name i = ''@p'' @ Itoa (int i + 1)"

text \<open>The parameters with their declarations, from the \<open>i\<close>-th argument on.\<close>

fun query_params ::
  "32 word \<Rightarrow> nat \<Rightarrow> driver_value list \<Rightarrow> (go_error + (Param \<times> string) list) outcome" where
  "query_params ver i [] = Ret (Inr [])"
| "query_params ver i (v # vs) =
     (case makeParam ver v of
        Inl e \<Rightarrow> Ret (Inl e)
      | Inr p \<Rightarrow>
          (case makeDecl (p_ti p) of
             Panicked x \<Rightarrow> Panicked x
           | Ret d \<Rightarrow>
               map_outcome (map_sum id (Cons (p\<lparr>pName := param_name i\<rparr>, param_name i @ '' '' @ d)))
                 (query_params ver (i + 1) vs)))"

definition sql_params ::
  "32 word \<Rightarrow> string \<Rightarrow> driver_value list \<Rightarrow> (go_error + Param list) outcome" where
  "sql_params ver q args =
     (case makeParam ver (DString q) of
        Inl e \<Rightarrow> Ret (Inl e)
      | Inr p0 \<Rightarrow>
          map_outcome (\<lambda>r. case r of
              Inl e \<Rightarrow> Inl e
            | Inr pds \<Rightarrow>
                (case makeParam ver (DString (strings_Join '','' (map snd pds))) of
                   Inl e \<Rightarrow> Inl e
                 | Inr p1 \<Rightarrow> Inr (p0 # p1 # map fst pds)))
            (query_params ver 0 args))"

definition log_params :: "library \<Rightarrow> driver_value list \<Rightarrow> (tdsSession, unit) go" where
  "log_params L args =
     modifyG (\<lambda>s. if logFlags s AND 16 \<noteq> 0
                  then s\<lparr>logged := logged s @
                         map (\<lambda>(i, v). CHR 0x09 # param_name i @ CHR 0x09 # valueText L v @ [CHR 0x0A])
                           (enumerate 0 args)\<rparr>
                  else s)"

definition sendQuery ::
  "library \<Rightarrow> MssqlStmt \<Rightarrow> driver_value list \<Rightarrow> (tdsSession, driver_error option) go" where
  "sendQuery L st args = readG (\<lambda>s0.
     (let headers = tran_headers (tranid s0);
          sent = (\<lambda>err. readG (\<lambda>s. ret (map_option (\<lambda>e. checked L s (GoErr e)) err)))
      in if int (length args) \<noteq> stmt_paramCount st
         then ret (Some (GoErr (OtherError (''sql: expected '' @ Itoa (stmt_paramCount st) @ '' parameters, got '' @
                Itoa (int (length args))))))
         else seqG (log_if 8 True (stmt_query st @ [CHR 0x0A]))
              (seqG (log_params L args)
              (if args = []
               then bindG (on_buf (sendSqlBatch72 (stmt_query st) headers)) sent
               else bindG (liftO (sql_params (ackTDSVersion (loginAck s0)) (stmt_query st) args)) (\<lambda>r.
                      case r of
                        Inl e \<Rightarrow> ret (Some (GoErr e))
                      | Inr ps \<Rightarrow> bindG (on_buf (sendRpc headers Sp_ExecuteSql 0 ps)) sent)))))"

text \<open>The loop of \<open>Exec\<close> over the tokens: the number of rows of the last count.\<close>

fun exec_tokens :: "token list \<Rightarrow> 64 word \<Rightarrow> driver_error + 64 word" where
  "exec_tokens [] rowCount = Inr rowCount"
| "exec_tokens (k # ks) rowCount =
     (case token_error k of
        Some e \<Rightarrow> Inl e
      | None \<Rightarrow> exec_tokens ks
          (case k of
             TokDoneInProc d \<Rightarrow> if Status d AND doneCount \<noteq> 0 then RowCount d else rowCount
           | TokDone d \<Rightarrow> if Status d AND doneCount \<noteq> 0 then RowCount d else rowCount
           | _ \<Rightarrow> rowCount))"

text \<open>The result has the number of rows affected as an \<open>int64\<close>.\<close>

definition Exec ::
  "library \<Rightarrow> MssqlStmt \<Rightarrow> driver_value list \<Rightarrow> (tdsSession, driver_error + int) go" where
  "Exec L st args =
     bindG (sendQuery L st args) (\<lambda>err.
       case err of
         Some e \<Rightarrow> ret (Inl e)
       | None \<Rightarrow> bindG (responseG L) (\<lambda>toks.
           case exec_tokens toks 0 of
             Inr n \<Rightarrow> ret (Inr (sint n))
           | Inl e \<Rightarrow> seqG (log_if 1 True (''got error: '' @ driver_error_text L e @ [CHR 0x0A]))
                        (readG (\<lambda>s. ret (Inl (checked L s e))))))"

section \<open>Rows\<close>

text \<open>
  The tokens that are still to come; the channel is nil after \<open>Close\<close>.  The session is the one
  after the whole response, which \<open>Close\<close> waits for.
\<close>

record MssqlRows =
  cols :: "string list"
  tokchan :: "token list option"

fun query_tokens :: "token list \<Rightarrow> driver_error + MssqlRows" where
  "query_tokens [] = Inr \<lparr>cols = [], tokchan = Some []\<rparr>"
| "query_tokens (k # ks) =
     (case k of
        TokDone d \<Rightarrow> Inr \<lparr>cols = [], tokchan = Some ks\<rparr>
      | TokColumns cs \<Rightarrow> Inr \<lparr>cols = map ColName cs, tokchan = Some ks\<rparr>
      | _ \<Rightarrow> (case token_error k of Some e \<Rightarrow> Inl e | None \<Rightarrow> query_tokens ks))"

definition Query ::
  "library \<Rightarrow> MssqlStmt \<Rightarrow> driver_value list \<Rightarrow> (tdsSession, driver_error + MssqlRows) go" where
  "Query L st args =
     bindG (sendQuery L st args) (\<lambda>err.
       case err of
         Some e \<Rightarrow> ret (Inl e)
       | None \<Rightarrow> bindG (responseG L) (\<lambda>toks. readG (\<lambda>s.
           ret (case query_tokens toks of Inl e \<Rightarrow> Inl (checked L s e) | Inr rows \<Rightarrow> Inr rows))))"

text \<open>Reading from a nil channel blocks for ever: None.\<close>

definition rows_Close :: "MssqlRows \<Rightarrow> MssqlRows option" where
  "rows_Close rc = map_option (\<lambda>_. rc\<lparr>tokchan := None\<rparr>) (tokchan rc)"

text \<open>\<open>Next\<close> into a slice of \<open>n\<close> values.\<close>

fun next_tokens :: "nat \<Rightarrow> token list \<Rightarrow> (driver_error + govalue list) outcome \<times> token list" where
  "next_tokens n [] = (Ret (Inl (GoErr io_EOF)), [])"
| "next_tokens n (k # ks) =
     (case k of
        TokColumns cs \<Rightarrow> (Ret (Inl (GoErr (bad_stream ''Unexpected token COLMETADATA''))), ks)
      | TokRow row \<Rightarrow> (if length row < n then Panicked IndexOutOfRange else Ret (Inr (take n row)), ks)
      | _ \<Rightarrow> (case token_error k of Some e \<Rightarrow> (Ret (Inl e), ks) | None \<Rightarrow> next_tokens n ks))"

definition rows_Next :: "nat \<Rightarrow> MssqlRows \<Rightarrow> ((driver_error + govalue list) outcome \<times> MssqlRows) option" where
  "rows_Next n rc =
     map_option (\<lambda>toks. case next_tokens n toks of (r, ks) \<Rightarrow> (r, rc\<lparr>tokchan := Some ks\<rparr>)) (tokchan rc)"

section \<open>Results\<close>

text \<open>The identity that was generated last, and the error.\<close>

definition LastInsertId :: "library \<Rightarrow> (tdsSession, 64 word \<times> driver_error option) go" where
  "LastInsertId L =
     bindG (Query L (Prepare ''select cast(@@identity as bigint)'') []) (\<lambda>r.
       case r of
         Inl e \<Rightarrow> ret (0, Some e)
       | Inr rows \<Rightarrow>
           liftO (case fst (next_tokens 1 (case tokchan rows of Some ks \<Rightarrow> ks | None \<Rightarrow> [])) of
                    Panicked v \<Rightarrow> Panicked v
                  | Ret (Inl e) \<Rightarrow> Ret (0, Some e)
                  | Ret (Inr dest) \<Rightarrow>
                      (case hd dest of
                         VNil \<Rightarrow> Ret (-1, Some (GoErr (OtherError ''There is no generated identity value'')))
                       | VInt i \<Rightarrow> Ret (i, None)
                       | _ \<Rightarrow> Panicked BadTypeAssertion)))"

end
