(* ===== verification/Wire.thy ===== *)
theory Wire
  imports Statements Requests
begin

text \<open>
  Calculus of what is on the wire: \<open>emits m bs v\<close> says that code which writes to the packet buffer
  writes \<open>bs\<close> and returns \<open>v\<close>, and \<open>parses s bs m v s'\<close> that code which reads from it takes
  exactly \<open>bs\<close>, returns \<open>v\<close> and leaves the rest of the session as in \<open>s'\<close>.
\<close>

section \<open>Writing\<close>

definition emits :: "(tdsBuffer, 'a) go \<Rightarrow> octet list \<Rightarrow> 'a \<Rightarrow> bool" where
  "emits m bs v \<longleftrightarrow> (\<forall>n pt before data b. writing n pt before data b \<longrightarrow>
     (\<exists>b'. m b = (Ret v, b') \<and> writing n pt before (data @ bs) b'))"

lemma emits_ret: "emits (ret v) [] v"
  by (simp add: emits_def)

lemma emits_bindG:
  assumes "emits m bs v" and "emits (f v) cs u"
  shows "emits (bindG m f) (bs @ cs) u"
  unfolding emits_def
proof (intro allI impI)
  fix n pt before data b
  assume "writing n pt before data b"
  then obtain b' where b': "m b = (Ret v, b')" "writing n pt before (data @ bs) b'"
    using assms(1) unfolding emits_def by blast
  with assms(2) obtain b'' where "f v b' = (Ret u, b'')" "writing n pt before ((data @ bs) @ cs) b''"
    unfolding emits_def by blast
  with b' show "\<exists>b'. bindG m f b = (Ret u, b') \<and> writing n pt before (data @ bs @ cs) b'"
    by (auto simp: bindG_apply)
qed

lemma emits_put: "emits (put p) p None"
  by (auto simp: emits_def intro: put_writing)

lemma emits_put_all: "emits (put_all ps) (concat ps) None"
  by (auto simp: emits_def intro: put_all_writing)

lemma emits_put_or: "emits k bs v \<Longrightarrow> emits (put_or p a k) (p @ bs) v"
  unfolding put_or_def by (rule emits_bindG [OF emits_put]) simp

lemma emits_andthen: "emits m bs None \<Longrightarrow> emits k cs v \<Longrightarrow> emits (andthen m k) (bs @ cs) v"
  unfolding andthen_def by (erule emits_bindG) simp

section \<open>Reading\<close>

definition takes :: "octet list \<Rightarrow> (tdsBuffer, 'a) go \<Rightarrow> 'a \<Rightarrow> bool" where
  "takes bs m v \<longleftrightarrow> (\<forall>b data rest. reading (bs @ data) rest b \<longrightarrow>
     (\<exists>b'. m b = (Ret v, b') \<and> reading data rest b'))"

definition parses :: "tdsSession \<Rightarrow> octet list \<Rightarrow> (tdsSession, 'a) go \<Rightarrow> 'a \<Rightarrow> tdsSession \<Rightarrow> bool" where
  "parses s bs m v s' \<longleftrightarrow> (\<forall>b data rest. reading (bs @ data) rest b \<longrightarrow>
     (\<exists>b'. m (s\<lparr>sess_buf := b\<rparr>) = (Ret v, s'\<lparr>sess_buf := b'\<rparr>) \<and> reading data rest b'))"

lemma takes_ret: "takes [] (ret v) v"
  by (simp add: takes_def)

lemma takes_bindG: "takes bs m v \<Longrightarrow> takes cs (f v) u \<Longrightarrow> takes (bs @ cs) (bindG m f) u"
  unfolding takes_def by (fastforce simp: bindG_apply)

lemma takes_ReadFull: "takes bs (ReadFull (length bs)) bs"
  unfolding takes_def
proof (intro allI impI)
  fix b data rest
  assume "reading (bs @ data) rest b"
  from io_ReadFull_reading [OF this, of "length bs"]
  show "\<exists>b'. ReadFull (length bs) b = (Ret bs, b') \<and> reading data rest b'"
    by (auto simp: ReadFull_def bindG_apply)
qed

lemma takes_io_ReadFull: "takes bs (read_n (length bs) []) (bs, None)"
  unfolding takes_def
proof (intro allI impI)
  fix b data rest
  assume "reading (bs @ data) rest b"
  from read_n_reading [OF this, of "length bs" "[]"]
  show "\<exists>b'. read_n (length bs) [] b = (Ret (bs, None), b') \<and> reading data rest b'" by auto
qed

lemma takes_ReadFull_n: "length bs = n \<Longrightarrow> takes bs (ReadFull n) bs"
  using takes_ReadFull by blast

lemma takes_number:
  assumes "length bs = n"
  shows "takes bs (bindG (ReadFull n) (\<lambda>b. ret (f b))) (f bs)"
  using takes_bindG [OF takes_ReadFull_n [OF assms], of "[]" "\<lambda>b. ret (f b)" "f bs"]
  by (simp add: takes_ret)

lemma takes_uint16: "k < 65536 \<Longrightarrow> takes (le_bytes 2 k) buf_uint16 (of_nat k)"
  using takes_number [of "le_bytes 2 k" 2 "\<lambda>b. of_nat (le_value b)"]
  unfolding buf_uint16_def by (simp only: length_le_bytes le_value_bytes) simp

lemma takes_uint32: "k < 2 ^ 32 \<Longrightarrow> takes (le_bytes 4 k) buf_uint32 (of_nat k)"
  using takes_number [of "le_bytes 4 k" 4 "\<lambda>b. of_nat (le_value b)"]
  unfolding buf_uint32_def by (simp only: length_le_bytes le_value_bytes) simp

lemma takes_uint64: "k < 2 ^ 64 \<Longrightarrow> takes (le_bytes 8 k) buf_uint64 (of_nat k)"
  using takes_number [of "le_bytes 8 k" 8 "\<lambda>b. of_nat (le_value b)"]
  unfolding buf_uint64_def by (simp only: length_le_bytes le_value_bytes) simp

lemma takes_byte: "takes [x] buf_byte x"
  unfolding takes_def
proof (intro allI impI)
  fix b data rest
  assume reading: "reading ([x] @ data) rest b"
  then obtain u where u: "more_data b = (Ret None, u)" "reading ([x] @ data) rest u" "pos u < bsize u"
    using more_data_reading [of "[x] @ data" rest b] by auto
  from buf_Read_reading [OF u(2), of 1] obtain bs u' where
    r: "buf_Read 1 u = (Ret (Inr bs), u')" "bs \<noteq> []" "length bs \<le> 1" "bs = take (length bs) ([x] @ data)"
      "reading (drop (length bs) ([x] @ data)) rest u'" by auto
  have len: "pos u < length (buf u)" "bsize u \<le> length (buf u)" "bsize u < 65536"
    using u(2,3) by (auto simp: reading_def)
  have one: "min 1 (bsize u - pos u) = 1" "take (Suc 0) (drop (pos u) (buf u)) = [buf u ! pos u]"
    using u(3) len by (simp_all add: take_Suc_conv_app_nth take_Suc hd_drop_conv_nth)
  have "buf_Read 1 u = (Ret (Inr [buf u ! pos u]), u\<lparr>pos := wrap16 (pos u + 1)\<rparr>)"
    using u(3) len one by (simp add: buf_Read_def bindG_apply seqG_apply more_data_def Let_def)
  with r(1) have "u' = u\<lparr>pos := wrap16 (pos u + 1)\<rparr>" "bs = [buf u ! pos u]" by simp_all
  with r(4,5) have "buf u ! pos u = x" "reading data rest (u\<lparr>pos := wrap16 (pos u + 1)\<rparr>)" by auto
  with u(1) len show "\<exists>b'. buf_byte b = (Ret x, b') \<and> reading data rest b'"
    by (auto simp: buf_byte_def ReadByte_def bindG_apply seqG_apply)
qed


text \<open>The fields beside the buffer do not matter to it.\<close>

lemma buf_apart:
  fixes s :: tdsSession
  shows "s\<lparr>sess_buf := b, arrays := x\<rparr> = s\<lparr>arrays := x, sess_buf := b\<rparr>"
    and "s\<lparr>sess_buf := b, tranid := i\<rparr> = s\<lparr>tranid := i, sess_buf := b\<rparr>"
    and "s\<lparr>sess_buf := b, database := d\<rparr> = s\<lparr>database := d, sess_buf := b\<rparr>"
    and "s\<lparr>sess_buf := b, logged := l\<rparr> = s\<lparr>logged := l, sess_buf := b\<rparr>"
  by simp_all

lemma parsesI:
  "(\<And>b data rest. reading (bs @ data) rest b \<Longrightarrow>
     \<exists>b'. m (s\<lparr>sess_buf := b\<rparr>) = (Ret v, s'\<lparr>sess_buf := b'\<rparr>) \<and> reading data rest b') \<Longrightarrow> parses s bs m v s'"
  by (simp add: parses_def)

lemma parsesD:
  "parses s bs m v s' \<Longrightarrow> reading (bs @ data) rest b \<Longrightarrow>
   \<exists>b'. m (s\<lparr>sess_buf := b\<rparr>) = (Ret v, s'\<lparr>sess_buf := b'\<rparr>) \<and> reading data rest b'"
  by (simp add: parses_def)

lemma parses_ret: "parses s [] (ret v) v s"
  by (auto simp: parses_def)

lemma parses_bindG:
  assumes "parses s bs m v t" and "parses t cs (f v) u t'"
  shows "parses s (bs @ cs) (bindG m f) u t'"
proof (rule parsesI)
  fix b data rest
  assume "reading ((bs @ cs) @ data) rest b"
  then have "reading (bs @ cs @ data) rest b" by simp
  from parsesD [OF assms(1) this] obtain b' where
    "m (s\<lparr>sess_buf := b\<rparr>) = (Ret v, t\<lparr>sess_buf := b'\<rparr>)" "reading (cs @ data) rest b'" by blast
  with parsesD [OF assms(2) this(2)]
  show "\<exists>b'. bindG m f (s\<lparr>sess_buf := b\<rparr>) = (Ret u, t'\<lparr>sess_buf := b'\<rparr>) \<and> reading data rest b'"
    by (auto simp: bindG_apply)
qed

lemma parses_bindG_eq:
  "parses s bs m v t \<Longrightarrow> parses t cs (f v) u t' \<Longrightarrow> bs @ cs = ds \<Longrightarrow> parses s ds (bindG m f) u t'"
  by (drule (1) parses_bindG) simp

lemma parses_seqG: "parses s bs m v t \<Longrightarrow> parses t cs k u t' \<Longrightarrow> parses s (bs @ cs) (seqG m k) u t'"
  unfolding seqG_def by (rule parses_bindG)

lemma parses_on_buf: "takes bs m v \<Longrightarrow> parses s bs (on_buf m) v s"
  unfolding takes_def parses_def by (fastforce simp: on_buf_def)

lemma parses_make_array:
  "parses s [] (make_array n) (length (arrays s)) (s\<lparr>arrays := arrays s @ [replicate n 0]\<rparr>)"
  by (auto simp: parses_def make_array_def buf_apart)

lemma parses_liftO: "parses s [] (liftO (Ret v)) v s"
  by (auto simp: parses_def liftO_def)

lemma parses_readG: "(\<And>b. parses s bs (f (s\<lparr>sess_buf := b\<rparr>)) v s') \<Longrightarrow> parses s bs (readG f) v s'"
  by (simp add: parses_def)

lemma parses_modifyG:
  "(\<And>b. f (s\<lparr>sess_buf := b\<rparr>) = (f s)\<lparr>sess_buf := b\<rparr>) \<Longrightarrow> parses s [] (modifyG f) () (f s)"
  by (auto simp: parses_def)

lemma parses_read_into:
  assumes "length bs \<le> length (arrays s ! a)" and "length bs = n"
  shows "parses s bs (read_into (Some a) n) bs (s\<lparr>arrays := (arrays s)[a := put_at 0 bs (arrays s ! a)]\<rparr>)"
proof (rule parsesI)
  fix b data rest
  assume "reading (bs @ data) rest b"
  with takes_io_ReadFull [of bs] obtain b' where
    "read_n (length bs) [] b = (Ret (bs, None), b')" "reading data rest b'" unfolding takes_def by blast
  with assms show "\<exists>b'. read_into (Some a) n (s\<lparr>sess_buf := b\<rparr>) =
      (Ret bs, s\<lparr>arrays := (arrays s)[a := put_at 0 bs (arrays s ! a)]\<rparr>\<lparr>sess_buf := b'\<rparr>) \<and> reading data rest b'"
    by (auto simp: read_into_def on_buf_def buf_apart)
qed

section \<open>Texts\<close>

lemma takes_bindG_eq:
  "takes bs m v \<Longrightarrow> takes cs (f v) u \<Longrightarrow> bs @ cs = ds \<Longrightarrow> takes ds (bindG m f) u"
  by (drule (1) takes_bindG) simp

lemma takes_readUcs2:
  assumes "ucs22str b = Inr t" and "length b = 2 * n"
  shows "takes b (buf_readUcs2 n) t"
  unfolding buf_readUcs2_def
  by (rule takes_bindG_eq [OF takes_ReadFull_n [of b]]) (use assms takes_ret in simp_all)


section \<open>Values of a byte length\<close>

lemma uint_octet: "n < 256 \<Longrightarrow> uint (of_nat n :: octet) = int n"
  by (simp add: uint_nat unat_of_nat)

lemma unat_octet_small: "n < 256 \<Longrightarrow> unat (of_nat n :: octet) = n"
  by (simp add: unat_of_nat)

definition byte_len_type :: "octet \<Rightarrow> bool" where
  "byte_len_type t \<longleftrightarrow> t \<in> set byte_len_types \<and> t \<notin> set decimal_types"

lemma byte_len_type_others:
  "byte_len_type t \<Longrightarrow> t \<notin> set fixed_types \<and> t \<noteq> typeDateN \<and> t \<notin> set time_types \<and> t \<in> set byte_len_types \<and>
     t \<notin> set decimal_types"
  by (auto simp: byte_len_type_def type_lists)

lemma emits_byte_len:
  assumes "byte_len_type (TypeId d)" and "Size d = int n" and "n < 256"
  shows "emits (writeTypeInfo d) [TypeId d, of_nat n] (None, d\<lparr>Writer := Some WByteLen\<rparr>)"
    and "emits (run_writer (d\<lparr>Writer := Some WByteLen\<rparr>) (Some bs)) (of_nat n # bs) None"
proof -
  note t = byte_len_type_others [OF assms(1)]
  have "emits (put_or [TypeId d] d (put_or [of_nat n] d (ret (None, d\<lparr>Writer := Some WByteLen\<rparr>))))
      ([TypeId d] @ [of_nat n] @ []) (None, d\<lparr>Writer := Some WByteLen\<rparr>)"
    by (intro emits_put_or emits_ret)
  then show "emits (writeTypeInfo d) [TypeId d, of_nat n] (None, d\<lparr>Writer := Some WByteLen\<rparr>)"
    using t assms(2,3) by (simp add: writeTypeInfo_def writeVarLen_def Let_def)
  have "emits (put_all [[of_nat n], bs]) (concat [[of_nat n], bs]) None" by (rule emits_put_all)
  then show "emits (run_writer (d\<lparr>Writer := Some WByteLen\<rparr>) (Some bs)) (of_nat n # bs) None"
    using assms(2,3) by (simp add: run_writer_def writeByteLenType_def slice_bytes_def del: put_all.simps)
qed

definition byte_len_info :: "octet \<Rightarrow> octet \<Rightarrow> nat \<Rightarrow> typeInfo" where
  "byte_len_info t n a = zero_typeInfo\<lparr>TypeId := t, Size := uint n, Buffer := Some a, Reader := Some RByteLen\<rparr>"

text \<open>A new array for the values of a column.\<close>

definition new_array :: "nat \<Rightarrow> tdsSession \<Rightarrow> tdsSession" where
  "new_array n s = s\<lparr>arrays := arrays s @ [replicate n 0]\<rparr>"

lemma parses_new_array: "parses s [] (make_array n) (length (arrays s)) (new_array n s)"
  unfolding new_array_def by (rule parses_make_array)

lemma parses_type_id:
  assumes "t \<notin> set fixed_types" and "parses s bs (readVarLen (zero_typeInfo\<lparr>TypeId := t\<rparr>)) d s'"
  shows "parses s (t # bs) readTypeInfo d s'"
proof -
  have "parses s ([t] @ bs) readTypeInfo d s'"
    unfolding readTypeInfo_def
    by (rule parses_bindG [OF parses_on_buf [OF takes_byte]]) (use assms in simp)
  then show ?thesis by simp
qed

lemma parses_byte_len_info:
  assumes "byte_len_type t"
  shows "parses s [t, n] readTypeInfo (byte_len_info t n (length (arrays s))) (new_array (unat n) s)"
proof (rule parses_type_id)
  note t = byte_len_type_others [OF assms]
  show "t \<notin> set fixed_types" using t by simp
  have body: "readVarLen (zero_typeInfo\<lparr>TypeId := t\<rparr>) =
      bindG (on_buf buf_byte) (\<lambda>n. bindG (make_array (unat n)) (\<lambda>a. ret (byte_len_info t n a)))"
    using t by (simp add: readVarLen_def Let_def byte_len_info_def)
  have "parses s ([n] @ [] @ []) (readVarLen (zero_typeInfo\<lparr>TypeId := t\<rparr>))
      (byte_len_info t n (length (arrays s))) (new_array (unat n) s)"
    unfolding body
    by (rule parses_bindG [OF parses_on_buf [OF takes_byte]], rule parses_bindG [OF parses_new_array], rule parses_ret)
  then show "parses s [n] (readVarLen (zero_typeInfo\<lparr>TypeId := t\<rparr>))
      (byte_len_info t n (length (arrays s))) (new_array (unat n) s)" by simp
qed

text \<open>The array of a column with its first bytes overwritten.\<close>

definition fill_array :: "nat \<Rightarrow> octet list \<Rightarrow> tdsSession \<Rightarrow> tdsSession" where
  "fill_array a bs s = s\<lparr>arrays := (arrays s)[a := put_at 0 bs (arrays s ! a)]\<rparr>"

lemma parses_fill_array:
  "length bs \<le> length (arrays s ! a) \<Longrightarrow> length bs = n \<Longrightarrow> parses s bs (read_into (Some a) n) bs (fill_array a bs s)"
  unfolding fill_array_def by (rule parses_read_into)

lemma parses_byte_len:
  assumes "Reader d = Some RByteLen" and "Buffer d = Some a" and "n \<noteq> 0" and "length bs = unat n"
    and "length bs \<le> length (arrays s ! a)" and "byte_len_value dbcs d bs = Ret v"
  shows "parses s (n # bs) (run_reader dbcs d) v (fill_array a bs s)"
proof -
  have "parses s ([n] @ bs @ []) (readByteLenType dbcs d) v (fill_array a bs s)"
    unfolding readByteLenType_def
    by (rule parses_bindG [OF parses_on_buf [OF takes_byte]])
       (use assms in \<open>auto intro!: parses_bindG [OF parses_fill_array, of _ _ _ _ "[]", simplified] parses_liftO\<close>)
  then show ?thesis using assms(1) by (simp add: run_reader_def)
qed

lemma parses_byte_len_null:
  assumes "Reader d = Some RByteLen"
  shows "parses s [0] (run_reader dbcs d) VNil s"
proof -
  have "parses s ([0] @ []) (readByteLenType dbcs d) VNil s"
    unfolding readByteLenType_def
    by (rule parses_bindG [OF parses_on_buf [OF takes_byte]]) (use parses_ret in simp)
  then show ?thesis using assms by (simp add: run_reader_def)
qed


section \<open>Values of a short length, and in chunks\<close>

definition short_type :: "octet \<Rightarrow> bool" where
  "short_type t \<longleftrightarrow> t = typeNVarChar \<or> t = typeBigVarBin"

definition collation_bytes :: "octet \<Rightarrow> collation \<Rightarrow> octet list" where
  "collation_bytes t col =
     (if t \<in> set short_char_types then le_bytes 4 (unat (lcidAndFlags col)) @ [sortId col] else [])"

text \<open>The size that stands for unlimited is written where there is a value in chunks.\<close>

definition size_bytes :: "int \<Rightarrow> octet list" where
  "size_bytes sz = (if 8000 < sz \<or> sz = 0 then le_bytes 2 0xffff else le_bytes 2 (nat sz))"

definition short_writer :: "typeInfo \<Rightarrow> typeInfo" where
  "short_writer d = d\<lparr>Writer := Some (if 8000 < Size d \<or> Size d = 0 then WPLP else WShortLen)\<rparr>"

lemma short_type_lists:
  "short_type t \<Longrightarrow> t \<notin> set fixed_types \<and> t \<noteq> typeDateN \<and> t \<notin> set time_types \<and> t \<notin> set byte_len_types \<and>
     t \<in> set (typeXml # short_len_types) \<and> t \<in> set short_len_types \<and> t \<noteq> typeXml"
  by (auto simp: short_type_def type_lists)

lemma emits_short_info:
  assumes "short_type (TypeId d)" and "0 \<le> Size d"
  shows "emits (writeTypeInfo d) (TypeId d # size_bytes (Size d) @ collation_bytes (TypeId d) (Collation d))
    (None, short_writer d)"
proof -
  note t = short_type_lists [OF assms(1)]
  let ?sz = "size_bytes (Size d)"
  have sz: "(if 8000 < Size d \<or> Size d = 0 then le_bytes 2 0xffff else le_bytes 2 (nat (Size d mod 65536))) = ?sz"
    using assms(2) by (simp add: size_bytes_def)
  have col: "emits (writeCollation (Collation d)) (le_bytes 4 (unat (lcidAndFlags (Collation d))) @ [sortId (Collation d)]) None"
    using emits_put_all [of "[le_bytes 4 (unat (lcidAndFlags (Collation d))), [sortId (Collation d)]]"]
    by (simp add: writeCollation_def del: put_all.simps)
  have "emits (if TypeId d \<in> set short_char_types
         then bindG (writeCollation (Collation d)) (\<lambda>err. ret (err, short_writer d)) else ret (None, short_writer d))
      (collation_bytes (TypeId d) (Collation d)) (None, short_writer d)"
    using emits_bindG [OF col, of "\<lambda>err. ret (err, short_writer d)" "[]" "(None, short_writer d)"]
    by (simp add: collation_bytes_def emits_ret)
  from emits_put_or [OF emits_put_or [OF this, of ?sz d], of "[TypeId d]" d]
  have "emits (put_or [TypeId d] d (put_or ?sz d (if TypeId d \<in> set short_char_types
         then bindG (writeCollation (Collation d)) (\<lambda>err. ret (err, short_writer d)) else ret (None, short_writer d))))
      (TypeId d # ?sz @ collation_bytes (TypeId d) (Collation d)) (None, short_writer d)" by simp
  moreover have "writeTypeInfo d = put_or [TypeId d] d (put_or ?sz d (if TypeId d \<in> set short_char_types
         then bindG (writeCollation (Collation d)) (\<lambda>err. ret (err, short_writer d)) else ret (None, short_writer d)))"
    unfolding sz [symmetric]
    using t by (simp add: writeTypeInfo_def writeVarLen_def Let_def short_writer_def)
  ultimately show ?thesis by simp
qed

definition short_bytes :: "octet list option \<Rightarrow> octet list" where
  "short_bytes b = (case b of None \<Rightarrow> le_bytes 2 0xffff | Some bs \<Rightarrow> le_bytes 2 (length bs) @ bs)"

definition plp_bytes :: "octet list \<Rightarrow> octet list" where
  "plp_bytes bs =
     le_bytes 8 (length bs) @ (if bs = [] then [] else le_bytes 4 (length bs) @ bs) @ le_bytes 4 0"

lemma emits_short_value:
  assumes "0 < Size d" and "Size d \<le> 8000" and "case b of None \<Rightarrow> True | Some bs \<Rightarrow> Size d = int (length bs)"
  shows "emits (run_writer (short_writer d) b) (short_bytes b) None"
proof (cases b)
  case None
  with assms emits_put_all [of "[le_bytes 2 0xffff]"] show ?thesis
    by (simp add: run_writer_def short_writer_def writeShortLenType_def short_bytes_def del: put_all.simps)
next
  case (Some bs)
  with assms have "nat (int (length bs) mod 65536) = length bs" by simp
  with Some assms emits_put_all [of "[le_bytes 2 (length bs), bs]"] show ?thesis
    by (simp add: run_writer_def short_writer_def writeShortLenType_def short_bytes_def del: put_all.simps)
qed

lemma plp_chunks_small:
  "length bs < 2 ^ 32 \<Longrightarrow> concat (plp_chunks bs) = (if bs = [] then [] else le_bytes 4 (length bs) @ bs) @ le_bytes 4 0"
  by (simp add: plp_chunks.simps [of bs] plp_chunks.simps [of "[]"] Let_def)

lemma emits_plp_value:
  assumes "Size d = 0 \<or> 8000 < Size d" and "length (slice_bytes b) < 2 ^ 32"
  shows "emits (run_writer (short_writer d) b) (plp_bytes (slice_bytes b)) None"
proof -
  have "emits (put_all (le_bytes 8 (length (slice_bytes b)) # plp_chunks (slice_bytes b)))
      (concat (le_bytes 8 (length (slice_bytes b)) # plp_chunks (slice_bytes b))) None" by (rule emits_put_all)
  with assms show ?thesis
    by (auto simp: run_writer_def short_writer_def writePLPType_def plp_bytes_def plp_chunks_small simp del: put_all.simps)
qed

text \<open>Reading them.\<close>

definition short_info :: "octet \<Rightarrow> nat \<Rightarrow> collation \<Rightarrow> nat \<Rightarrow> typeInfo" where
  "short_info t n col a = zero_typeInfo\<lparr>TypeId := t, Size := int n, Collation := col, Buffer := Some a,
     Reader := Some RShortLen\<rparr>"

definition plp_info :: "octet \<Rightarrow> collation \<Rightarrow> typeInfo" where
  "plp_info t col = zero_typeInfo\<lparr>TypeId := t, Size := 65535, Collation := col, Reader := Some RPLP\<rparr>"

lemma parses_collation: "parses s (le_bytes 4 (unat (lcidAndFlags col)) @ [sortId col]) readCollation col s"
proof -
  have lt: "unat (lcidAndFlags col) < 2 ^ 32" using unsigned_less [of "lcidAndFlags col", where ?'a = nat] by simp
  have "parses s (le_bytes 4 (unat (lcidAndFlags col)) @ [sortId col] @ []) readCollation col s"
    unfolding readCollation_def
    by (rule parses_bindG [OF parses_on_buf [OF takes_uint32 [OF lt]]],
        rule parses_bindG [OF parses_on_buf [OF takes_byte]]) (cases col, simp add: parses_ret)
  then show ?thesis by simp
qed

lemma parses_some_collation:
  "parses s (collation_bytes t col)
     (if t \<in> set short_char_types then readCollation else ret (Collation zero_typeInfo))
     (if t \<in> set short_char_types then col else Collation zero_typeInfo) s"
  by (simp add: collation_bytes_def parses_collation parses_ret)


text \<open>A collation is read for the types of texts only.\<close>

definition read_collation_of :: "octet \<Rightarrow> collation \<Rightarrow> collation" where
  "read_collation_of t col = (if t \<in> set short_char_types then col else Collation zero_typeInfo)"

lemma not_unlimited: "n < 65535 \<Longrightarrow> (of_nat n :: 16 word) \<noteq> 0xffff"
proof
  assume "n < 65535" "(of_nat n :: 16 word) = 0xffff"
  then have "unat (of_nat n :: 16 word) = 65535" by simp
  then show False using \<open>n < 65535\<close> by (simp add: unat_of_nat)
qed

lemma parses_short_body:
  assumes "n < 65536"
    and "parses s bs (if of_nat n = (0xffff :: 16 word)
           then ret (zero_typeInfo\<lparr>TypeId := t, Size := int n, Collation := read_collation_of t col, Reader := Some RPLP\<rparr>)
           else bindG (make_array n) (\<lambda>a. ret (short_info t n (read_collation_of t col) a))) d s'"
    and "short_type t"
  shows "parses s (t # le_bytes 2 n @ collation_bytes t col @ bs) readTypeInfo d s'"
proof (rule parses_type_id)
  note t = short_type_lists [OF assms(3)]
  show "t \<notin> set fixed_types" using t by simp
  have body: "readVarLen (zero_typeInfo\<lparr>TypeId := t\<rparr>) =
      bindG (on_buf buf_uint16) (\<lambda>n. bindG (if t \<in> set short_char_types then readCollation else ret (Collation zero_typeInfo)) (\<lambda>col.
        if n = 0xffff then ret (zero_typeInfo\<lparr>TypeId := t, Size := uint n, Collation := col, Reader := Some RPLP\<rparr>)
        else bindG (make_array (unat n)) (\<lambda>a. ret (short_info t (unat n) col a))))"
    using t by (simp add: readVarLen_def Let_def short_info_def cong: if_cong)
  have n: "uint (of_nat n :: 16 word) = int n" "unat (of_nat n :: 16 word) = n"
    using assms(1) by (simp_all add: uint_nat unat_of_nat)
  show "parses s (le_bytes 2 n @ collation_bytes t col @ bs) (readVarLen (zero_typeInfo\<lparr>TypeId := t\<rparr>)) d s'"
    unfolding body
    by (rule parses_bindG [OF parses_on_buf [OF takes_uint16 [OF assms(1)]]], rule parses_bindG [OF parses_some_collation])
       (use assms(2) in \<open>simp only: n read_collation_of_def\<close>)
qed

lemma parses_short_info:
  assumes "short_type t" and "n < 65535"
  shows "parses s (t # le_bytes 2 n @ collation_bytes t col) readTypeInfo
    (short_info t n (read_collation_of t col) (length (arrays s))) (new_array n s)"
proof -
  have "(of_nat n :: 16 word) \<noteq> 0xffff" using assms(2) by (rule not_unlimited)
  then have "parses s ([] @ []) (if of_nat n = (0xffff :: 16 word)
           then ret (zero_typeInfo\<lparr>TypeId := t, Size := int n, Collation := read_collation_of t col, Reader := Some RPLP\<rparr>)
           else bindG (make_array n) (\<lambda>a. ret (short_info t n (read_collation_of t col) a)))
        (short_info t n (read_collation_of t col) (length (arrays s))) (new_array n s)"
    by (simp only: if_False) (rule parses_bindG [OF parses_new_array parses_ret])
  from parses_short_body [OF _ this assms(1)] assms(2) show ?thesis by simp
qed

lemma parses_plp_info:
  assumes "short_type t"
  shows "parses s (t # le_bytes 2 0xffff @ collation_bytes t col) readTypeInfo (plp_info t (read_collation_of t col)) s"
proof -
  have "parses s [] (if of_nat 0xffff = (0xffff :: 16 word)
           then ret (zero_typeInfo\<lparr>TypeId := t, Size := int 0xffff, Collation := read_collation_of t col, Reader := Some RPLP\<rparr>)
           else bindG (make_array 0xffff) (\<lambda>a. ret (short_info t 0xffff (read_collation_of t col) a)))
        (plp_info t (read_collation_of t col)) s"
    by (simp add: plp_info_def parses_ret)
  from parses_short_body [OF _ this assms] show ?thesis by simp
qed

lemma parses_short_null:
  assumes "Reader d = Some RShortLen"
  shows "parses s (short_bytes None) (run_reader dbcs d) VNil s"
proof -
  have "parses s (le_bytes 2 0xffff @ []) (readShortLenType dbcs d) VNil s"
    unfolding readShortLenType_def
    by (rule parses_bindG [OF parses_on_buf [OF takes_uint16]]) (simp_all add: parses_ret)
  then show ?thesis using assms by (simp add: run_reader_def short_bytes_def)
qed

lemma parses_short:
  assumes "Reader d = Some RShortLen" and "Buffer d = Some a" and "length bs < 65535"
    and "length bs \<le> length (arrays s ! a)" and "short_len_value dbcs d bs = Ret v"
  shows "parses s (short_bytes (Some bs)) (run_reader dbcs d) v (fill_array a bs s)"
proof -
  have n: "unat (of_nat (length bs) :: 16 word) = length bs" using assms(3) by (simp add: unat_of_nat)
  have ne: "(of_nat (length bs) :: 16 word) \<noteq> 0xffff" using assms(3) by (rule not_unlimited)
  have lt: "length bs < 65536" using assms(3) by simp
  have "parses s (le_bytes 2 (length bs) @ bs @ []) (readShortLenType dbcs d) v (fill_array a bs s)"
    unfolding readShortLenType_def
  proof (rule parses_bindG [OF parses_on_buf [OF takes_uint16 [OF lt]]])
    have "parses s (bs @ []) (bindG (read_into (Some a) (length bs)) (\<lambda>b. liftO (short_len_value dbcs d b))) v (fill_array a bs s)"
      by (rule parses_bindG [OF parses_fill_array]) (use assms parses_liftO in simp_all)
    then show "parses s (bs @ []) (if (of_nat (length bs) :: 16 word) = 0xffff then ret VNil
        else bindG (read_into (Buffer d) (unat (of_nat (length bs) :: 16 word))) (\<lambda>b. liftO (short_len_value dbcs d b)))
        v (fill_array a bs s)" using ne n assms(2) by simp
  qed
  then show ?thesis using assms(1) by (simp add: run_reader_def short_bytes_def)
qed


lemma parses_last_chunk: "parses s (le_bytes 4 0) (read_chunks (Suc fuel) acc) acc s"
proof -
  have "parses s (le_bytes 4 0 @ []) (read_chunks (Suc fuel) acc) acc s"
    unfolding read_chunks.simps
    by (rule parses_bindG [OF parses_on_buf [OF takes_uint32]]) (simp_all add: parses_ret)
  then show ?thesis by simp
qed

lemma parses_chunks:
  assumes "length bs < 2 ^ 32" and "2 \<le> fuel"
  shows "parses s ((if bs = [] then [] else le_bytes 4 (length bs) @ bs) @ le_bytes 4 0) (read_chunks fuel acc) (acc @ bs) s"
proof (cases "bs = []")
  case True
  with parses_last_chunk [of s "fuel - 1" acc] assms(2) show ?thesis by simp
next
  case False
  obtain k where k: "fuel = Suc (Suc k)" using assms(2) by (metis Suc_le_D numeral_2_eq_2 Suc_le_mono)
  have n: "unat (of_nat (length bs) :: 32 word) = length bs" using assms(1) by (simp add: unat_of_nat)
  then have nz: "(of_nat (length bs) :: 32 word) \<noteq> 0" using False by auto
  have "parses s (le_bytes 4 (length bs) @ bs @ le_bytes 4 0) (read_chunks (Suc (Suc k)) acc) (acc @ bs) s"
    unfolding read_chunks.simps(2) [of "Suc k"]
  proof (rule parses_bindG [OF parses_on_buf [OF takes_uint32 [OF assms(1)]]])
    have "parses s (bs @ le_bytes 4 0) (bindG (on_buf (read_n (length bs) [])) (\<lambda>(bs, err).
          case err of Some e \<Rightarrow> badStreamPanicf (''Reading PLP type failed: '' @ error_text e)
                    | None \<Rightarrow> read_chunks (Suc k) (acc @ bs))) (acc @ bs) s"
      by (rule parses_bindG [OF parses_on_buf [OF takes_io_ReadFull]])
         (simp only: prod.case option.case, rule parses_last_chunk)
    with n nz show "parses s (bs @ le_bytes 4 0) (if (of_nat (length bs) :: 32 word) = 0 then ret acc
        else bindG (on_buf (read_n (unat (of_nat (length bs) :: 32 word)) [])) (\<lambda>(bs, err).
          case err of Some e \<Rightarrow> badStreamPanicf (''Reading PLP type failed: '' @ error_text e)
                    | None \<Rightarrow> read_chunks (Suc k) (acc @ bs))) (acc @ bs) s"
      by (simp only: if_False)
  qed
  with False k show ?thesis by simp
qed

lemma parses_all_chunks:
  assumes "length bs < 2 ^ 32"
  shows "parses s ((if bs = [] then [] else le_bytes 4 (length bs) @ bs) @ le_bytes 4 0)
    (readG (\<lambda>s. read_chunks (unread (sess_buf s) + 1) [])) bs s"
proof (rule parsesI)
  let ?w = "(if bs = [] then [] else le_bytes 4 (length bs) @ bs) @ le_bytes 4 0"
  fix b data rest
  assume r: "reading (?w @ data) rest b"
  have "4 \<le> length ?w" by simp
  with reading_unread [OF r] have "2 \<le> unread b + 1" by simp
  from parsesD [OF parses_chunks [OF assms this, where s = s and acc = "[]"] r]
  show "\<exists>b'. readG (\<lambda>s. read_chunks (unread (sess_buf s) + 1) []) (s\<lparr>sess_buf := b\<rparr>) = (Ret bs, s\<lparr>sess_buf := b'\<rparr>) \<and>
      reading data rest b'" by (simp del: read_chunks.simps)
qed

definition plp_value :: "dbcs_tables \<Rightarrow> typeInfo \<Rightarrow> octet list \<Rightarrow> govalue outcome" where
  "plp_value dbcs d b =
     (let t = TypeId d in
          if t = typeXml then as_string (decodeXml b)
          else if t \<in> set [typeBigVarChar, typeBigChar, typeText] then Ret (VString (decodeChar dbcs (Collation d) b))
          else if t \<in> set [typeBigVarBin, typeBigBinary, typeImage] then Ret (VBytes b)
          else if t \<in> set [typeNVarChar, typeNChar, typeNText] then as_string (decodeNChar b)
          else if t = typeUdt then decodeUdt b
          else shouldnt)"

lemma parses_plp:
  assumes "Reader d = Some RPLP" and "length bs < 2 ^ 32" and "plp_value dbcs d bs = Ret v"
  shows "parses s (plp_bytes bs) (run_reader dbcs d) v s"
proof -
  let ?n = "of_nat (length bs) :: 64 word"
  have n: "unat ?n = length bs" using assms(2) by (simp add: unat_of_nat)
  have lt: "length bs < 2 ^ 64" using assms(2) by simp
  have "?n \<noteq> 0xffffffffffffffff"
  proof
    assume "?n = 0xffffffffffffffff"
    then have "unat ?n = 18446744073709551615" by simp
    with n assms(2) show False by simp
  qed
  moreover have "\<not> 2 ^ 63 \<le> unat ?n" unfolding n using assms(2) by simp
  ultimately have c: "(?n = 0xffffffffffffffff) = False" "(?n \<noteq> 0xfffffffffffffffe \<and> 2 ^ 63 \<le> unat ?n) = False"
    by blast+
  have "parses s (le_bytes 8 (length bs) @ ((if bs = [] then [] else le_bytes 4 (length bs) @ bs) @ le_bytes 4 0) @ [])
      (readPLPType dbcs d) v s"
    unfolding readPLPType_def plp_value_def [symmetric]
  proof (rule parses_bindG [OF parses_on_buf [OF takes_uint64 [OF lt]]], unfold c if_False)
    show "parses s (((if bs = [] then [] else le_bytes 4 (length bs) @ bs) @ le_bytes 4 0) @ [])
      (bindG (readG (\<lambda>s. read_chunks (unread (sess_buf s) + 1) [])) (\<lambda>b. liftO (plp_value dbcs d b))) v s"
      by (rule parses_bindG [OF parses_all_chunks [OF assms(2)]]) (simp add: assms(3) parses_liftO)
  qed
  then show ?thesis using assms(1) by (simp add: run_reader_def plp_bytes_def)
qed

end
