(* ===== verification/TimeWire.thy ===== *)
theory TimeWire
  imports TypeWriters
begin

text \<open>
  What a time parameter is on the wire, and that it is read back.
\<close>

text \<open>A time as a datetimeoffset with seven digits: the instant is cut to 100 ns, the zone to minutes.\<close>

definition rounded :: "gotime \<Rightarrow> gotime" where
  "rounded t = \<lparr>t_sec = t_sec t, t_nsec = t_nsec t div 100 * 100, t_zone = go_div (t_zone t) 60 * 60\<rparr>"

definition offset_time_ok :: "gotime \<Rightarrow> bool" where
  "offset_time_ok t \<longleftrightarrow> time_ok t \<and> 0 \<le> t_sec t \<and> t_sec t < 2 ^ 24 * 86400 \<and>
     - 32768 \<le> go_div (t_zone t) 60 \<and> go_div (t_zone t) 60 < 32768"

lemma push_bit_or_ucast: "push_bit 8 (acc :: 64 word) OR ucast (x :: octet) = 256 * acc + ucast x"
proof -
  have "push_bit 8 acc AND ucast x = 0"
    by (rule bit_word_eqI) (auto simp: bit_simps dest!: bit_imp_le_length)
  then have "push_bit 8 acc OR ucast x = push_bit 8 acc + ucast x"
    using word_plus_and_or [of "push_bit 8 acc" "ucast x"] by simp
  then show ?thesis by (simp add: push_bit_eq_mult mult.commute)
qed

lemma foldl_le_value: "foldl (\<lambda>acc x. push_bit 8 acc OR ucast x) (0 :: 64 word) (rev b) = of_nat (le_value b)"
  by (induction b) (simp_all add: push_bit_or_ucast add.commute)

lemma decodeTimeInt_7:
  assumes "k < 864000000000"
  shows "decodeTimeInt 7 (le_bytes 5 k) = (int (100 * k div 1000000000), int (100 * k mod 1000000000))"
proof -
  have "le_value (le_bytes 5 k) = k" using assms by (simp only: le_value_bytes) simp
  moreover have "unat (of_nat k * 100 :: 64 word) = 100 * k"
    using assms by (simp add: unat_word_ariths unat_of_nat)
  ultimately show ?thesis
    by (simp add: decodeTimeInt_def foldl_le_value Let_def uint_nat unat_div unat_mod)
qed

lemma dateTime2_days:
  assumes "offset_time_ok t"
  shows "dateTime2 t = (of_int (t_sec t div 86400), t_sec t mod 86400 * 1000000000 + t_nsec t)"
proof -
  have d: "divFloor (time_Unix t) 86400 = t_sec t div 86400 - 719162"
    by (simp add: divFloor_div time_Unix_def year_1970_def)
  have "time_Unix t - (t_sec t div 86400 - 719162) * 24 * 60 * 60 = t_sec t mod 86400"
    by (simp add: time_Unix_def year_1970_def algebra_simps minus_mult_div_eq_mod [symmetric])
  then show ?thesis by (simp add: dateTime2_def d Let_def)
qed


lemma go_div_nonneg: "0 \<le> x \<Longrightarrow> 0 < y \<Longrightarrow> go_div x y = x div y"
  by (cases "x = 0") (simp_all add: go_div_def)

lemma le_value_take_append: "length a = n \<Longrightarrow> le_value (take n (a @ b)) = le_value a"
  by simp

lemma offset_bytes:
  assumes "- 32768 \<le> i" and "i < 32768"
  shows "sint (of_nat (le_value (le_bytes 2 (nat (i mod 2 ^ 64)))) :: 16 word) = i"
proof -
  have "int (le_value (le_bytes 2 (nat (i mod 2 ^ 64)))) = i mod 65536"
    by (simp only: le_value_bytes) (simp add: nat_mod_distrib zmod_int mod_mod_cancel)
  then have "(of_nat (le_value (le_bytes 2 (nat (i mod 2 ^ 64)))) :: 16 word) = of_int (i mod 65536)"
    by (metis of_int_of_nat_eq)
  also have "\<dots> = of_int i"
    by (simp add: word_of_int_eq_iff take_bit_eq_mod)
  finally show ?thesis using assms by (simp add: signed_of_int signed_take_bit_int_eq_self)
qed

lemma whole_hundreds: "100 * ((m * 1000000000 + n) div 100) = n div 100 * 100 + 1000000000 * (m :: int)"
proof -
  have "m * 1000000000 + n = n + 100 * (m * 10000000)" by simp
  then have "(m * 1000000000 + n) div 100 = m * 10000000 + n div 100" by (simp only: div_mult_self2)
  then show ?thesis by simp
qed

lemma offset_time_decode:
  assumes "offset_time_ok t"
  shows "decodeDateTimeOffset 7 (offset_time_bytes t) = Ret (rounded t)" and "length (offset_time_bytes t) = 10"
proof -
  define days where "days = t_sec t div 86400"
  define total where "total = t_sec t mod 86400 * 1000000000 + t_nsec t"
  define offset where "offset = go_div (t_zone t) 60"
  define k where "k = nat (total div 100)"
  have days: "0 \<le> days" "days < 2 ^ 24" using assms by (auto simp: days_def offset_time_ok_def)
  have nsec: "0 \<le> t_nsec t" "t_nsec t < 1000000000" using assms by (auto simp: offset_time_ok_def time_ok_def)
  have sod: "0 \<le> t_sec t mod 86400" "t_sec t mod 86400 < 86400" by simp_all
  have total: "0 \<le> total" "total < 86400000000000" using nsec sod by (simp_all add: total_def)
  have k: "k < 864000000000" "int k = total div 100" using total by (simp_all add: k_def)
  have zone: "- 32768 \<le> offset" "offset < 32768" using assms by (auto simp: offset_time_ok_def offset_def)
  have ud: "unat (of_int days :: 32 word) = nat days"
    using days by (simp add: unat_eq_nat_uint uint_word_of_int)
  have "nat (go_div total 100 mod 2 ^ 64) = k"
    using total by (simp add: go_div_nonneg k_def)
  then have bytes: "offset_time_bytes t = le_bytes 5 k @ le_bytes 3 (nat days) @ le_bytes 2 (nat (offset mod 2 ^ 64))"
    using dateTime2_days [OF assms] ud
    by (simp add: offset_time_bytes_def Let_def total_def [symmetric] days_def [symmetric] offset_def [symmetric]
        del: le_bytes.simps)
  then show "length (offset_time_bytes t) = 10" by simp
  have dv: "le_value (le_bytes 3 (nat days)) = nat days" using days by (simp only: le_value_bytes) simp
  have sec: "100 * int k div 1000000000 = t_sec t mod 86400"
    and ns: "100 * int k mod 1000000000 = t_nsec t div 100 * 100"
  proof -
    have e: "100 * int k = t_nsec t div 100 * 100 + 1000000000 * (t_sec t mod 86400)"
      unfolding k(2) total_def by (rule whole_hundreds)
    have "0 \<le> t_nsec t div 100 * 100" "t_nsec t div 100 * 100 < 1000000000" using nsec by auto
    then show "100 * int k div 1000000000 = t_sec t mod 86400" "100 * int k mod 1000000000 = t_nsec t div 100 * 100"
      unfolding e by simp_all
  qed
  have "decodeDateTimeOffset 7 (offset_time_bytes t) = Ret (time_Date year_1 days (100 * int k div 1000000000 + offset * 60)
      (100 * int k mod 1000000000) (offset * 60))"
    using decodeTimeInt_7 [OF k(1)] dv offset_bytes [OF zone] days(1)
    by (simp add: decodeDateTimeOffset_def decodeDateInt_def le_at_def bytes Let_def zdiv_int zmod_int del: le_bytes.simps)
  also have "\<dots> = Ret (rounded t)"
    unfolding sec ns using nsec
    by (simp add: time_Date_def year_1_def rounded_def offset_def days_def)
  finally show "decodeDateTimeOffset 7 (offset_time_bytes t) = Ret (rounded t)" .
qed

end
