(* ===== verification/ParamWire.thy ===== *)
theory ParamWire
  imports Wire TimeWire
begin

text \<open>
  The parameters of a statement on the wire: the values that can be sent, and that a reader of the
  bytes gets them back (lemma \<open>param_travels\<close>).
\<close>

fun sendable :: "driver_value \<Rightarrow> bool" where
  "sendable (DBytes b) = (length b < 2 ^ 32)"
| "sendable (DString t) = (utf8 t \<and> length (str2ucs2 t) < 2 ^ 32)"
| "sendable (DTime t) = offset_time_ok t"
| "sendable (DOther ty) = False"
| "sendable _ = True"

fun wire_value :: "driver_value \<Rightarrow> govalue" where
  "wire_value DNil = VNil"
| "wire_value (DInt i) = VInt i"
| "wire_value (DFloat f) = VFloat64 f"
| "wire_value (DBytes b) = VBytes b"
| "wire_value (DString t) = VString t"
| "wire_value (DBool b) = VBool b"
| "wire_value (DTime t) = VTime (rounded t)"
| "wire_value (DOther ty) = VNil"

text \<open>The value stays what it is while further arrays are made, and the arrays so far are kept.\<close>

definition keeps :: "tdsSession \<Rightarrow> tdsSession \<Rightarrow> govalue \<Rightarrow> govalue \<Rightarrow> bool" where
  "keeps s t x v \<longleftrightarrow> prefix (arrays s) (arrays t) \<and> (\<forall>arrs. prefix (arrays t) arrs \<longrightarrow> value_now arrs x = v)"

lemma keeps_filled:
  assumes "\<And>arrs. take (length bs) (arrs ! length (arrays s)) = bs \<Longrightarrow> value_now arrs x = v" and "length bs \<le> n"
  shows "keeps s (fill_array (length (arrays s)) bs (new_array n s)) x v"
proof -
  have "arrays (fill_array (length (arrays s)) bs (new_array n s)) = arrays s @ [put_at 0 bs (replicate n 0)]"
    by (simp add: fill_array_def new_array_def)
  moreover have "take (length bs) (put_at 0 bs (replicate n 0)) = bs" by (simp add: put_at_def)
  ultimately show ?thesis using assms(1) by (auto simp: keeps_def prefix_def nth_append)
qed

text \<open>The type information and the value that are written are read back as \<open>v\<close>.\<close>

definition travels :: "dbcs_tables \<Rightarrow> Param \<Rightarrow> govalue \<Rightarrow> bool" where
  "travels dbcs p v \<longleftrightarrow> (\<exists>tbs d vbs.
     emits (writeTypeInfo (p_ti p)) tbs (None, d) \<and> emits (run_writer d (p_buffer p)) vbs None \<and>
     (\<forall>s. \<exists>d' t x t'. parses s tbs readTypeInfo d' t \<and> parses t vbs (run_reader dbcs d') x t' \<and> keeps s t' x v))"

lemma travels_byte_len:
  assumes "byte_len_type t" and "bs \<noteq> []" and "length bs < 256"
    and "\<And>a. byte_len_value dbcs (byte_len_info t (of_nat (length bs)) a) bs = Ret v"
    and "\<And>arrs. value_now arrs v = v"
  shows "travels dbcs (zero_Param\<lparr>p_ti := zero_typeInfo\<lparr>TypeId := t, Size := int (length bs)\<rparr>, p_buffer := Some bs\<rparr>) v"
proof -
  let ?n = "of_nat (length bs) :: octet" and ?d = "zero_typeInfo\<lparr>TypeId := t, Size := int (length bs)\<rparr>"
  have n: "unat ?n = length bs" using assms(3) by (rule unat_octet_small)
  have nz: "?n \<noteq> 0" using n assms(2) by auto
  have e: "emits (writeTypeInfo ?d) [t, ?n] (None, ?d\<lparr>Writer := Some WByteLen\<rparr>)"
    "emits (run_writer (?d\<lparr>Writer := Some WByteLen\<rparr>) (Some bs)) (?n # bs) None"
    using emits_byte_len(1) [of ?d "length bs"] emits_byte_len(2) [of ?d "length bs" bs] assms(1,3) by simp_all
  have "\<exists>d' t' x u. parses s [t, ?n] readTypeInfo d' t' \<and> parses t' (?n # bs) (run_reader dbcs d') x u \<and>
      keeps s u x v" for s
  proof (intro exI conjI)
    show "parses s [t, ?n] readTypeInfo (byte_len_info t ?n (length (arrays s))) (new_array (unat ?n) s)"
      by (rule parses_byte_len_info [OF assms(1)])
    show "parses (new_array (unat ?n) s) (?n # bs) (run_reader dbcs (byte_len_info t ?n (length (arrays s)))) v
        (fill_array (length (arrays s)) bs (new_array (unat ?n) s))"
      by (rule parses_byte_len) (use nz n assms(4) in \<open>simp_all add: byte_len_info_def new_array_def\<close>)
    show "keeps s (fill_array (length (arrays s)) bs (new_array (unat ?n) s)) v v"
      by (rule keeps_filled) (simp_all add: assms(5) n)
  qed
  with e show ?thesis unfolding travels_def by fastforce
qed

lemma travels_short_null: "travels dbcs (zero_Param\<lparr>p_ti := zero_typeInfo\<lparr>TypeId := typeNVarChar, Size := 2\<rparr>, p_buffer := None\<rparr>) VNil"
proof -
  let ?d = "zero_typeInfo\<lparr>TypeId := typeNVarChar, Size := 2\<rparr>" and ?col = "Collation zero_typeInfo"
  have t: "short_type typeNVarChar" by (simp add: short_type_def)
  have e: "emits (writeTypeInfo ?d) (typeNVarChar # le_bytes 2 2 @ collation_bytes typeNVarChar ?col) (None, short_writer ?d)"
    "emits (run_writer (short_writer ?d) None) (short_bytes None) None"
    using emits_short_info [of ?d] emits_short_value [of ?d None] t by (simp_all add: size_bytes_def del: le_bytes.simps)
  have "\<exists>d' t' x u. parses s (typeNVarChar # le_bytes 2 2 @ collation_bytes typeNVarChar ?col) readTypeInfo d' t' \<and>
      parses t' (short_bytes None) (run_reader dbcs d') x u \<and> keeps s u x VNil" for s
  proof (intro exI conjI)
    let ?i = "short_info typeNVarChar 2 (read_collation_of typeNVarChar ?col) (length (arrays s))"
    show "parses s (typeNVarChar # le_bytes 2 2 @ collation_bytes typeNVarChar ?col) readTypeInfo ?i (new_array 2 s)"
      by (rule parses_short_info [OF t]) simp
    show "parses (new_array 2 s) (short_bytes None) (run_reader dbcs ?i) VNil (new_array 2 s)"
      by (rule parses_short_null) (simp add: short_info_def)
  qed (simp add: keeps_def new_array_def)
  with e show ?thesis unfolding travels_def by fastforce
qed

lemma travels_short:
  assumes "short_type t" and "0 < length bs" and "length bs \<le> 8000"
    and "\<And>col a. short_len_value dbcs (short_info t (length bs) col a) bs = Ret (x a)"
    and "\<And>arrs a. take (length bs) (arrs ! a) = bs \<Longrightarrow> value_now arrs (x a) = v"
  shows "travels dbcs (zero_Param\<lparr>p_ti := zero_typeInfo\<lparr>TypeId := t, Size := int (length bs)\<rparr>, p_buffer := Some bs\<rparr>) v"
proof -
  let ?d = "zero_typeInfo\<lparr>TypeId := t, Size := int (length bs)\<rparr>" and ?col = "Collation zero_typeInfo"
  let ?tbs = "t # le_bytes 2 (length bs) @ collation_bytes t ?col"
  have e: "emits (writeTypeInfo ?d) ?tbs (None, short_writer ?d)"
    "emits (run_writer (short_writer ?d) (Some bs)) (short_bytes (Some bs)) None"
    using emits_short_info [of ?d] emits_short_value [of ?d "Some bs"] assms(1,2,3)
    by (simp_all add: size_bytes_def del: le_bytes.simps)
  have "\<exists>d' t' x u. parses s ?tbs readTypeInfo d' t' \<and>
      parses t' (short_bytes (Some bs)) (run_reader dbcs d') x u \<and> keeps s u x v" for s
  proof (intro exI conjI)
    let ?i = "short_info t (length bs) (read_collation_of t ?col) (length (arrays s))"
      and ?s = "new_array (length bs) s" and ?a = "length (arrays s)"
    show "parses s ?tbs readTypeInfo ?i ?s" by (rule parses_short_info) (use assms in auto)
    show "parses ?s (short_bytes (Some bs)) (run_reader dbcs ?i) (x ?a) (fill_array ?a bs ?s)"
      by (rule parses_short) (use assms(3,4) in \<open>simp_all add: short_info_def new_array_def\<close>)
    show "keeps s (fill_array ?a bs ?s) (x ?a) v"
      by (rule keeps_filled) (simp_all add: assms(5))
  qed
  with e show ?thesis unfolding travels_def by fastforce
qed

lemma travels_plp:
  assumes "short_type t" and "length bs = 0 \<or> 8000 < length bs" and "length bs < 2 ^ 32"
    and "\<And>col. plp_value dbcs (plp_info t col) bs = Ret v" and "\<And>arrs. value_now arrs v = v"
  shows "travels dbcs (zero_Param\<lparr>p_ti := zero_typeInfo\<lparr>TypeId := t, Size := int (length bs)\<rparr>, p_buffer := Some bs\<rparr>) v"
proof -
  let ?d = "zero_typeInfo\<lparr>TypeId := t, Size := int (length bs)\<rparr>" and ?col = "Collation zero_typeInfo"
  let ?tbs = "t # le_bytes 2 0xffff @ collation_bytes t ?col"
  have e: "emits (writeTypeInfo ?d) ?tbs (None, short_writer ?d)"
    "emits (run_writer (short_writer ?d) (Some bs)) (plp_bytes bs) None"
    using emits_short_info [of ?d] emits_plp_value [of ?d "Some bs"] assms(1,2,3)
    by (auto simp: size_bytes_def slice_bytes_def simp del: le_bytes.simps)
  have "\<exists>d' t' x u. parses s ?tbs readTypeInfo d' t' \<and> parses t' (plp_bytes bs) (run_reader dbcs d') x u \<and>
      keeps s u x v" for s
  proof (intro exI conjI)
    let ?i = "plp_info t (read_collation_of t ?col)"
    show "parses s ?tbs readTypeInfo ?i s" by (rule parses_plp_info [OF assms(1)])
    show "parses s (plp_bytes bs) (run_reader dbcs ?i) v s"
      by (rule parses_plp) (use assms(3,4) in \<open>simp_all add: plp_info_def\<close>)
  qed (simp add: keeps_def assms(5))
  with e show ?thesis unfolding travels_def by fastforce
qed


lemma str2ucs2_bytes: "utf8 t \<Longrightarrow> as_string (decodeNChar (str2ucs2 t)) = Ret (VString t)"
  by (simp add: decodeNChar_def decodeUcs2_def ucs2_round_trip)

lemma travels_sized:
  assumes "short_type t" and "length bs < 2 ^ 32"
    and "\<And>col a. short_len_value dbcs (short_info t (length bs) col a) bs = Ret (x a)"
    and "\<And>arrs a. take (length bs) (arrs ! a) = bs \<Longrightarrow> value_now arrs (x a) = v"
    and "\<And>col. plp_value dbcs (plp_info t col) bs = Ret v" and "\<And>arrs. value_now arrs v = v"
  shows "travels dbcs (zero_Param\<lparr>p_ti := zero_typeInfo\<lparr>TypeId := t, Size := int (length bs)\<rparr>, p_buffer := Some bs\<rparr>) v"
proof (cases "0 < length bs \<and> length bs \<le> 8000")
  case True
  show ?thesis by (rule travels_short) (use True assms in auto)
next
  case False
  show ?thesis by (rule travels_plp) (use False assms in auto)
qed

lemma travels_offset:
  assumes "length bs = 10" and "decodeDateTimeOffset 7 bs = Ret x"
  shows "travels dbcs (zero_Param\<lparr>p_ti := zero_typeInfo\<lparr>TypeId := typeDateTimeOffsetN, Scale := 7, Size := 10\<rparr>,
    p_buffer := Some bs\<rparr>) (VTime x)"
proof -
  let ?d = "zero_typeInfo\<lparr>TypeId := typeDateTimeOffsetN, Scale := 7, Size := 10\<rparr>"
  let ?w = "?d\<lparr>Writer := Some WByteLen\<rparr>"
  have "emits (put_or [typeDateTimeOffsetN] ?d (put_or [7] ?d (ret (None, ?w)))) ([typeDateTimeOffsetN] @ [7] @ []) (None, ?w)"
    by (intro emits_put_or emits_ret)
  then have e1: "emits (writeTypeInfo ?d) [typeDateTimeOffsetN, 7] (None, ?w)"
    by (simp add: writeTypeInfo_def writeVarLen_def type_lists)
  have e2: "emits (run_writer ?w (Some bs)) (10 # bs) None"
    using emits_put_all [of "[[10], bs]"]
    by (simp add: run_writer_def writeByteLenType_def slice_bytes_def del: put_all.simps)
  have "\<exists>d' t' x' u. parses s [typeDateTimeOffsetN, 7] readTypeInfo d' t' \<and> parses t' (10 # bs) (run_reader dbcs d') x' u \<and>
      keeps s u x' (VTime x)" for s
  proof (intro exI conjI)
    let ?i = "zero_typeInfo\<lparr>TypeId := typeDateTimeOffsetN, Scale := 7, Size := 10, Reader := Some RByteLen,
      Buffer := Some (length (arrays s))\<rparr>"
    show "parses s [typeDateTimeOffsetN, 7] readTypeInfo ?i (new_array 10 s)"
    proof (rule parses_type_id)
      have body: "readVarLen (zero_typeInfo\<lparr>TypeId := typeDateTimeOffsetN\<rparr>) = bindG (on_buf buf_byte) (\<lambda>sc.
          case time_size sc of
            None \<Rightarrow> badStreamPanicf ''Invalid scale for TIME/DATETIME2/DATETIMEOFFSET type''
          | Some n \<Rightarrow> bindG (make_array (n + 5)) (\<lambda>a. ret (zero_typeInfo\<lparr>TypeId := typeDateTimeOffsetN, Scale := sc,
                Size := int (n + 5), Reader := Some RByteLen, Buffer := Some a\<rparr>)))"
        by (simp add: readVarLen_def type_lists cong: option.case_cong)
      have "parses s ([7] @ [] @ []) (readVarLen (zero_typeInfo\<lparr>TypeId := typeDateTimeOffsetN\<rparr>)) ?i (new_array 10 s)"
        unfolding body
      proof (rule parses_bindG [OF parses_on_buf [OF takes_byte]])
        have "parses s ([] @ []) (bindG (make_array 10) (\<lambda>a. ret (zero_typeInfo\<lparr>TypeId := typeDateTimeOffsetN, Scale := 7,
                Size := 10, Reader := Some RByteLen, Buffer := Some a\<rparr>))) ?i (new_array 10 s)"
          by (rule parses_bindG [OF parses_new_array parses_ret])
        then show "parses s ([] @ []) (case time_size 7 of
            None \<Rightarrow> badStreamPanicf ''Invalid scale for TIME/DATETIME2/DATETIMEOFFSET type''
          | Some n \<Rightarrow> bindG (make_array (n + 5)) (\<lambda>a. ret (zero_typeInfo\<lparr>TypeId := typeDateTimeOffsetN, Scale := 7,
                Size := int (n + 5), Reader := Some RByteLen, Buffer := Some a\<rparr>))) ?i (new_array 10 s)"
          by (simp add: time_size_def)
      qed
      then show "parses s [7] (readVarLen (zero_typeInfo\<lparr>TypeId := typeDateTimeOffsetN\<rparr>)) ?i (new_array 10 s)" by simp
    qed (simp add: type_lists)
    show "parses (new_array 10 s) (10 # bs) (run_reader dbcs ?i) (VTime x) (fill_array (length (arrays s)) bs (new_array 10 s))"
      by (rule parses_byte_len) (use assms in \<open>simp_all add: byte_len_value_def new_array_def\<close>)
    show "keeps s (fill_array (length (arrays s)) bs (new_array 10 s)) (VTime x) (VTime x)"
      by (rule keeps_filled) (simp_all add: assms(1))
  qed
  with e1 e2 show ?thesis unfolding travels_def by fastforce
qed

lemma param_travels:
  assumes "makeParam ver v = Inr p" and "sendable v" and "verTDS73 \<le> ver"
  shows "travels dbcs p (wire_value v)"
proof (cases v)
  case DNil
  with assms(1) travels_short_null show ?thesis by (auto simp: makeParam_def)
next
  case (DInt i)
  have "le_value (le_bytes 8 (unat i)) = unat i"
    using unsigned_less [of i, where ?'a = nat] by (simp only: le_value_bytes) simp
  then have "travels dbcs (zero_Param\<lparr>p_ti := zero_typeInfo\<lparr>TypeId := typeIntN, Size := int (length (le_bytes 8 (unat i)))\<rparr>,
      p_buffer := Some (le_bytes 8 (unat i))\<rparr>) (VInt i)"
    by (intro travels_byte_len)
       (simp_all add: byte_len_type_def type_lists byte_len_value_def byte_len_info_def int_of_le_def
          Let_def length_greater_0_conv [symmetric] del: le_bytes.simps length_greater_0_conv)
  with assms(1) DInt show ?thesis by (auto simp: makeParam_def simp del: le_bytes.simps)
next
  case (DFloat i)
  have "le_value (le_bytes 8 (unat i)) = unat i"
    using unsigned_less [of i, where ?'a = nat] by (simp only: le_value_bytes) simp
  then have "travels dbcs (zero_Param\<lparr>p_ti := zero_typeInfo\<lparr>TypeId := typeFltN, Size := int (length (le_bytes 8 (unat i)))\<rparr>,
      p_buffer := Some (le_bytes 8 (unat i))\<rparr>) (VFloat64 i)"
    by (intro travels_byte_len)
       (simp_all add: byte_len_type_def type_lists byte_len_value_def byte_len_info_def
          Let_def length_greater_0_conv [symmetric] del: le_bytes.simps length_greater_0_conv)
  with assms(1) DFloat show ?thesis by (auto simp: makeParam_def simp del: le_bytes.simps)
next
  case (DBool b)
  have "travels dbcs (zero_Param\<lparr>p_ti := zero_typeInfo\<lparr>TypeId := typeBitN, Size := int (length [if b then 1 else 0 :: octet])\<rparr>,
      p_buffer := Some [if b then 1 else 0]\<rparr>) (VBool b)"
    by (intro travels_byte_len)
       (simp_all add: byte_len_type_def type_lists byte_len_value_def byte_len_info_def)
  with assms(1) DBool show ?thesis by (auto simp: makeParam_def)
next
  case (DBytes b)
  have "travels dbcs (zero_Param\<lparr>p_ti := zero_typeInfo\<lparr>TypeId := typeBigVarBin, Size := int (length b)\<rparr>, p_buffer := Some b\<rparr>) (VBytes b)"
    by (rule travels_sized [where x = "\<lambda>a. VSlice a (length b)"])
       (use assms(2) DBytes in \<open>simp_all add: short_type_def short_len_value_def short_info_def plp_value_def plp_info_def\<close>)
  with assms(1) DBytes show ?thesis by (auto simp: makeParam_def)
next
  case (DString t)
  with assms(2) have t: "as_string (decodeNChar (str2ucs2 t)) = Ret (VString t)" "length (str2ucs2 t) < 2 ^ 32"
    by (simp_all add: str2ucs2_bytes)
  have "travels dbcs (zero_Param\<lparr>p_ti := zero_typeInfo\<lparr>TypeId := typeNVarChar, Size := int (length (str2ucs2 t))\<rparr>,
      p_buffer := Some (str2ucs2 t)\<rparr>) (VString t)"
    by (rule travels_sized [where x = "\<lambda>a. VString t"])
       (use t in \<open>simp_all add: short_type_def short_len_value_def short_info_def plp_value_def plp_info_def\<close>)
  with assms(1) DString show ?thesis by (auto simp: makeParam_def Let_def)
next
  case (DTime t)
  with assms(2) travels_offset [OF offset_time_decode(2) offset_time_decode(1), of t dbcs] assms(1,3)
  show ?thesis by (auto simp: makeParam_def)
qed (use assms(2) in simp)

end
