(* ===== verification/CallWire.thy ===== *)
theory CallWire
  imports ParamWire
begin

text \<open>
  The call of a procedure on the wire: the parameters of a statement with their declarations, and a
  reader of the request that gets the statement and its arguments back (lemma \<open>sendQuery_call\<close>).
\<close>

section \<open>Texts in ASCII\<close>

definition ascii :: "string \<Rightarrow> bool" where
  "ascii t \<longleftrightarrow> list_all (\<lambda>c. byte c < 128) t"

lemma ascii_simps [simp]: "ascii []" "ascii (c # t) = (byte c < 128 \<and> ascii t)" "ascii (a @ b) = (ascii a \<and> ascii b)"
  by (auto simp: ascii_def)

lemma ascii_Itoa [simp]: "ascii (Itoa n)"
  by (auto simp: ascii_def list_all_iff byte_def is_digit_def dest!: Itoa_chars)

lemma ascii_length:
  assumes "ascii t"
  shows "length (str2ucs2 t) = 2 * length t"
proof -
  have "runes t = map byte t" using assms
    by (induction t) (simp_all add: runes.simps DecodeRune_ascii)
  moreover have "length (utf16_Encode (map byte t)) = length t" using assms
    by (induction t) (simp_all add: utf16_Encode_def utf16_units_def)
  ultimately show ?thesis by (simp add: length_str2ucs2)
qed

lemma ascii_utf8: "ascii t \<Longrightarrow> utf8 t"
  unfolding ascii_def by (rule utf8_ascii)

lemma length_decimal: "n < 10 ^ k \<Longrightarrow> 0 < k \<Longrightarrow> length (decimal n) \<le> k"
proof (induction n arbitrary: k rule: decimal.induct)
  case (1 n)
  show ?case
  proof (cases "n < 10")
    case True
    with 1 show ?thesis by (simp add: decimal.simps [of n])
  next
    case False
    with "1.prems" obtain j where j: "k = Suc j" "0 < j"
      by (cases k; cases "k - 1") auto
    have "n div 10 < 10 ^ j" using "1.prems"(1) j(1) by (simp add: div_less_iff_less_mult mult.commute)
    with "1.IH" [OF False _ j(2)] False j(1) show ?thesis by (simp add: decimal.simps [of n])
  qed
qed

lemma param_name_small:
  assumes "i < 10 ^ 9"
  shows "ascii (param_name i)" and "length (param_name i) \<le> 12"
proof -
  show "ascii (param_name i)" by (simp add: param_name_def byte_def)
  have "length (decimal (i + 1)) \<le> 10" using assms by (intro length_decimal) simp_all
  then show "length (param_name i) \<le> 12" by (simp add: param_name_def Itoa_def nat_add_distrib)
qed

section \<open>Names of types\<close>

text \<open>The type a value is declared with.\<close>

definition sized_decl :: "string \<Rightarrow> nat \<Rightarrow> nat \<Rightarrow> string" where
  "sized_decl ty n shown =
     (if n = 0 \<or> 8000 < n then ty @ ''(max)'' else ty @ ''('' @ Itoa (int shown) @ '')'')"

fun declared :: "driver_value \<Rightarrow> string" where
  "declared DNil = ''nvarchar(1)''"
| "declared (DInt i) = ''bigint''"
| "declared (DFloat f) = ''float''"
| "declared (DBytes b) = sized_decl ''varbinary'' (length b) (length b)"
| "declared (DString t) = sized_decl ''nvarchar'' (length (str2ucs2 t)) (length (str2ucs2 t) div 2)"
| "declared (DBool b) = ''bit''"
| "declared (DTime t) = ''datetimeoffset(7)''"
| "declared (DOther ty) = []"

fun declarations :: "nat \<Rightarrow> driver_value list \<Rightarrow> string list" where
  "declarations i [] = []"
| "declarations i (v # vs) = (param_name i @ '' '' @ declared v) # declarations (i + 1) vs"

lemma small_Itoa: "Itoa 1 = ''1''" "Itoa 7 = ''7''"
  by code_simp+

lemma declared_makeDecl:
  assumes "makeParam ver v = Inr p" and "sendable v" and "verTDS73 \<le> ver"
  shows "makeDecl (p_ti p) = Ret (declared v)"
proof (cases v)
  case (DString t)
  then show ?thesis using assms(1)
    by (auto simp: makeParam_def makeDecl_def sized_decl_def Let_def go_div_nonneg zdiv_int)
qed (use assms in \<open>auto simp: makeParam_def makeDecl_def sized_decl_def Let_def go_div_def small_Itoa\<close>)

lemma makeParam_sendable: "sendable v \<Longrightarrow> \<exists>p. makeParam ver v = Inr p \<and> pName p = [] \<and> pFlags p = 0"
  by (cases v) (auto simp: makeParam_def zero_Param_def Let_def)


section \<open>The parameters of a statement\<close>

text \<open>A parameter that arrives with its name as the value.\<close>

definition arrives :: "dbcs_tables \<Rightarrow> Param \<Rightarrow> string \<times> govalue \<Rightarrow> bool" where
  "arrives dbcs p nv \<longleftrightarrow> travels dbcs p (snd nv) \<and> pName p = fst nv \<and> utf8 (fst nv) \<and> length (str2ucs2 (fst nv)) \<le> 510"

lemma travels_name: "travels dbcs (p\<lparr>pName := nm\<rparr>) v = travels dbcs p v"
  by (simp add: travels_def)

lemma arrives_named:
  assumes "travels dbcs p v" and "i < 10 ^ 9"
  shows "arrives dbcs (p\<lparr>pName := param_name i\<rparr>) (param_name i, v)"
  using assms param_name_small [OF assms(2)]
  by (simp add: arrives_def travels_name ascii_utf8 ascii_length)

fun named_values :: "nat \<Rightarrow> driver_value list \<Rightarrow> (string \<times> govalue) list" where
  "named_values i [] = []"
| "named_values i (v # vs) = (param_name i, wire_value v) # named_values (i + 1) vs"

lemma query_params_sendable:
  assumes "list_all sendable vs" and "verTDS73 \<le> ver" and "i + length vs < 10 ^ 9"
  shows "\<exists>pds. query_params ver i vs = Ret (Inr pds) \<and> map snd pds = declarations i vs \<and>
    list_all2 (arrives dbcs) (map fst pds) (named_values i vs)"
  using assms
proof (induction vs arbitrary: i)
  case (Cons v vs)
  have small: "list_all sendable vs" "(i + 1) + length vs < 10 ^ 9" using Cons.prems by simp_all
  from Cons.IH [OF small(1) Cons.prems(2) small(2)] obtain pds where
    pds: "query_params ver (i + 1) vs = Ret (Inr pds)" "map snd pds = declarations (i + 1) vs"
      "list_all2 (arrives dbcs) (map fst pds) (named_values (i + 1) vs)" by blast
  from Cons.prems makeParam_sendable [of v ver] obtain p where p: "makeParam ver v = Inr p" by auto
  have "makeDecl (p_ti p) = Ret (declared v)" "travels dbcs p (wire_value v)" "i < 10 ^ 9"
    using declared_makeDecl [OF p] param_travels [OF p] Cons.prems by simp_all
  with p pds arrives_named [of dbcs p "wire_value v" i] show ?case by simp
qed simp

definition decl_text :: "driver_value list \<Rightarrow> string" where
  "decl_text args = strings_Join '','' (declarations 0 args)"

lemma arrives_unnamed:
  assumes "makeParam ver v = Inr p" and "sendable v" and "verTDS73 \<le> ver"
  shows "arrives dbcs p ([], wire_value v)"
proof -
  have "pName p = []" using makeParam_sendable [OF assms(2), of ver] assms(1) by auto
  with param_travels [OF assms] show ?thesis by (simp add: arrives_def ascii_utf8 ascii_length)
qed

lemma sql_params_sendable:
  assumes "list_all sendable args" and "verTDS73 \<le> ver" and "length args < 10 ^ 9"
    and "sendable (DString q)" and "sendable (DString (decl_text args))"
  shows "\<exists>ps. sql_params ver q args = Ret (Inr ps) \<and>
    list_all2 (arrives dbcs) ps (([], VString q) # ([], VString (decl_text args)) # named_values 0 args)"
proof -
  from query_params_sendable [OF assms(1,2), of 0 dbcs] assms(3) obtain pds where
    pds: "query_params ver 0 args = Ret (Inr pds)" "map snd pds = declarations 0 args"
      "list_all2 (arrives dbcs) (map fst pds) (named_values 0 args)" by auto
  obtain p0 where p0: "makeParam ver (DString q) = Inr p0" using makeParam_sendable [OF assms(4)] by blast
  obtain p1 where p1: "makeParam ver (DString (decl_text args)) = Inr p1" using makeParam_sendable [OF assms(5)] by blast
  show ?thesis
    using arrives_unnamed [OF p0 assms(4,2), of dbcs] arrives_unnamed [OF p1 assms(5,2), of dbcs] pds p0 p1
    by (simp add: sql_params_def decl_text_def)
qed

section \<open>Sending and reading a call\<close>

definition read_param :: "dbcs_tables \<Rightarrow> (tdsSession, string \<times> govalue) go" where
  "read_param dbcs =
     bindG (on_buf BVarChar) (\<lambda>name. bindG (on_buf buf_byte) (\<lambda>flags. bindG readTypeInfo (\<lambda>d.
       bindG (run_reader dbcs d) (\<lambda>v. ret (name, v)))))"

fun read_params :: "dbcs_tables \<Rightarrow> nat \<Rightarrow> (tdsSession, (string \<times> govalue) list) go" where
  "read_params dbcs 0 = ret []"
| "read_params dbcs (Suc k) = bindG (read_param dbcs) (\<lambda>p. bindG (read_params dbcs k) (\<lambda>ps. ret (p # ps)))"

definition name_bytes :: "string \<Rightarrow> octet list" where
  "name_bytes nm = of_nat (length (str2ucs2 nm) div 2) # str2ucs2 nm"

lemma emits_name:
  assumes "length (str2ucs2 nm) \<le> 510"
  shows "emits (writeBVarChar nm) (name_bytes nm) None"
proof -
  have "\<not> 0xff < length (str2ucs2 nm) div 2" using assms by simp
  then show ?thesis
  using emits_put_all [of "[[of_nat (length (str2ucs2 nm) div 2)], str2ucs2 nm]"]
  by (simp add: writeBVarChar_def Let_def name_bytes_def del: put_all.simps)
qed

lemma takes_name:
  assumes "utf8 nm" and "length (str2ucs2 nm) \<le> 510"
  shows "takes (name_bytes nm) BVarChar nm"
proof -
  let ?n = "length (str2ucs2 nm) div 2"
  have n: "unat (of_nat ?n :: octet) = ?n" using assms(2) by (intro unat_octet_small) simp
  have "length (str2ucs2 nm) = 2 * ?n" by (simp add: length_str2ucs2)
  with takes_readUcs2 [OF ucs2_round_trip [OF assms(1)]] have "takes (str2ucs2 nm) (buf_readUcs2 ?n) nm" by blast
  then have "takes ([of_nat ?n] @ str2ucs2 nm) BVarChar nm"
    unfolding BVarChar_def by (intro takes_bindG [OF takes_byte]) (simp only: n)
  then show ?thesis by (simp add: name_bytes_def)
qed

lemma sendParam_arrives:
  assumes "arrives dbcs p nv"
  shows "\<exists>bs. emits (sendParam p) bs None \<and> (\<forall>s. \<exists>x t. parses s bs (read_param dbcs) (fst nv, x) t \<and> keeps s t x (snd nv))"
proof -
  from assms obtain tbs d vbs where w: "emits (writeTypeInfo (p_ti p)) tbs (None, d)"
    "emits (run_writer d (p_buffer p)) vbs None"
    "\<forall>s. \<exists>d' t x t'. parses s tbs readTypeInfo d' t \<and> parses t vbs (run_reader dbcs d') x t' \<and> keeps s t' x (snd nv)"
    unfolding arrives_def travels_def by blast
  have nm: "pName p = fst nv" "utf8 (fst nv)" "length (str2ucs2 (fst nv)) \<le> 510"
    using assms by (auto simp: arrives_def)
  have e: "emits (sendParam p) (name_bytes (fst nv) @ [pFlags p] @ tbs @ vbs) None"
    unfolding sendParam_def nm(1)
    by (intro emits_andthen emits_name nm(3) emits_put, rule emits_bindG [OF w(1)]) (simp add: w(2))
  have "\<exists>x t. parses s (name_bytes (fst nv) @ [pFlags p] @ tbs @ vbs) (read_param dbcs) (fst nv, x) t \<and> keeps s t x (snd nv)" for s
  proof -
    from w(3) obtain d' t x t' where r: "parses s tbs readTypeInfo d' t" "parses t vbs (run_reader dbcs d') x t'"
      "keeps s t' x (snd nv)" by blast
    have "parses s (name_bytes (fst nv) @ [pFlags p] @ tbs @ vbs @ []) (read_param dbcs) (fst nv, x) t'"
      unfolding read_param_def
      by (rule parses_bindG [OF parses_on_buf [OF takes_name [OF nm(2,3)]]],
          rule parses_bindG [OF parses_on_buf [OF takes_byte]],
          rule parses_bindG [OF r(1)], rule parses_bindG [OF r(2)], rule parses_ret)
    with r(3) show ?thesis by auto
  qed
  with e show ?thesis by blast
qed


lemma prefix_keeps: "keeps s t x v \<Longrightarrow> prefix (arrays t) (arrays u) \<Longrightarrow> keeps s u x v"
  by (auto simp: keeps_def intro: prefix_order.trans)

lemma sendParams_arrive:
  "list_all2 (arrives dbcs) ps nvs \<Longrightarrow>
   \<exists>bs. emits (sendParams ps) bs None \<and>
     (\<forall>s. \<exists>xs t. parses s bs (read_params dbcs (length nvs)) xs t \<and> prefix (arrays s) (arrays t) \<and>
        map (\<lambda>(n, x). (n, value_now (arrays t) x)) xs = nvs)"
proof -
  assume "list_all2 (arrives dbcs) ps nvs"
  then have "\<exists>bs. emits (sendParams ps) bs None \<and>
     (\<forall>s. \<exists>xs t. parses s bs (read_params dbcs (length nvs)) xs t \<and> prefix (arrays s) (arrays t) \<and>
        (\<forall>arrs. prefix (arrays t) arrs \<longrightarrow> map (\<lambda>(n, x). (n, value_now arrs x)) xs = nvs))"
  proof (induction rule: list_all2_induct)
    case Nil
    have "emits (sendParams []) [] None" by (simp add: emits_ret)
    moreover have "parses s [] (read_params dbcs (length [])) [] s" for s by (simp add: parses_ret)
    ultimately show ?case by fastforce
  next
    case (Cons p ps nv nvs)
    from sendParam_arrives [OF Cons.hyps(1)] obtain bs where
      b: "emits (sendParam p) bs None" "\<And>s. \<exists>x t. parses s bs (read_param dbcs) (fst nv, x) t \<and> keeps s t x (snd nv)"
      by blast
    from Cons.IH obtain cs where
      c: "emits (sendParams ps) cs None"
        "\<And>s. \<exists>xs t. parses s cs (read_params dbcs (length nvs)) xs t \<and> prefix (arrays s) (arrays t) \<and>
          (\<forall>arrs. prefix (arrays t) arrs \<longrightarrow> map (\<lambda>(n, x). (n, value_now arrs x)) xs = nvs)" by blast
    have "\<exists>xs t. parses s (bs @ cs) (read_params dbcs (length (nv # nvs))) xs t \<and> prefix (arrays s) (arrays t) \<and>
        (\<forall>arrs. prefix (arrays t) arrs \<longrightarrow> map (\<lambda>(n, x). (n, value_now arrs x)) xs = nv # nvs)" for s
    proof -
      from b(2) obtain x t where x: "parses s bs (read_param dbcs) (fst nv, x) t" "keeps s t x (snd nv)" by blast
      from c(2) obtain xs u where xs: "parses t cs (read_params dbcs (length nvs)) xs u" "prefix (arrays t) (arrays u)"
        "\<forall>arrs. prefix (arrays u) arrs \<longrightarrow> map (\<lambda>(n, x). (n, value_now arrs x)) xs = nvs" by blast
      have "parses s (bs @ cs @ []) (read_params dbcs (length (nv # nvs))) ((fst nv, x) # xs) u"
        unfolding list.size read_params.simps add_Suc_right add_0_right
        by (rule parses_bindG [OF x(1)], rule parses_bindG [OF xs(1)], rule parses_ret)
      moreover have "keeps s u x (snd nv)" using x(2) xs(2) by (rule prefix_keeps)
      ultimately show ?thesis using xs(3) by (intro exI [of _ "(fst nv, x) # xs"] exI [of _ u]) (auto simp: keeps_def)
    qed
    moreover have "emits (sendParams (p # ps)) (bs @ cs) None"
      unfolding sendParams.simps by (rule emits_andthen [OF b(1) c(1)])
    ultimately show ?case by blast
  qed
  then show ?thesis by blast
qed

text \<open>The end of a request.\<close>

lemma andthen_writing:
  assumes "emits m bs None" and "writing n pt before data b"
  shows "\<exists>b'. andthen m k b = k b' \<and> writing n pt before (data @ bs) b'"
proof -
  from assms obtain b' where "m b = (Ret None, b')" "writing n pt before (data @ bs) b'"
    unfolding emits_def by blast
  then show ?thesis by (auto simp: andthen_def bindG_apply)
qed

definition headers_bytes :: "headerStruct list \<Rightarrow> octet list" where
  "headers_bytes hs = concat (le_bytes 4 (foldl (\<lambda>totallen hdr. totallen + (4 + 2 + length (hdrdata hdr))) 4 hs) #
     concat (map (\<lambda>hdr. [le_bytes 4 (4 + 2 + length (hdrdata hdr)), le_bytes 2 (hdrtype hdr), hdrdata hdr]) hs))"

lemma emits_headers: "emits (writeAllHeaders hs) (headers_bytes hs) None"
  unfolding writeAllHeaders_def headers_bytes_def by (rule emits_put_all)

lemma sendRpc_message:
  assumes "ready n before b" and "emits (sendParams ps) bs None" and "proc_name proc = []"
  shows "\<exists>b' ws. sendRpc hs proc fl ps b = (Ret None, b') \<and> concat (outgoing (transport b')) = before @ ws \<and>
    message n 3 ws (headers_bytes hs @ (le_bytes 2 0xffff @ le_bytes 2 (proc_id proc)) @ le_bytes 2 fl @ bs)"
proof -
  from ready_BeginPacket [OF assms(1), of 3] obtain b1 where
    b1: "BeginPacket 3 b = (Ret (), b1)" "writing n 3 before [] b1" by blast
  from emits_headers b1(2) obtain b2 where
    b2: "writeAllHeaders hs b1 = (Ret None, b2)" "writing n 3 before ([] @ headers_bytes hs) b2"
    unfolding emits_def by blast
  have e: "emits (put_all [le_bytes 2 0xffff, le_bytes 2 (proc_id proc)]) (le_bytes 2 0xffff @ le_bytes 2 (proc_id proc)) None"
    using emits_put_all [of "[le_bytes 2 0xffff, le_bytes 2 (proc_id proc)]"] by (simp del: put_all.simps)
  let ?k2 = "andthen (sendParams ps) FinishPacket"
  let ?k1 = "andthen (put (le_bytes 2 fl)) ?k2"
  from andthen_writing [OF e b2(2), of ?k1] obtain b3 where
    b3: "andthen (put_all [le_bytes 2 0xffff, le_bytes 2 (proc_id proc)]) ?k1 b2 = ?k1 b3"
      "writing n 3 before (([] @ headers_bytes hs) @ le_bytes 2 0xffff @ le_bytes 2 (proc_id proc)) b3" by blast
  from andthen_writing [OF emits_put b3(2), of "le_bytes 2 fl" ?k2] obtain b4 where
    b4: "?k1 b3 = ?k2 b4" "writing n 3 before ((([] @ headers_bytes hs) @ le_bytes 2 0xffff @ le_bytes 2 (proc_id proc)) @ le_bytes 2 fl) b4"
    by blast
  from andthen_writing [OF assms(2) b4(2), of FinishPacket] obtain b5 where
    b5: "?k2 b4 = FinishPacket b5"
      "writing n 3 before (((([] @ headers_bytes hs) @ le_bytes 2 0xffff @ le_bytes 2 (proc_id proc)) @ le_bytes 2 fl) @ bs) b5"
    by blast
  from FinishPacket_writing [OF b5(2)] b1(1) b2(1) b3(1) b4(1) b5(1) assms(3) show ?thesis
    by (auto simp: sendRpc_def seqG_apply bindG_apply simp del: put_all.simps le_bytes.simps)
qed


text \<open>
  A call as the server reads it: the transaction of the headers, the number of the procedure, and
  the parameters.
\<close>

definition read_call :: "dbcs_tables \<Rightarrow> nat \<Rightarrow> (tdsSession, octet \<times> 64 word \<times> 16 word \<times> (string \<times> govalue) list) go" where
  "read_call dbcs k =
     bindG (on_buf BeginRead) (\<lambda>r. case r of
       Inl e \<Rightarrow> badStreamPanic e
     | Inr pt \<Rightarrow>
         bindG (on_buf buf_uint32) (\<lambda>_. bindG (on_buf buf_uint32) (\<lambda>_. bindG (on_buf buf_uint16) (\<lambda>_.
         bindG (on_buf buf_uint64) (\<lambda>tran. bindG (on_buf buf_uint32) (\<lambda>_. bindG (on_buf buf_uint16) (\<lambda>_.
         bindG (on_buf buf_uint16) (\<lambda>proc. bindG (on_buf buf_uint16) (\<lambda>_.
         bindG (read_params dbcs k) (\<lambda>ps. ret (pt, tran, proc, ps)))))))))))"

lemma tran_headers_bytes:
  "headers_bytes (tran_headers tran) = le_bytes 4 22 @ le_bytes 4 18 @ le_bytes 2 2 @ le_bytes 8 (unat tran) @ le_bytes 4 1"
  by (simp add: headers_bytes_def tran_headers_def transDescrHdr_pack_def del: le_bytes.simps)

lemma read_call_parses:
  assumes "message n 3 ws (headers_bytes (tran_headers tran) @ (le_bytes 2 0xffff @ le_bytes 2 i) @ le_bytes 2 0 @ bs)"
    and "parses u bs (read_params dbcs k) xs t" and "i < 65536"
    and "incoming (transport (sess_buf u)) = ws @ rest" and "length (buf (sess_buf u)) = n" and "n < 65536"
  shows "\<exists>b. read_call dbcs k u = (Ret (3, tran, of_nat i, xs), t\<lparr>sess_buf := b\<rparr>)"
proof -
  let ?data = "headers_bytes (tran_headers tran) @ (le_bytes 2 0xffff @ le_bytes 2 i) @ le_bytes 2 0 @ bs"
  from BeginRead_message [OF assms(1,4) assms(5) [symmetric] assms(6)] obtain b where
    b: "BeginRead (sess_buf u) = (Ret (Inr 3), b)" "reading ?data rest b" by blast
  have tr: "unat tran < 2 ^ 64" using unsigned_less [of tran, where ?'a = nat] by simp
  have "parses u (le_bytes 4 22 @ le_bytes 4 18 @ le_bytes 2 2 @ le_bytes 8 (unat tran) @ le_bytes 4 1 @
      le_bytes 2 0xffff @ le_bytes 2 i @ le_bytes 2 0 @ bs @ [])
    (bindG (on_buf buf_uint32) (\<lambda>_. bindG (on_buf buf_uint32) (\<lambda>_. bindG (on_buf buf_uint16) (\<lambda>_.
         bindG (on_buf buf_uint64) (\<lambda>tran. bindG (on_buf buf_uint32) (\<lambda>_. bindG (on_buf buf_uint16) (\<lambda>_.
         bindG (on_buf buf_uint16) (\<lambda>proc. bindG (on_buf buf_uint16) (\<lambda>_.
         bindG (read_params dbcs k) (\<lambda>ps. ret (3 :: octet, tran, proc, ps))))))))))) (3, of_nat (unat tran), of_nat i, xs) t"
    by (rule parses_bindG [OF parses_on_buf [OF takes_uint32]], simp,
        rule parses_bindG [OF parses_on_buf [OF takes_uint32]], simp,
        rule parses_bindG [OF parses_on_buf [OF takes_uint16]], simp,
        rule parses_bindG [OF parses_on_buf [OF takes_uint64 [OF tr]]],
        rule parses_bindG [OF parses_on_buf [OF takes_uint32]], simp,
        rule parses_bindG [OF parses_on_buf [OF takes_uint16]], simp,
        rule parses_bindG [OF parses_on_buf [OF takes_uint16 [OF assms(3)]]],
        rule parses_bindG [OF parses_on_buf [OF takes_uint16]], simp,
        rule parses_bindG [OF assms(2)], rule parses_ret)
  from parsesD [OF this, of "[]" rest b] b(2) obtain b' where
    "bindG (on_buf buf_uint32) (\<lambda>_. bindG (on_buf buf_uint32) (\<lambda>_. bindG (on_buf buf_uint16) (\<lambda>_.
         bindG (on_buf buf_uint64) (\<lambda>tran. bindG (on_buf buf_uint32) (\<lambda>_. bindG (on_buf buf_uint16) (\<lambda>_.
         bindG (on_buf buf_uint16) (\<lambda>proc. bindG (on_buf buf_uint16) (\<lambda>_.
         bindG (read_params dbcs k) (\<lambda>ps. ret (3 :: octet, tran, proc, ps)))))))))) (u\<lparr>sess_buf := b\<rparr>)
      = (Ret (3, tran, of_nat i, xs), t\<lparr>sess_buf := b'\<rparr>)"
    by (auto simp: tran_headers_bytes simp del: le_bytes.simps)
  with b(1) show ?thesis
    by (intro exI [of _ b']) (simp add: read_call_def bindG_apply on_buf_def)
qed

lemma ascii_declared: "sendable v \<Longrightarrow> ascii (declared v)"
  by (cases v) (simp_all add: sized_decl_def byte_def)

lemma ascii_join: "list_all ascii ws \<Longrightarrow> ascii (strings_Join '','' ws)"
  by (induction "'',''" ws rule: strings_Join.induct) (simp_all add: byte_def)

lemma ascii_declarations: "list_all sendable vs \<Longrightarrow> list_all ascii (declarations i vs)"
  by (induction vs arbitrary: i) (simp_all add: ascii_declared param_name_def byte_def)

lemma decl_text_sendable:
  assumes "list_all sendable args" and "length (decl_text args) < 2 ^ 31"
  shows "sendable (DString (decl_text args))"
proof -
  have "ascii (decl_text args)" unfolding decl_text_def by (intro ascii_join ascii_declarations assms(1))
  with assms(2) show ?thesis by (simp add: ascii_utf8 ascii_length)
qed

lemma sendQuery_call:
  assumes "args \<noteq> []" and "stmt_paramCount st = int (length args)" and "list_all sendable args"
    and "length args < 10 ^ 9" and "sendable (DString (stmt_query st))" and "length (decl_text args) < 2 ^ 31"
    and "verTDS73 \<le> ackTDSVersion (loginAck s)" and "ready n before (sess_buf s)"
  shows "\<exists>s' ws. sendQuery L st args s = (Ret None, s') \<and>
    concat (outgoing (transport (sess_buf s'))) = before @ ws \<and>
    (\<forall>u rest. incoming (transport (sess_buf u)) = ws @ rest \<longrightarrow> length (buf (sess_buf u)) = n \<longrightarrow>
      (\<exists>xs t. read_call dbcs (length args + 2) u = (Ret (3, tranid s, 10, xs), t) \<and>
        map (\<lambda>(n, x). (n, value_now (arrays t) x)) xs =
          ([], VString (stmt_query st)) # ([], VString (decl_text args)) # named_values 0 args))"
proof -
  let ?nvs = "([], VString (stmt_query st)) # ([], VString (decl_text args)) # named_values 0 args"
  have len: "length ?nvs = length args + 2"
  proof -
    have "length (named_values i vs) = length vs" for i vs by (induction vs arbitrary: i) simp_all
    then show ?thesis by simp
  qed
  from sql_params_sendable [OF assms(3,7,4,5) decl_text_sendable [OF assms(3,6)], of dbcs] obtain ps where
    ps: "sql_params (ackTDSVersion (loginAck s)) (stmt_query st) args = Ret (Inr ps)" "list_all2 (arrives dbcs) ps ?nvs"
    by blast
  from sendParams_arrive [OF ps(2)] obtain bs where
    bs: "emits (sendParams ps) bs None"
      "\<And>u. \<exists>xs t. parses u bs (read_params dbcs (length ?nvs)) xs t \<and> prefix (arrays u) (arrays t) \<and>
        map (\<lambda>(n, x). (n, value_now (arrays t) x)) xs = ?nvs" by blast
  from sendRpc_message [OF assms(8) bs(1), of Sp_ExecuteSql "tran_headers (tranid s)" 0] obtain b' ws where
    w: "sendRpc (tran_headers (tranid s)) Sp_ExecuteSql 0 ps (sess_buf s) = (Ret None, b')"
      "concat (outgoing (transport b')) = before @ ws"
      "message n 3 ws (headers_bytes (tran_headers (tranid s)) @ (le_bytes 2 0xffff @ le_bytes 2 10) @ le_bytes 2 0 @ bs)"
    by (auto simp: Sp_ExecuteSql_def simp del: le_bytes.simps)
  have n: "n < 65536" using assms(8) by (simp add: ready_def)
  have read: "\<exists>xs t. read_call dbcs (length args + 2) u = (Ret (3, tranid s, 10, xs), t) \<and>
        map (\<lambda>(n, x). (n, value_now (arrays t) x)) xs = ?nvs"
    if u: "incoming (transport (sess_buf u)) = ws @ rest" "length (buf (sess_buf u)) = n" for u rest
  proof -
    obtain xs t where x: "parses u bs (read_params dbcs (length ?nvs)) xs t"
      "map (\<lambda>(n, x). (n, value_now (arrays t) x)) xs = ?nvs"
      using bs(2) [of u] by (elim exE conjE) (rule that)
    from read_call_parses [OF w(3) x(1) _ u n] obtain b where
      "read_call dbcs (length ?nvs) u = (Ret (3, tranid s, of_nat 10, xs), t\<lparr>sess_buf := b\<rparr>)" by auto
    with x(2) show ?thesis unfolding len
      by (intro exI [of _ xs] exI [of _ "t\<lparr>sess_buf := b\<rparr>"] conjI) simp_all
  qed
  have "\<exists>s'. sendQuery L st args s = (Ret None, s') \<and> sess_buf s' = b'"
    using assms(1,2) ps(1) w(1)
    by (simp add: sendQuery_def Let_def seqG_apply bindG_apply log_if_def log_params_def liftO_def on_buf_def)
  with w(2) read show ?thesis by blast
qed

end
