(* ===== verification/PartWire.thy ===== *)
theory PartWire
  imports CallWire
begin

text \<open>
  The parts of which a server makes up a response, their bytes, and that the readers of the
  driver take each part off the wire: errors, messages, counts of rows, changes of the
  environment, the columns of a result and its rows.  A column here is of integers of any width,
  bits, floats or texts, each nullable or not, as the server declares it.
\<close>

section \<open>The parts of a response\<close>

text \<open>Integers of one, two, four or eight bytes, bits and floats are nullable or not; a text has the
  length in bytes that the column declares, and a collation.\<close>

datatype cell_kind =
    IntCol bool nat
  | BitCol bool
  | FloatCol bool
  | TextCol nat collation

text \<open>A column: its user type, its flags, its name and its kind.\<close>

datatype column_decl = ColDecl "32 word" "16 word" (col_name: string) (col_kind: cell_kind)

text \<open>
  The first argument of \<open>PDone\<close> tells a DONEPROC from a DONE, that of \<open>PRow\<close> a row with a bitmap of
  its nulls from a plain one; errors and messages have the length that the server writes before
  them.  \<open>PSetting\<close> is a change of a kind that the driver skips.
\<close>

datatype part =
    PDone bool doneStruct
  | PDoneInProc doneStruct
  | PStatus "32 word"
  | POrder "16 word list"
  | PError "16 word" server_error
  | PInfo "16 word" server_error
  | PBegin "64 word"
  | PEnd bool "octet list"
  | PDatabase string string
  | PSetting octet "octet list" "octet list"
  | PColumns "column_decl list"
  | PRow bool "driver_value list"

definition done_bytes :: "doneStruct \<Rightarrow> octet list" where
  "done_bytes d = le_bytes 2 (unat (Status d)) @ le_bytes 2 (unat (CurCmd d)) @ le_bytes 8 (unat (RowCount d))"

definition long_name_bytes :: "string \<Rightarrow> octet list" where
  "long_name_bytes t = le_bytes 2 (length (str2ucs2 t) div 2) @ str2ucs2 t"

definition error_bytes :: "16 word \<Rightarrow> server_error \<Rightarrow> octet list" where
  "error_bytes l e =
     le_bytes 2 (unat l) @ le_bytes 4 (unat (of_int (Number e) :: 32 word)) @ [State e] @ [Class e] @
     long_name_bytes (Message e) @ name_bytes (ErrServerName e) @ name_bytes (ProcName e) @
     le_bytes 4 (unat (of_int (LineNo e) :: 32 word))"

definition int_type :: "nat \<Rightarrow> octet" where
  "int_type sz = (if sz = 1 then typeInt1 else if sz = 2 then typeInt2 else if sz = 4 then typeInt4 else typeInt8)"

fun kind_bytes :: "cell_kind \<Rightarrow> octet list" where
  "kind_bytes (IntCol nullable sz) = (if nullable then [typeIntN, of_nat sz] else [int_type sz])"
| "kind_bytes (BitCol nullable) = (if nullable then [typeBitN, 1] else [typeBit])"
| "kind_bytes (FloatCol nullable) = (if nullable then [typeFltN, 8] else [typeFlt8])"
| "kind_bytes (TextCol n col) = typeNVarChar # le_bytes 2 n @ collation_bytes typeNVarChar col"

text \<open>An integer is written in the width of its column, a negative one in two's complement.\<close>

fun cell_bytes :: "cell_kind \<Rightarrow> driver_value \<Rightarrow> octet list" where
  "cell_bytes (IntCol nullable sz) (DInt i) = (if nullable then [of_nat sz] else []) @ le_bytes sz (unat i)"
| "cell_bytes (BitCol nullable) (DBool b) = (if nullable then [1] else []) @ [if b then 1 else 0]"
| "cell_bytes (FloatCol nullable) (DFloat i) = (if nullable then [8] else []) @ le_bytes 8 (unat i)"
| "cell_bytes (TextCol n col) (DString t) = short_bytes (Some (str2ucs2 t))"
| "cell_bytes (TextCol n col) v = short_bytes None"
| "cell_bytes k v = [0]"

text \<open>One byte has the integers from 0 to 255; the wider ones are signed.\<close>

definition int_fits :: "nat \<Rightarrow> 64 word \<Rightarrow> bool" where
  "int_fits sz i \<longleftrightarrow>
     (if sz = 1 then uint i < 256 else - (2 ^ (8 * sz - 1)) \<le> sint i \<and> sint i < 2 ^ (8 * sz - 1))"

fun cell_ok :: "cell_kind \<Rightarrow> driver_value \<Rightarrow> bool" where
  "cell_ok (IntCol nullable sz) v = (case v of DNil \<Rightarrow> nullable | DInt i \<Rightarrow> int_fits sz i | _ \<Rightarrow> False)"
| "cell_ok (BitCol nullable) v = (case v of DNil \<Rightarrow> nullable | DBool b \<Rightarrow> True | _ \<Rightarrow> False)"
| "cell_ok (FloatCol nullable) v = (case v of DNil \<Rightarrow> nullable | DFloat i \<Rightarrow> True | _ \<Rightarrow> False)"
| "cell_ok (TextCol n col) v = (case v of DNil \<Rightarrow> True | DString t \<Rightarrow> utf8 t \<and> length (str2ucs2 t) \<le> n | _ \<Rightarrow> False)"

fun column_bytes :: "column_decl \<Rightarrow> octet list" where
  "column_bytes (ColDecl usertype flags name k) =
     le_bytes 4 (unat usertype) @ le_bytes 2 (unat flags) @ kind_bytes k @ name_bytes name"

fun row_bytes :: "cell_kind list \<Rightarrow> driver_value list \<Rightarrow> octet list" where
  "row_bytes (k # ks) (v # vs) = cell_bytes k v @ row_bytes ks vs"
| "row_bytes _ _ = []"

text \<open>A row with a bitmap: the bit of a column that is null is set, and only the others have bytes.\<close>

definition null_byte :: "driver_value list \<Rightarrow> nat \<Rightarrow> octet" where
  "null_byte vs j = horner_sum of_bool 2 (map (\<lambda>i. 8 * j + i < length vs \<and> vs ! (8 * j + i) = DNil) [0..<8])"

definition null_bitmap :: "driver_value list \<Rightarrow> octet list" where
  "null_bitmap vs = map (null_byte vs) [0..<(length vs + 7) div 8]"

fun present_bytes :: "cell_kind list \<Rightarrow> driver_value list \<Rightarrow> octet list" where
  "present_bytes (k # ks) (v # vs) = (if v = DNil then [] else cell_bytes k v) @ present_bytes ks vs"
| "present_bytes _ _ = []"

fun part_bytes :: "cell_kind list \<Rightarrow> part \<Rightarrow> octet list" where
  "part_bytes ks (PDone proc d) = [if proc then 254 else 253] @ done_bytes d"
| "part_bytes ks (PDoneInProc d) = [255] @ done_bytes d"
| "part_bytes ks (PStatus i) = [121] @ le_bytes 4 (unat i)"
| "part_bytes ks (POrder ids) = [169] @ le_bytes 2 (2 * length ids) @ concat (map (\<lambda>i. le_bytes 2 (unat i)) ids)"
| "part_bytes ks (PError l e) = [170] @ error_bytes l e"
| "part_bytes ks (PInfo l e) = [171] @ error_bytes l e"
| "part_bytes ks (PBegin i) = [227] @ le_bytes 2 11 @ 8 # 8 # le_bytes 8 (unat i) @ [0]"
| "part_bytes ks (PEnd commit old) =
     [227] @ le_bytes 2 (Suc (Suc (Suc (length old)))) @ (if commit then 9 else 10) # 0 # of_nat (length old) # old"
| "part_bytes ks (PDatabase new old) =
     [227] @ le_bytes 2 (Suc (length (name_bytes new @ name_bytes old))) @ 1 # name_bytes new @ name_bytes old"
| "part_bytes ks (PSetting k new old) =
     [227] @ le_bytes 2 (Suc (Suc (Suc (length new + length old)))) @
     k # (of_nat (length new) # new) @ (of_nat (length old) # old)"
| "part_bytes ks (PColumns cds) = [129] @ le_bytes 2 (length cds) @ concat (map column_bytes cds)"
| "part_bytes ks (PRow bitmap vs) =
     (if bitmap then [210] @ null_bitmap vs @ present_bytes ks vs else [209] @ row_bytes ks vs)"

text \<open>The columns after a part, and the bytes of a response.\<close>

fun next_kinds :: "cell_kind list \<Rightarrow> part \<Rightarrow> cell_kind list" where
  "next_kinds ks (PColumns cds) = map col_kind cds"
| "next_kinds ks _ = ks"

fun response_bytes :: "cell_kind list \<Rightarrow> part list \<Rightarrow> octet list" where
  "response_bytes ks [] = []"
| "response_bytes ks (p # ps) = part_bytes ks p @ response_bytes (next_kinds ks p) ps"

definition name_ok :: "string \<Rightarrow> bool" where
  "name_ok t \<longleftrightarrow> utf8 t \<and> length (str2ucs2 t) \<le> 510"

definition error_ok :: "server_error \<Rightarrow> bool" where
  "error_ok e \<longleftrightarrow> utf8 (Message e) \<and> length (str2ucs2 (Message e)) < 131072 \<and> name_ok (ErrServerName e) \<and>
     name_ok (ProcName e) \<and> Number e \<in> {- (2 ^ 31)..<2 ^ 31} \<and> LineNo e \<in> {- (2 ^ 31)..<2 ^ 31}"

fun kind_ok :: "cell_kind \<Rightarrow> bool" where
  "kind_ok (IntCol nullable sz) = (sz = 1 \<or> sz = 2 \<or> sz = 4 \<or> sz = 8)"
| "kind_ok (TextCol n col) = (n < 65535)"
| "kind_ok _ = True"

fun part_ok :: "cell_kind list \<Rightarrow> part \<Rightarrow> bool" where
  "part_ok ks (POrder ids) = (length ids < 32768)"
| "part_ok ks (PError l e) = error_ok e"
| "part_ok ks (PInfo l e) = error_ok e"
| "part_ok ks (PEnd commit old) = (length old < 256)"
| "part_ok ks (PDatabase new old) = (name_ok new \<and> name_ok old)"
| "part_ok ks (PSetting k new old) = (k \<notin> {1, 4, 8, 9, 10, 13} \<and> length new < 256 \<and> length old < 256)"
| "part_ok ks (PColumns cds) =
     (length cds < 65535 \<and> list_all (\<lambda>c. name_ok (col_name c) \<and> kind_ok (col_kind c)) cds)"
| "part_ok ks (PRow bitmap vs) = list_all2 cell_ok ks vs"
| "part_ok ks _ = True"

fun parts_ok :: "cell_kind list \<Rightarrow> part list \<Rightarrow> bool" where
  "parts_ok ks [] = True"
| "parts_ok ks (p # ps) = (part_ok ks p \<and> parts_ok (next_kinds ks p) ps)"

section \<open>Numbers and texts\<close>

lemma takes_word16: "takes (le_bytes 2 (unat i)) buf_uint16 i"
  using takes_uint16 [of "unat i"] unsigned_less [of i, where ?'a = nat] by simp

lemma takes_word32: "takes (le_bytes 4 (unat i)) buf_uint32 i"
  using takes_uint32 [of "unat i"] unsigned_less [of i, where ?'a = nat] by simp

lemma takes_word64: "takes (le_bytes 8 (unat i)) buf_uint64 i"
  using takes_uint64 [of "unat i"] unsigned_less [of i, where ?'a = nat] by simp

lemma takes_int32: "takes (le_bytes 4 (unat (i :: 32 word))) buf_int32 (sint i)"
  using takes_bindG [OF takes_word32 [of i], where f = "\<lambda>i. ret (sint i)" and cs = "[]" and u = "sint i"]
  by (simp add: buf_int32_def takes_ret del: le_bytes.simps)

lemma sint_of_int32: "k \<in> {- (2 ^ 31)..<2 ^ 31} \<Longrightarrow> sint (of_int k :: 32 word) = k"
  by (simp add: signed_of_int signed_take_bit_int_eq_self)

lemma takes_long_name:
  assumes "utf8 nm" and "length (str2ucs2 nm) < 131072"
  shows "takes (long_name_bytes nm) UsVarChar nm"
proof -
  let ?n = "length (str2ucs2 nm) div 2"
  have n: "?n < 65536" using assms(2) by simp
  then have u: "unat (of_nat ?n :: 16 word) = ?n" by (simp add: unat_of_nat)
  have "length (str2ucs2 nm) = 2 * ?n" by (simp add: length_str2ucs2)
  with takes_readUcs2 [OF ucs2_round_trip [OF assms(1)]] have "takes (str2ucs2 nm) (buf_readUcs2 ?n) nm" by blast
  then show ?thesis
    unfolding UsVarChar_def long_name_bytes_def by (intro takes_bindG [OF takes_uint16 [OF n]]) (simp only: u)
qed

lemma takes_done: "takes (done_bytes d) parseDone d" "takes (done_bytes d) parseDoneInProc d"
proof -
  have "takes (le_bytes 2 (unat (Status d)) @ le_bytes 2 (unat (CurCmd d)) @ le_bytes 8 (unat (RowCount d)) @ []) parseDone d"
    unfolding parseDone_def
    by (rule takes_bindG [OF takes_word16], rule takes_bindG [OF takes_word16], rule takes_bindG [OF takes_word64])
       (cases d, simp add: takes_ret)
  then show "takes (done_bytes d) parseDone d" by (simp add: done_bytes_def)
  then show "takes (done_bytes d) parseDoneInProc d" by (simp add: parseDone_def parseDoneInProc_def)
qed

lemma takes_error:
  assumes "error_ok e"
  shows "takes (error_bytes l e) parseError72 e" and "takes (error_bytes l e) parseInfo e"
proof -
  have e: "utf8 (Message e)" "length (str2ucs2 (Message e)) < 131072" "utf8 (ErrServerName e)"
    "length (str2ucs2 (ErrServerName e)) \<le> 510" "utf8 (ProcName e)" "length (str2ucs2 (ProcName e)) \<le> 510"
    "sint (of_int (Number e) :: 32 word) = Number e" "sint (of_int (LineNo e) :: 32 word) = LineNo e"
    using assms by (auto simp: error_ok_def name_ok_def sint_of_int32)
  have "takes (le_bytes 2 (unat l) @ le_bytes 4 (unat (of_int (Number e) :: 32 word)) @ [State e] @ [Class e] @ long_name_bytes (Message e) @
     name_bytes (ErrServerName e) @ name_bytes (ProcName e) @ le_bytes 4 (unat (of_int (LineNo e) :: 32 word)) @ []) parseError72 e"
    unfolding parseError72_def
    by (rule takes_bindG [OF takes_word16], rule takes_bindG [OF takes_int32], rule takes_bindG [OF takes_byte],
        rule takes_bindG [OF takes_byte], rule takes_bindG [OF takes_long_name [OF e(1,2)]],
        rule takes_bindG [OF takes_name [OF e(3,4)]], rule takes_bindG [OF takes_name [OF e(5,6)]],
        rule takes_bindG [OF takes_int32]) (simp only: e(7,8), cases e, simp add: takes_ret)
  then show "takes (error_bytes l e) parseError72 e" by (simp add: error_bytes_def)
  then show "takes (error_bytes l e) parseInfo e" by (simp add: parseError72_def parseInfo_def)
qed

lemma takes_uint16s: "takes (concat (map (\<lambda>i. le_bytes 2 (unat i)) ids)) (read_uint16s (length ids)) ids"
proof (induction ids)
  case (Cons i ids)
  have "takes (le_bytes 2 (unat i) @ concat (map (\<lambda>i. le_bytes 2 (unat i)) ids) @ []) (read_uint16s (length (i # ids))) (i # ids)"
    unfolding list.size read_uint16s.simps add_Suc_right add_0_right
    by (rule takes_bindG [OF takes_word16], rule takes_bindG [OF Cons]) (rule takes_ret)
  then show ?case by simp
qed (simp only: read_uint16s.simps list.size list.map concat.simps takes_ret)

lemma takes_order:
  assumes "length ids < 32768"
  shows "takes (le_bytes 2 (2 * length ids) @ concat (map (\<lambda>i. le_bytes 2 (unat i)) ids)) parseOrder ids"
proof -
  have n: "2 * length ids < 65536" using assms by simp
  then have u: "unat (of_nat (2 * length ids) :: 16 word) div 2 = length ids" by (simp add: unat_of_nat del: of_nat_mult)
  show ?thesis
    unfolding parseOrder_def
    by (rule takes_bindG [OF takes_uint16 [OF n]]) (simp only: u takes_uint16s)
qed


section \<open>Changes of the environment\<close>

definition lparses :: "limited \<Rightarrow> octet list \<Rightarrow> (limited, 'a) go \<Rightarrow> 'a \<Rightarrow> limited \<Rightarrow> bool" where
  "lparses x bs m v y \<longleftrightarrow> (\<forall>b data rest. reading (bs @ data) rest b \<longrightarrow>
     (\<exists>b'. m ((fst x)\<lparr>sess_buf := b\<rparr>, snd x) = (Ret v, ((fst y)\<lparr>sess_buf := b'\<rparr>, snd y)) \<and> reading data rest b'))"

lemma lparses_bindG:
  assumes "lparses x bs m v y" and "lparses y cs (f v) u z"
  shows "lparses x (bs @ cs) (bindG m f) u z"
  unfolding lparses_def
proof (intro allI impI)
  fix b data rest
  assume "reading ((bs @ cs) @ data) rest b"
  then have "reading (bs @ cs @ data) rest b" by simp
  with assms(1) obtain b' where
    "m ((fst x)\<lparr>sess_buf := b\<rparr>, snd x) = (Ret v, ((fst y)\<lparr>sess_buf := b'\<rparr>, snd y))" "reading (cs @ data) rest b'"
    unfolding lparses_def by blast
  moreover from this assms(2) obtain b'' where
    "f v ((fst y)\<lparr>sess_buf := b'\<rparr>, snd y) = (Ret u, ((fst z)\<lparr>sess_buf := b''\<rparr>, snd z))" "reading data rest b''"
    unfolding lparses_def by blast
  ultimately show "\<exists>b'. bindG m f ((fst x)\<lparr>sess_buf := b\<rparr>, snd x) = (Ret u, ((fst z)\<lparr>sess_buf := b'\<rparr>, snd z)) \<and>
      reading data rest b'" by (auto simp: bindG_apply)
qed

lemma lparses_ret: "lparses x [] (ret v) v x"
  by (auto simp: lparses_def)

lemma lparses_seqG: "lparses x bs m v y \<Longrightarrow> lparses y cs k u z \<Longrightarrow> lparses x (bs @ cs) (seqG m k) u z"
  unfolding seqG_def by (rule lparses_bindG)

lemma lparses_need: "lparses x bs m (v, None) y \<Longrightarrow> lparses y cs (f v) u z \<Longrightarrow> lparses x (bs @ cs) (need m f) u z"
  unfolding need_def by (rule lparses_bindG, assumption) (simp only: prod.case option.case)

lemma lparses_on_sess: "parses s bs m v t \<Longrightarrow> lparses (s, l) bs (on_sess m) v (t, l)"
  unfolding lparses_def parses_def by (fastforce simp: on_sess_def)

lemma lim_read_n_reading:
  assumes "reading (bs @ data) rest b" and "length bs = n" and "n \<le> l"
  shows "\<exists>b'. lim_read_n n acc (s\<lparr>sess_buf := b\<rparr>, l) = (Ret (acc @ bs, None), (s\<lparr>sess_buf := b'\<rparr>, l - n)) \<and>
    reading data rest b'"
  using assms
proof (induction n arbitrary: acc bs b l rule: less_induct)
  case (less n)
  show ?case
  proof (cases "n = 0")
    case False
    with less.prems have ne: "bs @ data \<noteq> []" "0 < min n l" by auto
    from buf_Read_reading [OF less.prems(1) ne] obtain xs u where
      r: "buf_Read (min n l) b = (Ret (Inr xs), u)" "xs \<noteq> []" "length xs \<le> min n l"
        "xs = take (length xs) (bs @ data)" "reading (drop (length xs) (bs @ data)) rest u" by blast
    have le: "length xs \<le> length bs" using r(3) less.prems(2) by simp
    then have split: "bs = xs @ drop (length xs) bs" "drop (length xs) (bs @ data) = drop (length xs) bs @ data"
      using r(4) by (metis append_take_drop_id take_append diff_is_0_eq take_0 append_Nil2, simp)
    have run: "lim_Read n (s\<lparr>sess_buf := b\<rparr>, l) = (Ret (Inr xs), (s\<lparr>sess_buf := u\<rparr>, l - length xs))"
      using r(1) ne(2) by (simp add: lim_Read_def on_buf_def)
    have "n - length xs < n" "n - length xs \<le> l - length xs" "length (drop (length xs) bs) = n - length xs"
      using False r(2) less.prems(2,3) le by auto
    from less.IH [OF this(1) _ this(3) this(2), where acc = "acc @ xs" and b = u] r(5) split(2) obtain b' where
      b': "lim_read_n (n - length xs) (acc @ xs) (s\<lparr>sess_buf := u\<rparr>, l - length xs) =
        (Ret ((acc @ xs) @ drop (length xs) bs, None), (s\<lparr>sess_buf := b'\<rparr>, l - length xs - (n - length xs)))"
        "reading data rest b'" by auto
    have "l - length xs - (n - length xs) = l - n" using le less.prems(2,3) by simp
    with b' run split(1) False show ?thesis by (auto simp: lim_read_n.simps [of n])
  qed (use less.prems in \<open>auto simp: lim_read_n.simps\<close>)
qed

lemma lparses_ReadFull:
  assumes "length bs = n" and "n \<le> l"
  shows "lparses (s, l) bs (lim_ReadFull n) (bs, None) (s, l - n)"
  unfolding lparses_def
proof (intro allI impI)
  fix b data rest
  assume "reading (bs @ data) rest b"
  from lim_read_n_reading [OF this assms, of "[]" s]
  show "\<exists>b'. lim_ReadFull n ((fst (s, l))\<lparr>sess_buf := b\<rparr>, snd (s, l)) =
      (Ret (bs, None), ((fst (s, l - n))\<lparr>sess_buf := b'\<rparr>, snd (s, l - n))) \<and> reading data rest b'"
    by (auto simp: lim_ReadFull_def bindG_apply)
qed

lemma lparses_BVarByte:
  assumes "length bs < 256" and "length bs < l"
  shows "lparses (s, l) (of_nat (length bs) # bs) readBVarByte (bs, None) (s, l - Suc (length bs))"
proof -
  let ?n = "of_nat (length bs) :: octet"
  have n: "unat ?n = length bs" by (rule unat_octet_small [OF assms(1)])
  have one: "lparses (s, l) [?n] (lim_ReadFull 1) ([?n], None) (s, l - 1)"
    by (rule lparses_ReadFull) (use assms in auto)
  have rest: "lparses (s, l - 1) bs (lim_ReadFull (length bs)) (bs, None) (s, l - 1 - length bs)"
    by (rule lparses_ReadFull) (use assms in auto)
  have "lparses (s, l) ([?n] @ bs @ []) readBVarByte (bs, None) (s, l - 1 - length bs)"
    unfolding readBVarByte_def
    by (rule lparses_bindG [OF one], simp only: prod.case simp_thms not_False_eq_True if_False list.sel n,
        rule lparses_bindG [OF rest]) (simp add: lparses_ret n)
  then show ?thesis by simp
qed

lemma lparses_BVarChar:
  assumes "name_ok nm" and "length (name_bytes nm) \<le> l"
  shows "lparses (s, l) (name_bytes nm) readBVarChar (nm, None) (s, l - length (name_bytes nm))"
proof -
  have nm: "utf8 nm" "length (str2ucs2 nm) \<le> 510" using assms(1) by (auto simp: name_ok_def)
  let ?n = "length (str2ucs2 nm) div 2"
  have n: "unat (of_nat ?n :: octet) * 2 = length (str2ucs2 nm)"
    using nm(2) unat_octet_small [of ?n] length_str2ucs2 [of nm] by simp
  have l: "length (str2ucs2 nm) < l" using assms(2) by (simp add: name_bytes_def)
  have one: "lparses (s, l) [of_nat ?n] (lim_ReadFull 1) ([of_nat ?n], None) (s, l - 1)"
    by (rule lparses_ReadFull) (use l in auto)
  have rest: "lparses (s, l - 1) (str2ucs2 nm) (lim_ReadFull (length (str2ucs2 nm))) (str2ucs2 nm, None)
      (s, l - 1 - length (str2ucs2 nm))"
    by (rule lparses_ReadFull) (use l in auto)
  have "lparses (s, l) ([of_nat ?n] @ str2ucs2 nm @ []) readBVarChar (nm, None) (s, l - 1 - length (str2ucs2 nm))"
    unfolding readBVarChar_def
    by (rule lparses_bindG [OF one], simp only: prod.case simp_thms not_False_eq_True if_False list.sel n,
        rule lparses_bindG [OF rest]) (simp add: lparses_ret ucs2_round_trip [OF nm(1)])
  then show ?thesis by (simp add: name_bytes_def)
qed

lemma lparses_end: "lparses (s, 0) [] (env_loop T (Suc fuel)) () (s, 0)"
proof -
  have "lim_ReadFull 1 (t, 0) = (Ret ([], Some io_EOF), (t, 0))" for t
    by (simp add: lim_ReadFull_def bindG_apply lim_read_n.simps [of 1] lim_read_n.simps [of "Suc 0"] lim_Read_def)
  then show ?thesis by (auto simp: lparses_def bindG_apply)
qed


text \<open>A session apart from its buffer, its arrays and its log.\<close>

definition same_state :: "tdsSession \<Rightarrow> tdsSession \<Rightarrow> bool" where
  "same_state s t \<longleftrightarrow> tranid t = tranid s \<and> database t = database s \<and> loginAck t = loginAck s \<and> logFlags t = logFlags s"

definition logged_if :: "nat \<Rightarrow> bool \<Rightarrow> string \<Rightarrow> tdsSession \<Rightarrow> tdsSession" where
  "logged_if flag cond x s = (if logFlags s AND of_nat flag \<noteq> 0 \<and> cond then s\<lparr>logged := logged s @ [x]\<rparr> else s)"

lemma parses_log_if: "parses s [] (log_if flag cond x) () (logged_if flag cond x s)"
proof -
  let ?f = "\<lambda>s :: tdsSession. if logFlags s AND of_nat flag \<noteq> 0 \<and> cond then s\<lparr>logged := logged s @ [x]\<rparr> else s"
  have "parses s [] (modifyG ?f) () (?f s)" by (rule parses_modifyG) (simp add: buf_apart)
  then show ?thesis by (simp add: log_if_def logged_if_def)
qed

lemma logged_if_same [simp]:
  "tranid (logged_if f c x s) = tranid s" "database (logged_if f c x s) = database s"
  "loginAck (logged_if f c x s) = loginAck s" "logFlags (logged_if f c x s) = logFlags s"
  "arrays (logged_if f c x s) = arrays s"
  by (simp_all add: logged_if_def)

lemma parses_modify_tranid: "parses s [] (modifyG (\<lambda>s. s\<lparr>tranid := i\<rparr>)) () (s\<lparr>tranid := i\<rparr>)"
  by (rule parses_modifyG) (simp add: buf_apart)

text \<open>A change is one entry of its token.\<close>

lemma parses_env_token:
  assumes "length bs = l" and "lparses (s, l) bs (env_change T k) () (t, 0)" and "l < 65535"
  shows "parses s (le_bytes 2 (Suc l) @ k # bs) (processEnvChg T) () t"
proof -
  let ?n = "Suc l"
  have lt: "?n < 65536" using assms(3) by simp
  have u: "unat (of_nat ?n :: 16 word) = ?n" using lt by (simp only: unat_of_nat) simp
  have one: "lparses (s, ?n) [k] (lim_ReadFull 1) ([k], None) (s, ?n - 1)" by (rule lparses_ReadFull) simp_all
  have change: "lparses (s, ?n - 1) bs (env_change T k) () (t, 0)" using assms(2) by simp
  have "lparses (s, ?n) ([k] @ bs @ []) (env_loop T (Suc (Suc l))) () (t, 0)"
    unfolding env_loop.simps(2) [of T "Suc l"]
    by (rule lparses_bindG [OF one], simp only: prod.case option.case list.sel,
        rule lparses_seqG [OF change], rule lparses_end)
  then have loop: "lparses (s, ?n) (k # bs) (env_loop T (?n + 1)) () (t, 0)" by simp
  have "parses s (k # bs) (\<lambda>s. case env_loop T (?n + 1) (s, ?n) of (r, (t, left)) \<Rightarrow> (r, t)) () t"
    using loop unfolding parses_def lparses_def by fastforce
  then show ?thesis
    unfolding processEnvChg_def
    by (intro parses_bindG [OF parses_on_buf [OF takes_uint16 [OF lt]]]) (simp only: u)
qed

lemma parses_begin:
  "\<exists>t. parses s (le_bytes 2 11 @ 8 # 8 # le_bytes 8 (unat i) @ [0]) (processEnvChg T) () t \<and>
     same_state (s\<lparr>tranid := i\<rparr>) t \<and> arrays t = arrays s"
proof -
  let ?s = "s\<lparr>tranid := i\<rparr>"
  let ?t = "logged_if 32 True (''BEGIN TRANSACTION '' @ hex_text (unat i) @ [CHR 0x0A]) ?s"
  have i: "of_nat (le_value (le_bytes 8 (unat i))) = i"
    using unsigned_less [of i, where ?'a = nat] by (simp only: le_value_bytes) simp
  have r1: "lparses (s, 10) (8 # le_bytes 8 (unat i)) readBVarByte (le_bytes 8 (unat i), None) (s, 1)"
    using lparses_BVarByte [of "le_bytes 8 (unat i)" 10 s] by (simp del: le_bytes.simps)
  have r2: "lparses (?t, 1) [0] readBVarByte ([], None) (?t, 0)"
    using lparses_BVarByte [of "[]" 1 ?t] by simp
  have set: "parses s [] (modifyG (\<lambda>s. s\<lparr>tranid := of_nat (le_value (le_bytes 8 (unat i)))\<rparr>)) () ?s"
    unfolding i by (rule parses_modify_tranid)
  have "parses ?s [] (log_if 32 True (''BEGIN TRANSACTION '' @ hex_text (unat (tranid (?s\<lparr>sess_buf := b\<rparr>))) @ [CHR 0x0A])) () ?t" for b
    using parses_log_if [of ?s 32 True "''BEGIN TRANSACTION '' @ hex_text (unat i) @ [CHR 0x0A]"] by simp
  then have log: "parses ?s [] (readG (\<lambda>s. log_if 32 True (''BEGIN TRANSACTION '' @ hex_text (unat (tranid s)) @ [CHR 0x0A]))) () ?t"
    by (rule parses_readG)
  have body: "env_change T 8 = bindG readBVarByte (\<lambda>(id, err).
          if length id \<noteq> 8
          then badStreamPanicf (''invalid size of transaction identifier: '' @ Itoa (int (length id)))
          else seqG (on_sess (modifyG (\<lambda>s. s\<lparr>tranid := of_nat (le_value id)\<rparr>)))
            (case err of
               Some e \<Rightarrow> badStreamPanic e
             | None \<Rightarrow>
                 seqG (on_sess (readG (\<lambda>s. log_if 32 True (''BEGIN TRANSACTION '' @ hex_text (unat (tranid s)) @ [CHR 0x0A]))))
                 (need readBVarByte (\<lambda>_. ret ()))))"
    by (simp add: env_change_def)
  have "lparses (s, 10) ((8 # le_bytes 8 (unat i)) @ [] @ [] @ [0] @ []) (env_change T 8) () (?t, 0)"
    unfolding body
    by (rule lparses_bindG [OF r1],
        simp only: prod.case length_le_bytes simp_thms if_False option.case,
        rule lparses_seqG [OF lparses_on_sess [OF set]], rule lparses_seqG [OF lparses_on_sess [OF log]],
        rule lparses_need [OF r2], rule lparses_ret)
  then have "lparses (s, 10) (8 # le_bytes 8 (unat i) @ [0]) (env_change T 8) () (?t, 0)"
    by (simp only: append_Nil append_Nil2 append_Cons)
  from parses_env_token [OF _ this] have "parses s (le_bytes 2 11 @ 8 # 8 # le_bytes 8 (unat i) @ [0]) (processEnvChg T) () ?t"
    by (simp del: le_bytes.simps)
  moreover have "same_state ?s ?t" by (simp only: same_state_def logged_if_same simp_thms)
  moreover have "arrays ?t = arrays s" by (simp only: logged_if_same) simp
  ultimately show ?thesis by blast
qed

lemma parses_end:
  assumes "length old < 256"
  shows "\<exists>t. parses s (le_bytes 2 (Suc (Suc (Suc (length old)))) @ (if commit then 9 else 10) # 0 # of_nat (length old) # old)
      (processEnvChg T) () t \<and> same_state (s\<lparr>tranid := 0\<rparr>) t \<and> arrays t = arrays s"
proof -
  let ?k = "if commit then 9 else 10 :: octet"
  let ?x = "(if commit then ''COMMIT'' else ''ROLLBACK'') @ '' TRANSACTION '' @ hex_text (unat (tranid s)) @ [CHR 0x0A]"
  let ?s = "logged_if 32 True ?x s"
  let ?t = "?s\<lparr>tranid := 0\<rparr>"
  let ?l = "Suc (Suc (length old))"
  have r1: "lparses (s, ?l) [0] readBVarByte ([], None) (s, Suc (length old))"
    using lparses_BVarByte [of "[]" ?l s] by simp
  have r2: "lparses (s, Suc (length old)) (of_nat (length old) # old) readBVarByte (old, None) (s, 0)"
    using lparses_BVarByte [of old "Suc (length old)" s] assms by simp
  have "parses s [] (log_if 32 True ((if ?k = 9 then ''COMMIT'' else ''ROLLBACK'') @ '' TRANSACTION '' @
      hex_text (unat (tranid (s\<lparr>sess_buf := b\<rparr>))) @ [CHR 0x0A])) () ?s" for b
    using parses_log_if [of s 32 True ?x] by (cases commit) simp_all
  then have log: "parses s [] (readG (\<lambda>s. log_if 32 True ((if ?k = 9 then ''COMMIT'' else ''ROLLBACK'') @ '' TRANSACTION '' @
      hex_text (unat (tranid s)) @ [CHR 0x0A]))) () ?s"
    by (rule parses_readG)
  have body: "env_change T ?k = need readBVarByte (\<lambda>_. need readBVarByte (\<lambda>_.
          seqG (on_sess (readG (\<lambda>s. log_if 32 True
              ((if ?k = 9 then ''COMMIT'' else ''ROLLBACK'') @ '' TRANSACTION '' @ hex_text (unat (tranid s)) @ [CHR 0x0A]))))
          (on_sess (modifyG (\<lambda>s. s\<lparr>tranid := 0\<rparr>)))))"
    by (cases commit) (simp_all add: env_change_def)
  have "lparses (s, ?l) ([0] @ (of_nat (length old) # old) @ [] @ []) (env_change T ?k) () (?t, 0)"
    unfolding body
    by (rule lparses_need [OF r1], rule lparses_need [OF r2], rule lparses_seqG [OF lparses_on_sess [OF log]],
        rule lparses_on_sess, rule parses_modify_tranid)
  then have run: "lparses (s, ?l) (0 # of_nat (length old) # old) (env_change T ?k) () (?t, 0)"
    by (simp only: append_Nil append_Nil2 append_Cons)
  have "?l < 65535" using assms by simp
  from parses_env_token [OF _ run this]
  have "parses s (le_bytes 2 (Suc ?l) @ ?k # 0 # of_nat (length old) # old) (processEnvChg T) () ?t"
    by (simp only: list.size add_Suc_right add_0_right)
  moreover have "same_state (s\<lparr>tranid := 0\<rparr>) ?t" by (simp add: same_state_def)
  moreover have "arrays ?t = arrays s" by simp
  ultimately show ?thesis by blast
qed

lemma parses_database:
  assumes "name_ok new" and "name_ok old"
  shows "parses s (le_bytes 2 (Suc (length (name_bytes new @ name_bytes old))) @ 1 # name_bytes new @ name_bytes old)
      (processEnvChg T) () (s\<lparr>database := new\<rparr>)"
proof -
  let ?l = "length (name_bytes new @ name_bytes old)"
  let ?l' = "length (name_bytes old)"
  have small: "?l < 65535" using assms by (auto simp: name_bytes_def name_ok_def)
  have r1: "lparses (s, ?l) (name_bytes new) readBVarChar (new, None) (s, ?l')"
    using lparses_BVarChar [OF assms(1), of ?l s] by simp
  have r2: "lparses (s\<lparr>database := new\<rparr>, ?l') (name_bytes old) readBVarChar (old, None) (s\<lparr>database := new\<rparr>, 0)"
    using lparses_BVarChar [OF assms(2), of ?l' "s\<lparr>database := new\<rparr>"] by simp
  have set: "parses s [] (modifyG (\<lambda>s. s\<lparr>database := new\<rparr>)) () (s\<lparr>database := new\<rparr>)"
    by (rule parses_modifyG) (simp add: buf_apart)
  have body: "env_change T 1 = bindG readBVarChar (\<lambda>(db, err).
          seqG (on_sess (modifyG (\<lambda>s. s\<lparr>database := db\<rparr>)))
            (case err of Some e \<Rightarrow> badStreamPanic e | None \<Rightarrow> need readBVarChar (\<lambda>_. ret ())))"
    by (simp add: env_change_def)
  have "lparses (s, ?l) (name_bytes new @ [] @ name_bytes old @ []) (env_change T 1) () (s\<lparr>database := new\<rparr>, 0)"
    unfolding body
    by (rule lparses_bindG [OF r1], simp only: prod.case option.case, rule lparses_seqG [OF lparses_on_sess [OF set]],
        rule lparses_need [OF r2], rule lparses_ret)
  then have "lparses (s, ?l) (name_bytes new @ name_bytes old) (env_change T 1) () (s\<lparr>database := new\<rparr>, 0)"
    by (simp only: append_Nil append_Nil2)
  from parses_env_token [OF refl this small] show ?thesis .
qed

lemma parses_setting:
  assumes "k \<notin> {1, 4, 8, 9, 10, 13}" and "length new < 256" and "length old < 256"
  shows "parses s (le_bytes 2 (Suc (Suc (Suc (length new + length old)))) @
      k # (of_nat (length new) # new) @ (of_nat (length old) # old)) (processEnvChg T) () s"
proof -
  let ?l = "Suc (Suc (length new + length old))"
  have r1: "lparses (s, ?l) (of_nat (length new) # new) readBVarByte (new, None) (s, Suc (length old))"
    using lparses_BVarByte [of new ?l s] assms(2) by simp
  have r2: "lparses (s, Suc (length old)) (of_nat (length old) # old) readBVarByte (old, None) (s, 0)"
    using lparses_BVarByte [of old "Suc (length old)" s] assms(3) by simp
  have body: "env_change T k = need readBVarByte (\<lambda>_. need readBVarByte (\<lambda>_. ret ()))"
    using assms(1) by (simp add: env_change_def)
  have "lparses (s, ?l) ((of_nat (length new) # new) @ (of_nat (length old) # old) @ []) (env_change T k) () (s, 0)"
    unfolding body by (rule lparses_need [OF r1], rule lparses_need [OF r2], rule lparses_ret)
  then have run: "lparses (s, ?l) ((of_nat (length new) # new) @ (of_nat (length old) # old)) (env_change T k) () (s, 0)"
    by (simp only: append_Nil2)
  have "?l < 65535" using assms by simp
  from parses_env_token [OF _ run this] show ?thesis by simp
qed

section \<open>Columns and their values\<close>

text \<open>Where the values of a column arrive: an array of the length that the column declares.\<close>

abbreviation shape :: "tdsSession \<Rightarrow> nat list" where
  "shape s \<equiv> map length (arrays s)"

definition fixed_info :: "octet \<Rightarrow> nat \<Rightarrow> typeInfo" where
  "fixed_info t a =
     zero_typeInfo\<lparr>TypeId := t, Size := int (fixed_size t), Reader := Some RFixed, Buffer := Some a\<rparr>"

fun kind_info :: "cell_kind \<Rightarrow> nat \<Rightarrow> typeInfo" where
  "kind_info (IntCol nullable sz) a =
     (if nullable then byte_len_info typeIntN (of_nat sz) a else fixed_info (int_type sz) a)"
| "kind_info (BitCol nullable) a = (if nullable then byte_len_info typeBitN 1 a else fixed_info typeBit a)"
| "kind_info (FloatCol nullable) a = (if nullable then byte_len_info typeFltN 8 a else fixed_info typeFlt8 a)"
| "kind_info (TextCol n col) a = short_info typeNVarChar n (read_collation_of typeNVarChar col) a"

fun kind_size :: "cell_kind \<Rightarrow> nat" where
  "kind_size (IntCol nullable sz) = sz"
| "kind_size (BitCol nullable) = 1"
| "kind_size (FloatCol nullable) = 8"
| "kind_size (TextCol n col) = n"

definition col_is :: "nat list \<Rightarrow> cell_kind \<Rightarrow> typeInfo \<Rightarrow> bool" where
  "col_is sh k d \<longleftrightarrow> kind_ok k \<and> (\<exists>a<length sh. d = kind_info k a \<and> sh ! a = kind_size k)"

lemma col_is_prefix: "col_is sh k d \<Longrightarrow> prefix sh sh' \<Longrightarrow> col_is sh' k d"
  by (auto simp: col_is_def prefix_def nth_append)

lemma same_state_refl [simp]: "same_state s s"
  by (simp add: same_state_def)

lemma same_state_trans: "same_state s t \<Longrightarrow> same_state t u \<Longrightarrow> same_state s u"
  by (simp add: same_state_def)

lemma same_state_arrays [simp]: "same_state s (new_array n s)" "same_state s (fill_array a bs s)"
  by (simp_all add: same_state_def new_array_def fill_array_def)

lemma shape_new_array [simp]: "shape (new_array n s) = shape s @ [n]"
  by (simp add: new_array_def)

lemma length_put_at: "length bs \<le> length xs \<Longrightarrow> length (put_at 0 bs xs) = length xs"
  by (simp add: put_at_def)

lemma shape_fill_array: "length bs \<le> length (arrays s ! a) \<Longrightarrow> shape (fill_array a bs s) = shape s"
  by (auto simp: fill_array_def length_put_at map_update list_update_same_conv intro!: nth_equalityI)
     (metis length_map length_put_at list_update_beyond list_update_id map_update not_less nth_list_update nth_map)

lemma parses_fixed_info:
  assumes "t \<in> set fixed_types"
  shows "parses s [t] readTypeInfo (fixed_info t (length (arrays s))) (new_array (fixed_size t) s)"
proof -
  have "parses s ([t] @ [] @ []) readTypeInfo (fixed_info t (length (arrays s))) (new_array (fixed_size t) s)"
    unfolding readTypeInfo_def fixed_info_def
    by (rule parses_bindG [OF parses_on_buf [OF takes_byte]], simp only: assms if_True,
        rule parses_bindG [OF parses_new_array], rule parses_ret)
  then show ?thesis by simp
qed

lemma fixed_kinds: "typeBit \<in> set fixed_types" "typeFlt8 \<in> set fixed_types" "int_type sz \<in> set fixed_types"
  "fixed_size typeBit = 1" "fixed_size typeFlt8 = 8" "kind_ok (IntCol b sz) \<Longrightarrow> fixed_size (int_type sz) = sz"
  by (auto simp: type_lists int_type_def fixed_size_def)

lemma unat_width: "kind_ok (IntCol b sz) \<Longrightarrow> unat (of_nat sz :: octet) = sz"
  by (rule unat_octet_small) auto

lemma parses_kind:
  assumes "kind_ok k"
  shows "parses s (kind_bytes k) readTypeInfo (kind_info k (length (arrays s))) (new_array (kind_size k) s)"
proof (cases k)
  case (TextCol n col)
  with assms parses_short_info [of typeNVarChar n s col] show ?thesis
    by (simp add: short_type_def del: le_bytes.simps)
next
  case (IntCol nullable sz)
  note n = unat_width [OF assms [unfolded IntCol]] and f = fixed_kinds(6) [OF assms [unfolded IntCol]]
  show ?thesis
    using parses_byte_len_info [of typeIntN s "of_nat sz"] parses_fixed_info [OF fixed_kinds(3), of s sz]
    by (simp add: IntCol n f byte_len_type_def type_lists)
next
  case (BitCol nullable)
  with parses_byte_len_info [of typeBitN s 1] parses_fixed_info [OF fixed_kinds(1), of s] show ?thesis
    by (simp add: fixed_kinds byte_len_type_def type_lists)
next
  case (FloatCol nullable)
  with parses_byte_len_info [of typeFltN s 8] parses_fixed_info [OF fixed_kinds(2), of s] show ?thesis
    by (simp add: fixed_kinds byte_len_type_def type_lists)
qed

lemma parses_column:
  assumes "name_ok nm" and "kind_ok k"
  shows "\<exists>c t. parses s (column_bytes (ColDecl ut fl nm k)) parseColumn c t \<and> ColName c = nm \<and>
    UserType c = ut \<and> Flags c = fl \<and> col_is (shape t) k (ti c) \<and> same_state s t \<and> prefix (shape s) (shape t)"
proof -
  let ?d = "kind_info k (length (arrays s))"
  let ?t = "new_array (kind_size k) s"
  let ?c = "\<lparr>UserType = ut, Flags = fl, ColName = nm, ti = ?d\<rparr>"
  have n: "utf8 nm" "length (str2ucs2 nm) \<le> 510" using assms(1) by (auto simp: name_ok_def)
  have "parses s (le_bytes 4 (unat ut) @ le_bytes 2 (unat fl) @ kind_bytes k @ name_bytes nm @ []) parseColumn ?c ?t"
    unfolding parseColumn_def
    by (rule parses_bindG [OF parses_on_buf [OF takes_word32]],
        rule parses_bindG [OF parses_on_buf [OF takes_word16]],
        rule parses_bindG [OF parses_kind [OF assms(2)]],
        rule parses_bindG [OF parses_on_buf [OF takes_name [OF n]]]) (rule parses_ret)
  moreover have "col_is (shape ?t) k ?d"
    unfolding col_is_def using assms(2) by (intro conjI exI [of _ "length (arrays s)"]) (simp_all add: nth_append)
  moreover have "prefix (shape s) (shape ?t)" by simp
  ultimately show ?thesis
    by (intro exI [of _ ?c] exI [of _ ?t] conjI)
       (simp_all only: column_bytes.simps append_Nil2 columnStruct.simps same_state_arrays)
qed

lemma parses_columns:
  assumes "list_all (\<lambda>c. name_ok (col_name c) \<and> kind_ok (col_kind c)) cds"
  shows "\<exists>cs t. parses s (concat (map column_bytes cds)) (parseColumns (length cds)) cs t \<and> map ColName cs = map col_name cds \<and>
    list_all2 (\<lambda>k c. col_is (shape t) k (ti c)) (map col_kind cds) cs \<and> same_state s t \<and> prefix (shape s) (shape t)"
  using assms
proof (induction cds arbitrary: s)
  case (Cons c cds)
  obtain ut fl nm k where c: "c = ColDecl ut fl nm k" by (cases c)
  with Cons.prems obtain x t where
    x: "parses s (column_bytes c) parseColumn x t" "ColName x = nm" "col_is (shape t) k (ti x)" "same_state s t"
      "prefix (shape s) (shape t)" using parses_column [of nm k s ut fl] by auto
  from Cons.IH [of t] Cons.prems obtain xs u where
    xs: "parses t (concat (map column_bytes cds)) (parseColumns (length cds)) xs u" "map ColName xs = map col_name cds"
      "list_all2 (\<lambda>k c. col_is (shape u) k (ti c)) (map col_kind cds) xs" "same_state t u" "prefix (shape t) (shape u)" by auto
  have "parses s (column_bytes c @ concat (map column_bytes cds) @ []) (parseColumns (Suc (length cds))) (x # xs) u"
    unfolding parseColumns.simps by (rule parses_bindG [OF x(1)], rule parses_bindG [OF xs(1)], rule parses_ret)
  moreover have "col_is (shape u) k (ti x)" by (rule col_is_prefix [OF x(3) xs(5)])
  ultimately show ?case using c x(2) xs(2,3) same_state_trans [OF x(4) xs(4)] prefix_order.trans [OF x(5) xs(5)]
    by (intro exI [of _ "x # xs"] exI [of _ u]) simp
qed (use parses_ret in fastforce)

lemma parses_colMetadata:
  assumes "list_all (\<lambda>c. name_ok (col_name c) \<and> kind_ok (col_kind c)) cds" and "length cds < 65535"
  shows "\<exists>cs t. parses s (le_bytes 2 (length cds) @ concat (map column_bytes cds)) parseColMetadata72 cs t \<and>
    map ColName cs = map col_name cds \<and> list_all2 (\<lambda>k c. col_is (shape t) k (ti c)) (map col_kind cds) cs \<and> same_state s t"
proof -
  obtain cs t where
    cs: "parses s (concat (map column_bytes cds)) (parseColumns (length cds)) cs t" "map ColName cs = map col_name cds"
      "list_all2 (\<lambda>k c. col_is (shape t) k (ti c)) (map col_kind cds) cs" "same_state s t"
    using parses_columns [OF assms(1), of s] by blast
  have n: "length cds < 65536" "unat (of_nat (length cds) :: 16 word) = length cds"
    using assms(2) by (simp_all add: unat_of_nat)
  have "parses s (le_bytes 2 (length cds) @ concat (map column_bytes cds)) parseColMetadata72 cs t"
    unfolding parseColMetadata72_def
    by (rule parses_bindG [OF parses_on_buf [OF takes_uint16 [OF n(1)]]])
       (simp only: not_unlimited [OF assms(2)] if_False n(2) cs(1))
  with cs show ?thesis by blast
qed

text \<open>One value, and a row.\<close>

lemma parses_filled:
  assumes "parses s bs m v (fill_array a xs s)" and "length xs \<le> length (arrays s ! a)"
  shows "\<exists>t. parses s bs m v t \<and> same_state s t \<and> shape t = shape s"
  using assms shape_fill_array [OF assms(2)] by (intro exI [of _ "fill_array a xs s"]) simp

lemma parses_cell_byte_len:
  assumes "a < length (shape s)" and "shape s ! a = length bs" and "length bs = unat n" and "n \<noteq> 0"
    and "byte_len_value dbcs (byte_len_info ty m a) bs = Ret v"
  shows "\<exists>t. parses s (n # bs) (run_reader dbcs (byte_len_info ty m a)) v t \<and> same_state s t \<and> shape t = shape s"
proof (rule parses_filled)
  show le: "length bs \<le> length (arrays s ! a)" using assms(1,2) by simp
  show "parses s (n # bs) (run_reader dbcs (byte_len_info ty m a)) v (fill_array a bs s)"
    by (rule parses_byte_len) (use assms le in \<open>simp_all add: byte_len_info_def\<close>)
qed

lemma parses_cell_byte_len_null:
  "\<exists>t. parses s [0] (run_reader dbcs (byte_len_info ty m a)) VNil t \<and> same_state s t \<and> shape t = shape s"
  by (intro exI [of _ s] conjI parses_byte_len_null) (simp_all add: byte_len_info_def)

lemma parses_cell_fixed:
  assumes "a < length (shape s)" and "shape s ! a = length bs" and "length bs = fixed_size ty"
    and "fixed_value ty bs = Ret v"
  shows "\<exists>t. parses s bs (run_reader dbcs (fixed_info ty a)) v t \<and> same_state s t \<and> shape t = shape s"
proof (rule parses_filled)
  show le: "length bs \<le> length (arrays s ! a)" using assms(1,2) by simp
  have sel: "Buffer (fixed_info ty a) = Some a" "Size (fixed_info ty a) = int (fixed_size ty)" "TypeId (fixed_info ty a) = ty"
    by (simp_all add: fixed_info_def)
  have "parses s (bs @ []) (readFixedType (fixed_info ty a)) v (fill_array a bs s)"
    unfolding readFixedType_def sel nat_int
    by (rule parses_bindG [OF parses_fill_array [OF le assms(3)]]) (simp only: assms(4) parses_liftO)
  then show "parses s bs (run_reader dbcs (fixed_info ty a)) v (fill_array a bs s)"
    by (simp add: run_reader_def fixed_info_def)
qed

text \<open>The integers of each width.\<close>

lemma word_of_le: "of_nat (le_value (le_bytes 8 (unat (i :: 64 word)))) = i"
  using unsigned_less [of i, where ?'a = nat] by (simp only: le_value_bytes) simp

lemma scast_back:
  assumes "sint (x :: 'a::len word) = sint (i :: 64 word)"
  shows "scast x = i"
  by (simp add: scast_eq assms)

lemma le_narrow:
  "of_nat (le_value (le_bytes 2 (unat (i :: 64 word)))) = (scast i :: 16 word)"
  "of_nat (le_value (le_bytes 4 (unat i))) = (scast i :: 32 word)"
proof -
  have "of_nat (unat i mod 2 ^ 16) = (ucast i :: 16 word)" "of_nat (unat i mod 2 ^ 32) = (ucast i :: 32 word)"
    by (simp_all add: word_unat_eq_iff unat_of_nat unsigned_ucast_eq take_bit_eq_mod)
  moreover have "(ucast i :: 16 word) = scast i" "(ucast i :: 32 word) = scast i"
    by (rule bit_word_eqI, simp add: bit_unsigned_iff bit_signed_iff)+
  ultimately show "of_nat (le_value (le_bytes 2 (unat i))) = (scast i :: 16 word)"
      "of_nat (le_value (le_bytes 4 (unat i))) = (scast i :: 32 word)"
    by (simp_all only: le_value_bytes) simp_all
qed
lemma int_of_narrow:
  "- (2 ^ 15) \<le> sint (i :: 64 word) \<Longrightarrow> sint i < 2 ^ 15 \<Longrightarrow> int2_of_le (le_bytes 2 (unat i)) = i"
  "- (2 ^ 31) \<le> sint i \<Longrightarrow> sint i < 2 ^ 31 \<Longrightarrow> int4_of_le (le_bytes 4 (unat i)) = i"
  unfolding int2_of_le_def int4_of_le_def le_narrow
  by (rule scast_back, simp add: signed_scast_eq signed_take_bit_int_eq_self)+
lemma int_of_octet: "uint (i :: 64 word) < 256 \<Longrightarrow> ucast (hd (le_bytes 1 (unat i))) = i"
  by (simp add: word_uint_eq_iff uint_mod unsigned_ucast_eq take_bit_eq_mod)

lemma cell_values:
  assumes "kind_ok (IntCol b sz)" and "int_fits sz i"
  shows "byte_len_value dbcs (byte_len_info typeIntN m a) (le_bytes sz (unat i)) = Ret (VInt i)"
    and "fixed_value (int_type sz) (le_bytes sz (unat i)) = Ret (VInt i)"
proof -
  consider "sz = 1" | "sz = 2" | "sz = 4" | "sz = 8" using assms(1) by auto
  then have "byte_len_value dbcs (byte_len_info typeIntN m a) (le_bytes sz (unat i)) = Ret (VInt i) \<and>
    fixed_value (int_type sz) (le_bytes sz (unat i)) = Ret (VInt i)"
    by cases
       (use assms(2) in \<open>simp_all only: int_fits_def byte_len_value_def byte_len_info_def fixed_value_def int_type_def\<close>,
        simp_all add: type_lists Let_def int_of_le_def word_of_le int_of_octet [unfolded One_nat_def] int_of_narrow del: le_bytes.simps le_value_bytes)
  then show "byte_len_value dbcs (byte_len_info typeIntN m a) (le_bytes sz (unat i)) = Ret (VInt i)"
    "fixed_value (int_type sz) (le_bytes sz (unat i)) = Ret (VInt i)" by simp_all
qed

lemma bit_float_values:
  "byte_len_value dbcs (byte_len_info typeFltN m a) (le_bytes 8 (unat i)) = Ret (VFloat64 i)"
  "fixed_value typeFlt8 (le_bytes 8 (unat i)) = Ret (VFloat64 i)"
  "byte_len_value dbcs (byte_len_info typeBitN m a) [if b then 1 else 0] = Ret (VBool b)"
  "fixed_value typeBit [if b then 1 else 0] = Ret (VBool b)"
  by (simp_all add: byte_len_value_def byte_len_info_def fixed_value_def int_of_le_def word_of_le type_lists Let_def
        del: le_bytes.simps le_value_bytes)

lemma parses_cell:
  assumes "col_is (shape s) k d" and "cell_ok k v"
  shows "\<exists>t. parses s (cell_bytes k v) (run_reader dbcs d) (wire_value v) t \<and> same_state s t \<and> shape t = shape s"
proof -
  obtain a where a: "a < length (shape s)" "d = kind_info k a" "shape s ! a = kind_size k" "kind_ok k"
    using assms(1) by (auto simp: col_is_def)
  show ?thesis
  proof (cases k)
    case (IntCol nullable sz)
    note ok = a(4) [unfolded IntCol]
    have sz: "unat (of_nat sz :: octet) = sz" "sz \<noteq> 0" using unat_width [OF ok] ok by auto
    then have "(of_nat sz :: octet) \<noteq> 0" by (metis unat_0)
    note sz = sz this fixed_kinds(6) [OF ok]
    show ?thesis
    proof (cases v)
      case (DInt i)
      then have fits: "int_fits sz i" using assms(2) IntCol by simp
      have len: "a < length (shape s)" "shape s ! a = length (le_bytes sz (unat i))" using a IntCol by simp_all
      show ?thesis
        using parses_cell_byte_len [OF len _ _ cell_values(1) [OF ok fits], of "of_nat sz"]
          parses_cell_fixed [OF len _ cell_values(2) [OF ok fits]] sz
        by (simp add: IntCol DInt a(2) del: le_bytes.simps)
    qed (use assms(2) IntCol a parses_cell_byte_len_null in simp_all)
  next
    case (BitCol nullable)
    show ?thesis
    proof (cases v)
      case (DBool b)
      have len: "a < length (shape s)" "shape s ! a = length [if b then 1 else 0 :: octet]" using a BitCol by simp_all
      show ?thesis
        using parses_cell_byte_len [OF len _ _ bit_float_values(3), of 1] parses_cell_fixed [OF len _ bit_float_values(4)]
        by (simp add: BitCol DBool a(2) fixed_kinds)
    qed (use assms(2) BitCol a parses_cell_byte_len_null in simp_all)
  next
    case (FloatCol nullable)
    show ?thesis
    proof (cases v)
      case (DFloat i)
      have len: "a < length (shape s)" "shape s ! a = length (le_bytes 8 (unat i))" using a FloatCol by simp_all
      show ?thesis
        using parses_cell_byte_len [OF len _ _ bit_float_values(1), of 8] parses_cell_fixed [OF len _ bit_float_values(2)]
        by (simp add: FloatCol DFloat a(2) fixed_kinds del: le_bytes.simps)
    qed (use assms(2) FloatCol a parses_cell_byte_len_null in simp_all)
  next
    case (TextCol n col)
    show ?thesis
    proof (cases v)
      case DNil
      with TextCol a show ?thesis
        by (intro exI [of _ s] conjI) (simp_all add: parses_short_null short_info_def del: le_bytes.simps)
    next
      case (DString x)
      have x: "utf8 x" "length (str2ucs2 x) \<le> n" using assms(2) TextCol DString by auto
      then have "as_string (decodeNChar (str2ucs2 x)) = Ret (VString x)" by (simp add: str2ucs2_bytes)
      moreover have "length (str2ucs2 x) \<le> length (arrays s ! a)" "length (str2ucs2 x) < 65535"
        using a TextCol x(2) by simp_all
      ultimately have "parses s (short_bytes (Some (str2ucs2 x))) (run_reader dbcs d) (VString x)
          (fill_array a (str2ucs2 x) s)"
        by (intro parses_short) (use a TextCol in \<open>simp_all add: short_info_def short_len_value_def type_lists Let_def\<close>)
      from parses_filled [OF this] a TextCol x(2) DString show ?thesis by simp
    qed (use assms(2) TextCol in simp_all)
  qed
qed

lemma parses_row:
  assumes "list_all2 (\<lambda>k c. col_is (shape s) k (ti c)) ks cs" and "list_all2 cell_ok ks vs"
  shows "\<exists>t. parses s (row_bytes ks vs) (parseRow dbcs cs) (map wire_value vs) t \<and> same_state s t \<and> shape t = shape s"
  using assms
proof (induction ks arbitrary: cs vs s)
  case (Cons k ks)
  obtain c cs' v vs' where e: "cs = c # cs'" "vs = v # vs'" "col_is (shape s) k (ti c)" "cell_ok k v"
    "list_all2 (\<lambda>k c. col_is (shape s) k (ti c)) ks cs'" "list_all2 cell_ok ks vs'"
    using Cons.prems by (auto simp: list_all2_Cons1)
  from parses_cell [OF e(3,4), of dbcs] obtain t where
    t: "parses s (cell_bytes k v) (run_reader dbcs (ti c)) (wire_value v) t" "same_state s t" "shape t = shape s" by blast
  with Cons.IH [of t cs' vs'] e(5,6) obtain u where
    u: "parses t (row_bytes ks vs') (parseRow dbcs cs') (map wire_value vs') u" "same_state t u" "shape u = shape t" by auto
  have "parses s (cell_bytes k v @ row_bytes ks vs' @ []) (parseRow dbcs (c # cs')) (wire_value v # map wire_value vs') u"
    unfolding parseRow.simps by (rule parses_bindG [OF t(1)], rule parses_bindG [OF u(1)], rule parses_ret)
  with e t u same_state_trans show ?case by (intro exI [of _ u]) auto
qed (use parses_ret in fastforce)

text \<open>A row with the bitmap of its nulls.\<close>

lemma null_bitmap_bit:
  assumes "i < length vs"
  shows "null_bitmap vs ! (i div 8) AND push_bit (i mod 8) 1 \<noteq> 0 \<longleftrightarrow> vs ! i = DNil"
proof -
  have "null_bitmap vs ! (i div 8) = null_byte vs (i div 8)" using assms by (simp add: null_bitmap_def)
  moreover have "8 * (i div 8) + i mod 8 = i" by simp
  ultimately show ?thesis
    using assms by (simp add: and_exp_eq_0_iff_not_bit null_byte_def bit_horner_sum_bit_word_iff)
qed

lemma parses_nbc_values:
  assumes "list_all2 (\<lambda>k c. col_is (shape s) k (ti c)) ks cs" and "list_all2 cell_ok ks vs"
    and "\<And>j. j < length vs \<Longrightarrow> pres ! ((i + j) div 8) AND push_bit ((i + j) mod 8) 1 \<noteq> 0 \<longleftrightarrow> vs ! j = DNil"
  shows "\<exists>t. parses s (present_bytes ks vs) (nbc_values dbcs pres i cs) (map wire_value vs) t \<and> same_state s t \<and>
    shape t = shape s"
  using assms
proof (induction ks arbitrary: cs vs s i)
  case (Cons k ks)
  obtain c cs' v vs' where e: "cs = c # cs'" "vs = v # vs'" "col_is (shape s) k (ti c)" "cell_ok k v"
    "list_all2 (\<lambda>k c. col_is (shape s) k (ti c)) ks cs'" "list_all2 cell_ok ks vs'"
    using Cons.prems by (auto simp: list_all2_Cons1)
  have first: "pres ! (i div 8) AND push_bit (i mod 8) 1 \<noteq> 0 \<longleftrightarrow> v = DNil"
    using Cons.prems(3) [of 0] e(2) by simp
  have later: "pres ! ((i + 1 + j) div 8) AND push_bit ((i + 1 + j) mod 8) 1 \<noteq> 0 \<longleftrightarrow> vs' ! j = DNil" if "j < length vs'" for j
    using Cons.prems(3) [of "Suc j"] e(2) that by simp
  let ?bs = "if v = DNil then [] else cell_bytes k v"
  let ?m = "if v = DNil then ret VNil else run_reader dbcs (ti c)"
  obtain t where t: "parses s ?bs ?m (wire_value v) t" "same_state s t" "shape t = shape s"
    using parses_cell [OF e(3,4), of dbcs] parses_ret [of s VNil] by (cases "v = DNil") auto
  with Cons.IH [of t cs' vs' "i + 1", OF _ e(6) later] e(5) obtain u where
    u: "parses t (present_bytes ks vs') (nbc_values dbcs pres (i + 1) cs') (map wire_value vs') u" "same_state t u"
      "shape u = shape t" by auto
  have "parses s (?bs @ present_bytes ks vs' @ []) (nbc_values dbcs pres i (c # cs')) (wire_value v # map wire_value vs') u"
    unfolding nbc_values.simps first by (rule parses_bindG [OF t(1)], rule parses_bindG [OF u(1)], rule parses_ret)
  with e t u same_state_trans show ?case by (intro exI [of _ u]) auto
qed (use parses_ret in fastforce)

lemma parses_nbc_row:
  assumes "list_all2 (\<lambda>k c. col_is (shape s) k (ti c)) ks cs" and "list_all2 cell_ok ks vs"
  shows "\<exists>t. parses s (null_bitmap vs @ present_bytes ks vs) (parseNbcRow dbcs cs) (map wire_value vs) t \<and>
    same_state s t \<and> shape t = shape s"
proof -
  have len: "length cs = length vs" using assms by (simp add: list_all2_conv_all_nth)
  have n: "length (null_bitmap vs) = (length cs + 7) div 8" by (simp add: null_bitmap_def len)
  from parses_nbc_values [OF assms, of "null_bitmap vs" 0 dbcs] null_bitmap_bit obtain t where
    t: "parses s (present_bytes ks vs) (nbc_values dbcs (null_bitmap vs) 0 cs) (map wire_value vs) t" "same_state s t"
      "shape t = shape s" by auto
  have "parses s (null_bitmap vs @ present_bytes ks vs) (parseNbcRow dbcs cs) (map wire_value vs) t"
    unfolding parseNbcRow_def by (rule parses_bindG [OF parses_on_buf [OF takes_ReadFull_n [OF n]]]) (rule t(1))
  with t(2,3) show ?thesis by blast
qed

end
