(* ===== verification/StreamEnd.thy ===== *)
theory StreamEnd
  imports Response
begin

text \<open>
  Reading a response ends.  Everything that reads from the packet buffer is \<open>calm\<close>: it takes from
  what is to be read, its bounded loops do not run out of fuel, and it writes nothing.  Each token takes a byte at
  least, so that the fuel of the loop over the tokens is enough.
\<close>

named_theorems calm \<open>code that comes nearer to the end of the stream\<close>

definition sane_at :: "octet list list \<Rightarrow> tdsBuffer \<Rightarrow> bool" where
  "sane_at out b \<longleftrightarrow> pos b < 65536 \<and> bsize b < 65536 \<and> outgoing (transport b) = out"

definition sane :: "tdsBuffer \<Rightarrow> bool" where
  "sane b \<longleftrightarrow> pos b < 65536 \<and> bsize b < 65536"

lemma sane_at_outgoing: "sane b \<longleftrightarrow> sane_at (outgoing (transport b)) b"
  by (simp add: sane_def sane_at_def)

definition to_read :: "tdsBuffer \<Rightarrow> nat" where
  "to_read b = 65536 * length (incoming (transport b)) + (bsize b + 65536 - pos b) mod 65536"

definition calm :: "('s \<Rightarrow> tdsBuffer) \<Rightarrow> ('s, 'a) go \<Rightarrow> bool" where
  "calm get m \<longleftrightarrow> (\<forall>out s r t. m s = (r, t) \<longrightarrow> sane_at out (get s) \<longrightarrow>
     sane_at out (get t) \<and> to_read (get t) \<le> to_read (get s) \<and> r \<noteq> Panicked OutOfFuel)"

lemma calmI:
  "(\<And>out s r t. m s = (r, t) \<Longrightarrow> sane_at out (get s) \<Longrightarrow>
     sane_at out (get t) \<and> to_read (get t) \<le> to_read (get s) \<and> r \<noteq> Panicked OutOfFuel) \<Longrightarrow> calm get m"
  by (simp add: calm_def)

lemma calmD:
  "calm get m \<Longrightarrow> m s = (r, t) \<Longrightarrow> sane_at out (get s) \<Longrightarrow>
     sane_at out (get t) \<and> to_read (get t) \<le> to_read (get s) \<and> r \<noteq> Panicked OutOfFuel"
  by (simp add: calm_def)

lemma calm_ret [calm]: "calm get (ret v)"
  by (simp add: calm_def)

lemma calm_panic: "v \<noteq> OutOfFuel \<Longrightarrow> calm get (go_panic v)"
  by (simp add: calm_def)

lemma calm_panics [calm]:
  "calm get (go_panic (PanicError e))" "calm get (go_panic (PanicString x))"
  "calm get (go_panic NilPointerDereference)" "calm get (go_panic IndexOutOfRange)"
  "calm get (go_panic MakeLenOutOfRange)"
  by (simp_all add: calm_panic)

lemma calm_badStream [calm]: "calm get (badStreamPanic e)" "calm get (badStreamPanicf x)"
  by (simp_all add: badStreamPanic_def badStreamPanicf_def calm_panics)

lemma calm_bindG [calm]:
  assumes "calm get m" and "\<And>a. calm get (f a)"
  shows "calm get (bindG m f)"
proof (rule calmI)
  fix out s r t
  assume run: "bindG m f s = (r, t)" and "sane_at out (get s)"
  obtain q u where q: "m s = (q, u)" by fastforce
  note m = calmD [OF assms(1) q \<open>sane_at out (get s)\<close>]
  show "sane_at out (get t) \<and> to_read (get t) \<le> to_read (get s) \<and> r \<noteq> Panicked OutOfFuel"
  proof (cases q)
    case (Ret a)
    with run q have "f a u = (r, t)" by (simp add: bindG_apply)
    from calmD [OF assms(2) this, where out = out] m show ?thesis by auto
  next
    case (Panicked v)
    with run q m show ?thesis by (auto simp: bindG_apply)
  qed
qed

lemma calm_seqG [calm]: "calm get m \<Longrightarrow> calm get k \<Longrightarrow> calm get (seqG m k)"
  unfolding seqG_def by (rule calm_bindG)

lemma calm_readG [calm]: "(\<And>s. calm get (f s)) \<Longrightarrow> calm get (readG f)"
  by (simp add: calm_def)

lemma calm_modifyG: "(\<And>s. get (f s) = get s) \<Longrightarrow> calm get (modifyG f)"
  by (simp add: calm_def)

lemma calm_if [calm]: "(c \<Longrightarrow> calm get a) \<Longrightarrow> (\<not> c \<Longrightarrow> calm get b) \<Longrightarrow> calm get (if c then a else b)"
  by simp

lemma calm_option [calm]:
  "calm get a \<Longrightarrow> (\<And>y. calm get (f y)) \<Longrightarrow> calm get (case x of None \<Rightarrow> a | Some y \<Rightarrow> f y)"
  by (cases x) simp_all

lemma calm_sum [calm]:
  "(\<And>y. calm get (f y)) \<Longrightarrow> (\<And>y. calm get (g y)) \<Longrightarrow> calm get (case x of Inl y \<Rightarrow> f y | Inr y \<Rightarrow> g y)"
  by (cases x) simp_all

lemma calm_prod [calm]: "(\<And>a b. calm get (f a b)) \<Longrightarrow> calm get (case p of (a, b) \<Rightarrow> f a b)"
  by (cases p) simp

lemma calm_Let [calm]: "(\<And>x. calm get (f x)) \<Longrightarrow> calm get (Let a f)"
  by (simp add: Let_def)

lemma calm_on_buf [calm]: "calm (\<lambda>b. b) m \<Longrightarrow> calm sess_buf (on_buf m)"
  by (rule calmI) (auto simp: on_buf_def dest: calmD split: prod.splits)

lemma calm_liftO: "r \<noteq> Panicked OutOfFuel \<Longrightarrow> calm get (liftO r)"
  by (rule calmI) (simp add: liftO_def)

section \<open>The buffer\<close>

lemma calm_on_transport [calm]:
  "(\<And>t. length (incoming (snd (f t))) \<le> length (incoming t)) \<Longrightarrow>
   (\<And>t. outgoing (snd (f t)) = outgoing t) \<Longrightarrow> calm (\<lambda>b. b) (on_transport f)"
  by (rule calmI) (auto simp: on_transport_run sane_at_def to_read_def)

lemma transport_ReadFull_outgoing [simp]: "outgoing (snd (transport_ReadFull n t)) = outgoing t"
  by (simp add: transport_ReadFull_def)

lemma readNextPacket_outgoing:
  assumes "readNextPacket s = (r, t)"
  shows "outgoing (transport t) = outgoing (transport s)"
  using assms
  by (auto simp: readNextPacket_def bindG_apply seqG_apply on_transport_run store_def Let_def
      split: if_splits sum.splits)

lemma calm_readNextPacket:
  assumes "readNextPacket s = (r, t)" and "sane_at out s"
  shows "sane_at out t \<and> to_read t \<le> to_read s \<and> r \<noteq> Panicked OutOfFuel \<and>
    (r = Ret None \<longrightarrow> to_read t + 65536 \<le> to_read s)"
proof -
  have sane: "sane s" using assms(2) by (simp add: sane_def sane_at_def)
  note less = readNextPacket_incoming [OF assms(1)]
  have "sane t \<and> r \<noteq> Panicked OutOfFuel \<and> (r \<noteq> Ret None \<longrightarrow> pos t = pos s \<and> bsize t = bsize s)"
  proof (cases "fst (transport_ReadFull 8 (transport s))")
    case (Inl e)
    with assms(1) sane show ?thesis by (auto simp: readNextPacket_def bindG_apply on_transport_run sane_def)
  next
    case (Inr h)
    have "be_value (take 2 (drop 2 h)) < 65536"
      using le_value_less [of "rev (take 2 (drop 2 h))"] transport_ReadFull_Inr [OF Inr]
      by (simp add: be_value_def)
    with assms(1) sane Inr show ?thesis
      by (auto simp: readNextPacket_def bindG_apply seqG_apply on_transport_run store_def Let_def sane_def
          split: if_splits sum.splits)
  qed
  moreover have "(bsize t + 65536 - pos t) mod 65536 < 65536" by simp
  ultimately show ?thesis
    using less readNextPacket_outgoing [OF assms(1)] assms(2) by (auto simp: to_read_def sane_def sane_at_def)
qed

lemma calm_more_data:
  assumes "more_data s = (r, t)" and "sane_at out s"
  shows "sane_at out t \<and> to_read t \<le> to_read s \<and> r \<noteq> Panicked OutOfFuel \<and>
    (r = Ret None \<longrightarrow> t = s \<and> pos s \<noteq> bsize s \<or> to_read t + 65536 \<le> to_read s)"
  using assms calm_readNextPacket [of s r t] by (auto simp: more_data_def split: if_splits)

lemma ring_le: "(p :: nat) \<le> q \<Longrightarrow> q < 65536 \<Longrightarrow> (q + 65536 - p) mod 65536 = q - p"
proof -
  assume "p \<le> q" "q < 65536"
  then have "q + 65536 - p = (q - p) + 65536" "q - p < 65536" by auto
  then show ?thesis by (simp only: mod_add_self2 mod_less)
qed

lemma ring_gt: "(q :: nat) < p \<Longrightarrow> p < 65536 \<Longrightarrow> (q + 65536 - p) mod 65536 = q + 65536 - p"
  by simp

lemma ring_step:
  fixes p q :: nat
  assumes "p < 65536" and "q < 65536" and "p \<noteq> q"
  shows "(q + 65536 - (p + 1) mod 65536) mod 65536 < (q + 65536 - p) mod 65536"
proof (cases "p < q")
  case True
  then show ?thesis using assms ring_le [of p q] ring_le [of "p + 1" q] by simp
next
  case False
  then show ?thesis
    using assms ring_gt [of q p] ring_gt [of q "p + 1"] by (cases "p + 1 = 65536") auto
qed

lemma ring_less: "(x :: nat) mod 65536 < 65536"
  by simp

lemma ReadByte_to_read:
  assumes "ReadByte s = (r, t)" and "sane_at out s"
  shows "sane_at out t \<and> to_read t \<le> to_read s \<and> r \<noteq> Panicked OutOfFuel \<and>
    (\<forall>b. r = Ret (Inr b) \<longrightarrow> to_read t < to_read s)"
proof -
  obtain q u where q: "more_data s = (q, u)" by fastforce
  note m = calm_more_data [OF q assms(2)]
  show ?thesis
  proof (cases "q = Ret None \<and> pos u < length (buf u)")
    case True
    let ?u = "u\<lparr>pos := wrap16 (pos u + 1)\<rparr>"
    have run: "r = Ret (Inr (buf u ! pos u))" "t = ?u"
      using True q assms(1) by (auto simp: ReadByte_def bindG_apply seqG_apply)
    have sane: "sane_at out ?u" using m by (auto simp: sane_at_def wrap16_def)
    have "to_read ?u < to_read s"
    proof (cases "u = s \<and> pos s \<noteq> bsize s")
      case True
      with ring_step [of "pos s" "bsize s"] assms(2) show ?thesis
        by (simp add: to_read_def sane_at_def wrap16_def)
    next
      case False
      with m True have "to_read u + 65536 \<le> to_read s" by auto
      with ring_less [of "bsize u + 65536 - wrap16 (pos u + 1)"] show ?thesis by (simp add: to_read_def)
    qed
    with run sane show ?thesis by simp
  next
    case False
    with q m assms(1) show ?thesis
      by (auto simp: ReadByte_def bindG_apply seqG_apply split: outcome.splits option.splits if_splits)
  qed
qed

lemma calm_ReadByte [calm]: "calm (\<lambda>b. b) ReadByte"
  by (rule calmI) (use ReadByte_to_read in blast)

lemma buf_Read_to_read:
  assumes "buf_Read n s = (r, t)" and "sane_at out s"
  shows "sane_at out t \<and> to_read t \<le> to_read s \<and> r \<noteq> Panicked OutOfFuel"
proof -
  obtain q u where q: "more_data s = (q, u)" by fastforce
  note m = calm_more_data [OF q assms(2)]
  show ?thesis
  proof (cases "q = Ret None \<and> pos u \<le> bsize u \<and> bsize u \<le> length (buf u)")
    case True
    let ?c = "min n (bsize u - pos u)"
    let ?u = "u\<lparr>pos := wrap16 (pos u + ?c)\<rparr>"
    have run: "\<exists>bs. r = Ret (Inr bs)" "t = ?u"
      using True q assms(1) by (auto simp: buf_Read_def bindG_apply seqG_apply Let_def)
    have w: "wrap16 (pos u + ?c) = pos u + ?c" using True m min.cobounded2 [of n "bsize u - pos u"] unfolding sane_at_def by (intro wrap16_small) linarith
    then have "sane_at out ?u" using True m by (auto simp: sane_at_def)
    moreover have le: "pos u + ?c \<le> bsize u" using True by auto
    have "bsize u < 65536" using m by (simp add: sane_at_def)
    then have "to_read ?u = 65536 * length (incoming (transport u)) + (bsize u - (pos u + ?c))"
      "to_read u = 65536 * length (incoming (transport u)) + (bsize u - pos u)"
      using True ring_le [OF le] by (simp_all add: to_read_def w ring_le del: diff_diff_left)
    then have "to_read ?u \<le> to_read u" by (simp only: add_left_mono diff_le_mono2 le_add1)
    ultimately show ?thesis using run m by auto
  next
    case False
    with q m assms(1) show ?thesis
      by (auto simp: buf_Read_def bindG_apply seqG_apply Let_def split: outcome.splits option.splits if_splits)
  qed
qed

lemma calm_buf_Read [calm]: "calm (\<lambda>b. b) (buf_Read n)"
  by (rule calmI) (use buf_Read_to_read in blast)

lemma calm_read_n [calm]: "calm (\<lambda>b. b) (read_n n acc)"
proof (rule calmI)
  fix out s r t
  show "read_n n acc s = (r, t) \<Longrightarrow> sane_at out s \<Longrightarrow> sane_at out t \<and> to_read t \<le> to_read s \<and> r \<noteq> Panicked OutOfFuel"
  proof (induction n acc s rule: read_n.induct)
    case (1 n acc s)
    obtain q u where q: "buf_Read n s = (q, u)" by fastforce
    note m = buf_Read_to_read [OF q "1.prems"(2)]
    show ?case
    proof (cases "n = 0 \<or> (\<forall>bs. q \<noteq> Ret (Inr bs))")
      case True
      with "1.prems" q m show ?thesis
        by (auto simp: read_n.simps [of n] split: if_splits outcome.splits sum.splits)
    next
      case False
      then obtain bs where bs: "n \<noteq> 0" "q = Ret (Inr bs)" by auto
      with "1.prems"(1) q have run: "read_n (n - length bs) (acc @ bs) u = (r, t)"
        by (simp add: read_n.simps [of n])
      from "1.IH" [OF bs(1) q [symmetric] bs(2) refl run] m show ?thesis by auto
    qed
  qed
qed


lemma calm_numbers [calm]:
  "calm (\<lambda>b. b) (io_ReadFull n)" "calm (\<lambda>b. b) (ReadFull n)" "calm (\<lambda>b. b) buf_byte"
  "calm (\<lambda>b. b) buf_uint64" "calm (\<lambda>b. b) buf_uint32" "calm (\<lambda>b. b) buf_int32" "calm (\<lambda>b. b) buf_uint16"
  unfolding buf_int32_def buf_uint64_def buf_uint32_def buf_uint16_def ReadFull_def io_ReadFull_def buf_byte_def
  by (intro calm)+

lemma calm_texts [calm]:
  "calm (\<lambda>b. b) (buf_readUcs2 n)" "calm (\<lambda>b. b) BVarChar" "calm (\<lambda>b. b) UsVarChar"
  unfolding BVarChar_def UsVarChar_def buf_readUcs2_def by (intro calm)+

section \<open>Types\<close>

lemma calm_make_array [calm]: "calm sess_buf (make_array n)"
  by (rule calmI) (auto simp: make_array_def)

lemma calm_skip_names [calm]: "calm sess_buf (skip_names n)"
proof (induction n)
  case (Suc n)
  then show ?case unfolding skip_names.simps by (intro calm)
qed (simp only: skip_names.simps calm_ret)

lemma calm_readTypeInfo [calm]: "calm sess_buf readCollation" "calm sess_buf readTypeInfo"
proof -
  show col: "calm sess_buf readCollation" unfolding readCollation_def by (intro calm)+
  show "calm sess_buf readTypeInfo"
    unfolding readTypeInfo_def readVarLen_def by (intro calm col)+
qed


section \<open>Values\<close>

definition dry :: "'a outcome \<Rightarrow> bool" where
  "dry r \<longleftrightarrow> r \<noteq> Panicked OutOfFuel"

lemma dry_map [simp]: "dry (map_outcome f r) = dry r"
  by (cases r) (simp_all add: dry_def)

lemma dry_simps [simp]: "dry (Ret x)" "dry (Panicked v) = (v \<noteq> OutOfFuel)" "dry (badStreamO t)"
  by (simp_all add: dry_def badStreamO_def)

lemma dry_bindO: "dry r \<Longrightarrow> (\<And>a. dry (f a)) \<Longrightarrow> dry (bindO r f)"
  by (cases r) (simp_all add: bindO_def)

lemma calm_liftO_dry [calm]: "dry r \<Longrightarrow> calm get (liftO r)"
  by (rule calm_liftO) (simp add: dry_def)

lemma dry_le_at [simp]: "dry (le_at i n b)"
  by (simp add: le_at_def dry_def)

lemma dry_scaleBytes [simp]: "dry (scaleBytes t n)"
  by (auto simp: scaleBytes_def Let_def split: list.split)

lemma dry_decimals [simp]: "dry (decodeDecimal p sc b)" "dry (decodeMoney b)" "dry (decodeMoney4 b)"
  by (auto simp: decodeDecimal_def decodeMoney_def decodeMoney4_def Let_def Decimal_Bytes_def Decimal_String_def
      intro!: dry_bindO split: list.split)

lemma dry_times [simp]:
  "dry (decodeDateTim4 b)" "dry (decodeDateTime b)" "dry (decodeDate b)" "dry (decodeTime sc b)"
  "dry (decodeDateTime2 sc b)" "dry (decodeDateTimeOffset sc b)"
  by (auto simp: decodeDateTim4_def decodeDateTime_def decodeDate_def decodeTime_def decodeDateTime2_def
      decodeDateTimeOffset_def decodeDateInt_def Let_def intro!: dry_bindO split: prod.split)

lemma dry_texts [simp]: "dry (decodeNChar b)" "dry (decodeXml b)" "dry (decodeUdt b)"
  by (auto simp: decodeNChar_def decodeXml_def decodeUcs2_def decodeUdt_def split: sum.split)

lemma dry_values [simp]:
  "dry (fixed_value t b)" "dry (byte_len_value dbcs d b)" "dry (short_len_value dbcs d b)"
  by (simp_all add: fixed_value_def byte_len_value_def short_len_value_def Let_def)


section \<open>Readers\<close>

lemma calm_read_into [calm]: "calm sess_buf (read_into a n)"
proof (rule calmI)
  fix out s r t
  assume run: "read_into a n s = (r, t)" and sane: "sane_at out (sess_buf s)"
  obtain q b where q: "read_n n [] (sess_buf s) = (q, b)" by fastforce
  note m = calmD [OF calm_read_n q sane]
  show "sane_at out (sess_buf t) \<and> to_read (sess_buf t) \<le> to_read (sess_buf s) \<and> r \<noteq> Panicked OutOfFuel"
  proof (cases "(case a of None \<Rightarrow> 0 | Some i \<Rightarrow> length (arrays s ! i)) < n")
    case True
    with run sane show ?thesis by (auto simp: read_into_def)
  next
    case False
    show ?thesis
    proof (cases q)
      case (Panicked v)
      with False run q m show ?thesis by (auto simp: read_into_def on_buf_def)
    next
      case (Ret p)
      obtain bs err where p: "p = (bs, err)" by fastforce
      with False Ret run q m show ?thesis
        by (cases a; cases err) (auto simp: read_into_def on_buf_def badStreamPanic_def)
    qed
  qed
qed

lemma calm_read_new [calm]: "calm sess_buf (read_new n)"
  unfolding read_new_def by (intro calm)

lemma calm_short_readers [calm]:
  "calm sess_buf (readFixedType d)" "calm sess_buf (readByteLenType dbcs d)"
  "calm sess_buf (readShortLenType dbcs d)" "calm sess_buf (readLongLenType dbcs d)"
  unfolding readFixedType_def readByteLenType_def readShortLenType_def readLongLenType_def
  by (intro calm dry_values; simp)+

lemma calm_readVariantType [calm]: "calm sess_buf (readVariantType dbcs d)"
  unfolding readVariantType_def Let_def by (intro calm calm_readTypeInfo; simp)

text \<open>Bytes that were read are no longer unread.\<close>

lemma readNextPacket_unread:
  assumes "readNextPacket s = (Ret None, t)"
  shows "unread t \<le> unread s"
proof -
  from assms obtain h where h: "fst (transport_ReadFull 8 (transport s)) = Inr h"
    by (cases "fst (transport_ReadFull 8 (transport s))") (auto simp: readNextPacket_def bindG_apply on_transport_run)
  let ?t = "snd (transport_ReadFull 8 (transport s))" and ?n = "be_value (take 2 (drop 2 h)) - 8"
  from assms h obtain bs where b: "fst (transport_ReadFull ?n ?t) = Inr bs"
    by (cases "fst (transport_ReadFull ?n ?t)")
       (auto simp: readNextPacket_def bindG_apply seqG_apply on_transport_run Let_def split: if_splits)
  from assms h b transport_ReadFull_Inr [OF h] transport_ReadFull_Inr [OF b] show ?thesis
    by (auto simp: readNextPacket_def bindG_apply seqG_apply on_transport_run store_def Let_def unread_def
        split: if_splits)
qed

lemma buf_Read_unread:
  assumes "buf_Read n s = (Ret (Inr bs), t)" and "sane_at out s"
  shows "unread t + length bs \<le> unread s \<and> length bs \<le> n"
proof -
  from assms(1) obtain u where u: "more_data s = (Ret None, u)" "pos u \<le> bsize u" "bsize u \<le> length (buf u)"
    by (auto simp: buf_Read_def bindG_apply seqG_apply Let_def split: prod.splits outcome.splits option.splits if_splits)
  let ?c = "min n (bsize u - pos u)"
  have run: "bs = take ?c (drop (pos u) (buf u))" "t = u\<lparr>pos := wrap16 (pos u + ?c)\<rparr>"
    using assms(1) u by (auto simp: buf_Read_def bindG_apply seqG_apply Let_def)
  have "unread u \<le> unread s"
    using u(1) readNextPacket_unread by (auto simp: more_data_def split: if_splits)
  moreover have "sane_at out u" using calm_more_data [OF u(1) assms(2)] by simp
  then have "wrap16 (pos u + ?c) = pos u + ?c"
    using u(2) min.cobounded2 [of n "bsize u - pos u"] unfolding sane_at_def by (intro wrap16_small) linarith
  ultimately show ?thesis using run u(2,3) by (simp add: unread_def)
qed

lemma read_n_unread:
  "read_n n acc s = (Ret (bs, None), t) \<Longrightarrow> sane_at out s \<Longrightarrow> unread t + n \<le> unread s"
proof (induction n acc s rule: read_n.induct)
  case (1 n acc s)
  show ?case
  proof (cases "n = 0")
    case False
    with "1.prems"(1) obtain xs u where u: "buf_Read n s = (Ret (Inr xs), u)"
      "read_n (n - length xs) (acc @ xs) u = (Ret (bs, None), t)"
      by (auto simp: read_n.simps [of n] split: prod.splits outcome.splits sum.splits)
    have "sane_at out u" using buf_Read_to_read [OF u(1) "1.prems"(2)] by simp
    from "1.IH" [OF False u(1) [symmetric] refl refl u(2) this] buf_Read_unread [OF u(1) "1.prems"(2)]
    show ?thesis by linarith
  qed (use "1.prems" in \<open>simp add: read_n.simps\<close>)
qed

lemma buf_uint32_unread:
  assumes "buf_uint32 s = (Ret i, t)" and "sane_at out s"
  shows "unread t + 4 \<le> unread s"
proof -
  from assms(1) obtain bs where "read_n 4 [] s = (Ret (bs, None), t)"
    by (auto simp: buf_uint32_def ReadFull_def io_ReadFull_def bindG_apply badStreamPanic_def
        split: prod.splits outcome.splits option.splits sum.splits)
  with read_n_unread assms(2) show ?thesis by blast
qed

text \<open>Every chunk takes its length from what is unread.\<close>

lemma read_chunks_calm:
  "read_chunks fuel acc s = (r, t) \<Longrightarrow> sane_at out (sess_buf s) \<Longrightarrow> unread (sess_buf s) < fuel \<Longrightarrow>
   sane_at out (sess_buf t) \<and> to_read (sess_buf t) \<le> to_read (sess_buf s) \<and> r \<noteq> Panicked OutOfFuel"
proof (induction fuel arbitrary: acc s)
  case (Suc fuel)
  obtain q u where q: "on_buf buf_uint32 s = (q, u)" by fastforce
  have "calm sess_buf (on_buf buf_uint32)" by (intro calm)
  note m = calmD [OF this q Suc.prems(2)]
  show ?case
  proof (cases "\<exists>n. q = Ret n \<and> n \<noteq> 0")
    case False
    with Suc.prems(1) q m show ?thesis by (cases q) (auto simp: bindG_apply)
  next
    case True
    then obtain n where n: "q = Ret n" "n \<noteq> 0" by blast
    obtain p v where p: "on_buf (read_n (unat n) []) u = (p, v)" by fastforce
    have "calm sess_buf (on_buf (read_n (unat n) []))" by (intro calm)
    from calmD [OF this p, where out = out] m have
      k: "sane_at out (sess_buf v) \<and> to_read (sess_buf v) \<le> to_read (sess_buf u) \<and> p \<noteq> Panicked OutOfFuel" by simp
    show ?thesis
    proof (cases "\<exists>bs. p = Ret (bs, None)")
      case False
      with Suc.prems(1) q n m p k show ?thesis
        by (cases p) (auto simp: bindG_apply badStreamPanicf_def badStreamPanic_def)
    next
      case True
      then obtain bs where bs: "p = Ret (bs, None)" by blast
      have "unread (sess_buf u) + 4 \<le> unread (sess_buf s)"
        using q n Suc.prems(2) by (auto simp: on_buf_def intro: buf_uint32_unread split: prod.splits)
      moreover have "unread (sess_buf v) \<le> unread (sess_buf u)"
        using p bs m by (auto simp: on_buf_def dest: read_n_unread split: prod.splits)
      ultimately have "unread (sess_buf v) < fuel" using Suc.prems(3) by simp
      moreover have "read_chunks fuel (acc @ bs) v = (r, t)"
        using Suc.prems(1) q n p bs by (simp add: bindG_apply)
      ultimately show ?thesis using Suc.IH [of "acc @ bs" v] m k by auto
    qed
  qed
qed simp

lemma calm_read_chunks [calm]: "calm sess_buf (readG (\<lambda>s. read_chunks (unread (sess_buf s) + 1) []))"
  by (rule calmI, simp only: readG_apply, rule read_chunks_calm) (assumption+, simp)

lemma calm_readPLPType [calm]: "calm sess_buf (readPLPType dbcs d)"
  unfolding readPLPType_def Let_def by (intro calm calm_read_chunks; simp)

lemma calm_reader: "calm sess_buf (case x of None \<Rightarrow> go_panic NilPointerDereference
      | Some RFixed \<Rightarrow> readFixedType d | Some RByteLen \<Rightarrow> readByteLenType dbcs d
      | Some RShortLen \<Rightarrow> readShortLenType dbcs d | Some RLongLen \<Rightarrow> readLongLenType dbcs d
      | Some RVariant \<Rightarrow> readVariantType dbcs d | Some RPLP \<Rightarrow> readPLPType dbcs d)"
  by (auto intro!: calm split: option.split reader.split)

lemma calm_run_reader [calm]: "calm sess_buf (run_reader dbcs d)"
  unfolding run_reader_def by (rule calm_reader)


section \<open>Changes of the environment\<close>

abbreviation lim_buf :: "limited \<Rightarrow> tdsBuffer" where
  "lim_buf x \<equiv> sess_buf (fst x)"

lemma calm_lim_Read [calm]: "calm lim_buf (lim_Read n)"
proof (rule calmI)
  fix out x r y
  assume run: "lim_Read n x = (r, y)" and sane: "sane_at out (lim_buf x)"
  obtain s l where x: "x = (s, l)" by fastforce
  obtain q u where q: "on_buf (buf_Read (min n l)) s = (q, u)" by fastforce
  have "calm sess_buf (on_buf (buf_Read (min n l)))" by (intro calm)
  from calmD [OF this q] sane x have
    m: "sane_at out (sess_buf u) \<and> to_read (sess_buf u) \<le> to_read (sess_buf s) \<and> q \<noteq> Panicked OutOfFuel" by simp
  show "sane_at out (lim_buf y) \<and> to_read (lim_buf y) \<le> to_read (lim_buf x) \<and> r \<noteq> Panicked OutOfFuel"
    using run q m sane x by (auto simp: lim_Read_def split: if_splits outcome.splits sum.splits)
qed

lemma calm_lim_read_n [calm]: "calm lim_buf (lim_read_n n acc)"
proof (rule calmI)
  fix out x r y
  show "lim_read_n n acc x = (r, y) \<Longrightarrow> sane_at out (lim_buf x) \<Longrightarrow>
    sane_at out (lim_buf y) \<and> to_read (lim_buf y) \<le> to_read (lim_buf x) \<and> r \<noteq> Panicked OutOfFuel"
  proof (induction n acc x rule: lim_read_n.induct)
    case (1 n acc x)
    obtain q u where q: "lim_Read n x = (q, u)" by (cases "lim_Read n x")
    note m = calmD [OF calm_lim_Read q "1.prems"(2)]
    show ?case
    proof (cases "n = 0 \<or> (\<forall>bs. q \<noteq> Ret (Inr bs))")
      case True
      with "1.prems" q m show ?thesis
        by (auto simp: lim_read_n.simps [of n] split: if_splits outcome.splits sum.splits)
    next
      case False
      then obtain bs where bs: "n \<noteq> 0" "q = Ret (Inr bs)" by auto
      with "1.prems"(1) q have run: "lim_read_n (n - length bs) (acc @ bs) u = (r, y)"
        by (simp add: lim_read_n.simps [of n])
      from "1.IH" [OF bs(1) q [symmetric] bs(2) refl run] m show ?thesis by auto
    qed
  qed
qed

lemma calm_need: "calm get m \<Longrightarrow> (\<And>a. calm get (f a)) \<Longrightarrow> calm get (need m f)"
  unfolding need_def by (intro calm)

lemma calm_lim_readers [calm]:
  "calm lim_buf (lim_ReadFull n)" "calm lim_buf readBVarChar" "calm lim_buf readBVarByte"
  unfolding readBVarChar_def readBVarByte_def lim_ReadFull_def by (intro calm)+

lemma calm_on_sess: "calm sess_buf m \<Longrightarrow> calm lim_buf (on_sess m)"
  by (rule calmI) (auto simp: on_sess_def dest: calmD split: prod.splits)

lemma calm_buf_fields: "to_read (b\<lparr>buf := x\<rparr>) = to_read b" "sane_at out (b\<lparr>buf := x\<rparr>) = sane_at out b"
  by (simp_all add: to_read_def sane_at_def)

lemma calm_session_steps [calm]:
  "calm sess_buf (set_packet_size n)" "calm sess_buf (modifyG (\<lambda>s. s\<lparr>database := nm\<rparr>))"
  "calm sess_buf (modifyG (\<lambda>s. s\<lparr>tranid := i\<rparr>))" "calm sess_buf (log_if flag c x)"
proof -
  have "calm sess_buf (modifyG (\<lambda>s. s\<lparr>sess_buf := (sess_buf s)\<lparr>buf := x\<rparr>\<rparr>))" for x
    by (rule calmI) (auto simp: calm_buf_fields)
  then show "calm sess_buf (set_packet_size n)" unfolding set_packet_size_def Let_def by (intro calm)
  show "calm sess_buf (log_if flag c x)" unfolding log_if_def by (rule calm_modifyG) simp
qed (rule calm_modifyG, simp)+

lemma calm_env_change: "calm lim_buf (env_change T i)"
  unfolding env_change_def by (intro calm calm_need calm_on_sess)

text \<open>What is left of the token gets less.\<close>

definition shrinks :: "(limited, 'a) go \<Rightarrow> bool" where
  "shrinks m \<longleftrightarrow> (\<forall>x r y. m x = (r, y) \<longrightarrow> snd y \<le> snd x)"

lemma shrinksI: "(\<And>x r y. m x = (r, y) \<Longrightarrow> snd y \<le> snd x) \<Longrightarrow> shrinks m"
  by (simp add: shrinks_def)

lemma shrinks_bindG: "shrinks m \<Longrightarrow> (\<And>a. shrinks (f a)) \<Longrightarrow> shrinks (bindG m f)"
  by (fastforce simp: shrinks_def bindG_apply intro: order_trans split: prod.splits outcome.splits)

lemma shrinks_rules:
  "shrinks (ret v)" "shrinks (go_panic p)" "shrinks (badStreamPanic e)" "shrinks (badStreamPanicf s)" "shrinks (on_sess k)"
  by (auto simp: shrinks_def badStreamPanicf_def badStreamPanic_def on_sess_def split: prod.splits)

lemma shrinks_cases:
  "shrinks a \<Longrightarrow> shrinks b \<Longrightarrow> shrinks (if c then a else b)"
  "shrinks a \<Longrightarrow> (\<And>y. shrinks (f y)) \<Longrightarrow> shrinks (case x of None \<Rightarrow> a | Some y \<Rightarrow> f y)"
  "(\<And>y. shrinks (g y)) \<Longrightarrow> (\<And>y. shrinks (h y)) \<Longrightarrow> shrinks (case z of Inl y \<Rightarrow> g y | Inr y \<Rightarrow> h y)"
  "(\<And>u v. shrinks (k u v)) \<Longrightarrow> shrinks (case p of (u, v) \<Rightarrow> k u v)"
  by (auto split: option.split sum.split prod.split)

lemma shrinks_seqG: "shrinks m \<Longrightarrow> shrinks k \<Longrightarrow> shrinks (seqG m k)"
  unfolding seqG_def by (rule shrinks_bindG)

lemma shrinks_need: "shrinks m \<Longrightarrow> (\<And>a. shrinks (f a)) \<Longrightarrow> shrinks (need m f)"
  unfolding need_def by (intro shrinks_bindG shrinks_cases shrinks_rules)

lemma buf_Read_length: "buf_Read n s = (Ret (Inr bs), t) \<Longrightarrow> length bs \<le> n"
  by (auto simp: buf_Read_def bindG_apply seqG_apply Let_def
      split: prod.splits outcome.splits option.splits if_splits)

lemma lim_Read_left:
  "lim_Read n x = (r, y) \<Longrightarrow> snd y \<le> snd x \<and>
     (\<forall>bs. r = Ret (Inr bs) \<longrightarrow> snd y + length bs = snd x \<and> length bs \<le> n)"
  by (auto simp: lim_Read_def on_buf_def dest!: buf_Read_length
      split: prod.splits if_splits outcome.splits sum.splits)

lemma lim_read_n_left:
  "lim_read_n n acc x = (r, y) \<Longrightarrow> snd y \<le> snd x \<and>
     (\<forall>bs. r = Ret (bs, None) \<longrightarrow> snd y + n = snd x \<and> length bs = length acc + n)"
proof (induction n acc x rule: lim_read_n.induct)
  case (1 n acc x)
  obtain q u where q: "lim_Read n x = (q, u)" by (cases "lim_Read n x")
  note m = lim_Read_left [OF q]
  show ?case
  proof (cases "n = 0 \<or> (\<forall>bs. q \<noteq> Ret (Inr bs))")
    case True
    with "1.prems" q m show ?thesis
      by (auto simp: lim_read_n.simps [of n] split: if_splits outcome.splits sum.splits)
  next
    case False
    then obtain bs where bs: "n \<noteq> 0" "q = Ret (Inr bs)" by auto
    with "1.prems"(1) q have run: "lim_read_n (n - length bs) (acc @ bs) u = (r, y)"
      by (simp add: lim_read_n.simps [of n])
    from "1.IH" [OF bs(1) q [symmetric] bs(2) refl run] m bs show ?thesis by auto
  qed
qed

lemma lim_ReadFull_left: "lim_ReadFull n x = (Ret (bs, None), y) \<Longrightarrow> snd y + n = snd x"
  by (auto simp: lim_ReadFull_def bindG_apply dest: lim_read_n_left
      split: prod.splits outcome.splits option.splits)

lemma shrinks_lim_ReadFull: "shrinks (lim_ReadFull n)"
  unfolding lim_ReadFull_def
  by (intro shrinks_bindG shrinks_cases shrinks_rules) (auto intro!: shrinksI dest: lim_read_n_left)

lemma shrinks_env_change: "shrinks (env_change T i)"
  unfolding env_change_def readBVarChar_def readBVarByte_def
  by (intro shrinks_need shrinks_bindG shrinks_seqG shrinks_cases shrinks_lim_ReadFull shrinks_rules)


lemma env_loop_calm:
  "env_loop T fuel x = (r, y) \<Longrightarrow> sane_at out (lim_buf x) \<Longrightarrow> snd x < fuel \<Longrightarrow>
   sane_at out (lim_buf y) \<and> to_read (lim_buf y) \<le> to_read (lim_buf x) \<and> r \<noteq> Panicked OutOfFuel"
proof (induction fuel arbitrary: x)
  case (Suc fuel)
  obtain q u where q: "lim_ReadFull 1 x = (q, u)" by (cases "lim_ReadFull 1 x")
  note m = calmD [OF calm_lim_readers(1) q Suc.prems(2)]
  show ?case
  proof (cases "\<exists>bs. q = Ret (bs, None)")
    case False
    with Suc.prems(1) q m show ?thesis
      by (cases q) (auto simp: bindG_apply badStreamPanic_def split: option.splits if_splits)
  next
    case True
    then obtain bs where bs: "q = Ret (bs, None)" by blast
    obtain p v where p: "env_change T (hd bs) u = (p, v)" by (cases "env_change T (hd bs) u")
    note k = calmD [OF calm_env_change p, where out = out]
    have "snd v \<le> snd u" using shrinks_env_change p unfolding shrinks_def by blast
    moreover have "snd u + 1 = snd x" using lim_ReadFull_left q bs by blast
    ultimately have "snd v < fuel" using Suc.prems(3) by simp
    with Suc.IH [of v] Suc.prems(1) q bs p m k show ?thesis
      by (cases p) (auto simp: bindG_apply seqG_apply)
  qed
qed simp

lemma calm_processEnvChg [calm]: "calm sess_buf (processEnvChg T)"
proof -
  have "calm sess_buf (\<lambda>s. case env_loop T (n + 1) (s, n) of (r, (t, left)) \<Rightarrow> (r, t))" for n
  proof (rule calmI)
    fix out s r t
    assume "(case env_loop T (n + 1) (s, n) of (r, (t, left)) \<Rightarrow> (r, t)) = (r, t)" and "sane_at out (sess_buf s)"
    then show "sane_at out (sess_buf t) \<and> to_read (sess_buf t) \<le> to_read (sess_buf s) \<and> r \<noteq> Panicked OutOfFuel"
      using env_loop_calm [of T "n + 1" "(s, n)" r] by (auto split: prod.splits)
  qed
  then show ?thesis unfolding processEnvChg_def by (intro calm)
qed

section \<open>Tokens\<close>

lemma calm_read_uint16s [calm]: "calm (\<lambda>b. b) (read_uint16s n)"
proof (induction n)
  case (Suc n)
  then show ?case unfolding read_uint16s.simps by (intro calm)
qed (simp only: read_uint16s.simps calm_ret)

lemma dry_ack_of_bytes: "dry (ack_of_bytes b)"
  by (auto simp: ack_of_bytes_def Let_def split: sum.split)

lemma calm_outcome: "dry r \<Longrightarrow> calm get (\<lambda>s. (r, s))"
  by (auto simp: calm_def dry_def)

lemma calm_tokens [calm]:
  "calm (\<lambda>b. b) parseReturnStatus" "calm (\<lambda>b. b) parseOrder" "calm (\<lambda>b. b) parseDone"
  "calm (\<lambda>b. b) parseDoneInProc" "calm (\<lambda>b. b) parseSSPIMsg" "calm (\<lambda>b. b) parseLoginAck"
  "calm (\<lambda>b. b) parseError72" "calm (\<lambda>b. b) parseInfo"
  unfolding parseReturnStatus_def parseOrder_def parseDone_def parseDoneInProc_def parseSSPIMsg_def
    parseLoginAck_def parseError72_def parseInfo_def
  by (intro calm calm_outcome dry_ack_of_bytes)+

lemma calm_parseColumn [calm]: "calm sess_buf parseColumn"
  unfolding parseColumn_def by (intro calm)

lemma calm_parseColumns [calm]: "calm sess_buf (parseColumns n)"
proof (induction n)
  case (Suc n)
  then show ?case unfolding parseColumns.simps by (intro calm)
qed (simp only: parseColumns.simps calm_ret)

lemma calm_parseRow [calm]: "calm sess_buf (parseRow dbcs cs)"
proof (induction cs)
  case (Cons c cs)
  then show ?case unfolding parseRow.simps by (intro calm)
qed (simp only: parseRow.simps calm_ret)

lemma calm_nbc_values [calm]: "calm sess_buf (nbc_values dbcs pres i cs)"
proof (induction cs arbitrary: i)
  case (Cons c cs)
  then show ?case unfolding nbc_values.simps by (intro calm)
qed (simp only: nbc_values.simps calm_ret)

lemma calm_rows [calm]: "calm sess_buf parseColMetadata72" "calm sess_buf (parseNbcRow dbcs cs)"
  unfolding parseColMetadata72_def parseNbcRow_def by (intro calm)+

lemma calm_log_done [calm]: "calm sess_buf (log_done d)"
  unfolding log_done_def by (intro calm)

text \<open>What follows the first byte of a token.\<close>

lemma byte_progress:
  assumes "bindG (on_buf buf_byte) f s = (r, t)" and "sane_at out (sess_buf s)" and "\<And>b. calm sess_buf (f b)"
  shows "sane_at out (sess_buf t) \<and> to_read (sess_buf t) \<le> to_read (sess_buf s) \<and> r \<noteq> Panicked OutOfFuel \<and>
    (\<forall>x. r = Ret x \<longrightarrow> to_read (sess_buf t) < to_read (sess_buf s))"
proof -
  obtain q b where q: "ReadByte (sess_buf s) = (q, b)" by fastforce
  note m = ReadByte_to_read [OF q assms(2)]
  show ?thesis
  proof (cases "\<exists>x. q = Ret (Inr x)")
    case True
    then obtain x where x: "q = Ret (Inr x)" by blast
    with q assms(1) have "f x (s\<lparr>sess_buf := b\<rparr>) = (r, t)"
      by (simp add: bindG_apply on_buf_def buf_byte_def)
    from calmD [OF assms(3) this, where out = out] m x show ?thesis by auto
  next
    case False
    with q m assms(1) show ?thesis
      by (auto simp: bindG_apply on_buf_def buf_byte_def badStreamPanic_def split: outcome.splits sum.splits)
  qed
qed

lemma token_step_progress:
  assumes "token_step T st s = (r, t)" and "sane_at out (sess_buf s)"
  shows "sane_at out (sess_buf t) \<and> to_read (sess_buf t) \<le> to_read (sess_buf s) \<and> r \<noteq> Panicked OutOfFuel \<and>
    (\<forall>x. r = Ret x \<longrightarrow> to_read (sess_buf t) < to_read (sess_buf s))"
  using assms(1) unfolding token_step_def
  by (rule byte_progress [OF _ assms(2)]) (intro calm)

section \<open>Responses\<close>

lemma recovered_fuel: "v \<noteq> OutOfFuel \<Longrightarrow> TokRuntime OutOfFuel \<notin> set (recovered v)"
  by (cases v rule: recovered.cases) auto

lemma token_step_runtime:
  assumes "token_step T st s = (Ret (toks, c), t)"
  shows "TokRuntime v \<notin> set toks"
proof -
  from assms obtain b u where "on_buf buf_byte s = (Ret b, u)"
    by (auto simp: token_step_def elim: bindG_RetD)
  with assms show ?thesis
    by (auto simp: token_step_def bindG_apply seqG_apply badStreamPanicf_def badStreamPanic_def done_result_def
        split: if_splits prod.splits outcome.splits)
qed

lemma response_loop_ends:
  "sane_at out (sess_buf s) \<Longrightarrow> to_read (sess_buf s) < fuel \<Longrightarrow> response_loop T fuel st s = (toks, t) \<Longrightarrow>
   sane_at out (sess_buf t) \<and> to_read (sess_buf t) \<le> to_read (sess_buf s) \<and> TokRuntime OutOfFuel \<notin> set toks \<and>
   (\<forall>fuel' \<ge> fuel. response_loop T fuel' st s = (toks, t))"
proof (induction fuel arbitrary: st s toks t)
  case (Suc fuel)
  obtain r u where r: "token_step T st s = (r, u)" by fastforce
  note m = token_step_progress [OF r Suc.prems(1)]
  have more: "response_loop T fuel' st s = (case fuel' of 0 \<Rightarrow> ([TokRuntime OutOfFuel], s) | Suc n \<Rightarrow>
      (case r of Panicked v \<Rightarrow> (recovered v, u)
       | Ret (ks, None) \<Rightarrow> (ks, u)
       | Ret (ks, Some st') \<Rightarrow> (case response_loop T n st' u of (ks', x) \<Rightarrow> (ks @ ks', x))))" for fuel'
    using r by (cases fuel') simp_all
  show ?case
  proof (cases "\<exists>ks st'. r = Ret (ks, Some st')")
    case True
    then obtain ks st' where ks: "r = Ret (ks, Some st')" by blast
    obtain ks' x where x: "response_loop T fuel st' u = (ks', x)" by fastforce
    have "to_read (sess_buf u) < fuel" using m ks Suc.prems(2) by auto
    with Suc.IH [OF _ _ x] m have IH: "sane_at out (sess_buf x)" "to_read (sess_buf x) \<le> to_read (sess_buf u)"
      "TokRuntime OutOfFuel \<notin> set ks'" "\<forall>fuel' \<ge> fuel. response_loop T fuel' st' u = (ks', x)" by auto
    have "TokRuntime OutOfFuel \<notin> set ks" using r ks token_step_runtime by blast
    with Suc.prems(3) IH m more [of "Suc fuel"] ks x show ?thesis
      by (auto simp: more split: nat.split)
  next
    case False
    then consider v where "r = Panicked v" | ks where "r = Ret (ks, None)"
      by (metis not_Some_eq old.prod.exhaust outcome.exhaust)
    then show ?thesis
      by cases (use Suc.prems(3) m more r token_step_runtime recovered_fuel in
          \<open>auto split: nat.split dest!: Suc_le_D\<close>)
  qed
qed simp

lemma calm_BeginRead: "calm (\<lambda>b. b) BeginRead"
proof -
  have "calm (\<lambda>b. b) readNextPacket" by (rule calmI) (use calm_readNextPacket in blast)
  then show ?thesis unfolding BeginRead_def by (intro calm)
qed

lemma processResponse_ends:
  assumes "sane_at out (sess_buf s)" and "processResponse T s = (toks, t)"
  shows "sane_at out (sess_buf t) \<and> to_read (sess_buf t) \<le> to_read (sess_buf s) \<and> TokRuntime OutOfFuel \<notin> set toks"
proof -
  obtain r b where r: "BeginRead (sess_buf s) = (r, b)" by fastforce
  note m = calmD [OF calm_BeginRead r assms(1)]
  show ?thesis
  proof (cases "r = Ret (Inr 4)")
    case True
    let ?u = "s\<lparr>sess_buf := b\<rparr>"
    have "response_loop T (response_fuel b) start_response ?u = (toks, t)"
      using assms(2) r True by (simp add: processResponse_def on_buf_def)
    moreover have "to_read b < response_fuel b" by (simp add: to_read_def response_fuel_def less_Suc_eq_le)
    ultimately show ?thesis using response_loop_ends [of out ?u "response_fuel b" T start_response toks t] m by simp
  next
    case False
    with assms(2) r m show ?thesis
      by (auto simp: processResponse_def on_buf_def recovered_fuel split: outcome.splits sum.splits if_splits)
  qed
qed

lemma processResponse_sane:
  assumes "sane (sess_buf s)" and "processResponse T s = (toks, t)"
  shows "sane (sess_buf t) \<and> to_read (sess_buf t) \<le> to_read (sess_buf s) \<and> TokRuntime OutOfFuel \<notin> set toks"
  using processResponse_ends [OF assms(1) [unfolded sane_at_outgoing] assms(2)] by (simp add: sane_def sane_at_def)

end
