(* ===== verification/Replies.thy ===== *)
theory Replies
  imports PartWire StreamEnd
begin

text \<open>
  What a statement gives against what the server said: the tokens of a response are those of its
  parts, and from them follow the results of \<open>Exec\<close>, \<open>Query\<close> and \<open>Next\<close>, and the transaction.
\<close>

section \<open>What the parts of a response mean\<close>

text \<open>The token of a column without its type.\<close>

definition named_column :: "string \<Rightarrow> columnStruct" where
  "named_column nm = \<lparr>UserType = 0, Flags = 0, ColName = nm, ti = zero_typeInfo\<rparr>"

fun bare :: "token \<Rightarrow> token" where
  "bare (TokColumns cs) = TokColumns (map (\<lambda>c. named_column (ColName c)) cs)"
| "bare k = k"

text \<open>An error is kept until the part that ends the response.\<close>

fun failure :: "server_error option \<Rightarrow> doneStruct \<Rightarrow> server_error option" where
  "failure (Some e) d = Some e"
| "failure None d =
     (if Status d AND doneError \<noteq> 0 then Some zero_Error
      else if Status d AND doneSrvError \<noteq> 0 then Some (zero_Error\<lparr>Message := ''Server Error''\<rparr>) else None)"

definition ends :: "server_error option \<Rightarrow> doneStruct \<Rightarrow> bool" where
  "ends e d \<longleftrightarrow> failure e d \<noteq> None \<or> Status d AND doneMore = 0"

fun error_after :: "server_error option \<Rightarrow> part \<Rightarrow> server_error option" where
  "error_after e (PError l x) = Some x"
| "error_after e _ = e"

fun part_token :: "server_error option \<Rightarrow> part \<Rightarrow> token list" where
  "part_token e (PDone proc d) = [case failure e d of Some x \<Rightarrow> TokError x | None \<Rightarrow> TokDone d]"
| "part_token e (PDoneInProc d) = [TokDoneInProc d]"
| "part_token e (PStatus i) = [TokReturnStatus (sint i)]"
| "part_token e (POrder ids) = [TokOrder ids]"
| "part_token e (PColumns cds) = [TokColumns (map (named_column \<circ> col_name) cds)]"
| "part_token e (PRow bitmap vs) = [TokRow (map wire_value vs)]"
| "part_token e _ = []"

fun reply :: "server_error option \<Rightarrow> part list \<Rightarrow> token list" where
  "reply e [] = []"
| "reply e (p # ps) = part_token e p @ reply (error_after e p) ps"

text \<open>A response is complete with the first part that ends it.\<close>

fun is_end :: "server_error option \<Rightarrow> part \<Rightarrow> bool" where
  "is_end e (PDone proc d) = ends e d"
| "is_end e _ = False"

fun complete :: "server_error option \<Rightarrow> part list \<Rightarrow> bool" where
  "complete e [] = False"
| "complete e (p # ps) = (if is_end e p then ps = [] else complete (error_after e p) ps)"

fun tran_after :: "64 word \<Rightarrow> part list \<Rightarrow> 64 word" where
  "tran_after i [] = i"
| "tran_after i (PBegin j # ps) = tran_after j ps"
| "tran_after i (PEnd c old # ps) = tran_after 0 ps"
| "tran_after i (p # ps) = tran_after i ps"

section \<open>One token\<close>

text \<open>The state of the loop after a part.\<close>

definition loop_at :: "cell_kind list \<Rightarrow> server_error option \<Rightarrow> response \<Rightarrow> tdsSession \<Rightarrow> bool" where
  "loop_at ks e st s \<longleftrightarrow> list_all2 (\<lambda>k c. col_is (shape s) k (ti c)) ks (columns st) \<and>
     (case e of None \<Rightarrow> \<not> failed st \<and> lastError st = zero_Error | Some x \<Rightarrow> failed st \<and> lastError st = x)"

lemma loop_at_logged [simp]: "loop_at ks e st (logged_if f c x s) = loop_at ks e st s"
  by (simp add: loop_at_def)

definition stepped :: "tables \<Rightarrow> cell_kind list \<Rightarrow> server_error option \<Rightarrow> response \<Rightarrow> part \<Rightarrow> tdsSession \<Rightarrow> bool" where
  "stepped T ks e st p s \<longleftrightarrow> (\<exists>toks cont t. parses s (part_bytes ks p) (token_step T st) (toks, cont) t \<and>
     map bare toks = part_token e p \<and> tranid t = tran_after (tranid s) [p] \<and>
     (case cont of None \<Rightarrow> is_end e p
      | Some st' \<Rightarrow> \<not> is_end e p \<and> loop_at (next_kinds ks p) (error_after e p) st' t))"


lemma steppedI:
  "parses s (part_bytes ks p) (token_step T st) (toks, cont) t \<Longrightarrow> map bare toks = part_token e p \<Longrightarrow>
   tranid t = tran_after (tranid s) [p] \<Longrightarrow>
   case cont of None \<Rightarrow> is_end e p
      | Some st' \<Rightarrow> \<not> is_end e p \<and> loop_at (next_kinds ks p) (error_after e p) st' t \<Longrightarrow> stepped T ks e st p s"
  unfolding stepped_def by blast

text \<open>The token tells what is read.\<close>

lemmas token_byte = parses_bindG [OF parses_on_buf [OF takes_byte]]

lemma parses_done_token:
  assumes "tok \<in> {253, 254}"
  shows "parses s ([tok] @ done_bytes d) (token_step T st) (done_result st d)
    (logged_if 4 (Status d AND doneCount \<noteq> 0) (''('' @ Itoa (uint (RowCount d)) @ '' row(s) affected)'' @ [CHR 0x0A]) s)"
proof -
  have "parses s (done_bytes d @ [] @ []) (bindG (on_buf parseDone) (\<lambda>d. seqG (log_done d) (ret (done_result st d))))
     (done_result st d)
     (logged_if 4 (Status d AND doneCount \<noteq> 0) (''('' @ Itoa (uint (RowCount d)) @ '' row(s) affected)'' @ [CHR 0x0A]) s)"
    by (rule parses_bindG [OF parses_on_buf [OF takes_done(1)]], unfold log_done_def,
        rule parses_seqG [OF parses_log_if], rule parses_ret)
  then show ?thesis
    unfolding token_step_def using assms by (intro token_byte) auto
qed

lemma parses_doneInProc_token:
  "parses s ([255] @ done_bytes d) (token_step T st) ([TokDoneInProc d], Some st)
    (logged_if 4 (Status d AND doneCount \<noteq> 0) (''('' @ Itoa (uint (RowCount d)) @ '' row(s) affected)'' @ [CHR 0x0A]) s)"
proof -
  have "parses s (done_bytes d @ [] @ [])
     (bindG (on_buf parseDoneInProc) (\<lambda>d. seqG (log_done d) (ret ([TokDoneInProc d], Some st)))) ([TokDoneInProc d], Some st)
     (logged_if 4 (Status d AND doneCount \<noteq> 0) (''('' @ Itoa (uint (RowCount d)) @ '' row(s) affected)'' @ [CHR 0x0A]) s)"
    by (rule parses_bindG [OF parses_on_buf [OF takes_done(2)]], unfold log_done_def,
        rule parses_seqG [OF parses_log_if], rule parses_ret)
  then show ?thesis
    unfolding token_step_def by (intro token_byte) simp
qed

lemma parses_status_token:
  fixes i :: "32 word"
  shows "parses s ([121] @ le_bytes 4 (unat i)) (token_step T st) ([TokReturnStatus (sint i)], Some st) s"
proof -
  have "parses s (le_bytes 4 (unat i) @ []) (bindG (on_buf parseReturnStatus) (\<lambda>n. ret ([TokReturnStatus n], Some st)))
    ([TokReturnStatus (sint i)], Some st) s"
    unfolding parseReturnStatus_def by (rule parses_bindG [OF parses_on_buf [OF takes_int32]], rule parses_ret)
  then show ?thesis unfolding token_step_def by (intro token_byte) (simp del: le_bytes.simps)
qed

lemma parses_order_token:
  assumes "length ids < 32768"
  shows "parses s ([169] @ le_bytes 2 (2 * length ids) @ concat (map (\<lambda>i. le_bytes 2 (unat i)) ids)) (token_step T st)
    ([TokOrder ids], Some st) s"
proof -
  have "parses s ((le_bytes 2 (2 * length ids) @ concat (map (\<lambda>i. le_bytes 2 (unat i)) ids)) @ [])
    (bindG (on_buf parseOrder) (\<lambda>ids. ret ([TokOrder ids], Some st))) ([TokOrder ids], Some st) s"
    by (rule parses_bindG [OF parses_on_buf [OF takes_order [OF assms]]], rule parses_ret)
  then show ?thesis unfolding token_step_def by (intro token_byte) (simp del: le_bytes.simps)
qed

lemma parses_error_token:
  assumes "error_ok e"
  shows "parses s ([170] @ error_bytes l e) (token_step T st) ([], Some (st\<lparr>lastError := e, failed := True\<rparr>))
    (logged_if 1 True (Message e @ [CHR 0x0A]) s)"
proof -
  have "parses s (error_bytes l e @ [] @ []) (bindG (on_buf parseError72) (\<lambda>e.
           seqG (log_if 1 True (Message e @ [CHR 0x0A])) (ret ([], Some (st\<lparr>lastError := e, failed := True\<rparr>)))))
     ([], Some (st\<lparr>lastError := e, failed := True\<rparr>)) (logged_if 1 True (Message e @ [CHR 0x0A]) s)"
    by (rule parses_bindG [OF parses_on_buf [OF takes_error(1) [OF assms]]], rule parses_seqG [OF parses_log_if],
        rule parses_ret)
  then show ?thesis unfolding token_step_def by (intro token_byte) simp
qed

lemma parses_info_token:
  assumes "error_ok e"
  shows "parses s ([171] @ error_bytes l e) (token_step T st) ([], Some st) (logged_if 2 True (Message e @ [CHR 0x0A]) s)"
proof -
  have "parses s (error_bytes l e @ [] @ [])
     (bindG (on_buf parseInfo) (\<lambda>e. seqG (log_if 2 True (Message e @ [CHR 0x0A])) (ret ([], Some st))))
     ([], Some st) (logged_if 2 True (Message e @ [CHR 0x0A]) s)"
    by (rule parses_bindG [OF parses_on_buf [OF takes_error(2) [OF assms]]], rule parses_seqG [OF parses_log_if],
        rule parses_ret)
  then show ?thesis unfolding token_step_def by (intro token_byte) simp
qed

lemma parses_env_change_token:
  assumes "parses s bs (processEnvChg T) () t"
  shows "parses s ([227] @ bs) (token_step T st) ([], Some st) t"
proof -
  have "parses s (bs @ []) (seqG (processEnvChg T) (ret ([], Some st))) ([], Some st) t"
    by (rule parses_seqG [OF assms parses_ret])
  then show ?thesis unfolding token_step_def by (intro token_byte) simp
qed

lemma parses_columns_token:
  assumes "parses s bs parseColMetadata72 cs t"
  shows "parses s ([129] @ bs) (token_step T st) ([TokColumns cs], Some (st\<lparr>columns := cs\<rparr>)) t"
proof -
  have "parses s (bs @ []) (bindG parseColMetadata72 (\<lambda>cs. ret ([TokColumns cs], Some (st\<lparr>columns := cs\<rparr>))))
    ([TokColumns cs], Some (st\<lparr>columns := cs\<rparr>)) t"
    by (rule parses_bindG [OF assms parses_ret])
  then show ?thesis unfolding token_step_def by (intro token_byte) simp
qed

lemma parses_row_token:
  assumes "parses s bs (parseRow (dbcs_of T) (columns st)) vs t"
  shows "parses s ([209] @ bs) (token_step T st) ([TokRow vs], Some st) t"
proof -
  have "parses s (bs @ []) (bindG (parseRow (dbcs_of T) (columns st)) (\<lambda>r. ret ([TokRow r], Some st)))
    ([TokRow vs], Some st) t"
    by (rule parses_bindG [OF assms parses_ret])
  then show ?thesis unfolding token_step_def by (intro token_byte) simp
qed

lemma parses_nbc_row_token:
  assumes "parses s bs (parseNbcRow (dbcs_of T) (columns st)) vs t"
  shows "parses s ([210] @ bs) (token_step T st) ([TokRow vs], Some st) t"
proof -
  have "parses s (bs @ []) (bindG (parseNbcRow (dbcs_of T) (columns st)) (\<lambda>r. ret ([TokRow r], Some st)))
    ([TokRow vs], Some st) t"
    by (rule parses_bindG [OF assms parses_ret])
  then show ?thesis unfolding token_step_def by (intro token_byte) simp
qed

lemma loop_at_same:
  "loop_at ks e st s \<Longrightarrow> shape t = shape s \<Longrightarrow> loop_at ks e st t"
  by (simp add: loop_at_def)

lemma part_stepped:
  assumes "loop_at ks e st s" and "part_ok ks p"
  shows "stepped T ks e st p s"
proof (cases p)
  case (PDone proc d)
  obtain toks cont where r: "done_result st d = (toks, cont)" by fastforce
  show ?thesis unfolding PDone
    by (rule steppedI [where toks = toks and cont = cont and t = "logged_if 4 (Status d AND doneCount \<noteq> 0)
          (''('' @ Itoa (uint (RowCount d)) @ '' row(s) affected)'' @ [CHR 0x0A]) s"])
       (use parses_done_token [of 253 s d T st] parses_done_token [of 254 s d T st] r assms(1) in
         \<open>auto simp: done_result_def loop_at_def ends_def split: option.splits if_splits\<close>)
next
  case (PDoneInProc d)
  show ?thesis unfolding PDoneInProc
    by (rule steppedI [where toks = "[TokDoneInProc d]" and cont = "Some st" and t = "logged_if 4 (Status d AND doneCount \<noteq> 0)
          (''('' @ Itoa (uint (RowCount d)) @ '' row(s) affected)'' @ [CHR 0x0A]) s"])
       (use parses_doneInProc_token [of s d T st] assms(1) in simp_all)
next
  case (PStatus i)
  show ?thesis unfolding PStatus
    by (rule steppedI [where toks = "[TokReturnStatus (sint i)]" and cont = "Some st" and t = s])
       (use parses_status_token [of s i T st] assms(1) in \<open>simp_all del: le_bytes.simps\<close>)
next
  case (POrder ids)
  show ?thesis unfolding POrder
    by (rule steppedI [where toks = "[TokOrder ids]" and cont = "Some st" and t = s])
       (use parses_order_token [of ids s T st] assms POrder in \<open>simp_all del: le_bytes.simps\<close>)
next
  case (PError l x)
  show ?thesis unfolding PError
    by (rule steppedI [where toks = "[]" and cont = "Some (st\<lparr>lastError := x, failed := True\<rparr>)" and
          t = "logged_if 1 True (Message x @ [CHR 0x0A]) s"])
       (use parses_error_token [of x s l T st] assms PError in \<open>simp_all add: loop_at_def\<close>)
next
  case (PInfo l x)
  show ?thesis unfolding PInfo
    by (rule steppedI [where toks = "[]" and cont = "Some st" and t = "logged_if 2 True (Message x @ [CHR 0x0A]) s"])
       (use parses_info_token [of x s l T st] assms PInfo in simp_all)
next
  case (PBegin i)
  obtain t where t: "parses s (le_bytes 2 11 @ 8 # 8 # le_bytes 8 (unat i) @ [0]) (processEnvChg T) () t"
    "same_state (s\<lparr>tranid := i\<rparr>) t" "arrays t = arrays s" using parses_begin by blast
  show ?thesis unfolding PBegin
    by (rule steppedI [where toks = "[]" and cont = "Some st" and t = t])
       (use parses_env_change_token [OF t(1), of st] t(2,3) assms(1) in
         \<open>auto simp: same_state_def loop_at_def simp del: le_bytes.simps\<close>)
next
  case (PEnd c old)
  with assms(2) have "length old < 256" by simp
  then obtain t where t: "parses s (le_bytes 2 (Suc (Suc (Suc (length old)))) @ (if c then 9 else 10) # 0 # of_nat (length old) # old)
      (processEnvChg T) () t" "same_state (s\<lparr>tranid := 0\<rparr>) t" "arrays t = arrays s" using parses_end by blast
  show ?thesis unfolding PEnd
    by (rule steppedI [where toks = "[]" and cont = "Some st" and t = t])
       (use parses_env_change_token [OF t(1), of st] t(2,3) assms(1) in
         \<open>auto simp: same_state_def loop_at_def simp del: le_bytes.simps\<close>)
next
  case (PDatabase new old)
  with assms(2) have "name_ok new" "name_ok old" by auto
  from parses_database [OF this, of s T] have db: "parses s (le_bytes 2 (Suc (length (name_bytes new @ name_bytes old))) @
      1 # name_bytes new @ name_bytes old) (processEnvChg T) () (s\<lparr>database := new\<rparr>)" .
  show ?thesis unfolding PDatabase
    by (rule steppedI [where toks = "[]" and cont = "Some st" and t = "s\<lparr>database := new\<rparr>"])
       (use parses_env_change_token [OF db, of st] assms(1) in \<open>auto simp: loop_at_def simp del: le_bytes.simps\<close>)
next
  case (PSetting k new old)
  with assms(2) have k: "k \<notin> {1, 4, 8, 9, 10, 13}" "length new < 256" "length old < 256" by auto
  show ?thesis unfolding PSetting
    by (rule steppedI [where toks = "[]" and cont = "Some st" and t = s])
       (use parses_env_change_token [OF parses_setting [OF k, of s T], of st] assms(1) in \<open>auto simp del: le_bytes.simps\<close>)
next
  case (PColumns cds)
  with assms(2) have c: "list_all (\<lambda>c. name_ok (col_name c) \<and> kind_ok (col_kind c)) cds" "length cds < 65535" by auto
  obtain cs t where t: "parses s (le_bytes 2 (length cds) @ concat (map column_bytes cds)) parseColMetadata72 cs t"
    "map ColName cs = map col_name cds" "list_all2 (\<lambda>k c. col_is (shape t) k (ti c)) (map col_kind cds) cs" "same_state s t"
    using parses_colMetadata [OF c] by blast
  have "map (\<lambda>c. named_column (ColName c)) cs = map (named_column \<circ> col_name) cds"
    using arg_cong [OF t(2), of "map named_column"] by (simp add: comp_def)
  then show ?thesis unfolding PColumns
    by (intro steppedI [where toks = "[TokColumns cs]" and cont = "Some (st\<lparr>columns := cs\<rparr>)" and t = t])
       (use parses_columns_token [OF t(1), of T st] t(3,4) assms(1) in
         \<open>auto simp: same_state_def loop_at_def simp del: le_bytes.simps split: option.splits\<close>)
next
  case (PRow bitmap vs)
  with assms have row: "list_all2 (\<lambda>k c. col_is (shape s) k (ti c)) ks (columns st)" "list_all2 cell_ok ks vs"
    by (auto simp: loop_at_def)
  obtain t where
    t: "parses s (part_bytes ks (PRow bitmap vs)) (token_step T st) ([TokRow (map wire_value vs)], Some st) t" "same_state s t"
      "shape t = shape s"
    using parses_row [OF row, of "dbcs_of T"] parses_nbc_row [OF row, of "dbcs_of T"] parses_row_token parses_nbc_row_token
    by (cases bitmap) (force simp del: append.simps)+
  show ?thesis unfolding PRow
    by (rule steppedI [where toks = "[TokRow (map wire_value vs)]" and cont = "Some st" and t = t])
       (use t assms(1) loop_at_same in \<open>auto simp: same_state_def simp del: part_bytes.simps\<close>)
qed


section \<open>A whole response\<close>

lemma response_loop_reply:
  assumes "complete e ps" and "parts_ok ks ps" and "loop_at ks e st s" and "reading (response_bytes ks ps @ data) rest b"
    and "length ps \<le> fuel"
  shows "\<exists>toks t b'. response_loop T fuel st (s\<lparr>sess_buf := b\<rparr>) = (toks, t\<lparr>sess_buf := b'\<rparr>) \<and>
    map bare toks = reply e ps \<and> tranid t = tran_after (tranid s) ps \<and> reading data rest b'"
  using assms
proof (induction ps arbitrary: e ks st s b fuel)
  case (Cons p ps)
  obtain k where fuel: "fuel = Suc k" "length ps \<le> k" using Cons.prems(5) by (cases fuel) auto
  from part_stepped [OF Cons.prems(3)] Cons.prems(2) have "stepped T ks e st p s" by simp
  then obtain toks cont t where st: "parses s (part_bytes ks p) (token_step T st) (toks, cont) t"
    "map bare toks = part_token e p" "tranid t = tran_after (tranid s) [p]"
    "case cont of None \<Rightarrow> is_end e p
      | Some st' \<Rightarrow> \<not> is_end e p \<and> loop_at (next_kinds ks p) (error_after e p) st' t"
    unfolding stepped_def by blast
  have "reading (part_bytes ks p @ response_bytes (next_kinds ks p) ps @ data) rest b" using Cons.prems(4) by simp
  from parsesD [OF st(1) this] obtain b1 where
    b1: "token_step T st (s\<lparr>sess_buf := b\<rparr>) = (Ret (toks, cont), t\<lparr>sess_buf := b1\<rparr>)"
      "reading (response_bytes (next_kinds ks p) ps @ data) rest b1" by blast
  show ?case
  proof (cases cont)
    case None
    with Cons.prems(1) st(4) have "ps = []" by simp
    with None b1 st(2,3) fuel show ?thesis
      by (intro exI [of _ toks] exI [of _ t] exI [of _ b1]) simp
  next
    case (Some st')
    with Cons.prems(1) st(4) have c: "complete (error_after e p) ps" "loop_at (next_kinds ks p) (error_after e p) st' t" by auto
    have "parts_ok (next_kinds ks p) ps" using Cons.prems(2) by simp
    from Cons.IH [OF c(1) this c(2) b1(2) fuel(2)] obtain rest' u b2 where
      u: "response_loop T k st' (t\<lparr>sess_buf := b1\<rparr>) = (rest', u\<lparr>sess_buf := b2\<rparr>)" "map bare rest' = reply (error_after e p) ps"
        "tranid u = tran_after (tranid t) ps" "reading data rest b2" by blast
    have "tran_after (tran_after (tranid s) [p]) ps = tran_after (tranid s) (p # ps)" by (cases p) simp_all
    with u st(2,3) b1(1) Some fuel(1) show ?thesis
      by (intro exI [of _ "toks @ rest'"] exI [of _ u] exI [of _ b2]) simp
  qed
qed simp

lemma response_length: "length ps \<le> length (response_bytes ks ps)"
proof (induction ps arbitrary: ks)
  case (Cons p ps)
  have "1 \<le> length (part_bytes ks p)" by (cases p) simp_all
  with Cons [of "next_kinds ks p"] show ?case by simp
qed simp

lemma reading_fuel:
  assumes "reading data rest b"
  shows "length data \<le> response_fuel b"
proof -
  have "length data \<le> unread b" using reading_unread [OF assms] .
  also have "\<dots> \<le> response_fuel b" using assms by (auto simp: reading_def unread_def response_fuel_def)
  finally show ?thesis .
qed

lemma BeginRead_outgoing: "BeginRead b = (r, b') \<Longrightarrow> outgoing (transport b') = outgoing (transport b)"
  by (auto simp: BeginRead_def bindG_apply dest: readNextPacket_outgoing split: prod.splits outcome.splits option.splits)

lemma processResponse_reply:
  assumes "complete None ps" and "parts_ok [] ps" and "message n 4 ws (response_bytes [] ps)"
    and "incoming (transport (sess_buf s)) = ws @ rest" and "length (buf (sess_buf s)) = n" and "n < 65536"
  shows "\<exists>toks t. processResponse T s = (toks, t) \<and> map bare toks = reply None ps \<and> tranid t = tran_after (tranid s) ps \<and>
    reading [] rest (sess_buf t) \<and> outgoing (transport (sess_buf t)) = outgoing (transport (sess_buf s))"
proof -
  from BeginRead_message [OF assms(3,4) assms(5) [symmetric] assms(6)] obtain b where
    b: "BeginRead (sess_buf s) = (Ret (Inr 4), b)" "reading (response_bytes [] ps) rest b" by blast
  have "length ps \<le> response_fuel b" using response_length [of ps "[]"] reading_fuel [OF b(2)] by simp
  moreover have "loop_at [] None start_response s" by (simp add: loop_at_def start_response_def)
  moreover have "reading (response_bytes [] ps @ []) rest b" using b(2) by simp
  ultimately obtain toks t b' where
    t: "response_loop T (response_fuel b) start_response (s\<lparr>sess_buf := b\<rparr>) = (toks, t\<lparr>sess_buf := b'\<rparr>)"
    "map bare toks = reply None ps" "tranid t = tran_after (tranid s) ps" "reading [] rest b'"
    using response_loop_reply [OF assms(1,2)] by blast
  have "sane_at (outgoing (transport (sess_buf s))) b"
    using b(2) BeginRead_outgoing [OF b(1)] by (auto simp: sane_at_def reading_def)
  moreover have "to_read b < response_fuel b" by (simp add: to_read_def response_fuel_def less_Suc_eq_le)
  ultimately have "sane_at (outgoing (transport (sess_buf s))) b'"
    using response_loop_ends [OF _ _ t(1)] by simp
  with b(1) t show ?thesis
    by (intro exI [of _ toks] exI [of _ "t\<lparr>sess_buf := b'\<rparr>"]) (simp add: processResponse_def on_buf_def sane_at_def)
qed

section \<open>What a statement gives\<close>

lemma token_error_bare [simp]: "token_error (bare k) = token_error k"
  by (cases k) simp_all

lemma exec_tokens_bare: "exec_tokens (map bare toks) n = exec_tokens toks n"
proof (induction toks arbitrary: n)
  case (Cons k toks)
  then show ?case by (cases k) simp_all
qed simp

lemma first_error_bare: "first_error (map bare toks) = first_error toks"
  by (induction toks) (simp_all split: option.splits)

text \<open>The count of the last part that has one, or the error that the server reported last.\<close>

fun exec_outcome :: "server_error option \<Rightarrow> 64 word \<Rightarrow> part list \<Rightarrow> server_error + 64 word" where
  "exec_outcome e n [] = Inr n"
| "exec_outcome e n (PDone proc d # ps) =
     (case failure e d of
        Some x \<Rightarrow> Inl x
      | None \<Rightarrow> exec_outcome e (if Status d AND doneCount \<noteq> 0 then RowCount d else n) ps)"
| "exec_outcome e n (PDoneInProc d # ps) = exec_outcome e (if Status d AND doneCount \<noteq> 0 then RowCount d else n) ps"
| "exec_outcome e n (PError l x # ps) = exec_outcome (Some x) n ps"
| "exec_outcome e n (p # ps) = exec_outcome e n ps"

lemma exec_reply: "exec_tokens (reply e ps) n = map_sum ServerErr id (exec_outcome e n ps)"
proof (induction ps arbitrary: e n)
  case (Cons p ps)
  then show ?case by (cases p) (auto split: option.splits)
qed simp

end
