(* ===== verification/WriteOnly.thy ===== *)
theory WriteOnly
  imports CallWire
begin

text \<open>
  That a request only writes: what arrives is left for the response, and the session keeps its
  transaction.
\<close>

text \<open>Code that writes requests does not read, and leaves the buffer as long as it was.\<close>

definition only_writes :: "(tdsBuffer, 'a) go \<Rightarrow> bool" where
  "only_writes m \<longleftrightarrow> (\<forall>b r b'. m b = (r, b') \<longrightarrow> afterFirst b = None \<longrightarrow>
     afterFirst b' = None \<and> incoming (transport b') = incoming (transport b) \<and> length (buf b') = length (buf b))"

named_theorems writes

lemma only_writesI:
  "(\<And>b r b'. m b = (r, b') \<Longrightarrow> afterFirst b = None \<Longrightarrow>
     afterFirst b' = None \<and> incoming (transport b') = incoming (transport b) \<and> length (buf b') = length (buf b)) \<Longrightarrow>
   only_writes m"
  by (simp add: only_writes_def)

lemma only_writes_ret [writes]: "only_writes (ret v)" "only_writes (go_panic x)"
  by (simp_all add: only_writes_def go_panic_def)

lemma only_writes_bindG [writes]: "only_writes m \<Longrightarrow> (\<And>a. only_writes (f a)) \<Longrightarrow> only_writes (bindG m f)"
  unfolding only_writes_def by (fastforce simp: bindG_apply split: prod.splits outcome.splits)

lemma only_writes_seqG [writes]: "only_writes m \<Longrightarrow> only_writes k \<Longrightarrow> only_writes (seqG m k)"
  unfolding seqG_def by (rule only_writes_bindG)

lemma only_writes_readG [writes]: "(\<And>s. only_writes (f s)) \<Longrightarrow> only_writes (readG f)"
  by (simp add: only_writes_def)

lemma only_writes_cases [writes]:
  "(c \<Longrightarrow> only_writes a) \<Longrightarrow> (\<not> c \<Longrightarrow> only_writes b) \<Longrightarrow> only_writes (if c then a else b)"
  "(x = None \<Longrightarrow> only_writes a) \<Longrightarrow> (\<And>y. x = Some y \<Longrightarrow> only_writes (f y)) \<Longrightarrow>
   only_writes (case x of None \<Rightarrow> a | Some y \<Rightarrow> f y)"
  "(\<And>y z. only_writes (g y z)) \<Longrightarrow> only_writes (case p of (y, z) \<Rightarrow> g y z)"
  "(\<And>y. only_writes (h y)) \<Longrightarrow> only_writes (Let e h)"
  by (simp_all split: option.splits prod.splits)

lemma only_writes_store [writes]: "only_writes (store i bs)"
  by (auto simp: only_writes_def store_def put_at_def split: if_splits)

lemma only_writes_steps [writes]: "only_writes write_packet" "only_writes run_afterFirst"
  "only_writes (modifyG (\<lambda>s. s\<lparr>pos := p s\<rparr>))"
  by (auto simp: only_writes_def write_packet_def transport_Write_def run_afterFirst_def split: if_splits)

lemma only_writes_flush [writes]: "only_writes flush"
  unfolding flush_def by (intro writes)

lemma only_writes_write_loop [writes]: "only_writes (write_loop fuel nn p)"
proof (induction fuel arbitrary: nn p)
  case (Suc fuel)
  have f: "only_writes (bindG flush (\<lambda>err. if err \<noteq> None then ret (nn + k, err) else write_loop fuel (nn + k) q))" for k q
    by (intro writes Suc)
  show ?case
  proof (rule only_writesI)
    fix b r b'
    assume "write_loop (Suc fuel) nn p b = (r, b')" "afterFirst b = None"
    with f show "afterFirst b' = None \<and> incoming (transport b') = incoming (transport b) \<and> length (buf b') = length (buf b)"
      unfolding only_writes_def
      by (fastforce simp: Let_def put_at_def split: if_splits)
  qed
qed (simp add: only_writes_def)

lemma only_writes_puts [writes]: "only_writes (put p)" "only_writes (put_all ps)" "only_writes (WriteByte x)"
  "only_writes (BeginPacket pt)" "only_writes FinishPacket"
proof -
  show p: "only_writes (put p)" for p unfolding put_def Write_def by (intro writes)
  show "only_writes (put_all ps)" by (induction ps) (auto intro!: writes p simp only: put_all.simps)
qed (simp_all add: WriteByte_def BeginPacket_def FinishPacket_def, (intro writes)+)

lemma only_writes_texts [writes]:
  "only_writes (writeAllHeaders hs)" "only_writes (writeUsVarChar t)" "only_writes (writeBVarChar t)"
  unfolding writeAllHeaders_def writeUsVarChar_def writeBVarChar_def by (intro writes)+

lemma only_writes_andthen [writes]: "only_writes m \<Longrightarrow> only_writes k \<Longrightarrow> only_writes (andthen m k)"
  "only_writes k' \<Longrightarrow> only_writes (put_or p d k')"
  unfolding andthen_def put_or_def by (intro writes | assumption)+

lemma only_writes_infos [writes]: "only_writes (writeTypeInfo d)" "only_writes (run_writer d b)"
proof -
  have c: "only_writes (writeCollation col)" for col unfolding writeCollation_def by (intro writes)
  show "only_writes (writeTypeInfo d)" unfolding writeTypeInfo_def writeVarLen_def Let_def by (intro writes c)
  show "only_writes (run_writer d b)"
    unfolding run_writer_def writeByteLenType_def writeShortLenType_def writePLPType_def
    by (auto intro!: writes split: option.splits writer.splits)
qed

lemma only_writes_requests [writes]:
  "only_writes (sendSqlBatch72 q hs)" "only_writes (sendRpc hs proc fl ps)"
  "only_writes (sendBeginXact hs isol nm)" "only_writes (sendCommitXact hs nm g isol newnm)"
  "only_writes (sendRollbackXact hs nm g isol newnm)"
proof -
  have p: "only_writes (sendParam p)" for p unfolding sendParam_def by (intro writes)
  have ps: "only_writes (sendParams ps)" by (induction ps) (auto intro!: writes p simp only: sendParams.simps)
  show "only_writes (sendRpc hs proc fl ps)" unfolding sendRpc_def by (intro writes ps)
qed (unfold sendSqlBatch72_def sendBeginXact_def sendCommitXact_def sendRollbackXact_def, (intro writes)+)

text \<open>The session after a request has been written.\<close>

lemma on_buf_only_writes:
  assumes "only_writes m" and "on_buf m s = (r, t)" and "afterFirst (sess_buf s) = None"
  shows "\<exists>b. t = s\<lparr>sess_buf := b\<rparr> \<and> incoming (transport b) = incoming (transport (sess_buf s)) \<and>
    length (buf b) = length (buf (sess_buf s))"
  using assms by (auto simp: on_buf_def only_writes_def split: prod.splits) 

definition sent_from :: "tdsSession \<Rightarrow> tdsSession \<Rightarrow> bool" where
  "sent_from s t \<longleftrightarrow> tranid t = tranid s \<and> incoming (transport (sess_buf t)) = incoming (transport (sess_buf s)) \<and>
     length (buf (sess_buf t)) = length (buf (sess_buf s))"

lemma sendQuery_sent_from:
  assumes "sendQuery L st args s = (r, t)" and "afterFirst (sess_buf s) = None"
  shows "sent_from s t"
  using assms
  by (auto simp: sendQuery_def Let_def bindG_apply seqG_apply log_if_def log_params_def liftO_def sent_from_def
      dest!: on_buf_only_writes [OF only_writes_requests(1)] on_buf_only_writes [OF only_writes_requests(2)]
      split: if_splits prod.splits outcome.splits sum.splits)

end
