(* ===== verification/Outcomes.thy ===== *)
theory Outcomes
  imports Replies WriteOnly
begin

text \<open>
  What the driver's statements and transactions give, by the parts of the response: the count or
  the error of \<open>Exec\<close>, the columns and rows of \<open>Query\<close> and \<open>Next\<close>, and the transaction after
  \<open>Begin\<close>, \<open>Commit\<close> and \<open>Rollback\<close>.
\<close>

section \<open>Results of a statement\<close>

lemma responseG_reply:
  assumes "complete None ps" and "parts_ok [] ps" and "message n 4 ws (response_bytes [] ps)"
    and "incoming (transport (sess_buf s)) = ws @ rest" and "length (buf (sess_buf s)) = n" and "n < 65536"
  shows "\<exists>toks t. responseG L s = (Ret toks, t) \<and> map bare toks = reply None ps \<and>
    tranid t = tran_after (tranid s) ps \<and> outgoing (transport (sess_buf t)) = outgoing (transport (sess_buf s))"
  using processResponse_reply [OF assms, of "tabs L"] unfolding responseG_def by fastforce

lemma log_if_run: "log_if flag c x s = (Ret (), logged_if flag c x s)"
  by (simp add: log_if_def logged_if_def)

lemma logged_if_buf [simp]: "sess_buf (logged_if flag c x s) = sess_buf s"
  by (simp add: logged_if_def)

lemma checked_server [simp]: "checked L s (ServerErr e) = ServerErr e"
  by (simp add: checked_def)

lemma exec_error_server:
  "exec_tokens toks n = map_sum ServerErr id r \<Longrightarrow> exec_tokens toks n = Inl e \<Longrightarrow> \<exists>x. e = ServerErr x \<and> r = Inl x"
  by (cases r) auto

definition replies :: "nat \<Rightarrow> octet list \<Rightarrow> part list \<Rightarrow> bool" where
  "replies n ws ps \<longleftrightarrow> complete None ps \<and> parts_ok [] ps \<and> message n 4 ws (response_bytes [] ps) \<and> n < 65536"

text \<open>The session that is idle: nothing half written, and what arrives starts with the reply.\<close>

definition awaits :: "nat \<Rightarrow> octet list \<Rightarrow> tdsSession \<Rightarrow> bool" where
  "awaits n ws s \<longleftrightarrow> length (buf (sess_buf s)) = n \<and> afterFirst (sess_buf s) = None \<and>
     prefix ws (incoming (transport (sess_buf s)))"

lemma Exec_reply:
  assumes "sendQuery L st args s = (Ret None, s1)" and "replies n ws ps" and "awaits n ws s"
  shows "\<exists>t. Exec L st args s = (Ret (map_sum ServerErr sint (exec_outcome None 0 ps)), t) \<and>
    tranid t = tran_after (tranid s) ps \<and> outgoing (transport (sess_buf t)) = outgoing (transport (sess_buf s1))"
proof -
  from sendQuery_sent_from [OF assms(1)] assms(3) have s1: "sent_from s s1" by (simp add: awaits_def)
  from assms(2,3) s1 obtain rest where r: "complete None ps" "parts_ok [] ps" "message n 4 ws (response_bytes [] ps)"
    "incoming (transport (sess_buf s1)) = ws @ rest" "length (buf (sess_buf s1)) = n" "n < 65536" "tranid s1 = tranid s"
    by (auto simp: replies_def awaits_def sent_from_def prefix_def)
  from responseG_reply [OF r(1-6), of L] obtain toks t where
    t: "responseG L s1 = (Ret toks, t)" "map bare toks = reply None ps" "tranid t = tran_after (tranid s1) ps"
      "outgoing (transport (sess_buf t)) = outgoing (transport (sess_buf s1))" by blast
  have e: "exec_tokens toks 0 = map_sum ServerErr id (exec_outcome None 0 ps)"
    using exec_tokens_bare [of toks 0] exec_reply [of None ps 0] t(2) by simp
  show ?thesis
  proof (cases "exec_outcome None 0 ps")
    case (Inl x)
    with assms(1) t e r(7) show ?thesis
      by (simp add: Exec_def bindG_apply seqG_apply log_if_run)
  next
    case (Inr c)
    with assms(1) t e r(7) show ?thesis by (simp add: Exec_def bindG_apply)
  qed
qed

section \<open>Rows\<close>

text \<open>What \<open>Query\<close> looks at: the first columns, or the first part that ends a result.\<close>

fun query_outcome :: "server_error option \<Rightarrow> part list \<Rightarrow> server_error + (string list \<times> server_error option \<times> part list)" where
  "query_outcome e [] = Inr ([], e, [])"
| "query_outcome e (PColumns cds # ps) = Inr (map col_name cds, e, ps)"
| "query_outcome e (PDone proc d # ps) = (case failure e d of Some x \<Rightarrow> Inl x | None \<Rightarrow> Inr ([], e, ps))"
| "query_outcome e (PError l x # ps) = query_outcome (Some x) ps"
| "query_outcome e (p # ps) = query_outcome e ps"

text \<open>The rows from there on, and how they end.\<close>

fun row_outcome :: "server_error option \<Rightarrow> part list \<Rightarrow> govalue list list \<times> driver_error" where
  "row_outcome e [] = ([], GoErr io_EOF)"
| "row_outcome e (PRow bitmap vs # ps) = apfst (Cons (map wire_value vs)) (row_outcome e ps)"
| "row_outcome e (PColumns cds # ps) = ([], GoErr (bad_stream ''Unexpected token COLMETADATA''))"
| "row_outcome e (PDone proc d # ps) = (case failure e d of Some x \<Rightarrow> ([], ServerErr x) | None \<Rightarrow> row_outcome e ps)"
| "row_outcome e (PError l x # ps) = row_outcome (Some x) ps"
| "row_outcome e (p # ps) = row_outcome e ps"

text \<open>A caller that reads all rows with \<open>Next\<close> until it gives an error.\<close>

fun fetch :: "nat \<Rightarrow> nat \<Rightarrow> MssqlRows \<Rightarrow> (govalue list list \<times> driver_error) option" where
  "fetch 0 n rc = None"
| "fetch (Suc k) n rc =
     (case rows_Next n rc of
        Some (Ret (Inr row), rc') \<Rightarrow> map_option (apfst (Cons row)) (fetch k n rc')
      | Some (Ret (Inl e), rc') \<Rightarrow> Some ([], e)
      | _ \<Rightarrow> None)"

lemma next_tokens_bare:
  "next_tokens n (map bare toks) = map_prod id (map bare) (next_tokens n toks)"
proof (induction toks)
  case (Cons k toks)
  then show ?case by (cases k) simp_all
qed simp

lemma fetch_bare: "fetch k n (rc\<lparr>tokchan := Some (map bare toks)\<rparr>) = fetch k n (rc\<lparr>tokchan := Some toks\<rparr>)"
proof (induction k arbitrary: toks)
  case (Suc k)
  show ?case
    using Suc by (cases "next_tokens n toks") (auto simp: rows_Next_def next_tokens_bare split: outcome.splits sum.splits)
qed simp

lemma fetch_next:
  "next_tokens n toks = next_tokens n toks' \<Longrightarrow>
   fetch k n (rc\<lparr>tokchan := Some toks\<rparr>) = fetch k n (rc\<lparr>tokchan := Some toks'\<rparr>)"
  by (cases k) (simp_all add: rows_Next_def)

lemma fetch_reply:
  assumes "parts_ok ks ps" and "length ps < k"
  shows "fetch k (length ks) (rc\<lparr>tokchan := Some (reply e ps)\<rparr>) = Some (row_outcome e ps)"
  using assms
proof (induction ps arbitrary: e k)
  case Nil
  then show ?case by (cases k) (simp_all add: rows_Next_def)
next
  case (Cons p ps)
  obtain k' where k: "k = Suc k'" "length ps < k'" using Cons.prems(2) by (cases k) auto
  show ?case
  proof (cases "\<exists>cds. p = PColumns cds")
    case True
    with k show ?thesis by (auto simp: rows_Next_def)
  next
    case False
    then have ok: "next_kinds ks p = ks" by (cases p) auto
    with Cons.prems(1) have ps: "parts_ok ks ps" by simp
    show ?thesis
    proof (cases "\<exists>b vs. p = PRow b vs")
      case True
      then obtain b vs where vs: "p = PRow b vs" by blast
      with Cons.prems(1) have "length vs = length ks" by (auto simp: list_all2_lengthD)
      with vs k Cons.IH [OF ps k(2)] show ?thesis by (simp add: rows_Next_def)
    next
      case no_row: False
      have IH: "fetch k (length ks) (rc\<lparr>tokchan := Some (reply e' ps)\<rparr>) = Some (row_outcome e' ps)" for e'
        using Cons.IH [OF ps, of k e'] k by (simp del: fetch.simps)
      show ?thesis
      proof (cases "\<exists>proc d x. p = PDone proc d \<and> failure e d = Some x")
        case True
        with k show ?thesis by (auto simp: rows_Next_def)
      next
        case go_on: False
        have "next_tokens (length ks) (part_token e p @ l) = next_tokens (length ks) l" for l
          using False no_row go_on by (cases p) (auto split: option.splits)
        then have "fetch k (length ks) (rc\<lparr>tokchan := Some (part_token e p @ reply (error_after e p) ps)\<rparr>) =
            fetch k (length ks) (rc\<lparr>tokchan := Some (reply (error_after e p) ps)\<rparr>)" by (rule fetch_next)
        moreover have "row_outcome e (p # ps) = row_outcome (error_after e p) ps"
          using False no_row go_on by (cases p) (auto split: option.splits)
        ultimately show ?thesis using IH [of "error_after e p"] unfolding reply.simps by simp
      qed
    qed
  qed
qed

lemma query_tokens_bare:
  "query_tokens (map bare toks) = map_sum id (\<lambda>rc. rc\<lparr>tokchan := map_option (map bare) (tokchan rc)\<rparr>) (query_tokens toks)"
proof (induction toks)
  case (Cons k toks)
  then show ?case by (cases k) (simp_all add: comp_def named_column_def)
qed simp

lemma query_reply:
  assumes "parts_ok ks ps"
  shows "query_tokens (reply e ps) = (case query_outcome e ps of
     Inl x \<Rightarrow> Inl (ServerErr x)
   | Inr (names, e', later) \<Rightarrow> Inr \<lparr>cols = names, tokchan = Some (reply e' later)\<rparr>)"
proof (induction ps arbitrary: e)
  case (Cons p ps)
  then show ?case by (cases p) (auto simp: comp_def named_column_def split: option.splits)
qed simp


text \<open>The rows that are left after \<open>Query\<close> fit the columns.\<close>

lemma query_outcome_columns:
  assumes "query_outcome e ps = Inr (names, e', later)" and "parts_ok [] ps"
  shows "\<exists>ks. parts_ok ks later \<and> length ks = length names"
  using assms
proof (induction ps arbitrary: e)
  case (Cons p ps)
  then show ?case by (cases p) (force split: option.splits)+
qed simp

definition Query_spec :: "part list \<Rightarrow> driver_error + MssqlRows \<Rightarrow> bool" where
  "Query_spec ps r \<longleftrightarrow>
     (case query_outcome None ps of
        Inl x \<Rightarrow> r = Inl (ServerErr x)
      | Inr (names, e, later) \<Rightarrow>
          (\<exists>rc. r = Inr rc \<and> cols rc = names \<and>
             fetch (length later + 1) (length names) rc = Some (row_outcome e later)))"

lemma Query_reply:
  assumes "sendQuery L st args s = (Ret None, s1)" and "replies n ws ps" and "awaits n ws s"
  shows "\<exists>r t. Query L st args s = (Ret r, t) \<and> Query_spec ps r \<and> tranid t = tran_after (tranid s) ps \<and>
    outgoing (transport (sess_buf t)) = outgoing (transport (sess_buf s1))"
proof -
  from sendQuery_sent_from [OF assms(1)] assms(3) have s1: "sent_from s s1" by (simp add: awaits_def)
  from assms(2,3) s1 obtain rest where r: "complete None ps" "parts_ok [] ps" "message n 4 ws (response_bytes [] ps)"
    "incoming (transport (sess_buf s1)) = ws @ rest" "length (buf (sess_buf s1)) = n" "n < 65536" "tranid s1 = tranid s"
    by (auto simp: replies_def awaits_def sent_from_def prefix_def)
  from responseG_reply [OF r(1-6), of L] obtain toks t where
    t: "responseG L s1 = (Ret toks, t)" "map bare toks = reply None ps" "tranid t = tran_after (tranid s1) ps"
      "outgoing (transport (sess_buf t)) = outgoing (transport (sess_buf s1))" by blast
  let ?q = "query_tokens toks"
  have run: "Query L st args s = (Ret (case ?q of Inl e \<Rightarrow> Inl (checked L t e) | Inr rows \<Rightarrow> Inr rows), t)"
    using assms(1) t(1) by (simp add: Query_def bindG_apply)
  have q: "map_sum id (\<lambda>rc. rc\<lparr>tokchan := map_option (map bare) (tokchan rc)\<rparr>) ?q =
      (case query_outcome None ps of Inl x \<Rightarrow> Inl (ServerErr x)
       | Inr (names, e', later) \<Rightarrow> Inr \<lparr>cols = names, tokchan = Some (reply e' later)\<rparr>)"
    using query_reply [OF r(2), of None] query_tokens_bare [of toks] t(2) by simp
  have "Query_spec ps (case ?q of Inl e \<Rightarrow> Inl (checked L t e) | Inr rows \<Rightarrow> Inr rows)"
  proof (cases "query_outcome None ps")
    case (Inl x)
    with q have "?q = Inl (ServerErr x)" by (cases ?q) auto
    with Inl show ?thesis by (simp add: Query_spec_def)
  next
    case (Inr z)
    obtain names e later where z: "z = (names, e, later)" using prod_cases3 by blast
    with q Inr obtain rc where rc: "?q = Inr rc"
      "rc\<lparr>tokchan := map_option (map bare) (tokchan rc)\<rparr> = \<lparr>cols = names, tokchan = Some (reply e later)\<rparr>"
      by (cases ?q) auto
    then obtain l where l: "tokchan rc = Some l" "map bare l = reply e later" "cols rc = names"
      by (cases rc) auto
    obtain ks where ks: "parts_ok ks later" "length ks = length names"
      using query_outcome_columns [OF Inr [unfolded z] r(2)] by blast
    have "rc = rc\<lparr>tokchan := Some l\<rparr>" using l(1) by (cases rc) simp
    then have "fetch (length later + 1) (length names) rc = fetch (length later + 1) (length names) (rc\<lparr>tokchan := Some (map bare l)\<rparr>)"
      using fetch_bare [of "length later + 1" "length names" l rc] by metis
    also have "\<dots> = Some (row_outcome e later)"
      using fetch_reply [OF ks(1), of "length later + 1" e rc] ks(2) l(2) by (simp del: fetch.simps)
    finally show ?thesis using Inr z rc(1) l(3) by (simp add: Query_spec_def del: fetch.simps)
  qed
  with run t(3,4) r(7) show ?thesis by auto
qed

section \<open>Transactions\<close>

text \<open>A response without rows: the first error, if there is one.\<close>

fun error_outcome :: "server_error option \<Rightarrow> part list \<Rightarrow> server_error option" where
  "error_outcome e [] = None"
| "error_outcome e (PDone proc d # ps) = (case failure e d of Some x \<Rightarrow> Some x | None \<Rightarrow> error_outcome e ps)"
| "error_outcome e (PError l x # ps) = error_outcome (Some x) ps"
| "error_outcome e (p # ps) = error_outcome e ps"

lemma first_error_reply: "first_error (reply e ps) = map_option ServerErr (error_outcome e ps)"
proof (induction ps arbitrary: e)
  case (Cons p ps)
  then show ?case by (cases p) (auto split: option.splits)
qed simp


lemma andthen_assoc: "andthen a (andthen b c) = andthen (andthen a b) c"
  by (rule ext) (auto simp: andthen_def bindG_apply split: prod.splits outcome.splits)

lemma emits_BVarChar_empty: "emits (writeBVarChar []) [0] None"
proof -
  have e: "str2ucs2 [] = []" by code_simp
  from emits_put_all [of "[le_bytes 1 0, []]"] show ?thesis by (simp add: writeBVarChar_def e Let_def del: put_all.simps)
qed

text \<open>A request of headers and a body.\<close>

definition request :: "octet \<Rightarrow> headerStruct list \<Rightarrow> (tdsBuffer, go_error option) go \<Rightarrow> (tdsBuffer, go_error option) go" where
  "request pt hs m = seqG (BeginPacket pt) (bindG (writeAllHeaders hs) (\<lambda>_. andthen m FinishPacket))"

lemma request_message:
  assumes "ready n before b" and "emits m bs None"
  shows "\<exists>b' ws. request pt hs m b = (Ret None, b') \<and> concat (outgoing (transport b')) = before @ ws \<and>
    message n pt ws (headers_bytes hs @ bs)"
proof -
  from ready_BeginPacket [OF assms(1), of pt] obtain b1 where
    b1: "BeginPacket pt b = (Ret (), b1)" "writing n pt before [] b1" by blast
  from emits_headers b1(2) obtain b2 where
    b2: "writeAllHeaders hs b1 = (Ret None, b2)" "writing n pt before ([] @ headers_bytes hs) b2"
    unfolding emits_def by blast
  from andthen_writing [OF assms(2) b2(2), of FinishPacket] obtain b3 where
    b3: "andthen m FinishPacket b2 = FinishPacket b3" "writing n pt before (([] @ headers_bytes hs) @ bs) b3" by blast
  from FinishPacket_writing [OF b3(2)] b1(1) b2(1) b3(1) show ?thesis
    by (auto simp: request_def seqG_apply bindG_apply)
qed

lemma tran_requests:
  "sendBeginXact hs 0 [] = request 14 hs (andthen (put (le_bytes 2 5)) (andthen (put [0]) (writeBVarChar [])))"
  "sendCommitXact hs [] 0 0 [] =
     request 14 hs (andthen (put (le_bytes 2 7)) (andthen (writeBVarChar []) (andthen (put [0]) (ret None))))"
  "sendRollbackXact hs [] 0 0 [] =
     request 14 hs (andthen (put (le_bytes 2 8)) (andthen (writeBVarChar []) (andthen (put [0]) (ret None))))"
  by (simp_all add: sendBeginXact_def sendCommitXact_def sendRollbackXact_def request_def andthen_assoc)

lemma emits_tran_bodies:
  "emits (andthen (put (le_bytes 2 5)) (andthen (put [0]) (writeBVarChar []))) (le_bytes 2 5 @ [0] @ [0]) None"
  "emits (andthen (put (le_bytes 2 j)) (andthen (writeBVarChar []) (andthen (put [0]) (ret None))))
     (le_bytes 2 j @ [0] @ [0] @ []) None"
  by (intro emits_andthen emits_put emits_BVarChar_empty emits_ret)+

definition request_data :: "nat \<Rightarrow> 64 word \<Rightarrow> octet list" where
  "request_data j i = headers_bytes (tran_headers i) @ le_bytes 2 j @ [0, 0]"

lemma tran_request_message:
  assumes "ready n before (sess_buf s)" and "awaits n ws s"
    and "m \<in> {(5, sendBeginXact (tran_headers i) 0 []), (7, sendCommitXact (tran_headers i) [] 0 0 []),
      (8, sendRollbackXact (tran_headers i) [] 0 0 [])}"
  shows "\<exists>s1 out. on_buf (snd m) s = (Ret None, s1) \<and> concat (outgoing (transport (sess_buf s1))) = before @ out \<and>
    message n 14 out (request_data (fst m) i) \<and> sent_from s s1"
proof -
  note bodies = emits_tran_bodies [THEN request_message [OF assms(1)], of 14 "tran_headers i"]
  from bodies(1) bodies(2) [of 7] bodies(2) [of 8] assms(3) obtain b out where
    b: "snd m (sess_buf s) = (Ret None, b)" "concat (outgoing (transport b)) = before @ out"
      "message n 14 out (request_data (fst m) i)"
    by (auto simp: tran_requests request_data_def simp del: le_bytes.simps)
  have run: "on_buf (snd m) s = (Ret None, s\<lparr>sess_buf := b\<rparr>)" using b(1) by (simp add: on_buf_def)
  have "only_writes (snd m)" using assms(3) by (auto intro: writes)
  with b(1) assms(2) have "sent_from s (s\<lparr>sess_buf := b\<rparr>)"
    by (auto simp: sent_from_def awaits_def only_writes_def)
  with run b(2,3) show ?thesis by (intro exI [of _ "s\<lparr>sess_buf := b\<rparr>"] exI [of _ out]) simp
qed

lemma tran_reply:
  assumes "sent_from s s1" and "replies n ws ps" and "awaits n ws s"
  shows "\<exists>toks t. responseG L s1 = (Ret toks, t) \<and> first_error toks = map_option ServerErr (error_outcome None ps) \<and>
    tranid t = tran_after (tranid s) ps \<and> outgoing (transport (sess_buf t)) = outgoing (transport (sess_buf s1))"
proof -
  from assms obtain rest where r: "complete None ps" "parts_ok [] ps" "message n 4 ws (response_bytes [] ps)"
    "incoming (transport (sess_buf s1)) = ws @ rest" "length (buf (sess_buf s1)) = n" "n < 65536" "tranid s1 = tranid s"
    by (auto simp: replies_def awaits_def sent_from_def prefix_def)
  from responseG_reply [OF r(1-6), of L] first_error_reply [of None ps] first_error_bare r(7) show ?thesis by metis
qed

section \<open>Statements that can be sent\<close>

text \<open>
  The number of arguments is right, and with arguments the server knows the types of version 7.3 and
  the texts are of a length that the wire can carry.
\<close>

definition statement_ok :: "tdsSession \<Rightarrow> MssqlStmt \<Rightarrow> driver_value list \<Rightarrow> bool" where
  "statement_ok s st args \<longleftrightarrow> stmt_paramCount st = int (length args) \<and>
     (args \<noteq> [] \<longrightarrow> list_all sendable args \<and> length args < 10 ^ 9 \<and> sendable (DString (stmt_query st)) \<and>
        length (decl_text args) < 2 ^ 31 \<and> verTDS73 \<le> ackTDSVersion (loginAck s))"

lemma sendQuery_batch:
  assumes "stmt_paramCount st = 0" and "ready n before (sess_buf s)"
  shows "\<exists>s' ws. sendQuery L st [] s = (Ret None, s') \<and>
    concat (outgoing (transport (sess_buf s'))) = before @ ws \<and>
    message n 1 ws (headers_bytes (tran_headers (tranid s)) @ str2ucs2 (stmt_query st))"
proof -
  have "sendSqlBatch72 (stmt_query st) (tran_headers (tranid s)) = request 1 (tran_headers (tranid s)) (put (str2ucs2 (stmt_query st)))"
    by (simp add: sendSqlBatch72_def request_def andthen_def)
  with request_message [OF assms(2) emits_put, of 1 "tran_headers (tranid s)" "str2ucs2 (stmt_query st)"] obtain b ws where
    "sendSqlBatch72 (stmt_query st) (tran_headers (tranid s)) (sess_buf s) = (Ret None, b)"
    "concat (outgoing (transport b)) = before @ ws"
    "message n 1 ws (headers_bytes (tran_headers (tranid s)) @ str2ucs2 (stmt_query st))" by auto
  moreover from this(1) have "\<exists>s'. sendQuery L st [] s = (Ret None, s') \<and> sess_buf s' = b"
    using assms(1) by (simp add: sendQuery_def Let_def seqG_apply bindG_apply log_if_def log_params_def on_buf_def)
  ultimately show ?thesis by blast
qed

text \<open>A statement without arguments is on the wire its text, with the transaction of the session.\<close>

definition batch_on_wire :: "nat \<Rightarrow> octet list \<Rightarrow> MssqlStmt \<Rightarrow> tdsSession \<Rightarrow> tdsSession \<Rightarrow> bool" where
  "batch_on_wire n before st s t \<longleftrightarrow> (\<exists>out. concat (outgoing (transport (sess_buf t))) = before @ out \<and>
     message n 1 out (headers_bytes (tran_headers (tranid s)) @ str2ucs2 (stmt_query st)))"

lemma sendQuery_ok:
  assumes "statement_ok s st args" and "ready n before (sess_buf s)"
  shows "\<exists>s'. sendQuery L st args s = (Ret None, s') \<and> (args = [] \<longrightarrow> batch_on_wire n before st s s')"
proof (cases "args = []")
  case True
  with assms sendQuery_batch [of st n before s L] show ?thesis by (auto simp: statement_ok_def batch_on_wire_def)
next
  case False
  with assms sendQuery_call [OF False _ _ _ _ _ _ assms(2), of st L] show ?thesis
    by (metis statement_ok_def)
qed

end
