(* ===== verification/StatementTheorems.thy ===== *)
theory StatementTheorems
  imports Outcomes StreamEnd TdsTheorems
begin

text \<open>
  The properties of the driver's statements, results and transactions against what the server
  answers, and of the responses themselves.
\<close>

section \<open>A session at rest\<close>

definition idle :: "octet list \<Rightarrow> tdsSession" where
  "idle ws = \<lparr>sess_buf = newTdsBuffer 512 (quiet ws),
     loginAck = \<lparr>Interface = 1, ackTDSVersion = verTDS73, ProgName = [], ProgVer = 0\<rparr>,
     database = [], tranid = 0, logFlags = 0, arrays = [], logged = []\<rparr>"

definition one_packet :: "octet list \<Rightarrow> octet list" where
  "one_packet bs = packet_header 4 1 0 (8 + length bs) @ bs"

lemma idle_ready [simp]: "ready 512 [] (sess_buf (idle ws))"
  by (simp add: ready_def idle_def newTdsBuffer_def quiet_def writeError_def)

lemma idle_simps [simp]: "incoming (transport (sess_buf (idle ws))) = ws" "tranid (idle ws) = 0"
  "ackTDSVersion (loginAck (idle ws)) = verTDS73" "length (buf (sess_buf (idle ws))) = 512"
  by (simp_all add: idle_def newTdsBuffer_def quiet_def)

lemma one_packet_message: "8 + length bs \<le> 512 \<Longrightarrow> message 512 4 (one_packet bs) bs"
  unfolding one_packet_def by (rule last_packet)

lemma ready_awaits:
  "ready n before (sess_buf s) \<Longrightarrow> prefix ws (incoming (transport (sess_buf s))) \<Longrightarrow> awaits n ws s"
  by (simp add: ready_def awaits_def)

section \<open>Exec\<close>

text \<open>C17: \<open>Exec\<close> gives what the server said.  For every statement that can be sent on a session at
  rest, and every complete response of parts that arrives in packets of any sizes, the result is the
  last count of rows, or the error that the server reported last before the part that ends the
  response; the session is afterwards in the transaction that the response left it in; and what
  went out is what \<open>sendQuery\<close> writes of the statement, which without arguments is one message with
  its text and the transaction of the session.  The parts are DONE, DONEPROC and DONEINPROC, return
  statuses, orders, errors and messages (with any number in their length field and any texts that
  their length fields can carry), begins and ends of transactions, changes of the database and of
  the settings that the driver skips, columns (with any user type, flags and collation) and rows
  (plain or with a bitmap of nulls) of integers of 1, 2, 4 and 8 bytes, bits and 8-byte floats,
  nullable or not, and Unicode texts.  Other types of columns, a change of the packet size, login
  acknowledgements and SSPI messages are not among them.\<close>

theorem exec_refines_reply:
  assumes "statement_ok s st args" and "ready n before (sess_buf s)"
    and "replies n ws ps" and "prefix ws (incoming (transport (sess_buf s)))"
  shows "\<exists>s1 t. Exec L st args s = (Ret (map_sum ServerErr sint (exec_outcome None 0 ps)), t) \<and>
    tranid t = tran_after (tranid s) ps \<and>
    sendQuery L st args s = (Ret None, s1) \<and>
    outgoing (transport (sess_buf t)) = outgoing (transport (sess_buf s1)) \<and>
    (args = [] \<longrightarrow> batch_on_wire n before st s t)"
proof -
  from sendQuery_ok [OF assms(1,2)] obtain s1 where
    s1: "sendQuery L st args s = (Ret None, s1)" "args = [] \<longrightarrow> batch_on_wire n before st s s1" by blast
  from Exec_reply [OF s1(1) assms(3) ready_awaits [OF assms(2,4)]] obtain t where
    t: "Exec L st args s = (Ret (map_sum ServerErr sint (exec_outcome None 0 ps)), t)" "tranid t = tran_after (tranid s) ps"
      "outgoing (transport (sess_buf t)) = outgoing (transport (sess_buf s1))" by blast
  with s1 show ?thesis by (intro exI [of _ s1] exI [of _ t] conjI) (simp_all only: batch_on_wire_def)
qed

text \<open>A statement counted, after a message of the server with the length of its fields.\<close>

definition counted :: "part list" where
  "counted = [PInfo 16 \<lparr>Number = 0, State = 1, Class = 10, Message = ''hi'', ErrServerName = [], ProcName = [], LineNo = 1\<rparr>,
     PDoneInProc \<lparr>Status = 0x11, CurCmd = 0xc4, RowCount = 3\<rparr>,
     PDone True \<lparr>Status = 0, CurCmd = 0, RowCount = 0\<rparr>]"

lemma counted_replies: "replies 512 (one_packet (response_bytes [] counted)) counted"
proof -
  have "ascii ''hi''" by code_simp
  then have hi: "length (str2ucs2 ''hi'') = 4" "length (str2ucs2 []) = 0" "utf8 ''hi''" "utf8 []"
    using ascii_length [of "''hi''"] ascii_length [of "[]"] by (simp_all add: ascii_utf8)
  have "length (response_bytes [] counted) \<le> 504"
    by (simp add: counted_def done_bytes_def error_bytes_def long_name_bytes_def name_bytes_def hi del: le_bytes.simps)
  then have "message 512 4 (one_packet (response_bytes [] counted)) (response_bytes [] counted)"
    by (intro one_packet_message) simp
  then show ?thesis
    by (simp add: replies_def) (simp add: counted_def ends_def done_flags error_ok_def name_ok_def hi)
qed

definition delete_seven :: MssqlStmt where
  "delete_seven = Prepare ''delete from t where id = ?''"

lemma delete_seven_count: "stmt_paramCount delete_seven = 1"
  by code_simp

lemma delete_seven_text: "ascii (stmt_query delete_seven)" "length (stmt_query delete_seven) = 28"
  by code_simp+

lemma delete_seven_ok: "statement_ok (idle ws) delete_seven [DInt 7]"
proof -
  have "length (decl_text [DInt 7]) = 10" by (simp add: decl_text_def param_name_def small_Itoa)
  moreover have "sendable (DString (stmt_query delete_seven))"
    using delete_seven_text by (simp add: ascii_utf8 ascii_length)
  ultimately show ?thesis by (simp add: statement_ok_def delete_seven_count del: sendable.simps(2))
qed

theorem exec_refines_reply_witness:
  "\<forall>L. \<exists>t. Exec L delete_seven [DInt 7] (idle (one_packet (response_bytes [] counted))) = (Ret (Inr 3), t) \<and> tranid t = 0"
proof
  fix L
  have "exec_outcome None 0 counted = Inr 3" "tran_after 0 counted = 0"
    by (simp_all add: counted_def done_flags)
  with exec_refines_reply [OF delete_seven_ok idle_ready counted_replies, of "one_packet (response_bytes [] counted)" L]
  show "\<exists>t. Exec L delete_seven [DInt 7] (idle (one_packet (response_bytes [] counted))) = (Ret (Inr 3), t) \<and> tranid t = 0"
    by auto
qed

section \<open>Query\<close>

text \<open>C19: \<open>Query\<close> and \<open>Next\<close> give what the server said.  Under the same conditions, with the same
  parts, \<open>Query\<close> returns the names of the first columns of the response, or the error before them;
  a caller that then calls \<open>Next\<close> until it fails gets every row of that result, in order and with
  its values, and then the end of the data, the error of the server that ended it, or the error
  for a second result; and what went out is what \<open>sendQuery\<close> writes of the statement.  The values
  are those of columns of integers of one byte (from 0 to 255), of two, four and eight bytes
  (signed), bits, 8-byte floats and Unicode texts, nullable or not, and nulls, in any number of
  columns with any user type, flags and collation, in plain rows and in rows with a bitmap of
  nulls.\<close>

theorem query_refines_reply:
  assumes "statement_ok s st args" and "ready n before (sess_buf s)"
    and "replies n ws ps" and "prefix ws (incoming (transport (sess_buf s)))"
  shows "\<exists>r s1 t. Query L st args s = (Ret r, t) \<and> tranid t = tran_after (tranid s) ps \<and>
    (case query_outcome None ps of
       Inl x \<Rightarrow> r = Inl (ServerErr x)
     | Inr (names, e, later) \<Rightarrow>
         (\<exists>rc. r = Inr rc \<and> cols rc = names \<and>
            fetch (length later + 1) (length names) rc = Some (row_outcome e later))) \<and>
    sendQuery L st args s = (Ret None, s1) \<and>
    outgoing (transport (sess_buf t)) = outgoing (transport (sess_buf s1)) \<and>
    (args = [] \<longrightarrow> batch_on_wire n before st s t)"
proof -
  from sendQuery_ok [OF assms(1,2)] obtain s1 where
    s1: "sendQuery L st args s = (Ret None, s1)" "args = [] \<longrightarrow> batch_on_wire n before st s s1" by blast
  from Query_reply [OF s1(1) assms(3) ready_awaits [OF assms(2,4)]] obtain r t where
    t: "Query L st args s = (Ret r, t)" "Query_spec ps r" "tranid t = tran_after (tranid s) ps"
      "outgoing (transport (sess_buf t)) = outgoing (transport (sess_buf s1))" by blast
  with s1 show ?thesis
    unfolding Query_spec_def by (intro exI [of _ r] exI [of _ s1] exI [of _ t] conjI) (simp_all only: batch_on_wire_def)
qed

text \<open>Two rows, one with a bitmap, of a negative number in an \<open>int\<close> column that is an identity, a
  nullable \<open>smallint\<close>, a text of the collation of a server, and a bit.\<close>

definition server_collation :: collation where
  "server_collation = \<lparr>lcidAndFlags = 0x00d00409, sortId = 52\<rparr>"

definition two_rows :: "part list" where
  "two_rows = [PColumns [ColDecl 0 0x10 ''id'' (IntCol False 4), ColDecl 0 9 ''n'' (IntCol True 2),
       ColDecl 7 9 ''nm'' (TextCol 20 server_collation), ColDecl 0 8 ''ok'' (BitCol False)],
     PRow False [DInt (- 1), DInt (- 2), DString ''ab'', DBool True],
     PRow True [DInt 2, DNil, DNil, DBool False],
     PDone False \<lparr>Status = 0x10, CurCmd = 0xc1, RowCount = 2\<rparr>]"

lemma two_rows_texts: "ascii ''id''" "ascii ''n''" "ascii ''nm''" "ascii ''ok''" "ascii ''ab''"
  by code_simp+

lemma two_rows_replies: "replies 512 (one_packet (response_bytes [] two_rows)) two_rows"
proof -
  note texts = two_rows_texts [THEN ascii_length] two_rows_texts [THEN ascii_utf8]
  have "length (response_bytes [] two_rows) \<le> 504"
    by (simp add: two_rows_def null_bitmap_def int_type_def server_collation_def name_bytes_def short_bytes_def collation_bytes_def done_bytes_def texts
        del: le_bytes.simps)
  then have "message 512 4 (one_packet (response_bytes [] two_rows)) (response_bytes [] two_rows)"
    by (intro one_packet_message) simp
  moreover have "parts_ok [] two_rows" by (simp add: two_rows_def name_ok_def texts int_fits_def)
  ultimately show ?thesis by (simp add: replies_def) (simp add: two_rows_def ends_def done_flags)
qed

theorem query_refines_reply_witness:
  "\<forall>L. \<exists>rc t. Query L delete_seven [DInt 7] (idle (one_packet (response_bytes [] two_rows))) = (Ret (Inr rc), t) \<and>
    cols rc = [''id'', ''n'', ''nm'', ''ok''] \<and>
    fetch 4 4 rc = Some ([[VInt (- 1), VInt (- 2), VString ''ab'', VBool True], [VInt 2, VNil, VNil, VBool False]], GoErr io_EOF)"
proof
  fix L
  have "query_outcome None two_rows = Inr ([''id'', ''n'', ''nm'', ''ok''], None, tl two_rows)" "length (tl two_rows) = 3"
    "row_outcome None (tl two_rows) = ([[VInt (- 1), VInt (- 2), VString ''ab'', VBool True], [VInt 2, VNil, VNil, VBool False]], GoErr io_EOF)"
    by (simp_all add: two_rows_def done_flags)
  with query_refines_reply [OF delete_seven_ok idle_ready two_rows_replies, of "one_packet (response_bytes [] two_rows)" L]
  show "\<exists>rc t. Query L delete_seven [DInt 7] (idle (one_packet (response_bytes [] two_rows))) = (Ret (Inr rc), t) \<and>
    cols rc = [''id'', ''n'', ''nm'', ''ok''] \<and>
    fetch 4 4 rc = Some ([[VInt (- 1), VInt (- 2), VString ''ab'', VBool True], [VInt 2, VNil, VNil, VBool False]], GoErr io_EOF)"
    by (auto simp: eval_nat_numeral simp del: fetch.simps)
qed

section \<open>The call on the wire\<close>

text \<open>C22: A statement with arguments is on the wire what the caller gave.  It is written as one
  message of a procedure call, and a server that reads the message gets the transaction of the
  session, the procedure \<open>sp_executesql\<close>, the text of the statement, the declarations of its
  parameters, and every argument under its name with its value: integers, floats, bits, texts,
  binary data, times (to 100 nanoseconds) and nulls.\<close>

theorem call_round_trip:
  assumes "args \<noteq> []" and "statement_ok s st args" and "ready n before (sess_buf s)"
  shows "\<exists>s' ws. sendQuery L st args s = (Ret None, s') \<and>
    concat (outgoing (transport (sess_buf s'))) = before @ ws \<and>
    (\<forall>u rest. incoming (transport (sess_buf u)) = ws @ rest \<longrightarrow> length (buf (sess_buf u)) = n \<longrightarrow>
      (\<exists>xs t. read_call dbcs (length args + 2) u = (Ret (3, tranid s, 10, xs), t) \<and>
        map (\<lambda>(n, x). (n, value_now (arrays t) x)) xs =
          ([], VString (stmt_query st)) # ([], VString (decl_text args)) # named_values 0 args))"
proof -
  have ok: "stmt_paramCount st = int (length args)" "list_all sendable args" "length args < 10 ^ 9"
    "sendable (DString (stmt_query st))" "length (decl_text args) < 2 ^ 31" "verTDS73 \<le> ackTDSVersion (loginAck s)"
    using assms(1,2) unfolding statement_ok_def by blast+
  show ?thesis by (rule sendQuery_call [OF assms(1) ok assms(3)])
qed

theorem call_round_trip_witness:
  "\<forall>L dbcs. \<exists>s' ws xs t. sendQuery L delete_seven [DInt 7] (idle []) = (Ret None, s') \<and>
    concat (outgoing (transport (sess_buf s'))) = ws \<and>
    read_call dbcs 3 (idle ws) = (Ret (3, 0, 10, xs), t) \<and>
    map (\<lambda>(n, x). (n, value_now (arrays t) x)) xs =
      [([], VString (stmt_query delete_seven)), ([], VString ''@p1 bigint''), (''@p1'', VInt 7)]"
proof (intro allI)
  fix L dbcs
  have names: "decl_text [DInt 7] = ''@p1 bigint''" "param_name 0 = ''@p1''"
    by (simp_all add: decl_text_def param_name_def small_Itoa)
  have ne: "[DInt 7] \<noteq> []" by simp
  from call_round_trip [OF ne delete_seven_ok [of "[]"] idle_ready, of L dbcs] obtain s' ws where
    w: "sendQuery L delete_seven [DInt 7] (idle []) = (Ret None, s')" "concat (outgoing (transport (sess_buf s'))) = [] @ ws"
    and read: "\<And>u rest. incoming (transport (sess_buf u)) = ws @ rest \<Longrightarrow> length (buf (sess_buf u)) = 512 \<Longrightarrow>
      \<exists>xs t. read_call dbcs (length [DInt 7] + 2) u = (Ret (3, tranid (idle []), 10, xs), t) \<and>
        map (\<lambda>(n, x). (n, value_now (arrays t) x)) xs =
          ([], VString (stmt_query delete_seven)) # ([], VString (decl_text [DInt 7])) # named_values 0 [DInt 7]" by blast
  have three: "length [DInt 7] + 2 = 3" by simp
  have "incoming (transport (sess_buf (idle ws))) = ws @ []" by simp
  from read [OF this idle_simps(4)] obtain xs t where r:
    "read_call dbcs 3 (idle ws) = (Ret (3, 0, 10, xs), t)"
    "map (\<lambda>(n, x). (n, value_now (arrays t) x)) xs =
      [([], VString (stmt_query delete_seven)), ([], VString ''@p1 bigint''), (''@p1'', VInt 7)]"
    unfolding three idle_simps names named_values.simps wire_value.simps by (elim exE conjE) (rule that)
  show "\<exists>s' ws xs t. sendQuery L delete_seven [DInt 7] (idle []) = (Ret None, s') \<and>
    concat (outgoing (transport (sess_buf s'))) = ws \<and>
    read_call dbcs 3 (idle ws) = (Ret (3, 0, 10, xs), t) \<and>
    map (\<lambda>(n, x). (n, value_now (arrays t) x)) xs =
      [([], VString (stmt_query delete_seven)), ([], VString ''@p1 bigint''), (''@p1'', VInt 7)]"
    using w r unfolding append_Nil by (intro exI conjI)
qed

section \<open>Transactions\<close>

text \<open>What a session has put on the wire: one message of the transaction manager.\<close>

definition asked :: "nat \<Rightarrow> octet list \<Rightarrow> octet list \<Rightarrow> tdsSession \<Rightarrow> bool" where
  "asked n before data t \<longleftrightarrow>
     (\<exists>out. concat (outgoing (transport (sess_buf t))) = before @ out \<and> message n 14 out data)"

lemma tran_asked:
  assumes "ready n before (sess_buf s)" and "replies n ws ps" and "prefix ws (incoming (transport (sess_buf s)))"
    and "m \<in> {(5, sendBeginXact (tran_headers i) 0 []), (7, sendCommitXact (tran_headers i) [] 0 0 []),
      (8, sendRollbackXact (tran_headers i) [] 0 0 [])}"
  shows "\<exists>s1 toks t. on_buf (snd m) s = (Ret None, s1) \<and> responseG L s1 = (Ret toks, t) \<and>
    first_error toks = map_option ServerErr (error_outcome None ps) \<and> tranid t = tran_after (tranid s) ps \<and>
    asked n before (request_data (fst m) i) t"
proof -
  note aw = ready_awaits [OF assms(1,3)]
  from tran_request_message [OF assms(1) aw assms(4)] obtain s1 out where
    s1: "on_buf (snd m) s = (Ret None, s1)" "concat (outgoing (transport (sess_buf s1))) = before @ out"
      "message n 14 out (request_data (fst m) i)" "sent_from s s1" by blast
  from tran_reply [OF s1(4) assms(2) aw, of L] s1(1-3) show ?thesis unfolding asked_def by metis
qed

text \<open>C24: \<open>Begin\<close>, \<open>Commit\<close> and \<open>Rollback\<close> follow the server.  After each of them there is on the
  wire one message of the transaction manager more, and nothing else: \<open>Begin\<close> asks for a transaction
  (request 5), with none in its header; \<open>Commit\<close> asks to commit (request 7) and \<open>Rollback\<close> to roll
  back (request 8) the transaction of the session, which is in their headers.  Each returns the
  error the server reported, or none; and the session is afterwards in the transaction that the
  server's changes of the environment name, which is none after an end of a transaction.\<close>

theorem transactions_refine_reply:
  assumes "ready n before (sess_buf s)" and "replies n ws ps" and "prefix ws (incoming (transport (sess_buf s)))"
  shows "(\<exists>t. Begin L s = (Ret (map_option ServerErr (error_outcome None ps)), t) \<and>
      tranid t = tran_after (tranid s) ps \<and> asked n before (request_data 5 0) t) \<and>
    (\<exists>t. Commit L s = (Ret (map_option ServerErr (error_outcome None ps)), t) \<and>
      tranid t = tran_after (tranid s) ps \<and> asked n before (request_data 7 (tranid s)) t) \<and>
    (\<exists>t. Rollback L s = (Ret (map_option ServerErr (error_outcome None ps)), t) \<and>
      tranid t = tran_after (tranid s) ps \<and> asked n before (request_data 8 (tranid s)) t)"
proof (intro conjI)
  note asked = tran_asked [OF assms, of _ _ L]
  show "\<exists>t. Begin L s = (Ret (map_option ServerErr (error_outcome None ps)), t) \<and>
      tranid t = tran_after (tranid s) ps \<and> asked n before (request_data 5 0) t"
    using asked [of "(5, sendBeginXact (tran_headers 0) 0 [])" 0]
    by (auto simp: Begin_def bindG_apply option.map_comp comp_def)
  show "\<exists>t. Commit L s = (Ret (map_option ServerErr (error_outcome None ps)), t) \<and>
      tranid t = tran_after (tranid s) ps \<and> asked n before (request_data 7 (tranid s)) t"
    using asked [of "(7, sendCommitXact (tran_headers (tranid s)) [] 0 0 [])" "tranid s"]
    by (auto simp: Commit_def bindG_apply)
  show "\<exists>t. Rollback L s = (Ret (map_option ServerErr (error_outcome None ps)), t) \<and>
      tranid t = tran_after (tranid s) ps \<and> asked n before (request_data 8 (tranid s)) t"
    using asked [of "(8, sendRollbackXact (tran_headers (tranid s)) [] 0 0 [])" "tranid s"]
    by (auto simp: Rollback_def bindG_apply)
qed

definition begun :: "part list" where
  "begun = [PBegin 9, PDone False \<lparr>Status = 0, CurCmd = 0, RowCount = 0\<rparr>]"

lemma begun_replies: "replies 512 (one_packet (response_bytes [] begun)) begun"
proof -
  have "length (response_bytes [] begun) = 27" by (simp add: begun_def done_bytes_def del: le_bytes.simps)
  then have "message 512 4 (one_packet (response_bytes [] begun)) (response_bytes [] begun)"
    by (intro one_packet_message) simp
  then show ?thesis by (simp add: replies_def) (simp add: begun_def ends_def done_flags)
qed

theorem transactions_refine_reply_witness:
  "\<forall>L. \<exists>t. Begin L (idle (one_packet (response_bytes [] begun))) = (Ret None, t) \<and> tranid t = 9 \<and>
    asked 512 [] (request_data 5 0) t"
proof
  fix L
  have "error_outcome None begun = None" "tran_after 0 begun = 9" by (simp_all add: begun_def done_flags)
  with transactions_refine_reply [OF idle_ready begun_replies, of "one_packet (response_bytes [] begun)" L]
  show "\<exists>t. Begin L (idle (one_packet (response_bytes [] begun))) = (Ret None, t) \<and> tranid t = 9 \<and>
    asked 512 [] (request_data 5 0) t" by simp
qed

section \<open>Every response ends\<close>

text \<open>C25: Whatever arrives, the reading of a response ends.  The loop over the tokens never runs
  out of its fuel, for a response cut off, garbled or made to mislead as for one in order: every
  token takes at least a byte of what the transport and the buffer hold, so that what is left is
  not more than before.  And an error is the last thing that is sent to the reader of the
  response: after it come no rows and no second error.\<close>

theorem response_ends:
  assumes "sane (sess_buf s)" and "processResponse T s = (toks, t)"
  shows "TokRuntime OutOfFuel \<notin> set toks \<and> to_read (sess_buf t) \<le> to_read (sess_buf s) \<and> sane (sess_buf t) \<and>
    (\<forall>xs k ys. toks = xs @ k # ys \<longrightarrow> is_error k \<longrightarrow> ys = [])"
proof -
  have "\<forall>xs k ys. toks = xs @ k # ys \<longrightarrow> is_error k \<longrightarrow> ys = []"
    using processResponse_error_last [of T s _ _ _ t] assms(2) by blast
  with processResponse_sane [OF assms] show ?thesis by blast
qed

theorem response_ends_witness:
  "\<forall>T bs. \<exists>toks t. processResponse T (idle (one_packet bs)) = (toks, t) \<and> TokRuntime OutOfFuel \<notin> set toks"
proof (intro allI)
  fix T bs
  obtain toks t where run: "processResponse T (idle (one_packet bs)) = (toks, t)" by fastforce
  have "sane (sess_buf (idle (one_packet bs)))" by (simp add: sane_def idle_def newTdsBuffer_def)
  from response_ends [OF this run] run
  show "\<exists>toks t. processResponse T (idle (one_packet bs)) = (toks, t) \<and> TokRuntime OutOfFuel \<notin> set toks" by blast
qed

end
