(* ===== verification/Ntlm.thy ===== *)
theory Ntlm
  imports Types Md4 GoStrings
begin

text \<open>
  The NTLM login of the builds that are not for Windows (\<open>ntlm.go\<close>).  The ciphers of the standard
  library, \<open>crypto/des\<close> and \<open>crypto/md5\<close>, are a parameter, and so are the tables of package
  unicode; what \<open>crypto/rand\<close> gives is an argument.
\<close>

record crypto =
  desEncrypt :: "octet list \<Rightarrow> octet list \<Rightarrow> octet list"
  md5Sum :: "octet list \<Rightarrow> octet list"
  cryptoUni :: unicode

record NTLMAuth =
  authDomain :: string
  authUserName :: string
  authPassword :: string
  authWorkstation :: string

definition getAuth :: "string \<Rightarrow> string \<Rightarrow> string \<Rightarrow> string \<Rightarrow> NTLMAuth option" where
  "getAuth user password service workstation =
     (if CHR 0x5C \<notin> set user then None
      else (let domain_user = SplitN2 (CHR 0x5C) user
            in Some \<lparr>authDomain = domain_user ! 0, authUserName = domain_user ! 1, authPassword = password,
                     authWorkstation = workstation\<rparr>))"

text \<open>A rune is no surrogate half, so that one above 16 bits is cut off.\<close>

definition utf16le_rune :: "nat \<Rightarrow> octet list" where
  "utf16le_rune r =
     (if 0xD800 \<le> r \<and> r < 0xE000 then [0xFD, 0xFF, 0xFD, 0xFF]
      else [of_nat r, of_nat (r div 256)])"

definition utf16le :: "string \<Rightarrow> octet list" where
  "utf16le val = concat (map utf16le_rune (runes val))"

section \<open>The first message\<close>

definition NEGOTIATE_FLAGS :: nat where
  "NEGOTIATE_FLAGS = 0x1 + 0x200 + 0x1000 + 0x2000 + 0x8000 + 0x80000"

definition ntlm_signature :: "octet list" where
  "ntlm_signature = octets ''NTLMSSP'' @ [0]"

text \<open>A length, twice, and an offset.\<close>

definition ntlm_field :: "nat \<Rightarrow> nat \<Rightarrow> octet list" where
  "ntlm_field len offset = le_bytes 2 len @ le_bytes 2 len @ le_bytes 4 offset"

definition InitialBytes :: "NTLMAuth \<Rightarrow> go_error + octet list" where
  "InitialBytes auth =
     (let domain_len = length (authDomain auth); workstation_len = length (authWorkstation auth)
      in Inr (ntlm_signature @ le_bytes 4 1 @ le_bytes 4 NEGOTIATE_FLAGS @
           ntlm_field domain_len 40 @ ntlm_field workstation_len (40 + domain_len) @
           le_bytes 4 0 @ le_bytes 4 0 @ octets (authDomain auth) @ octets (authWorkstation auth)))"

section \<open>The responses to a challenge\<close>

definition createDesKey :: "octet list \<Rightarrow> octet list" where
  "createDesKey b =
     [b ! 0,
      push_bit 7 (b ! 0) OR drop_bit 1 (b ! 1),
      push_bit 6 (b ! 1) OR drop_bit 2 (b ! 2),
      push_bit 5 (b ! 2) OR drop_bit 3 (b ! 3),
      push_bit 4 (b ! 3) OR drop_bit 4 (b ! 4),
      push_bit 3 (b ! 4) OR drop_bit 5 (b ! 5),
      push_bit 2 (b ! 5) OR drop_bit 6 (b ! 6),
      push_bit 1 (b ! 6)]"

definition odd_parity_byte :: "octet \<Rightarrow> octet" where
  "odd_parity_byte b =
     (if (drop_bit 7 b XOR drop_bit 6 b XOR drop_bit 5 b XOR drop_bit 4 b XOR drop_bit 3 b XOR drop_bit 2 b
          XOR drop_bit 1 b) AND 1 = 0
      then b OR 1 else b AND 0xfe)"

definition oddParity :: "octet list \<Rightarrow> octet list" where
  "oddParity bs = map odd_parity_byte bs"

definition encryptDes :: "crypto \<Rightarrow> octet list \<Rightarrow> octet list \<Rightarrow> octet list" where
  "encryptDes C key cleartext = desEncrypt C (createDesKey key) cleartext"

definition ntlm_response :: "crypto \<Rightarrow> octet list \<Rightarrow> octet list \<Rightarrow> octet list" where
  "ntlm_response C challenge hash =
     encryptDes C (take 7 hash) challenge @ encryptDes C (take 7 (drop 7 hash)) challenge @
     encryptDes C (drop 14 hash) challenge"

text \<open>An array of \<open>n\<close> bytes that a slice is copied to.\<close>

definition array_of :: "nat \<Rightarrow> octet list \<Rightarrow> octet list" where
  "array_of n bs = take n bs @ replicate (n - length bs) 0"

definition lmHash :: "crypto \<Rightarrow> string \<Rightarrow> octet list" where
  "lmHash C password =
     (let lmpass = array_of 14 (octets (ToUpper (cryptoUni C) password));
          magic = octets ''KGS!@#$%''
      in array_of 21 (encryptDes C (take 7 lmpass) magic @ encryptDes C (drop 7 lmpass) magic))"

definition lmResponse :: "crypto \<Rightarrow> octet list \<Rightarrow> string \<Rightarrow> octet list" where
  "lmResponse C challenge password = ntlm_response C challenge (lmHash C password)"

definition ntlmHash :: "string \<Rightarrow> octet list outcome" where
  "ntlmHash password = map_outcome (array_of 21) (md4_Sum (md4_Write (utf16le password) md4_New) [])"

definition ntResponse :: "crypto \<Rightarrow> octet list \<Rightarrow> string \<Rightarrow> octet list outcome" where
  "ntResponse C challenge password = map_outcome (ntlm_response C challenge) (ntlmHash password)"

definition clientChallenge :: "go_error + octet list \<Rightarrow> octet list outcome" where
  "clientChallenge rand = (case rand of Inl e \<Rightarrow> Panicked (PanicError (Some e)) | Inr nonce \<Rightarrow> Ret nonce)"

definition ntlmSessionResponse :: "crypto \<Rightarrow> octet list \<Rightarrow> octet list \<Rightarrow> string \<Rightarrow> octet list outcome" where
  "ntlmSessionResponse C clientNonce serverChallenge password =
     (let sessionHash = md5Sum C (serverChallenge @ clientNonce)
      in map_outcome (ntlm_response C (take 8 sessionHash)) (ntlmHash password))"

section \<open>The second message\<close>

definition errorNTLM :: go_error where
  "errorNTLM = OtherError ''NTLM protocol error''"

text \<open>The LM and the NT response; the random bytes are asked for with extended session security only.\<close>

definition challenge_responses ::
  "crypto \<Rightarrow> go_error + octet list \<Rightarrow> 32 word \<Rightarrow> octet list \<Rightarrow> string \<Rightarrow> (octet list \<times> octet list) outcome" where
  "challenge_responses C rand flags challenge password =
     (if flags AND 0x00080000 \<noteq> 0
      then bindO (clientChallenge rand) (\<lambda>nonce.
             map_outcome (Pair (array_of 24 nonce)) (ntlmSessionResponse C nonce challenge password))
      else map_outcome (Pair (lmResponse C challenge password)) (ntResponse C challenge password))"

text \<open>
  The message: its payload begins at byte 88.  The source writes the last of its zeros into the
  payload, which is then copied over them.
\<close>

definition authenticate_message ::
  "32 word \<Rightarrow> octet list \<Rightarrow> octet list \<Rightarrow> octet list \<Rightarrow> octet list \<Rightarrow> octet list \<Rightarrow> octet list" where
  "authenticate_message flags lm nt domain16 user16 workstation16 =
     (let at_nt = 88 + length lm; at_domain = at_nt + length nt; at_user = at_domain + length domain16;
          at_workstation = at_user + length user16; stop = at_workstation + length workstation16
      in ntlm_signature @ le_bytes 4 3 @
         ntlm_field (length lm) 88 @ ntlm_field (length nt) at_nt @ ntlm_field (length domain16) at_domain @
         ntlm_field (length user16) at_user @ ntlm_field (length workstation16) at_workstation @
         ntlm_field 0 stop @ le_bytes 4 (unat flags) @ replicate 24 0 @
         lm @ nt @ domain16 @ user16 @ workstation16)"

definition NextBytes ::
  "crypto \<Rightarrow> go_error + octet list \<Rightarrow> NTLMAuth \<Rightarrow> octet list \<Rightarrow> (go_error + octet list) outcome" where
  "NextBytes C rand auth b =
     (if length b < 8 then Panicked IndexOutOfRange
      else if take 8 b \<noteq> ntlm_signature then Ret (Inl errorNTLM)
      else if length b < 12 then Panicked IndexOutOfRange
      else if le_value (take 4 (drop 8 b)) \<noteq> 2 then Ret (Inl errorNTLM)
      else if length b < 32 then Panicked IndexOutOfRange
      else (let flags = of_nat (le_value (take 4 (drop 20 b)))
            in map_outcome (\<lambda>(lm, nt). Inr (authenticate_message flags lm nt (utf16le (authDomain auth))
                   (utf16le (authUserName auth)) (utf16le (authWorkstation auth))))
                 (challenge_responses C rand flags (take 8 (drop 24 b)) (authPassword auth))))"

end
