(* ===== verification/ValueTheorems.thy ===== *)
theory ValueTheorems
  imports Ntlm Md4Theorems ParamWire DriverTheorems TdsTheorems
begin

text \<open>
  The properties of the driver's values and of its NTLM login: the text of exact numbers, binary
  columns over several rows, and what an authenticate message says.
\<close>

section \<open>Exact numbers\<close>

definition money_bytes :: "int \<Rightarrow> octet list" where
  "money_bytes m = le_bytes 4 (nat (m div 2 ^ 32 mod 2 ^ 32)) @ le_bytes 4 (nat (m mod 2 ^ 32))"

lemma money_word:
  "(of_nat (nat (m mod 2 ^ 32)) OR push_bit 32 (of_nat (nat (m div 2 ^ 32 mod 2 ^ 32))) :: 64 word) = of_int m"
proof -
  have e: "m mod 2 ^ 32 = take_bit 32 m" "m div 2 ^ 32 = drop_bit 32 m"
    by (simp_all only: take_bit_eq_mod drop_bit_eq_div)
  show ?thesis unfolding e unfolding take_bit_eq_mod [symmetric]
    by (rule bit_word_eqI) (auto simp: bit_simps)
qed

lemma decodeMoney_denotes:
  assumes "m \<in> {- (2 ^ 63)..<2 ^ 63}"
  shows "\<exists>t. decodeMoney (money_bytes m) = Ret t \<and> denotes t m 4"
proof -
  have lt: "nat (m mod 2 ^ 32) < 256 ^ 4" "nat (m div 2 ^ 32 mod 2 ^ 32) < 256 ^ 4" by (simp_all add: nat_less_iff)
  have v: "le_value (take 4 (drop 4 (money_bytes m))) = nat (m mod 2 ^ 32)"
    "le_value (take 4 (money_bytes m)) = nat (m div 2 ^ 32 mod 2 ^ 32)"
    using lt by (simp_all add: money_bytes_def le_value_bytes del: le_bytes.simps)
  have "sint (of_int m :: 64 word) = m" using assms by (simp add: signed_of_int signed_take_bit_int_eq_self)
  then have "decodeMoney (money_bytes m) = scaleBytes (Itoa m) 4"
    by (simp only: decodeMoney_def v money_word Let_def) (simp add: money_bytes_def del: le_bytes.simps)
  with scaleBytes_denotes [of m 4] show ?thesis by simp
qed


text \<open>C40: Exact numbers are given as text without loss.  A decimal of up to 128 bits and any scale is
  returned as the decimal text of its value: a sign for a negative number, at least one digit
  before the point and as many as the scale says behind it; and an amount of money likewise with
  four digits.\<close>

theorem exact_numbers:
  assumes "length bs mod 4 = 0" and "length bs \<le> 16" and "m \<in> {- (2 ^ 63)..<2 ^ 63}"
  shows "(\<exists>t. decodeDecimal pr sc (sign # bs) = Ret t \<and>
      denotes t (if sign \<noteq> 0 then int (le_value bs) else - int (le_value bs)) (unat sc)) \<and>
    (\<exists>t. decodeMoney (money_bytes m) = Ret t \<and> denotes t m 4)"
  using decodeDecimal_denotes [OF assms(1,2)] decodeMoney_denotes [OF assms(3)] by blast

theorem exact_numbers_witness:
  "(\<exists>t. decodeDecimal 18 2 [0, 0x39, 0x30, 0, 0] = Ret t \<and> denotes t (- 12345) 2) \<and>
   (\<exists>t. decodeMoney (money_bytes (- 5)) = Ret t \<and> denotes t (- 5) 4)"
  using exact_numbers [of "[0x39, 0x30, 0, 0]" "- 5" 18 2 0] by simp

section \<open>Rows of a binary column\<close>

definition binary_column :: "nat \<Rightarrow> nat \<Rightarrow> columnStruct" where
  "binary_column n a = \<lparr>UserType = 0, Flags = 0, ColName = ''data'',
     ti = short_info typeBigVarBin n (Collation zero_typeInfo) a\<rparr>"

lemma binary_row:
  assumes "length b < 65535" and "length b \<le> length (arrays s ! a)"
  shows "parses s (short_bytes (Some b)) (parseRow dbcs [binary_column n a]) [VSlice a (length b)] (fill_array a b s)"
proof -
  let ?d = "short_info typeBigVarBin n (Collation zero_typeInfo) a"
  have "parses s (short_bytes (Some b)) (run_reader dbcs ?d) (VSlice a (length b)) (fill_array a b s)"
    by (rule parses_short) (use assms in \<open>simp_all add: short_info_def short_len_value_def type_lists Let_def\<close>)
  moreover have d: "ti (binary_column n a) = ?d" by (simp add: binary_column_def)
  ultimately have "parses s (short_bytes (Some b) @ [] @ []) (parseRow dbcs [binary_column n a]) [VSlice a (length b)] (fill_array a b s)"
    unfolding parseRow.simps d by (elim parses_bindG, intro parses_bindG [OF parses_ret] parses_ret)
  then show ?thesis by simp
qed

lemma overwritten:
  assumes "a < length (arrays s)" and "length b1 \<le> length (arrays s ! a)" and "length b2 \<le> length (arrays s ! a)"
  shows "value_now (arrays (fill_array a b2 (fill_array a b1 s))) (VSlice a (length b1)) =
    VBytes (take (length b1) (b2 @ drop (length b2) b1))"
  using assms by (auto simp: fill_array_def put_at_def)

text \<open>C20: The binary values of a row do not outlive the next row.  A \<open>varbinary\<close> value is returned as
  a slice of the array that belongs to its column, and the next row is read into the same array
  while the first one waits in the channel: after both rows have been taken off the wire, each
  with the right length, the value of the first row has the bytes of the second one, and behind
  them what is left of its own.\<close>

theorem binary_row_overwritten:
  assumes "a < length (arrays s)" and "length (arrays s ! a) = n" and "n < 65535"
    and "length b1 \<le> n" and "length b2 \<le> n"
  shows "\<exists>t. parses s (short_bytes (Some b1) @ short_bytes (Some b2))
      (bindG (parseRow dbcs [binary_column n a]) (\<lambda>r1.
        bindG (parseRow dbcs [binary_column n a]) (\<lambda>r2. ret (r1, r2))))
      ([VSlice a (length b1)], [VSlice a (length b2)]) t \<and>
    value_now (arrays t) (VSlice a (length b2)) = VBytes b2 \<and>
    value_now (arrays t) (VSlice a (length b1)) = VBytes (take (length b1) (b2 @ drop (length b2) b1))"
proof -
  let ?t = "fill_array a b2 (fill_array a b1 s)"
  have "length (arrays (fill_array a b1 s) ! a) = n" using assms(1,2,4) by (simp add: fill_array_def put_at_def)
  then have le: "length b2 \<le> length (arrays (fill_array a b1 s) ! a)" "length b2 < 65535" using assms(3,5) by simp_all
  have "parses s (short_bytes (Some b1) @ short_bytes (Some b2) @ [])
      (bindG (parseRow dbcs [binary_column n a]) (\<lambda>r1.
        bindG (parseRow dbcs [binary_column n a]) (\<lambda>r2. ret (r1, r2))))
      ([VSlice a (length b1)], [VSlice a (length b2)]) ?t"
    by (rule parses_bindG [OF binary_row], use assms in simp, use assms in simp,
        rule parses_bindG [OF binary_row [OF le(2,1)]], rule parses_ret)
  moreover have "value_now (arrays ?t) (VSlice a (length b2)) = VBytes b2"
    using assms by (simp add: fill_array_def put_at_def)
  ultimately show ?thesis using overwritten [of a s b1 b2] assms by (intro exI [of _ ?t]) simp
qed

definition with_array :: "nat \<Rightarrow> tdsSession" where
  "with_array n = \<lparr>sess_buf = newTdsBuffer 512 (quiet []),
     loginAck = \<lparr>Interface = 1, ackTDSVersion = verTDS73, ProgName = [], ProgVer = 0\<rparr>,
     database = [], tranid = 0, logFlags = 0, arrays = [replicate n 0], logged = []\<rparr>"

theorem binary_row_overwritten_witness:
  "\<forall>dbcs. \<exists>t. parses (with_array 4) (short_bytes (Some [1, 2, 3]) @ short_bytes (Some [7, 8]))
      (bindG (parseRow dbcs [binary_column 4 0]) (\<lambda>r1. bindG (parseRow dbcs [binary_column 4 0]) (\<lambda>r2. ret (r1, r2))))
      ([VSlice 0 3], [VSlice 0 2]) t \<and>
    value_now (arrays t) (VSlice 0 3) = VBytes [7, 8, 3]"
proof
  fix dbcs
  have a: "0 < length (arrays (with_array 4))" "length (arrays (with_array 4) ! 0) = 4" by (simp_all add: with_array_def)
  have n: "(4::nat) < 65535" "length [1::octet, 2, 3] \<le> 4" "length [7::octet, 8] \<le> 4" by simp_all
  from binary_row_overwritten [OF a n, of dbcs]
  show "\<exists>t. parses (with_array 4) (short_bytes (Some [1, 2, 3]) @ short_bytes (Some [7, 8]))
      (bindG (parseRow dbcs [binary_column 4 0]) (\<lambda>r1. bindG (parseRow dbcs [binary_column 4 0]) (\<lambda>r2. ret (r1, r2))))
      ([VSlice 0 3], [VSlice 0 2]) t \<and>
    value_now (arrays t) (VSlice 0 3) = VBytes [7, 8, 3]"
    by (simp add: numeral_2_eq_2 numeral_3_eq_3) blast
qed

section \<open>The NTLM messages\<close>

text \<open>A text of a message, by its length and its offset.\<close>

definition ntlm_text :: "octet list \<Rightarrow> nat \<Rightarrow> octet list" where
  "ntlm_text msg k = take (le_value (take 2 (drop k msg))) (drop (le_value (take 4 (drop (k + 4) msg))) msg)"

lemma ntlm_text_field:
  assumes "msg = pre @ ntlm_field n off @ post" and "length pre = k" and "n < 65536" and "off < 2 ^ 32"
    and "drop off msg = x @ y" and "length x = n"
  shows "ntlm_text msg k = x"
proof -
  have "take 2 (drop k msg) = le_bytes 2 n" "take 4 (drop (k + 4) msg) = le_bytes 4 off"
    using assms(1,2) by (simp_all add: ntlm_field_def del: le_bytes.simps)
  then have "le_value (take 2 (drop k msg)) = n" "le_value (take 4 (drop (k + 4) msg)) = off"
    using assms(3,4) by (simp_all add: le_value_bytes del: le_bytes.simps)
  with assms(5,6) show ?thesis by (simp add: ntlm_text_def)
qed

lemma length_ntlm_field [simp]: "length (ntlm_field n off) = 8"
  by (simp add: ntlm_field_def)

lemma length_ntlm_signature [simp]: "length ntlm_signature = 8"
  by (simp add: ntlm_signature_def)

lemma authenticate_fields:
  fixes lm nt d u ws :: "octet list" and flags :: "32 word"
  defines "msg \<equiv> authenticate_message flags lm nt d u ws"
  assumes "length lm < 65536" and "length nt < 65536" and "length d < 65536" and "length u < 65536" and "length ws < 65536"
  shows "take 12 msg = ntlm_signature @ le_bytes 4 3" and "take 4 (drop 60 msg) = le_bytes 4 (unat flags)"
    and "ntlm_text msg 12 = lm" and "ntlm_text msg 20 = nt" and "ntlm_text msg 28 = d"
    and "ntlm_text msg 36 = u" and "ntlm_text msg 44 = ws"
proof -
  let ?a = "ntlm_signature @ le_bytes 4 3"
  let ?o1 = "88 + length lm" let ?o2 = "?o1 + length nt" let ?o3 = "?o2 + length d" let ?o4 = "?o3 + length u"
  let ?f0 = "ntlm_field (length lm) 88" and ?f1 = "ntlm_field (length nt) ?o1" and ?f2 = "ntlm_field (length d) ?o2"
    and ?f3 = "ntlm_field (length u) ?o3" and ?f4 = "ntlm_field (length ws) ?o4"
  let ?z = "ntlm_field 0 (?o4 + length ws) @ le_bytes 4 (unat flags) @ replicate 24 0"
  have msg: "msg = ?a @ ?f0 @ ?f1 @ ?f2 @ ?f3 @ ?f4 @ ?z @ lm @ nt @ d @ u @ ws"
    by (simp add: msg_def authenticate_message_def Let_def del: le_bytes.simps)
  show "take 12 msg = ntlm_signature @ le_bytes 4 3" "take 4 (drop 60 msg) = le_bytes 4 (unat flags)"
    unfolding msg by (simp_all del: le_bytes.simps)
  have payload: "drop 88 msg = lm @ nt @ d @ u @ ws" unfolding msg by (simp del: le_bytes.simps)
  have at: "drop (88 + k) msg = drop k (lm @ nt @ d @ u @ ws)" for k
    using payload by (metis add.commute drop_drop)
  have d: "drop ?o1 msg = nt @ d @ u @ ws" "drop ?o2 msg = d @ u @ ws" "drop ?o3 msg = u @ ws" "drop ?o4 msg = ws @ []"
    using at [of "length lm"] at [of "length lm + length nt"] at [of "length lm + length nt + length d"]
      at [of "length lm + length nt + length d + length u"] by (simp_all add: add.assoc)
  show "ntlm_text msg 12 = lm"
    by (rule ntlm_text_field [of msg ?a "length lm" 88 "?f1 @ ?f2 @ ?f3 @ ?f4 @ ?z @ lm @ nt @ d @ u @ ws" _ _ "nt @ d @ u @ ws"])
       (use assms(2) payload msg in \<open>simp_all del: le_bytes.simps\<close>)
  show "ntlm_text msg 20 = nt"
    by (rule ntlm_text_field [of msg "?a @ ?f0" "length nt" ?o1 "?f2 @ ?f3 @ ?f4 @ ?z @ lm @ nt @ d @ u @ ws" _ _ "d @ u @ ws"])
       (use assms(2-) d msg in \<open>simp_all del: le_bytes.simps\<close>)
  show "ntlm_text msg 28 = d"
    by (rule ntlm_text_field [of msg "?a @ ?f0 @ ?f1" "length d" ?o2 "?f3 @ ?f4 @ ?z @ lm @ nt @ d @ u @ ws" _ _ "u @ ws"])
       (use assms(2-) d msg in \<open>simp_all del: le_bytes.simps\<close>)
  show "ntlm_text msg 36 = u"
    by (rule ntlm_text_field [of msg "?a @ ?f0 @ ?f1 @ ?f2" "length u" ?o3 "?f4 @ ?z @ lm @ nt @ d @ u @ ws" _ _ "ws"])
       (use assms(2-) d msg in \<open>simp_all del: le_bytes.simps\<close>)
  show "ntlm_text msg 44 = ws"
    by (rule ntlm_text_field [of msg "?a @ ?f0 @ ?f1 @ ?f2 @ ?f3" "length ws" ?o4 "?z @ lm @ nt @ d @ u @ ws" _ _ "[]"])
       (use assms(2-) d msg in \<open>simp_all del: le_bytes.simps\<close>)
qed

text \<open>The key that the responses are made with, from the RFC's MD4.\<close>

definition nt_key :: "string \<Rightarrow> octet list" where
  "nt_key password = rfc_md4 (utf16le password) @ replicate 5 0"

lemma length_rfc_md4: "length (rfc_md4 msg) = 16"
  by (simp add: rfc_md4_def Let_def split: prod.split del: le_bytes.simps)

lemma ntlmHash_key: "ntlmHash password = Ret (nt_key password)"
proof -
  have "md4_Sum (md4_Write (utf16le password) md4_New) [] = Ret (rfc_md4 (utf16le password))"
    using md4_Sum_digest [OF digesting_Write [OF digesting_New], of "utf16le password" "[]"] by simp
  then show ?thesis by (simp add: ntlmHash_def nt_key_def array_of_def length_rfc_md4)
qed

lemma length_ntlm_response: "(\<And>k t. length (desEncrypt C k t) = 8) \<Longrightarrow> length (ntlm_response C ch h) = 24"
  by (simp add: ntlm_response_def encryptDes_def)


text \<open>C28: The answer to an NTLM challenge says what it should.  For every challenge of the right form
  the message has the signature and the type of an authenticate message and the flags of the
  challenge, and its fields, by the lengths and offsets that it states, are the LM response, the
  NT response, and the domain, the user and the workstation in UTF-16; and the NT response is
  computed over the challenge with the RFC's MD4 of the password in UTF-16, with extended
  session security over the MD5 of both challenges, of which the client's is in the LM field.\<close>

theorem ntlm_authenticates:
  assumes "32 \<le> length b" and "take 8 b = ntlm_signature" and "le_value (take 4 (drop 8 b)) = 2"
    and "\<And>k t. length (desEncrypt C k t) = 8" and "length nonce = 8"
    and "length (utf16le (authDomain auth)) < 65536" and "length (utf16le (authUserName auth)) < 65536"
    and "length (utf16le (authWorkstation auth)) < 65536"
  shows "\<exists>msg lm nt. NextBytes C (Inr nonce) auth b = Ret (Inr msg) \<and>
    take 12 msg = ntlm_signature @ le_bytes 4 3 \<and> take 4 (drop 60 msg) = take 4 (drop 20 b) \<and>
    map (ntlm_text msg) [12, 20, 28, 36, 44] =
      [lm, nt, utf16le (authDomain auth), utf16le (authUserName auth), utf16le (authWorkstation auth)] \<and>
    (let challenge = take 8 (drop 24 b); key = nt_key (authPassword auth)
     in if (of_nat (le_value (take 4 (drop 20 b))) :: 32 word) AND 0x00080000 \<noteq> 0
        then lm = nonce @ replicate 16 0 \<and>
             nt = ntlm_response C (take 8 (md5Sum C (challenge @ nonce))) key
        else lm = lmResponse C challenge (authPassword auth) \<and> nt = ntlm_response C challenge key)"
proof -
  let ?flags = "of_nat (le_value (take 4 (drop 20 b))) :: 32 word"
  let ?ch = "take 8 (drop 24 b)" and ?key = "nt_key (authPassword auth)"
  let ?ext = "?flags AND 0x00080000 \<noteq> 0"
  let ?lm = "if ?ext then nonce @ replicate 16 0 else lmResponse C ?ch (authPassword auth)"
  let ?nt = "if ?ext then ntlm_response C (take 8 (md5Sum C (?ch @ nonce))) ?key else ntlm_response C ?ch ?key"
  let ?msg = "authenticate_message ?flags ?lm ?nt (utf16le (authDomain auth)) (utf16le (authUserName auth)) (utf16le (authWorkstation auth))"
  have len: "length ?lm < 65536" "length ?nt < 65536"
    using assms(5) length_ntlm_response [OF assms(4)] by (simp_all add: lmResponse_def)
  have "array_of 24 nonce = nonce @ replicate 16 0" using assms(5) by (simp add: array_of_def)
  then have "challenge_responses C (Inr nonce) ?flags ?ch (authPassword auth) = Ret (?lm, ?nt)"
    by (simp add: challenge_responses_def clientChallenge_def ntlmSessionResponse_def ntResponse_def ntlmHash_key Let_def)
  then have run: "NextBytes C (Inr nonce) auth b = Ret (Inr ?msg)"
    using assms(1-3) by (simp add: NextBytes_def Let_def)
  have "length (take 4 (drop 20 b)) = 4" using assms(1) by simp
  then have flags: "le_bytes 4 (unat ?flags) = take 4 (drop 20 b)"
    using le_value_less [of "take 4 (drop 20 b)"] le_bytes_value [of "take 4 (drop 20 b)"]
    by (simp add: unat_of_nat del: le_bytes.simps)
  note f = authenticate_fields [OF len assms(6-8), of ?flags]
  show ?thesis
    by (intro exI [of _ ?msg] exI [of _ ?lm] exI [of _ ?nt] conjI run f(1))
       (simp_all only: f flags list.map, simp_all add: Let_def)
qed

definition xor_crypto :: crypto where
  "xor_crypto = \<lparr>desEncrypt = (\<lambda>k t. take 8 (map (\<lambda>x. x XOR 0x55) k @ replicate 8 0)), md5Sum = (\<lambda>b. replicate 16 9),
     cryptoUni = ascii_tables\<rparr>"

definition challenge_message :: "octet list" where
  "challenge_message = ntlm_signature @ [2, 0, 0, 0] @ [0, 0, 0, 0, 32, 0, 0, 0] @ [1, 2, 8, 0] @ [1, 2, 3, 4, 5, 6, 7, 8]"

definition example_auth :: NTLMAuth where
  "example_auth = \<lparr>authDomain = ''D'', authUserName = ''u'', authPassword = ''pw'', authWorkstation = ''w''\<rparr>"

theorem ntlm_authenticates_witness:
  "\<exists>msg nt. NextBytes xor_crypto (Inr [8, 7, 6, 5, 4, 3, 2, 1]) example_auth challenge_message = Ret (Inr msg) \<and>
    map (ntlm_text msg) [12, 20, 28, 36, 44] =
      [[8, 7, 6, 5, 4, 3, 2, 1] @ replicate 16 0, nt, utf16le ''D'', utf16le ''u'', utf16le ''w'']"
proof -
  have b: "32 \<le> length challenge_message" "take 8 challenge_message = ntlm_signature"
    "le_value (take 4 (drop 8 challenge_message)) = 2" "le_value (take 4 (drop 20 challenge_message)) = 0x00080201"
    by (simp_all add: challenge_message_def)
  have d: "length (desEncrypt xor_crypto k t) = 8" for k t by (simp add: xor_crypto_def)
  have "byte (CHR ''D'') = 68" "byte (CHR ''u'') = 117" "byte (CHR ''w'') = 119" by (simp_all add: byte_def)
  then have "length (utf16le ''D'') = 2" "length (utf16le ''u'') = 2" "length (utf16le ''w'') = 2"
    by (simp_all add: utf16le_def utf16le_rune_def)
  then have l: "length (utf16le (authDomain example_auth)) < 65536" "length (utf16le (authUserName example_auth)) < 65536"
    "length (utf16le (authWorkstation example_auth)) < 65536" by (simp_all add: example_auth_def)
  have n: "length [8 :: octet, 7, 6, 5, 4, 3, 2, 1] = 8" by simp
  have ext: "(of_nat 0x00080201 :: 32 word) AND 0x00080000 \<noteq> 0" by simp
  have auth: "authDomain example_auth = ''D''" "authUserName example_auth = ''u''" "authWorkstation example_auth = ''w''"
    by (simp_all add: example_auth_def)
  from ntlm_authenticates [OF b(1-3) d n l] show ?thesis
    unfolding Let_def b(4) if_P [OF ext] auth by (elim exE conjE) (intro exI conjI, assumption, simp only:)
qed

end
