(* ===== verification/Connect.thy ===== *)
theory Connect
  imports Statements Ntlm
begin

text \<open>
  Opening a connection (\<open>connect\<close> of \<open>tds.go\<close>): the prelogin exchange, the choice of encryption,
  the login and the loop over its responses; and the connection that carries a TLS handshake
  in packets (\<open>net.go\<close>).
\<close>

section \<open>The handshake in packets\<close>

text \<open>
  A \<open>timeoutConn\<close> while its \<open>buf\<close> is set: what package \<open>crypto/tls\<close> writes goes into a prelogin
  packet, which is sent when the answer is asked for.
\<close>

record timeoutConn =
  tc_buf :: tdsBuffer
  packetPending :: bool
  continueRead :: bool

definition on_tc :: "(tdsBuffer, 'a) go \<Rightarrow> (timeoutConn, 'a) go" where
  "on_tc m = (\<lambda>c. case m (tc_buf c) of (r, b) \<Rightarrow> (r, c\<lparr>tc_buf := b\<rparr>))"

definition handshake_error :: "string \<Rightarrow> go_error \<Rightarrow> go_error" where
  "handshake_error what e = OtherError (what @ '': '' @ error_text e)"

text \<open>The read of at most \<open>n\<close> bytes, in its three parts.\<close>

definition send_pending :: "(timeoutConn, go_error option) go" where
  "send_pending = readG (\<lambda>c.
     if packetPending c
     then seqG (modifyG (\<lambda>c. c\<lparr>packetPending := False\<rparr>))
          (bindG (on_tc FinishPacket) (\<lambda>err. case err of
             Some e \<Rightarrow> ret (Some (handshake_error ''Cannot send handshake packet'' e))
           | None \<Rightarrow> seqG (modifyG (\<lambda>c. c\<lparr>continueRead := False\<rparr>)) (ret None)))
     else ret None)"

definition begin_answer :: "(timeoutConn, go_error option) go" where
  "begin_answer = readG (\<lambda>c.
     if continueRead c then ret None
     else bindG (on_tc BeginRead) (\<lambda>r. case r of
            Inl e \<Rightarrow> ret (Some (handshake_error ''Cannot read handshake packet'' e))
          | Inr packet \<Rightarrow>
              if packet \<noteq> 18
              then ret (Some (OtherError (''unexpected packet '' @ Itoa (uint packet) @ '', expecting prelogin'')))
              else seqG (modifyG (\<lambda>c. c\<lparr>continueRead := True\<rparr>)) (ret None)))"

definition timeoutConn_Read :: "nat \<Rightarrow> (timeoutConn, go_error + octet list) go" where
  "timeoutConn_Read n =
     bindG send_pending (\<lambda>err. case err of Some e \<Rightarrow> ret (Inl e) | None \<Rightarrow>
     bindG begin_answer (\<lambda>err. case err of Some e \<Rightarrow> ret (Inl e) | None \<Rightarrow>
       on_tc (buf_Read n)))"

definition timeoutConn_Write :: "octet list \<Rightarrow> (timeoutConn, nat \<times> go_error option) go" where
  "timeoutConn_Write b =
     seqG (readG (\<lambda>c. if packetPending c then ret ()
                      else seqG (on_tc (BeginPacket 18)) (modifyG (\<lambda>c. c\<lparr>packetPending := True\<rparr>))))
       (on_tc (Write b))"

section \<open>Logging in\<close>

text \<open>The block of the next message, from the round of the exchange and what the server sent.\<close>

type_synonym auth_next = "nat \<Rightarrow> octet list \<Rightarrow> (go_error + octet list) outcome"

text \<open>The loop over the tokens of a login response: the block to send, if the login succeeded, and
  the acknowledgement.\<close>

fun login_tokens ::
  "library \<Rightarrow> (octet list \<Rightarrow> (go_error + octet list) outcome) \<Rightarrow> token list \<Rightarrow>
   octet list option \<times> bool \<times> loginAckStruct \<Rightarrow> (go_error + octet list option \<times> bool \<times> loginAckStruct) outcome" where
  "login_tokens L next [] (sspi, success, ack) = Ret (Inr (sspi, success, ack))"
| "login_tokens L next (k # ks) (sspi, success, ack) =
     (case k of
        TokSSPI m \<Rightarrow>
          bindO (next m) (\<lambda>r. case r of
            Inl e \<Rightarrow> Ret (Inl e) | Inr b \<Rightarrow> login_tokens L next ks (Some b, success, ack))
      | TokLoginAck a \<Rightarrow> login_tokens L next ks (sspi, True, a)
      | _ \<Rightarrow> (case token_error k of
                Some e \<Rightarrow> Ret (Inl (OtherError (''Login error: '' @ driver_error_text L e)))
              | None \<Rightarrow> login_tokens L next ks (sspi, success, ack)))"

definition send_sspi :: "octet list \<Rightarrow> (tdsBuffer, go_error option) go" where
  "send_sspi m = seqG (BeginPacket 17) (andthen (put m) FinishPacket)"

text \<open>
  The rounds of the login.  Each reads the header of a packet, so that the bytes that are still
  to arrive are fuel enough.
\<close>

fun login_loop ::
  "library \<Rightarrow> auth_next \<Rightarrow> nat \<Rightarrow> nat \<Rightarrow> (tdsSession, go_error option) go" where
  "login_loop L next 0 i = go_panic OutOfFuel"
| "login_loop L next (Suc fuel) i =
     bindG (responseG L) (\<lambda>toks.
     readG (\<lambda>s. bindG (liftO (login_tokens L (next i) toks (None, False, loginAck s))) (\<lambda>r.
       case r of
         Inl e \<Rightarrow> ret (Some e)
       | Inr (sspi, success, ack) \<Rightarrow>
           seqG (modifyG (\<lambda>s. s\<lparr>loginAck := ack\<rparr>))
           (case sspi of
              Some m \<Rightarrow>
                bindG (on_buf (send_sspi m)) (\<lambda>err.
                  if err \<noteq> None then ret err else login_loop L next fuel (i + 1))
            | None \<Rightarrow> ret (if success then None else Some (OtherError ''Login failed''))))))"

section \<open>Connecting\<close>

text \<open>
  The network, package \<open>crypto/tls\<close> and the files, as \<open>connect\<close> uses them: the addresses of a
  host, the connection to an address, the contents of a file, and a TLS handshake over a packet
  buffer, which gives its error, the encrypted connection, and the buffer over the plain one.
\<close>

record dialer =
  dialTimeout :: int
  dialKeepAlive :: int

record tlsConfig =
  rootCAs :: "octet list option"
  insecureSkipVerify :: bool
  tlsServerName :: string

record network =
  lookupIP :: "string \<Rightarrow> go_error + string list"
  dial :: "dialer \<Rightarrow> string \<Rightarrow> go_error + transport"
  readFile :: "string \<Rightarrow> go_error + octet list"
  handshake :: "tlsConfig \<Rightarrow> tdsBuffer \<Rightarrow> go_error option \<times> transport \<times> tdsBuffer"
  slack :: "octet list"
  netCrypto :: crypto
  randBytes :: "nat \<Rightarrow> go_error + octet list"

definition createDialer :: "connectParams \<Rightarrow> dialer" where
  "createDialer p = \<lparr>dialTimeout = cp_dial_timeout p, dialKeepAlive = cp_keepAlive p\<rparr>"

fun dial_any :: "network \<Rightarrow> connectParams \<Rightarrow> string list \<Rightarrow> go_error option \<Rightarrow> go_error option + transport" where
  "dial_any N p [] err = Inl err"
| "dial_any N p (ip # ips) err =
     (case dial N (createDialer p) (ip @ '':'' @ Itoa (int (cp_port p))) of
        Inl e \<Rightarrow> dial_any N p ips (Some e)
      | Inr t \<Rightarrow> Inr t)"

definition open_transport :: "network \<Rightarrow> connectParams \<Rightarrow> go_error + transport" where
  "open_transport N p =
     bindE (lookupIP N (cp_host p)) (\<lambda>ips.
       (let addr = CHR 0x27 # cp_host p @ '':'' @ Itoa (int (cp_port p)) @ [CHR 0x27];
            failed = ''Unable to open tcp connection with host '' @ addr
        in case dial_any N p ips None of
             Inl (Some e) \<Rightarrow> Inl (OtherError (failed @ '': '' @ error_text e))
           | Inl None \<Rightarrow> Inl (OtherError failed)
           | Inr t \<Rightarrow> Inr t))"

abbreviation encryptOff :: octet where "encryptOff \<equiv> 0"
abbreviation encryptOn :: octet where "encryptOn \<equiv> 1"
abbreviation encryptNotSup :: octet where "encryptNotSup \<equiv> 2"

definition prelogin_fields :: "connectParams \<Rightarrow> prelogin" where
  "prelogin_fields p =
     [(0, [0, 0, 0, 0, 0, 0]),
      (1, [if cp_disableEncryption p then encryptNotSup else if cp_encrypt p then encryptOn else encryptOff]),
      (2, octets (cp_instance p) @ [0]), (3, [0, 0, 0, 0]), (4, [0])]"

text \<open>The encryption after the answer of the server.\<close>

definition negotiated :: "connectParams \<Rightarrow> prelogin \<Rightarrow> (go_error + octet) outcome" where
  "negotiated p answer =
     (case map_of answer 1 of
        None \<Rightarrow> Ret (Inl (OtherError ''Encrypt negotiation failed''))
      | Some [] \<Rightarrow> Panicked IndexOutOfRange
      | Some (encrypt # _) \<Rightarrow>
          if cp_encrypt p \<and> (encrypt = encryptNotSup \<or> encrypt = encryptOff)
          then Ret (Inl (OtherError ''Server does not support encryption''))
          else Ret (Inr encrypt))"

definition tls_config :: "network \<Rightarrow> connectParams \<Rightarrow> go_error + tlsConfig" where
  "tls_config N p =
     bindE (if cp_certificate p \<noteq> []
            then (case readFile N (cp_certificate p) of
                    Inl e \<Rightarrow> Inl (OtherError (''Cannot read certificate '' @ CHR 0x27 # cp_certificate p @
                               [CHR 0x27] @ '': '' @ error_text e))
                  | Inr pem \<Rightarrow> Inr (Some pem))
            else Inr None) (\<lambda>roots.
       Inr \<lparr>rootCAs = roots, insecureSkipVerify = cp_trustServerCertificate p,
            tlsServerName = cp_hostInCertificate p\<rparr>)"

text \<open>Only the login packet is encrypted where the answer was \<open>encryptOff\<close>.\<close>

definition start_tls :: "network \<Rightarrow> connectParams \<Rightarrow> octet \<Rightarrow> (tdsBuffer, go_error option) go" where
  "start_tls N p encrypt =
     (if encrypt = encryptNotSup then ret None
      else (case tls_config N p of
              Inl e \<Rightarrow> ret (Some e)
            | Inr config \<Rightarrow> (\<lambda>b.
                (case handshake N config b of (err, tlsConn, u) \<Rightarrow>
                   (let v = u\<lparr>transport := tlsConn\<rparr>
                    in case err of
                         Some e \<Rightarrow> (Ret (Some (OtherError (''TLS Handshake failed: '' @ error_text e))), v)
                       | None \<Rightarrow> (Ret None,
                           if encrypt = encryptOff then v\<lparr>afterFirst := Some (transport u)\<rparr> else v))))))"

definition make_login :: "connectParams \<Rightarrow> nat \<Rightarrow> NTLMAuth option \<Rightarrow> go_error + login" where
  "make_login p packetsize auth =
     (let l = \<lparr>TDSVersion = 0x74000004, PacketSize = of_nat packetsize, ClientProgVer = 0, ClientPID = 0,
               ConnectionID = 0, OptionFlags1 = 0, OptionFlags2 = 2, TypeFlags = 0, OptionFlags3 = 0,
               ClientTimeZone = 0, ClientLCID = 0, HostName = cp_workstation p, UserName = [], Password = [],
               AppName = cp_appname p, ServerName = cp_host p, CtlIntName = [], Language = [],
               Database = cp_database p, ClientID = replicate 6 0, SSPI = [], AtchDBFile = [],
               ChangePassword = []\<rparr>
      in case auth of
           None \<Rightarrow> Inr (l\<lparr>UserName := cp_user p, Password := cp_password p\<rparr>)
         | Some a \<Rightarrow> bindE (InitialBytes a) (\<lambda>b. Inr (l\<lparr>SSPI := b, OptionFlags2 := 2 OR 0x80\<rparr>)))"

text \<open>Without a domain in the name of the user there is nothing that answers a challenge.\<close>

definition auth_answer :: "network \<Rightarrow> NTLMAuth option \<Rightarrow> auth_next" where
  "auth_answer N auth i m =
     (case auth of
        None \<Rightarrow> Panicked NilPointerDereference
      | Some a \<Rightarrow> NextBytes (netCrypto N) (randBytes N i) a m)"

text \<open>Steps that are given up at an error.\<close>

definition tryG :: "('s, go_error option) go \<Rightarrow> ('s, go_error option) go \<Rightarrow> ('s, go_error option) go" where
  "tryG m k = bindG m (\<lambda>err. if err \<noteq> None then ret err else k)"

definition negotiate :: "network \<Rightarrow> connectParams \<Rightarrow> (tdsBuffer, go_error option) go" where
  "negotiate N p =
     bindG (readPrelogin (slack N)) (\<lambda>r. case r of
       Inl e \<Rightarrow> ret (Some e)
     | Inr answer \<Rightarrow> (\<lambda>b. case negotiated p answer of
           Panicked v \<Rightarrow> (Panicked v, b)
         | Ret (Inl e) \<Rightarrow> (Ret (Some e), b)
         | Ret (Inr encrypt) \<Rightarrow> start_tls N p encrypt b))"

definition login_session :: "library \<Rightarrow> network \<Rightarrow> connectParams \<Rightarrow> (tdsSession, go_error option) go" where
  "login_session L N p =
     tryG (on_buf (writePrelogin (prelogin_fields p)))
     (tryG (on_buf (negotiate N p))
       (let auth = getAuth (cp_user p) (cp_password p) (cp_serverSPN p) (cp_workstation p)
        in readG (\<lambda>s. case make_login p (length (buf (sess_buf s))) auth of
             Inl e \<Rightarrow> ret (Some e)
           | Inr l \<Rightarrow> tryG (on_buf (sendLogin l))
               (readG (\<lambda>s. login_loop L (auth_answer N auth) (length (incoming (transport (sess_buf s))) + 1) 0)))))"

definition fresh_session :: "connectParams \<Rightarrow> transport \<Rightarrow> tdsSession" where
  "fresh_session p t =
     \<lparr>sess_buf = newTdsBuffer 4096 t,
      loginAck = \<lparr>Interface = 0, ackTDSVersion = 0, ProgName = [], ProgVer = 0\<rparr>, database = [], tranid = 0,
      logFlags = of_nat (cp_logFlags p), arrays = [], logged = []\<rparr>"

definition connect ::
  "library \<Rightarrow> network \<Rightarrow> 'w driver_env \<Rightarrow> text_map \<Rightarrow> 'w \<Rightarrow> (go_error + tdsSession) outcome" where
  "connect L N D params st =
     (case bindE (parseConnectParams D params st) (\<lambda>p. bindE (open_transport N p) (\<lambda>t. Inr (p, t))) of
        Inl e \<Rightarrow> Ret (Inl e)
      | Inr (p, t) \<Rightarrow>
          (case login_session L N p (fresh_session p t) of
             (Panicked v, s) \<Rightarrow> Panicked v
           | (Ret (Some e), s) \<Rightarrow> Ret (Inl e)
           | (Ret None, s) \<Rightarrow> Ret (Inr s)))"

definition MssqlDriver_Open ::
  "library \<Rightarrow> network \<Rightarrow> 'w driver_env \<Rightarrow> string \<Rightarrow> 'w \<Rightarrow> (go_error + tdsSession) outcome" where
  "MssqlDriver_Open L N D dsn st = connect L N D (parseConnectionString (uni D) dsn) st"

end
