(* ===== verification/Spec2Isabelle.thy ===== *)
theory Spec2Isabelle
  imports BrokerTheorems ApiTheorems ProvisionerTheorems MainTheorems DriverTheorems RequestTheorems WinTheorems
    Md4Theorems ContextTheorems StatementTheorems ValueTheorems Connect
begin

text \<open>
  The Cloud Foundry service broker for Microsoft SQL Server (cf-mssql-broker), its model and
  the properties proved of it.

  The program.  \<open>main.go\<close> loads a JSON configuration (\<open>config/config.go\<close>), adds a writer sink
  to the lager logger, opens the SQL server through the provisioner
  (\<open>provisioner/provisioner.go\<close>) and listens for HTTP requests.  A request goes through
  \<open>http.DefaultServeMux\<close> inside a wrapper that lets a handler's panic end the process, then
  through the vendored brokerapi package: basic authentication, a gorilla/mux router with five
  routes, and one handler per route, which calls the broker (\<open>mssql_service_broker.go\<close>).  An
  instance of the service is a contained database, a binding is a user of that database with
  the \<open>db_owner\<close> role and a random password; the broker itself keeps no state.  The statements
  reach the server through the vendored go-mssqldb driver, which parses the connection string,
  logs in and exchanges packets of the TDS protocol.  On Windows the program is a service: a
  control loop around the broker.

  The model.  Code is a function from a process state to an outcome (a value or a panic) and a
  new state: theory \<open>Prelude\<close> has this type \<open>go\<close> with its \<open>bindG\<close>, \<open>seqG\<close> and \<open>ret\<close>, the
  errors and the panics.  The process (\<open>Lager.proc\<close>) has the logger, the bytes written to the
  log and the world outside.  Theory \<open>World\<close> makes everything outside a parameter (record
  \<open>env\<close>): the clock, the random source, the files, the environment variables, the listener,
  and the SQL server behind \<open>database/sql\<close>.  A theorem therefore holds for every behaviour of
  the outside, except where it names a hypothesis on it.

  Theories of the code, in the order of the calls:
  \<^item> \<open>GoFmt\<close>, \<open>Json\<close>, \<open>JsonParse\<close>, \<open>Base64\<close>: the parts of the Go library the sources use
    (\<open>Sprintf\<close> with argument indexes and its report of unused operands, \<open>Itoa\<close> and \<open>Atoi\<close>, the
    JSON encoder and scanner, the URL alphabet), with their round trips.
  \<^item> \<open>Lager\<close>: the logger of lager (\<open>logger.go\<close>, \<open>models.go\<close>, \<open>writer_sink.go\<close>).
  \<^item> \<open>SqlClient\<close>, \<open>Provisioner\<close>: \<open>database/sql\<close> as far as it is used, and the provisioner.
    The provisioner's logger is the one of package main it is created with.
  \<^item> \<open>Catalog\<close>, \<open>Credentials\<close>, \<open>Unmarshal\<close>, \<open>ConfigFile\<close>: the structs with JSON tags, their
    encoding and decoding, \<open>ParseJson\<close> and \<open>LoadFromFile\<close>.
  \<^item> \<open>Broker\<close>: the password generator and the five operations of the broker.
  \<^item> \<open>Mux\<close>, \<open>BrokerApi\<close>: path cleaning, route templates and dispatch; handlers, routes and
    authentication.  Routes are registered with the path and the method only, so a template is
    compiled with the flags for hosts, queries, prefixes and strict slashes off, and with the
    default pattern for its variables.
  \<^item> \<open>MainProg\<close>: log level, listening address, \<open>runMain\<close> and the serving of one request.

  \<^item> \<open>Contexts\<close>, \<open>MuxServing\<close>: the store of request contexts (gorilla/context) and how the
    router serves a request with it, alone and among others, as a step relation.
  \<^item> \<open>WinService\<close>, \<open>WinMain\<close>: \<open>Execute\<close> of \<open>main_windows.go\<close> as program points, the service loop of
    \<open>svc/service.go\<close> as a step relation with it, and the entry points of both systems.
  \<^item> \<open>Utf8\<close>, \<open>CodePages\<close>, \<open>Charset\<close>: runes, the code page tables of the driver, and the
    decoding of text by its collation.  \<open>SqlParams\<close>, \<open>GoStrings\<close>, \<open>ConnParams\<close>: the driver's
    scanner for parameters of a statement (\<open>parser.go\<close>), and its reading of connection strings
    (\<open>mssql.go\<close>, \<open>tds.go\<close>).
  \<^item> \<open>Bytes\<close>, \<open>TdsBuffer\<close>, \<open>PacketFraming\<close>, \<open>Ucs2\<close>, \<open>Tds\<close>, \<open>Requests\<close>: the packet buffer (\<open>buf.go\<close>) over
    a transport, UCS-2 text, and the prelogin, login and batch requests (\<open>tds.go\<close>); what the
    bytes of each mean.  \<open>Md4\<close>: the hash of the driver's NTLM package, with RFC 1320 beside it.
  \<^item> \<open>Decimal\<close>, \<open>GoTime\<close>, \<open>Types\<close>, \<open>TypeReaders\<close>, \<open>TypeWriters\<close>: exact numbers (\<open>decimal.go\<close>), times, type
    informations, and the readers and writers of values (\<open>types.go\<close>, \<open>collation.go\<close>), the parameters
    of a statement (\<open>makeParam\<close> of \<open>mssql.go\<close>) and the call of a procedure (\<open>rpc.go\<close>).  The state is
    the session with the packet buffer and the arrays that its columns read into, so that a value
    that is a slice of such an array changes with it.
  \<^item> \<open>Tokens\<close>, \<open>Response\<close>: the parsers of the tokens of a response and the loop over them, with the
    panics that its \<open>recover\<close> sends on (\<open>token.go\<close>, \<open>error.go\<close>); the channel is the list of what
    is sent.  \<open>Statements\<close>: statements, results, rows and transactions (\<open>mssql.go\<close>, \<open>tran.go\<close>).
  \<^item> \<open>Ntlm\<close>, \<open>Connect\<close>: the NTLM messages (\<open>ntlm.go\<close>), the handshake in packets (\<open>net.go\<close>), and
    \<open>connect\<close> with the choice of encryption and the login loop (\<open>tds.go\<close>).
  \<^item> \<open>Wire\<close>, \<open>TimeWire\<close>, \<open>ParamWire\<close>, \<open>CallWire\<close>, \<open>PartWire\<close>, \<open>Replies\<close>, \<open>WriteOnly\<close>, \<open>Outcomes\<close>, \<open>StreamEnd\<close>:
    what of this is on the wire.  \<open>emits\<close>, \<open>takes\<close> and \<open>parses\<close> relate code to the bytes it writes
    or takes; on them stand a reader of a call (\<open>read_call\<close>), the parts of which a server makes a
    response with their bytes (\<open>part\<close>, \<open>response_bytes\<close>) and with what they mean for each result
    (\<open>exec_outcome\<close>, \<open>query_outcome\<close>, \<open>row_outcome\<close>, \<open>error_outcome\<close>, \<open>tran_after\<close>), and the measure
    with which every response ends (\<open>to_read\<close>).

  Interfaces.  \<open>SqlServer\<close> states as locales what the code relies on of the server:
  \<open>sql_server\<close> (a statement either fails and changes nothing or has its effect; a transaction
  is seen whole or not at all), and \<open>reliable_sql_server\<close> (a statement that is right succeeds).
  \<open>ProvisionerSpec\<close> states the contract of the provisioner as \<open>provisioner_contract\<close> and
  \<open>provisioner_progress\<close> and interprets both on the model of the provisioner over any such
  server.  \<open>ClientSpec\<close> proves the flows of the broker's operations inside
  \<open>provisioner_client\<close> and \<open>live_client\<close>, again interpreted on the provisioner.
  \<open>RefServer\<close> is an executable SQL server that parses the statements it is sent; its
  interpretation shows that the hypotheses on the server can be met, and the witnesses run on it.
  \<open>SqlTokens\<close> has the lexer of such a server: words, bracketed names, quoted texts and marks.

  Theorems.
  \<^item> \<open>BrokerSpec\<close>, \<open>BrokerTheorems\<close> (C1 to C8): the abstract broker is a map from instances to
    sets of bindings; calls refine it on a reliable server, and with faults and restarts every
    call has its whole effect or none; bindings, their revocation, isolation of instances,
    password policy and entropy, and what a client reads from a connection string.
  \<^item> \<open>ApiSpec\<close>, \<open>ApiTheorems\<close> (C9 to C13): the same contract for requests and statuses, fail
    fast, requests without the credentials that change nothing for those with them, the
    credentials on the wire, and the exact responses to calls that fail.
  \<^item> \<open>ProvisionerTheorems\<close> (C14 to C16, C18): the exact statements sent, atomicity of the creation
    of a user, statements that the server's lexer reads as they are meant; and opening the client, truncated statements, silence of the
    log.
  \<^item> \<open>MainTheorems\<close> (C21, C23): the round trip of the configuration, what the broker has
    done and where it listens when it starts to serve; log levels, and two crashes on configurations.

  \<^item> \<open>DriverTheorems\<close> (C26, C27, C29): the driver leaves the broker's statements as they are, reads
    the connection string back, drops two parameters, and decodes text to valid UTF-8.
  \<^item> \<open>TdsTheorems\<close>, \<open>RequestTheorems\<close> (C30 to C33): packets and prelogin records are read back as
    written, when writing ends, and the layout of the login record.
  \<^item> \<open>StatementTheorems\<close> (C17, C19, C22, C24, C25): \<open>Exec\<close>, \<open>Query\<close> with \<open>Next\<close>, and the transactions give
    what the parts of the response mean, a call is read back as it was made, and every response
    ends.  \<open>ValueTheorems\<close> (C20, C28, C40): binary values that the next row overwrites, the NTLM
    answer by its own lengths and offsets with RFC 1320 for the password, and the text of exact
    numbers.
  \<^item> \<open>WinTheorems\<close> (C34, C35): what the service reports, and that it stops.
  \<^item> \<open>Md4Proof\<close>, \<open>Md4Theorems\<close> (C36): the incremental MD4 is that of RFC 1320.
  \<^item> \<open>ContextTheorems\<close> (C37 to C39): contexts refine an abstract store (locale
    \<open>request_store\<close>), concurrent handlers see their own request, and nothing is left of it.

  Bounds.  Names have to be plain (1 to 128 bytes, no closing bracket, no quote, and not the
  marker that \<open>Sprintf\<close> puts in front of unused operands) for the statements to mean what they
  say; \<open>marker_truncates_statement\<close> shows what an operand with the marker does.  A connection
  string is read back (C8) where no part has a semicolon and the host no comma; those that the
  driver reads back (C27) have names in lower case without an equals sign and values without a
  semicolon.  The requests of C9, C10, C12 and C13 are those of \<open>call_request\<close>: the method and path of
  each of the four calls, with the credentials and, for a bind, an empty body; malformed bodies and
  the catalog are in \<open>BrokerApi\<close> and not in these claims.  The laws of \<open>sql_server\<close> compare names
  byte by byte, as a server with a binary collation does.  \<open>json_decode\<close> runs the JSON parser
  with twice the length of the text and two as its fuel, and \<open>parse_fuel\<close> of \<open>JsonParse\<close>
  shows that more fuel gives no other result.  The port is a 64-bit integer when it is decoded.
  The loop of the driver's \<open>Write\<close> has as fuel the number of bytes to write, of the results of writes
  that the transport still has listed, and a few more (\<open>write_fuel\<close>), which C31 shows to be enough
  whenever the loop ends, also by a write that fails late; \<open>ReadAll\<close> has the number of unread bytes and two.  The loop over the tokens
  has 65536 for each byte to arrive and 65537 for the packet in the buffer, because a read position
  that runs past the end of an empty packet goes once around its 16 bits; C25 shows that it is
  never used up, nor are the loops over the changes of a token and the chunks of a value inside
  it.  The login loop has one round for each byte to arrive.  C17, C19 and C24 are for responses
  of the parts of \<open>PartWire\<close>: DONE, DONEPROC, DONEINPROC, return statuses, orders, errors and messages
  (with any number in their length field), begins and ends of transactions, changes of the database
  and of settings that the driver skips, columns with any user type, flags and collation, and rows
  plain or with a bitmap of nulls; of integers of 1, 2, 4 and 8 bytes, bits and 8-byte floats, nullable
  or not, and Unicode texts of up to 65534 bytes.  Other types, packet-size changes, login
  acknowledgements and SSPI messages are not among these parts;
  C22 for arguments whose texts and binary values are shorter than 2^32 bytes and for a server of
  TDS 7.3 or later.

  Parameters, beside the environment: the tables of the double-byte code pages and of package
  unicode (\<open>tables\<close>), the transport of the packets (the bytes that arrive, and the results of its
  writes: a list, and one result for all later writes), what package net says of errors and the texts of
  run-time errors (\<open>library\<close>), name lookup, dialling, files and the TLS handshake (\<open>network\<close>), DES
  and MD5 (\<open>crypto\<close>), the answers of Windows, and the clock of the request contexts.

  Not modelled: flag parsing (the file name is an argument of \<open>runMain\<close>), \<open>database/sql\<close> beyond
  one connection per handle, timing, overlapping requests except in \<open>MuxServing\<close>, the text of
  JSON syntax errors (a parameter), the parts of lager, mux and brokerapi the broker does not
  call, the system calls of Windows and the SSPI login on them, the odbc driver, and of go-mssqldb
  what is called by no one (the conversions of decimals to floats, the names of the flags), the
  deadlines of its connection, and the overlap of a response with its reader beyond the aliasing
  of C20: the tokens of a response are given as a list.
\<close>

end
